(* ===== verification/Prelude.thy ===== *)
theory Prelude
  imports Main "HOL-Library.Word" "HOL-Library.Code_Target_Nat"
begin

text \<open>
  Shared vocabulary of the development: the machine integer types of the C++ sources, the
  signed 64-bit wrap-around and C++'s truncating division, ASCII character classes, decimal
  numerals as byte strings, and the parts of the C++ standard library every component uses
  (\<open>std::to_chars\<close> and \<open>std::from_chars\<close> in base ten).  Generic lemmas are declared for the
  simplifier or put into a named collection, so that component proofs are short.
\<close>

section \<open>Machine integers\<close>

type_synonym u32 = "32 word"
type_synonym u64 = "64 word"

text \<open>
  Signed integers are carried as \<^typ>\<open>int\<close>; every arithmetic operation of the source on a
  signed 64-bit value is followed by \<open>wrap_i64\<close>, two's complement reduction to 64 bits.
  Where the theorems show the exact mathematical value, no operation overflowed.
\<close>

definition i64_max :: int where
  "i64_max = 9223372036854775807"

definition i64_min :: int where
  "i64_min = - 9223372036854775808"

definition wrap_i64 :: "int \<Rightarrow> int" where
  "wrap_i64 x = (x + 9223372036854775808) mod 18446744073709551616 - 9223372036854775808"

definition u64_max :: u64 where
  "u64_max = 18446744073709551615"

text \<open>C++ integer division truncates towards zero.\<close>

definition cdiv :: "int \<Rightarrow> int \<Rightarrow> int" where
  "cdiv a b = sgn a * sgn b * (\<bar>a\<bar> div \<bar>b\<bar>)"

named_theorems machine_simps \<open>evaluation of machine arithmetic inside its range\<close>
named_theorems char_class_defs \<open>definitions of ASCII character classes\<close>

lemma wrap_i64_id [machine_simps]: "i64_min \<le> x \<Longrightarrow> x \<le> i64_max \<Longrightarrow> wrap_i64 x = x"
  by (simp add: wrap_i64_def i64_min_def i64_max_def)

lemma wrap_i64_range: "i64_min \<le> wrap_i64 x \<and> wrap_i64 x \<le> i64_max"
proof -
  have "0 \<le> (x + 9223372036854775808) mod 18446744073709551616"
    and "(x + 9223372036854775808) mod 18446744073709551616 < 18446744073709551616"
    by simp_all
  then show ?thesis unfolding wrap_i64_def i64_min_def i64_max_def by linarith
qed

lemma cdiv_nonneg [machine_simps]: "0 \<le> a \<Longrightarrow> 0 < b \<Longrightarrow> cdiv a b = a div b"
  by (cases "a = 0") (simp_all add: cdiv_def)

lemma word_succ_gt:
  fixes a b :: u64
  assumes "a < b"
  shows "a < a + 1"
  using assms by uint_arith

lemma unat_succ_below:
  fixes a b :: u64
  assumes "a < b"
  shows "unat (a + 1) = Suc (unat a)"
  using assms by unat_arith

lemma u64_succ_gt:
  fixes x :: u64
  assumes "x \<noteq> u64_max"
  shows "x < x + 1"
proof -
  have "u64_max + 1 = 0" by (simp add: u64_max_def)
  then have "x + 1 \<noteq> 0" using assms by (metis add_right_imp_eq)
  then show ?thesis by unat_arith
qed

lemma all_from_Suc:
  "i < n \<Longrightarrow> (\<forall>j. i \<le> j \<and> j < n \<longrightarrow> P j) \<longleftrightarrow> P i \<and> (\<forall>j. Suc i \<le> j \<and> j < n \<longrightarrow> P j)"
  by (metis Suc_leD Suc_leI le_neq_implies_less order_refl)

lemma map_upt_shift: "map f [Suc 0 ..< Suc (Suc n)] = f (Suc 0) # map (\<lambda>k. f (Suc k)) [Suc 0 ..< Suc n]"
  by (induction n) auto

section \<open>ASCII characters\<close>

definition byte_of :: "char \<Rightarrow> nat" where
  "byte_of c = of_char c"

definition is_digit :: "char \<Rightarrow> bool" where
  "is_digit c \<longleftrightarrow> 48 \<le> byte_of c \<and> byte_of c \<le> 57"

definition is_upper :: "char \<Rightarrow> bool" where
  "is_upper c \<longleftrightarrow> 65 \<le> byte_of c \<and> byte_of c \<le> 90"

definition is_lower :: "char \<Rightarrow> bool" where
  "is_lower c \<longleftrightarrow> 97 \<le> byte_of c \<and> byte_of c \<le> 122"

lemmas [char_class_defs] = is_digit_def is_upper_def is_lower_def byte_of_def

lemma byte_of_less [simp]: "byte_of c < 256"
  by (simp add: byte_of_def)

lemma byte_of_inj: "byte_of c = byte_of d \<longleftrightarrow> c = d"
  by (simp add: byte_of_def)

section \<open>Decimal numerals\<close>

definition digit_value :: "char \<Rightarrow> int" where
  "digit_value c = int (byte_of c) - 48"

definition digit_char :: "nat \<Rightarrow> char" where
  "digit_char d = char_of (48 + d)"

text \<open>The value of a string of decimal digits, most significant first.\<close>

definition num_of :: "string \<Rightarrow> int" where
  "num_of s = foldl (\<lambda>a c. a * 10 + digit_value c) 0 s"

fun digits_of :: "nat \<Rightarrow> string" where
  "digits_of n = (if n < 10 then [digit_char n] else digits_of (n div 10) @ [digit_char (n mod 10)])"

declare digits_of.simps [simp del]

text \<open>
  \<open>std::to_chars\<close> and \<open>std::from_chars\<close> in base ten.  \<open>from_chars\<close> takes the longest run of
  digits (a minus sign is accepted for signed types only, a plus sign never), fails when there
  is no digit, and reports a value outside the type's range; the rest of the input is the
  position it stopped at.
\<close>

definition to_chars :: "int \<Rightarrow> string" where
  "to_chars x = (if x < 0 then CHR ''-'' # digits_of (nat (- x)) else digits_of (nat x))"

datatype from_chars_result =
    FC_invalid_argument
  | FC_out_of_range string
  | FC_ok int string

definition from_chars :: "bool \<Rightarrow> int \<Rightarrow> int \<Rightarrow> string \<Rightarrow> from_chars_result" where
  "from_chars is_signed lo hi s =
     (let neg = (is_signed \<and> s \<noteq> [] \<and> hd s = CHR ''-'');
          body = (if neg then tl s else s);
          ds = takeWhile is_digit body;
          rest = dropWhile is_digit body;
          v = (if neg then - num_of ds else num_of ds)
      in if ds = [] then FC_invalid_argument
         else if lo \<le> v \<and> v \<le> hi then FC_ok v rest
         else FC_out_of_range rest)"

lemma byte_of_digit_char [simp]: "d < 10 \<Longrightarrow> byte_of (digit_char d) = 48 + d"
  by (simp add: byte_of_def digit_char_def)

lemma is_digit_digit_char [simp]: "d < 10 \<Longrightarrow> is_digit (digit_char d)"
  by (simp add: is_digit_def)

lemma digit_value_digit_char [simp]: "d < 10 \<Longrightarrow> digit_value (digit_char d) = int d"
  by (simp add: digit_value_def)

lemma digit_value_range: "is_digit c \<Longrightarrow> 0 \<le> digit_value c \<and> digit_value c \<le> 9"
  by (simp add: is_digit_def digit_value_def)

lemma not_digit_minus [simp]: "\<not> is_digit CHR ''-''"
  by (simp add: char_class_defs)

lemma not_digit_dot [simp]: "\<not> is_digit CHR ''.''"
  by (simp add: char_class_defs)

lemma not_digit_comma [simp]: "\<not> is_digit CHR '',''"
  by (simp add: char_class_defs)

lemma num_of_Nil [simp]: "num_of [] = 0"
  by (simp add: num_of_def)

lemma num_of_snoc [simp]: "num_of (s @ [c]) = num_of s * 10 + digit_value c"
  by (simp add: num_of_def)

lemma num_of_append: "num_of (s @ t) = num_of s * 10 ^ length t + num_of t"
proof (induction t rule: rev_induct)
  case (snoc c t)
  have "num_of (s @ t @ [c]) = num_of (s @ t) * 10 + digit_value c"
    by (metis append.assoc num_of_snoc)
  with snoc show ?case by (simp add: algebra_simps)
qed simp

lemma num_of_nonneg: "list_all is_digit s \<Longrightarrow> 0 \<le> num_of s"
proof (induction s rule: rev_induct)
  case (snoc c s)
  then show ?case using digit_value_range [of c] by simp
qed simp

lemma num_of_less: "list_all is_digit s \<Longrightarrow> num_of s < 10 ^ length s"
proof (induction s rule: rev_induct)
  case (snoc c s)
  then have "num_of s + 1 \<le> 10 ^ length s" and "digit_value c \<le> 9"
    using digit_value_range [of c] by simp_all
  then show ?case by simp
qed simp

lemma digits_of_neq_Nil [simp]: "digits_of n \<noteq> []"
  by (subst digits_of.simps) simp

lemma digits_of_digits: "list_all is_digit (digits_of n)"
proof (induction n rule: digits_of.induct)
  case (1 n)
  then show ?case by (cases "n < 10") (simp_all add: digits_of.simps [of n])
qed

lemma num_of_digits_of [simp]: "num_of (digits_of n) = int n"
proof (induction n rule: digits_of.induct)
  case (1 n)
  show ?case
  proof (cases "n < 10")
    case True
    then show ?thesis by (simp add: digits_of.simps [of n] num_of_def)
  next
    case False
    with 1 have "num_of (digits_of n) = int (n div 10) * 10 + int (n mod 10)"
      by (subst digits_of.simps) simp
    then show ?thesis by (metis div_mult_mod_eq of_nat_add of_nat_mult of_nat_numeral)
  qed
qed

lemma length_digits_of: "n < 10 ^ k \<Longrightarrow> 0 < k \<Longrightarrow> length (digits_of n) \<le> k"
proof (induction n arbitrary: k rule: digits_of.induct)
  case (1 n)
  show ?case
  proof (cases "n < 10")
    case True
    then show ?thesis using 1 by (simp add: digits_of.simps [of n])
  next
    case False
    then obtain j where k: "k = Suc j" "0 < j" using 1 by (cases k; cases "k - 1") auto
    then have "n div 10 < 10 ^ j" using 1 by (simp add: less_mult_imp_div_less)
    with 1 False k show ?thesis by (simp add: digits_of.simps [of n])
  qed
qed

lemma length_to_chars_u64: "length (to_chars (uint (w :: u64))) \<le> 20"
proof -
  have "nat (uint w) < 10 ^ 20" using unsigned_less [where 'a = nat, of w] by simp
  from length_digits_of [OF this] show ?thesis by (simp add: to_chars_def)
qed

lemma length_to_chars_u32: "length (to_chars (uint (w :: u32))) \<le> 10"
proof -
  have "nat (uint w) < 10 ^ 10" using unsigned_less [where 'a = nat, of w] by simp
  from length_digits_of [OF this] show ?thesis by (simp add: to_chars_def)
qed

lemma length_to_chars_nonneg: "0 \<le> x \<Longrightarrow> x < 10 ^ k \<Longrightarrow> 0 < k \<Longrightarrow> length (to_chars x) \<le> k"
  using length_digits_of [of "nat x" k] by (simp add: to_chars_def nat_less_iff)

lemma length_to_chars_i64: "i64_min \<le> x \<Longrightarrow> x \<le> i64_max \<Longrightarrow> length (to_chars x) \<le> 20"
proof -
  assume "i64_min \<le> x" "x \<le> i64_max"
  then have "nat \<bar>x\<bar> < 10 ^ 19" by (auto simp: i64_min_def i64_max_def)
  from length_digits_of [OF this] show ?thesis by (cases "x < 0") (simp_all add: to_chars_def)
qed

lemma to_chars_neq_Nil [simp]: "to_chars x \<noteq> []"
  by (simp add: to_chars_def)

lemma to_chars_chars: "c \<in> set (to_chars x) \<Longrightarrow> is_digit c \<or> c = CHR ''-''"
  using digits_of_digits by (auto simp: to_chars_def list_all_iff split: if_splits)

lemma takeWhile_dropWhile_digits:
  assumes "list_all is_digit ds" and "rest = [] \<or> \<not> is_digit (hd rest)"
  shows "takeWhile is_digit (ds @ rest) = ds" and "dropWhile is_digit (ds @ rest) = rest"
  using assms by (induction ds) (cases rest; simp)+

lemma hd_digits_of_not_minus [simp]: "hd (digits_of n) \<noteq> CHR ''-''"
  using digits_of_digits [of n] by (cases "digits_of n") auto

lemma from_chars_to_chars:
  assumes "lo \<le> x" and "x \<le> hi" and "is_signed \<or> 0 \<le> x"
    and "rest = [] \<or> \<not> is_digit (hd rest)"
  shows "from_chars is_signed lo hi (to_chars x @ rest) = FC_ok x rest"
  using assms digits_of_digits
  by (auto simp: from_chars_def to_chars_def Let_def takeWhile_dropWhile_digits)

end
