(* ===== verification/Fixed_Point.thy ===== *)
theory Fixed_Point
  imports Prelude
begin

text \<open>
  The decimal parser of \<^verbatim>\<open>src/fixed_point.cpp\<close>: a plain unsigned decimal is converted to a
  signed 64-bit integer scaled by \<open>10 ^ 8\<close>.  The loops over the input position become recursions
  over the remaining characters; each signed operation is wrapped to 64 bits as the machine would.
  \<open>decimal_value\<close> is the reference meaning of an accepted text; the theorems say that the parser
  accepts exactly the well-formed texts whose scaled value fits, and returns that value.
\<close>

section \<open>Data and operations\<close>

datatype DecimalParseError =
    Dec_none
  | Dec_empty
  | Dec_missing_integer_digits
  | Dec_missing_fractional_digits
  | Dec_invalid_character
  | Dec_non_zero_discarded_digit
  | Dec_overflow

record DecimalParseResult =
  dec_value :: int
  dec_error :: DecimalParseError

definition dec_has_value :: "DecimalParseResult \<Rightarrow> bool" where
  "dec_has_value r \<longleftrightarrow> dec_error r = Dec_none"

definition kDecimalScale :: int where
  "kDecimalScale = 100000000"

definition maximum_whole :: int where
  "maximum_whole = cdiv i64_max kDecimalScale"

definition dec_failure :: "DecimalParseError \<Rightarrow> DecimalParseResult" where
  "dec_failure e = \<lparr>dec_value = 0, dec_error = e\<rparr>"

text \<open>The loop over the integer component, up to a decimal point or the end of the input.\<close>

fun parse_whole :: "string \<Rightarrow> int \<Rightarrow> DecimalParseError + int \<times> string" where
  "parse_whole [] whole = Inr (whole, [])"
| "parse_whole (c # cs) whole =
     (if c = CHR ''.'' then Inr (whole, c # cs)
      else if \<not> is_digit c then Inl Dec_invalid_character
      else if whole > cdiv (wrap_i64 (maximum_whole - digit_value c)) 10 then Inl Dec_overflow
      else parse_whole cs (wrap_i64 (wrap_i64 (whole * 10) + digit_value c)))"

text \<open>The loop over the fractional component: eight digits are kept, the rest must be zero.\<close>

fun parse_fraction :: "string \<Rightarrow> int \<Rightarrow> nat \<Rightarrow> DecimalParseError + int \<times> nat" where
  "parse_fraction [] fraction fractional_digits = Inr (fraction, fractional_digits)"
| "parse_fraction (c # cs) fraction fractional_digits =
     (if \<not> is_digit c then Inl Dec_invalid_character
      else if fractional_digits < 8 then
        parse_fraction cs (wrap_i64 (wrap_i64 (fraction * 10) + digit_value c))
          (Suc fractional_digits)
      else if c \<noteq> CHR ''0'' then Inl Dec_non_zero_discarded_digit
      else parse_fraction cs fraction (Suc fractional_digits))"

function pad_fraction :: "int \<Rightarrow> nat \<Rightarrow> int" where
  "pad_fraction fraction fractional_digits =
     (if fractional_digits < 8
      then pad_fraction (wrap_i64 (fraction * 10)) (Suc fractional_digits)
      else fraction)"
  by pat_completeness auto
termination
  by (relation "measure (\<lambda>(_, n). 8 - n)") auto

declare pad_fraction.simps [simp del]

definition combine_parts :: "int \<Rightarrow> int \<Rightarrow> DecimalParseResult" where
  "combine_parts whole fraction =
     (if whole > cdiv (wrap_i64 (i64_max - fraction)) kDecimalScale then dec_failure Dec_overflow
      else \<lparr>dec_value = wrap_i64 (wrap_i64 (whole * kDecimalScale) + fraction),
            dec_error = Dec_none\<rparr>)"

definition parse_decimal_1e8 :: "string \<Rightarrow> DecimalParseResult" where
  "parse_decimal_1e8 input =
     (if input = [] then dec_failure Dec_empty
      else if hd input = CHR ''.'' then dec_failure Dec_missing_integer_digits
      else case parse_whole input 0 of
        Inl e \<Rightarrow> dec_failure e
      | Inr (whole, rest) \<Rightarrow>
          (case rest of
            [] \<Rightarrow> combine_parts whole 0
          | _ # frac \<Rightarrow>
              (if frac = [] then dec_failure Dec_missing_fractional_digits
               else case parse_fraction frac 0 0 of
                 Inl e \<Rightarrow> dec_failure e
               | Inr (fraction, n) \<Rightarrow> combine_parts whole (pad_fraction fraction n))))"

section \<open>Reference meaning\<close>

text \<open>
  \<open>decimal_text ip fp s\<close>: the text is an integer component, alone or followed by a point and a
  non-empty fractional component.  Its scaled value reads the first eight fractional digits,
  padded with zeros.
\<close>

definition decimal_text :: "string \<Rightarrow> string \<Rightarrow> string \<Rightarrow> bool" where
  "decimal_text ip fp s \<longleftrightarrow>
     ip \<noteq> [] \<and> list_all is_digit ip \<and> list_all is_digit fp \<and>
     list_all (\<lambda>c. c = CHR ''0'') (drop 8 fp) \<and>
     (if fp = [] then s = ip else s = ip @ CHR ''.'' # fp)"

definition decimal_value :: "string \<Rightarrow> string \<Rightarrow> int" where
  "decimal_value ip fp = num_of ip * 10 ^ 8 + num_of (take 8 (fp @ replicate 8 (CHR ''0'')))"

section \<open>Correctness\<close>

lemma maximum_whole_eq: "maximum_whole = 92233720368"
  by (simp add: maximum_whole_def cdiv_def i64_max_def kDecimalScale_def)

lemmas fixed_point_bounds = maximum_whole_eq i64_max_def i64_min_def kDecimalScale_def

lemma num_of_Cons: "num_of (c # s) = digit_value c * 10 ^ length s + num_of s"
  using num_of_append [of "[c]" s] by (simp add: num_of_def)

lemma whole_step:
  assumes "is_digit c" and "0 \<le> w"
  shows "w > cdiv (wrap_i64 (maximum_whole - digit_value c)) 10
           \<longleftrightarrow> w * 10 + digit_value c > maximum_whole"
proof -
  have d: "0 \<le> digit_value c" "digit_value c \<le> 9" using digit_value_range [OF assms(1)] by auto
  then have "wrap_i64 (maximum_whole - digit_value c) = maximum_whole - digit_value c"
    by (simp add: wrap_i64_id fixed_point_bounds)
  with d show ?thesis by (simp add: cdiv_nonneg fixed_point_bounds) linarith
qed

lemma whole_step_exact:
  assumes "is_digit c" and "0 \<le> w" and "w * 10 + digit_value c \<le> maximum_whole"
  shows "wrap_i64 (wrap_i64 (w * 10) + digit_value c) = w * 10 + digit_value c"
  using assms digit_value_range [of c] by (simp add: wrap_i64_id fixed_point_bounds)

lemma parse_whole_sound:
  assumes "parse_whole s w = Inr (w', rest)" and "0 \<le> w" and "w \<le> maximum_whole"
  shows "\<exists>ip. s = ip @ rest \<and> list_all is_digit ip \<and> (rest = [] \<or> hd rest = CHR ''.'') \<and>
           w' = w * 10 ^ length ip + num_of ip \<and> 0 \<le> w' \<and> w' \<le> maximum_whole"
  using assms
proof (induction s w rule: parse_whole.induct)
  case (2 c cs w)
  show ?case
  proof (cases "c = CHR ''.''")
    case True
    with 2 show ?thesis by auto
  next
    case False
    with 2 have dig: "is_digit c" and le: "w * 10 + digit_value c \<le> maximum_whole"
      using whole_step [of c w] by (auto split: if_splits)
    let ?w1 = "w * 10 + digit_value c"
    have "parse_whole cs ?w1 = Inr (w', rest)"
      using 2 False dig le whole_step [of c w] whole_step_exact [of c w] by (auto split: if_splits)
    moreover have "0 \<le> ?w1" using digit_value_range [OF dig] \<open>0 \<le> w\<close> by simp
    ultimately obtain ip where ip: "cs = ip @ rest" "list_all is_digit ip"
      "rest = [] \<or> hd rest = CHR ''.''" "w' = ?w1 * 10 ^ length ip + num_of ip"
      "0 \<le> w'" "w' \<le> maximum_whole"
      using 2 False dig le whole_step [of c w] whole_step_exact [of c w] by (auto split: if_splits)
    then show ?thesis
      by (intro exI [of _ "c # ip"]) (use dig in \<open>simp add: num_of_Cons algebra_simps\<close>)
  qed
qed simp

lemma parse_whole_complete:
  assumes "list_all is_digit ip" and "rest = [] \<or> hd rest = CHR ''.''" and "0 \<le> w"
    and "w * 10 ^ length ip + num_of ip \<le> maximum_whole"
  shows "parse_whole (ip @ rest) w = Inr (w * 10 ^ length ip + num_of ip, rest)"
  using assms
proof (induction ip arbitrary: w)
  case Nil
  then show ?case by (cases rest) auto
next
  case (Cons c ip)
  let ?w1 = "w * 10 + digit_value c"
  have dig: "is_digit c" "list_all is_digit ip" and d0: "0 \<le> digit_value c"
    using Cons.prems(1) digit_value_range [of c] by auto
  have eq: "w * 10 ^ length (c # ip) + num_of (c # ip) = ?w1 * 10 ^ length ip + num_of ip"
    by (simp add: num_of_Cons algebra_simps)
  have "?w1 \<le> ?w1 * 10 ^ length ip" using Cons.prems(3) d0 by (simp add: mult_le_cancel_left1)
  then have le: "?w1 \<le> maximum_whole"
    using eq Cons.prems(4) num_of_nonneg [OF dig(2)] by linarith
  moreover have "c \<noteq> CHR ''.''" using dig(1) by auto
  ultimately show ?case
    using Cons dig d0 eq whole_step [of c w] whole_step_exact [of c w] by simp
qed

lemma fraction_range:
  assumes "list_all is_digit ds" and "length ds \<le> 8"
  shows "0 \<le> num_of ds \<and> num_of ds < 10 ^ 8"
proof -
  have "num_of ds < 10 ^ length ds" using num_of_less [OF assms(1)] .
  also have "(10::int) ^ length ds \<le> 10 ^ 8" using assms(2) by (intro power_increasing) auto
  finally show ?thesis using num_of_nonneg [OF assms(1)] by simp
qed

lemma fraction_step_exact:
  assumes "list_all is_digit (ds @ [c])" and "length ds < 8"
  shows "wrap_i64 (wrap_i64 (num_of ds * 10) + digit_value c) = num_of (ds @ [c])"
proof -
  have "0 \<le> num_of ds" "num_of ds < 10 ^ 8" using assms fraction_range [of ds] by auto
  then show ?thesis
    using assms digit_value_range [of c] by (simp add: wrap_i64_id fixed_point_bounds)
qed

text \<open>The loop invariant: \<open>ds\<close> is the part of the fraction read so far.\<close>

lemma parse_fraction_eq:
  assumes "list_all is_digit ds"
  shows "parse_fraction fp (num_of (take 8 ds)) (length ds) = Inr (f, n) \<longleftrightarrow>
           list_all is_digit fp \<and> list_all (\<lambda>c. c = CHR ''0'') (drop (8 - length ds) fp) \<and>
           f = num_of (take 8 (ds @ fp)) \<and> n = length (ds @ fp)"
  using assms
proof (induction fp arbitrary: ds)
  case Nil
  then show ?case by auto
next
  case (Cons c fp)
  show ?case
  proof (cases "is_digit c")
    case True
    then have ds': "list_all is_digit (ds @ [c])" using Cons.prems by simp
    show ?thesis
    proof (cases "length ds < 8")
      case less: True
      then have "take 8 (ds @ [c]) = ds @ [c]" and "take 8 ds = ds" by simp_all
      with True less Cons.IH [OF ds'] fraction_step_exact [OF ds' less] show ?thesis
        by (auto simp: Suc_diff_le drop_Cons')
    next
      case False
      then have "take 8 (ds @ [c]) = take 8 ds" by simp
      with True False Cons.IH [OF ds'] show ?thesis by auto
    qed
  qed auto
qed

lemma pad_fraction_eq:
  assumes "list_all is_digit ds" and "length ds \<le> 8"
  shows "pad_fraction (num_of ds) (length ds) = num_of (ds @ replicate (8 - length ds) (CHR ''0''))"
  using assms
proof (induction "8 - length ds" arbitrary: ds)
  case 0
  then show ?case by (simp add: pad_fraction.simps)
next
  case (Suc k)
  have zero: "is_digit (CHR ''0'')" "digit_value (CHR ''0'') = 0"
    by (simp_all add: char_class_defs digit_value_def)
  have less: "length ds < 8" using Suc.hyps(2) by simp
  have "wrap_i64 (num_of ds * 10) = num_of (ds @ [CHR ''0''])"
    using fraction_range [of ds] Suc.prems zero by (simp add: wrap_i64_id fixed_point_bounds)
  then have "pad_fraction (num_of ds) (length ds)
      = pad_fraction (num_of (ds @ [CHR ''0''])) (length (ds @ [CHR ''0'']))"
    using less by (subst pad_fraction.simps) simp
  also have "\<dots> = num_of ((ds @ [CHR ''0'']) @ replicate (8 - length (ds @ [CHR ''0''])) (CHR ''0''))"
    using Suc less zero by (intro Suc.hyps) auto
  also have "(ds @ [CHR ''0'']) @ replicate (8 - length (ds @ [CHR ''0''])) (CHR ''0'')
      = ds @ replicate (8 - length ds) (CHR ''0'')"
    using less by (simp add: Suc_diff_Suc flip: replicate_Suc)
  finally show ?case .
qed

lemma combine_parts_eq:
  assumes "0 \<le> w" and "w \<le> maximum_whole" and "0 \<le> f" and "f < 10 ^ 8"
  shows "combine_parts w f =
     (if w * 10 ^ 8 + f \<le> i64_max then \<lparr>dec_value = w * 10 ^ 8 + f, dec_error = Dec_none\<rparr>
      else dec_failure Dec_overflow)"
proof -
  have "wrap_i64 (i64_max - f) = i64_max - f"
    using assms by (simp add: wrap_i64_id fixed_point_bounds)
  then have guard: "w > cdiv (wrap_i64 (i64_max - f)) kDecimalScale \<longleftrightarrow> \<not> w * 10 ^ 8 + f \<le> i64_max"
    using assms by (simp add: cdiv_nonneg fixed_point_bounds) linarith
  have "w * 10 ^ 8 + f \<le> i64_max \<Longrightarrow>
      wrap_i64 (wrap_i64 (w * kDecimalScale) + f) = w * 10 ^ 8 + f"
    using assms by (simp add: wrap_i64_id fixed_point_bounds)
  then show ?thesis unfolding combine_parts_def guard by auto
qed

lemma decimal_parts_range:
  assumes "list_all is_digit fp"
  shows "0 \<le> num_of (take 8 (fp @ replicate 8 (CHR ''0''))) \<and>
         num_of (take 8 (fp @ replicate 8 (CHR ''0''))) < 10 ^ 8"
proof (rule fraction_range)
  have "list_all is_digit (fp @ replicate 8 (CHR ''0''))"
    using assms by (auto simp: list_all_iff char_class_defs)
  then show "list_all is_digit (take 8 (fp @ replicate 8 (CHR ''0'')))"
    by (metis append_take_drop_id list_all_append)
qed simp

lemma padded_fraction_eq:
  assumes "list_all is_digit fp"
  shows "pad_fraction (num_of (take 8 fp)) (length fp) = num_of (take 8 (fp @ replicate 8 (CHR ''0'')))"
proof (cases "length fp \<le> 8")
  case True
  then have "take 8 (fp @ replicate 8 (CHR ''0'')) = fp @ replicate (8 - length fp) (CHR ''0'')"
    by simp
  then show ?thesis using pad_fraction_eq [OF assms True] True by simp
next
  case False
  then show ?thesis by (simp add: pad_fraction.simps)
qed

lemma num_of_zeros [simp]: "num_of (replicate n (CHR ''0'')) = 0"
proof (induction n)
  case (Suc n)
  then show ?case by (simp add: num_of_Cons digit_value_def byte_of_def)
qed simp

lemma parse_whole_error [simp]: "parse_whole s w \<noteq> Inl Dec_none"
  by (induction s w rule: parse_whole.induct) auto

lemma parse_fraction_error [simp]: "parse_fraction s f n \<noteq> Inl Dec_none"
  by (induction s f n rule: parse_fraction.induct) auto

text \<open>The parser on a text split into its components, once the integer component fits.\<close>

lemma parse_decimal_1e8_parts:
  assumes "decimal_text ip fp s" and "num_of ip \<le> maximum_whole"
  shows "parse_decimal_1e8 s =
     combine_parts (num_of ip) (num_of (take 8 (fp @ replicate 8 (CHR ''0''))))"
proof -
  have dig: "ip \<noteq> []" "list_all is_digit ip" "list_all is_digit fp" and
    s: "s = ip @ (if fp = [] then [] else CHR ''.'' # fp)"
    using assms by (auto simp: decimal_text_def)
  have head: "s \<noteq> [] \<and> hd s \<noteq> CHR ''.''" using dig s by (cases ip) auto
  have "parse_whole s 0 = Inr (num_of ip, if fp = [] then [] else CHR ''.'' # fp)"
    unfolding s using parse_whole_complete [of ip _ 0] dig assms(2) by simp
  moreover have "parse_fraction fp 0 0 = Inr (num_of (take 8 fp), length fp)"
    using parse_fraction_eq [of "[]" fp] assms(1) dig by (auto simp: decimal_text_def)
  ultimately show ?thesis
    using head padded_fraction_eq [OF dig(3)]
    by (auto simp: parse_decimal_1e8_def)
qed

lemma parse_decimal_1e8_text:
  assumes "dec_error (parse_decimal_1e8 s) = Dec_none"
  shows "\<exists>ip fp. decimal_text ip fp s \<and> num_of ip \<le> maximum_whole"
proof -
  from assms obtain w rest where w: "parse_whole s 0 = Inr (w, rest)" and hd: "hd s \<noteq> CHR ''.''" "s \<noteq> []"
    by (auto simp: parse_decimal_1e8_def dec_failure_def split: if_splits sum.splits)
  obtain ip where ip: "s = ip @ rest" "list_all is_digit ip" "rest = [] \<or> hd rest = CHR ''.''"
    "w = num_of ip" "w \<le> maximum_whole"
    using parse_whole_sound [OF w] by (auto simp: fixed_point_bounds)
  have "ip \<noteq> []" using ip hd by auto
  show ?thesis
  proof (cases rest)
    case Nil
    with ip \<open>ip \<noteq> []\<close> have "decimal_text ip [] s" by (simp add: decimal_text_def)
    with ip show ?thesis by blast
  next
    case (Cons c fp)
    with assms w hd ip have "fp \<noteq> []" and "\<exists>f n. parse_fraction fp 0 0 = Inr (f, n)"
      by (auto simp: parse_decimal_1e8_def dec_failure_def split: if_splits sum.splits)
    with parse_fraction_eq [of "[]" fp] have "list_all is_digit fp"
      "list_all (\<lambda>c. c = CHR ''0'') (drop 8 fp)" by auto
    with ip Cons \<open>ip \<noteq> []\<close> \<open>fp \<noteq> []\<close> have "decimal_text ip fp s" by (simp add: decimal_text_def)
    with ip show ?thesis by blast
  qed
qed

text \<open>
  C13: the parser is sound and complete.  It returns a value exactly for the texts that are an
  integer component with an optional fraction whose digits beyond the eighth are zero and whose
  scaled value fits a signed 64-bit integer, and the value is the exact scaled value: no
  intermediate operation wraps around.
\<close>

theorem parse_decimal_1e8_correct:
  "parse_decimal_1e8 s = \<lparr>dec_value = v, dec_error = Dec_none\<rparr> \<longleftrightarrow>
     (\<exists>ip fp. decimal_text ip fp s \<and> v = decimal_value ip fp \<and> v \<le> i64_max)"
proof
  assume ok: "parse_decimal_1e8 s = \<lparr>dec_value = v, dec_error = Dec_none\<rparr>"
  then obtain ip fp where t: "decimal_text ip fp s" and w: "num_of ip \<le> maximum_whole"
    using parse_decimal_1e8_text [of s] by auto
  have dig: "list_all is_digit ip" "list_all is_digit fp" using t by (auto simp: decimal_text_def)
  have "combine_parts (num_of ip) (num_of (take 8 (fp @ replicate 8 (CHR ''0''))))
      = \<lparr>dec_value = v, dec_error = Dec_none\<rparr>"
    using ok parse_decimal_1e8_parts [OF t w] by simp
  then have "v = decimal_value ip fp \<and> v \<le> i64_max"
    using combine_parts_eq [OF num_of_nonneg [OF dig(1)] w] decimal_parts_range [OF dig(2)]
    by (auto simp: decimal_value_def dec_failure_def split: if_splits)
  with t show "\<exists>ip fp. decimal_text ip fp s \<and> v = decimal_value ip fp \<and> v \<le> i64_max" by blast
next
  assume "\<exists>ip fp. decimal_text ip fp s \<and> v = decimal_value ip fp \<and> v \<le> i64_max"
  then obtain ip fp where t: "decimal_text ip fp s" and v: "v = decimal_value ip fp" "v \<le> i64_max"
    by blast
  have dig: "list_all is_digit ip" "list_all is_digit fp" using t by (auto simp: decimal_text_def)
  have fr: "0 \<le> num_of (take 8 (fp @ replicate 8 (CHR ''0'')))"
    "num_of (take 8 (fp @ replicate 8 (CHR ''0''))) < 10 ^ 8"
    using decimal_parts_range [OF dig(2)] by auto
  then have w: "num_of ip \<le> maximum_whole"
    using v by (simp add: decimal_value_def fixed_point_bounds)
  show "parse_decimal_1e8 s = \<lparr>dec_value = v, dec_error = Dec_none\<rparr>"
    using parse_decimal_1e8_parts [OF t w] combine_parts_eq [OF num_of_nonneg [OF dig(1)] w fr] v
    by (simp add: decimal_value_def)
qed

lemma parse_decimal_1e8_range:
  assumes "dec_error (parse_decimal_1e8 s) = Dec_none"
  shows "0 \<le> dec_value (parse_decimal_1e8 s) \<and> dec_value (parse_decimal_1e8 s) \<le> i64_max"
proof -
  obtain ip fp where t: "decimal_text ip fp s" and w: "num_of ip \<le> maximum_whole"
    using parse_decimal_1e8_text [OF assms] by blast
  then have dig: "list_all is_digit ip" "list_all is_digit fp" by (auto simp: decimal_text_def)
  show ?thesis
    using assms parse_decimal_1e8_parts [OF t w] decimal_parts_range [OF dig(2)]
      combine_parts_eq [OF num_of_nonneg [OF dig(1)] w] num_of_nonneg [OF dig(1)]
    by (auto simp: dec_failure_def split: if_splits)
qed

text \<open>Rejected texts carry the value zero.\<close>

lemma parse_decimal_1e8_failure:
  "dec_error (parse_decimal_1e8 s) \<noteq> Dec_none \<Longrightarrow> dec_value (parse_decimal_1e8 s) = 0"
  by (auto simp: parse_decimal_1e8_def dec_failure_def combine_parts_def
      split: if_splits sum.splits list.splits prod.splits)

end
