(* ===== verification/Payload_Types.thy ===== *)
theory Payload_Types
  imports Fixed_Point
begin

text \<open>
  The data declared in \<^verbatim>\<open>include/hft/spot_payload_parser.h\<close>, shared by the parser, the book and the
  processor.  A value of a C++ \<open>enum class\<close> is one of its enumerators.  A \<open>LevelUpdateRange\<close>
  (a pointer and a size into the parser's storage) is the list of updates it denotes.
\<close>

definition kMaxPayloadBytes :: nat where "kMaxPayloadBytes = 1048576"
definition kJsonPaddingBytes :: nat where "kJsonPaddingBytes = 64"
definition kMaxJsonNestingDepth :: nat where "kMaxJsonNestingDepth = 64"
definition kMaxDepthUpdates :: nat where "kMaxDepthUpdates = 16384"
definition kMaxPartialDepthLevelsPerSide :: nat where "kMaxPartialDepthLevelsPerSide = 5"

datatype PayloadVenue = Venue_spot | Venue_usdm

datatype SpotStreamKind = Depth_diff | Depth5 | Trade

datatype BookSide = Bid | Ask

datatype SpotParseError =
    SPE_none
  | SPE_invalid_input_buffer
  | SPE_payload_too_large
  | SPE_json_nesting_too_deep
  | SPE_malformed_json
  | SPE_root_not_object
  | SPE_missing_field
  | SPE_duplicate_field
  | SPE_wrong_type
  | SPE_unexpected_event_type
  | SPE_symbol_mismatch
  | SPE_invalid_decimal
  | SPE_non_positive_price
  | SPE_invalid_quantity
  | SPE_invalid_update_range
  | SPE_too_many_levels
  | SPE_invalid_level_shape
  | SPE_duplicate_price
  | SPE_invalid_level_order
  | SPE_crossed_book
  | SPE_internal_capacity_error

datatype SpotField =
    SF_none | SF_root | SF_event_type | SF_event_time | SF_transaction_time | SF_symbol
  | SF_first_update_id | SF_final_update_id | SF_previous_update_id | SF_last_update_id
  | SF_bids | SF_asks | SF_price | SF_quantity | SF_level

text \<open>A view of \<open>size\<close> bytes in a buffer of \<open>capacity\<close> bytes; the pointer may be null.\<close>

record PaddedJsonView =
  pj_data :: "string option"
  pj_size :: nat
  pj_capacity :: nat

definition pj_bytes :: "PaddedJsonView \<Rightarrow> string" where
  "pj_bytes v = (case pj_data v of None \<Rightarrow> [] | Some bytes \<Rightarrow> take (pj_size v) bytes)"

record LevelUpdate =
  lu_price :: int
  lu_quantity :: int
  lu_side :: BookSide

record SpotDepthEvent =
  has_event_time :: bool
  event_time_ms :: u64
  has_transaction_time :: bool
  transaction_time_ms :: u64
  has_previous_update_id :: bool
  previous_update_id :: u64
  first_update_id :: u64
  final_update_id :: u64
  ev_bids :: "LevelUpdate list"
  ev_asks :: "LevelUpdate list"

record SpotTradeAuditEvent =
  event_type_present :: bool
  event_type_matches :: bool
  symbol_present :: bool
  symbol_matches :: bool

record SpotEvent =
  se_kind :: SpotStreamKind
  se_depth :: SpotDepthEvent
  se_trade :: SpotTradeAuditEvent

record SpotParseResult =
  spr_event :: SpotEvent
  spr_error :: SpotParseError
  spr_field :: SpotField
  spr_decimal_error :: DecimalParseError

definition spr_has_value :: "SpotParseResult \<Rightarrow> bool" where
  "spr_has_value r \<longleftrightarrow> spr_error r = SPE_none"

text \<open>The values the default member initializers give.\<close>

definition default_depth_event :: SpotDepthEvent where
  "default_depth_event = \<lparr>has_event_time = False, event_time_ms = 0, has_transaction_time = False,
     transaction_time_ms = 0, has_previous_update_id = False, previous_update_id = 0,
     first_update_id = 0, final_update_id = 0, ev_bids = [], ev_asks = []\<rparr>"

definition default_trade_event :: SpotTradeAuditEvent where
  "default_trade_event = \<lparr>event_type_present = False, event_type_matches = True,
     symbol_present = False, symbol_matches = True\<rparr>"

definition default_parse_result :: SpotParseResult where
  "default_parse_result = \<lparr>spr_event = \<lparr>se_kind = Depth_diff, se_depth = default_depth_event,
     se_trade = default_trade_event\<rparr>, spr_error = SPE_none, spr_field = SF_none,
     spr_decimal_error = Dec_none\<rparr>"

end
