(* ===== verification/Json_Validation.thy ===== *)
theory Json_Validation
  imports Payload_Types
begin

text \<open>
  JSON validation (\<^verbatim>\<open>src/json_validation.h\<close>) over the vendored simdjson On-Demand reader.  simdjson
  itself is a parameter of the model: what the program observes of a value is a
  \<open>json_value\<close>, the answer of \<open>type()\<close> and of the one accessor that fits it, either an error code
  or a result.  Iterating an array or an object yields its elements in order, each either an error
  or a value.  The lemmas show that the number check accepts exactly the JSON grammar's numbers and
  that validation succeeds exactly on values without an error and within the nesting limit.
\<close>

section \<open>Observations\<close>

datatype json_error =
    JE_DEPTH_ERROR
  | JE_N_ATOM_ERROR
  | JE_NUMBER_ERROR
  | JE_INCORRECT_TYPE
  | JE_NUMBER_OUT_OF_RANGE
  | JE_UNEXPECTED_ERROR
  | JE_other nat

datatype json_type = JT_array | JT_object | JT_number | JT_string | JT_boolean | JT_null

datatype json_value =
    JV_type_error json_error
  | JV_array_error json_error
  | JV_array "json_element list"
  | JV_object_error json_error
  | JV_object "json_member list"
  | JV_number string "json_error + u64"
  | JV_string "json_error + string"
  | JV_boolean "json_error + bool"
  | JV_null string
and json_element =
    Element_error json_error
  | Element json_value
and json_member =
    Member_error json_error
  | Member_key_error json_error
  | Member string json_value

fun json_type_of :: "json_value \<Rightarrow> json_error + json_type" where
  "json_type_of (JV_type_error e) = Inl e"
| "json_type_of (JV_array_error _) = Inr JT_array"
| "json_type_of (JV_array _) = Inr JT_array"
| "json_type_of (JV_object_error _) = Inr JT_object"
| "json_type_of (JV_object _) = Inr JT_object"
| "json_type_of (JV_number _ _) = Inr JT_number"
| "json_type_of (JV_string _) = Inr JT_string"
| "json_type_of (JV_boolean _) = Inr JT_boolean"
| "json_type_of (JV_null _) = Inr JT_null"

text \<open>\<open>SUCCESS\<close> is \<open>None\<close>; \<open>error_of\<close> is \<open>result.get(out)\<close> when only the error matters.\<close>

definition error_of :: "json_error + 'a \<Rightarrow> json_error option" where
  "error_of r = (case r of Inl e \<Rightarrow> Some e | Inr _ \<Rightarrow> None)"

section \<open>Numbers and whitespace\<close>

text \<open>The scan position of the source is the remaining suffix of the token.\<close>

definition is_json_digit :: "char \<Rightarrow> bool" where
  "is_json_digit c \<longleftrightarrow> is_digit c"

definition skip_integer :: "string \<Rightarrow> string option" where
  "skip_integer s =
     (case s of
        [] \<Rightarrow> None
      | c # rest \<Rightarrow>
          if c = CHR ''0'' then (if rest \<noteq> [] \<and> is_json_digit (hd rest) then None else Some rest)
          else if byte_of c < 49 \<or> byte_of c > 57 then None
          else Some (dropWhile is_json_digit rest))"

definition skip_fraction :: "string \<Rightarrow> string option" where
  "skip_fraction s =
     (case s of
        [] \<Rightarrow> Some s
      | c # rest \<Rightarrow>
          if c = CHR ''.'' then
            (let after = dropWhile is_json_digit rest in if after = rest then None else Some after)
          else Some s)"

definition skip_exponent :: "string \<Rightarrow> string option" where
  "skip_exponent s =
     (case s of
        [] \<Rightarrow> Some s
      | c # rest \<Rightarrow>
          if c = CHR ''e'' \<or> c = CHR ''E'' then
            (let start = (case rest of
                            [] \<Rightarrow> rest
                          | d # rest' \<Rightarrow> if d = CHR ''+'' \<or> d = CHR ''-'' then rest' else rest);
                 after = dropWhile is_json_digit start
             in if after = start then None else Some after)
          else Some s)"

definition is_valid_json_number_token :: "string \<Rightarrow> bool" where
  "is_valid_json_number_token token =
     (let s = (case token of [] \<Rightarrow> token | c # rest \<Rightarrow> if c = CHR ''-'' then rest else token) in
      case skip_integer s of
        None \<Rightarrow> False
      | Some s \<Rightarrow>
          (case skip_fraction s of
             None \<Rightarrow> False
           | Some s \<Rightarrow> (case skip_exponent s of None \<Rightarrow> False | Some s \<Rightarrow> s = [])))"

definition is_json_whitespace :: "char \<Rightarrow> bool" where
  "is_json_whitespace c \<longleftrightarrow> byte_of c \<in> {32, 9, 10, 13}"

definition trim_json_whitespace :: "string \<Rightarrow> string" where
  "trim_json_whitespace input =
     (let input = dropWhile is_json_whitespace input
      in rev (dropWhile is_json_whitespace (rev input)))"

section \<open>Validation\<close>

fun validate_json_value :: "json_value \<Rightarrow> nat \<Rightarrow> json_error option"
  and validate_elements :: "json_element list \<Rightarrow> nat \<Rightarrow> json_error option"
  and validate_members :: "json_member list \<Rightarrow> nat \<Rightarrow> json_error option" where
  "validate_json_value (JV_type_error e) container_depth = Some e"
| "validate_json_value (JV_array_error e) container_depth =
     (if container_depth > kMaxJsonNestingDepth then Some JE_DEPTH_ERROR else Some e)"
| "validate_json_value (JV_array children) container_depth =
     (if container_depth > kMaxJsonNestingDepth then Some JE_DEPTH_ERROR
      else validate_elements children (container_depth + 1))"
| "validate_json_value (JV_object_error e) container_depth =
     (if container_depth > kMaxJsonNestingDepth then Some JE_DEPTH_ERROR else Some e)"
| "validate_json_value (JV_object members) container_depth =
     (if container_depth > kMaxJsonNestingDepth then Some JE_DEPTH_ERROR
      else validate_members members (container_depth + 1))"
| "validate_json_value (JV_number token _) container_depth =
     (if is_valid_json_number_token token then None else Some JE_NUMBER_ERROR)"
| "validate_json_value (JV_string r) container_depth = error_of r"
| "validate_json_value (JV_boolean r) container_depth = error_of r"
| "validate_json_value (JV_null token) container_depth =
     (if token = ''null'' then None else Some JE_N_ATOM_ERROR)"
| "validate_elements [] depth = None"
| "validate_elements (Element_error e # rest) depth = Some e"
| "validate_elements (Element child # rest) depth =
     (case validate_json_value child depth of
        Some e \<Rightarrow> Some e
      | None \<Rightarrow> validate_elements rest depth)"
| "validate_members [] depth = None"
| "validate_members (Member_error e # rest) depth = Some e"
| "validate_members (Member_key_error e # rest) depth = Some e"
| "validate_members (Member key v # rest) depth =
     (case validate_json_value v depth of
        Some e \<Rightarrow> Some e
      | None \<Rightarrow> validate_members rest depth)"

fun validate_non_object_document :: "json_value \<Rightarrow> string \<Rightarrow> nat \<Rightarrow> json_error option" where
  "validate_non_object_document (JV_array_error e) source child_container_depth = Some e"
| "validate_non_object_document (JV_array children) source child_container_depth =
     validate_elements children child_container_depth"
| "validate_non_object_document (JV_number _ _) source child_container_depth =
     (if is_valid_json_number_token (trim_json_whitespace source) then None else Some JE_NUMBER_ERROR)"
| "validate_non_object_document (JV_string r) source child_container_depth = error_of r"
| "validate_non_object_document (JV_boolean r) source child_container_depth = error_of r"
| "validate_non_object_document (JV_null _) source child_container_depth =
     (if trim_json_whitespace source = ''null'' then None else Some JE_N_ATOM_ERROR)"
| "validate_non_object_document (JV_object_error _) source child_container_depth = Some JE_UNEXPECTED_ERROR"
| "validate_non_object_document (JV_object _) source child_container_depth = Some JE_UNEXPECTED_ERROR"
| "validate_non_object_document (JV_type_error _) source child_container_depth = Some JE_UNEXPECTED_ERROR"

section \<open>The number grammar\<close>

text \<open>RFC 8259: an optional minus, an integer without leading zeros, a fraction, an exponent.\<close>

definition json_int :: "string \<Rightarrow> bool" where
  "json_int s \<longleftrightarrow> s = ''0'' \<or> (\<exists>c ds. s = c # ds \<and> is_digit c \<and> c \<noteq> CHR ''0'' \<and> list_all is_digit ds)"

definition json_frac :: "string \<Rightarrow> bool" where
  "json_frac s \<longleftrightarrow> s = [] \<or> (\<exists>ds. s = CHR ''.'' # ds \<and> ds \<noteq> [] \<and> list_all is_digit ds)"

definition json_exp :: "string \<Rightarrow> bool" where
  "json_exp s \<longleftrightarrow> s = [] \<or> (\<exists>e sign ds. s = e # sign @ ds \<and> e \<in> {CHR ''e'', CHR ''E''} \<and>
     sign \<in> {[], ''+'', ''-''} \<and> ds \<noteq> [] \<and> list_all is_digit ds)"

definition json_number :: "string \<Rightarrow> bool" where
  "json_number s \<longleftrightarrow> (\<exists>sign i f e. s = sign @ i @ f @ e \<and> sign \<in> {[], ''-''} \<and>
     json_int i \<and> json_frac f \<and> json_exp e)"

text \<open>Well-formed values: no error anywhere, and the number of containers nested in them.\<close>

fun json_ok :: "json_value \<Rightarrow> bool"
  and elements_ok :: "json_element list \<Rightarrow> bool"
  and members_ok :: "json_member list \<Rightarrow> bool" where
  "json_ok (JV_type_error _) = False"
| "json_ok (JV_array_error _) = False"
| "json_ok (JV_array xs) = elements_ok xs"
| "json_ok (JV_object_error _) = False"
| "json_ok (JV_object ms) = members_ok ms"
| "json_ok (JV_number token _) = json_number token"
| "json_ok (JV_string r) = (\<exists>s. r = Inr s)"
| "json_ok (JV_boolean r) = (\<exists>b. r = Inr b)"
| "json_ok (JV_null token) = (token = ''null'')"
| "elements_ok [] = True"
| "elements_ok (Element_error _ # _) = False"
| "elements_ok (Element v # rest) = (json_ok v \<and> elements_ok rest)"
| "members_ok [] = True"
| "members_ok (Member_error _ # _) = False"
| "members_ok (Member_key_error _ # _) = False"
| "members_ok (Member _ v # rest) = (json_ok v \<and> members_ok rest)"

fun json_depth :: "json_value \<Rightarrow> nat"
  and elements_depth :: "json_element list \<Rightarrow> nat"
  and members_depth :: "json_member list \<Rightarrow> nat" where
  "json_depth (JV_array xs) = Suc (elements_depth xs)"
| "json_depth (JV_object ms) = Suc (members_depth ms)"
| "json_depth _ = 0"
| "elements_depth [] = 0"
| "elements_depth (Element v # rest) = max (json_depth v) (elements_depth rest)"
| "elements_depth (_ # rest) = elements_depth rest"
| "members_depth [] = 0"
| "members_depth (Member _ v # rest) = max (json_depth v) (members_depth rest)"
| "members_depth (_ # rest) = members_depth rest"

section \<open>Correctness\<close>

lemma is_json_digit_eq [simp]: "is_json_digit = is_digit"
  by (simp add: is_json_digit_def [abs_def])

lemma nonzero_digit_iff: "is_digit c \<and> c \<noteq> CHR ''0'' \<longleftrightarrow> \<not> byte_of c < 49 \<and> \<not> 57 < byte_of c"
proof -
  have "byte_of CHR ''0'' = 48" by (simp add: byte_of_def)
  with byte_of_inj [of c "CHR ''0''"] show ?thesis by (auto simp: is_digit_def)
qed

lemma dropWhile_digits_neq: "ds \<noteq> [] \<Longrightarrow> list_all is_digit ds \<Longrightarrow> dropWhile is_digit (ds @ r) \<noteq> ds @ r"
proof (cases ds)
  case (Cons d ds')
  assume "list_all is_digit ds"
  then have "length (dropWhile is_digit (ds @ r)) < length (ds @ r)"
    using Cons length_dropWhile_le [of is_digit "ds' @ r"] by simp
  then show ?thesis by force
qed simp

lemma digits_split:
  "\<exists>ds. s = ds @ dropWhile is_digit s \<and> list_all is_digit ds \<and> (dropWhile is_digit s \<noteq> s \<longrightarrow> ds \<noteq> [])"
proof (intro exI conjI)
  show "s = takeWhile is_digit s @ dropWhile is_digit s" by simp
  show "list_all is_digit (takeWhile is_digit s)" by (auto simp: list_all_iff dest: set_takeWhileD)
  show "dropWhile is_digit s \<noteq> s \<longrightarrow> takeWhile is_digit s \<noteq> []"
    by (metis append_Nil takeWhile_dropWhile_id)
qed

lemma skip_integer_sound: "skip_integer s = Some r \<Longrightarrow> \<exists>i. s = i @ r \<and> json_int i"
proof (cases s)
  case (Cons c rest)
  assume r: "skip_integer s = Some r"
  show ?thesis
  proof (cases "c = CHR ''0''")
    case True
    with r Cons show ?thesis by (auto simp: skip_integer_def json_int_def split: if_splits)
  next
    case False
    with r Cons have c: "is_digit c" and "r = dropWhile is_digit rest"
      using nonzero_digit_iff [of c] by (auto simp: skip_integer_def split: if_splits)
    with digits_split [of rest] obtain ds where "rest = ds @ r" "list_all is_digit ds" by blast
    with c False Cons show ?thesis by (intro exI [of _ "c # ds"]) (auto simp: json_int_def)
  qed
qed (simp add: skip_integer_def)

lemma skip_fraction_sound: "skip_fraction s = Some r \<Longrightarrow> \<exists>f. s = f @ r \<and> json_frac f"
proof (cases s)
  case (Cons c rest)
  assume r: "skip_fraction s = Some r"
  show ?thesis
  proof (cases "c = CHR ''.''")
    case True
    with r Cons have "r = dropWhile is_digit rest" "r \<noteq> rest"
      by (auto simp: skip_fraction_def Let_def split: if_splits)
    with digits_split [of rest] obtain ds where "rest = ds @ r" "list_all is_digit ds" "ds \<noteq> []" by blast
    with True Cons show ?thesis by (intro exI [of _ "c # ds"]) (auto simp: json_frac_def)
  next
    case False
    with r Cons show ?thesis by (auto simp: skip_fraction_def json_frac_def)
  qed
qed (simp add: skip_fraction_def json_frac_def)

lemma skip_exponent_sound: "skip_exponent s = Some r \<Longrightarrow> \<exists>e. s = e @ r \<and> json_exp e"
proof (cases s)
  case (Cons c rest)
  assume r: "skip_exponent s = Some r"
  show ?thesis
  proof (cases "c \<in> {CHR ''e'', CHR ''E''}")
    case True
    obtain sign start where start: "rest = sign @ start" "sign \<in> {[], ''+'', ''-''}"
      "(case rest of [] \<Rightarrow> rest | d # rest' \<Rightarrow> if d = CHR ''+'' \<or> d = CHR ''-'' then rest' else rest) = start"
      by (cases rest; cases "hd rest = CHR ''+'' \<or> hd rest = CHR ''-''") (use that [of "[]" rest] that [of "[hd rest]" "tl rest"] in auto)
    with True r Cons have "r = dropWhile is_digit start" "r \<noteq> start"
      by (auto simp: skip_exponent_def Let_def split: if_splits)
    with digits_split [of start] obtain ds where "start = ds @ r" "list_all is_digit ds" "ds \<noteq> []" by blast
    with True Cons start show ?thesis
      by (intro exI [of _ "c # sign @ ds"]) (auto simp: json_exp_def)
  next
    case False
    with r Cons show ?thesis by (auto simp: skip_exponent_def json_exp_def)
  qed
qed (simp add: skip_exponent_def json_exp_def)

lemma dropWhile_digits_exact:
  "list_all is_digit ds \<Longrightarrow> r = [] \<or> \<not> is_digit (hd r) \<Longrightarrow> dropWhile is_digit (ds @ r) = r"
  using takeWhile_dropWhile_digits(2) [of ds r] by simp

lemma skip_integer_complete:
  assumes "json_int i" and "r = [] \<or> \<not> is_digit (hd r)"
  shows "skip_integer (i @ r) = Some r"
  using assms(1) unfolding json_int_def
proof (elim disjE exE conjE)
  show "skip_integer (i @ r) = Some r" if "i = ''0''" using that assms(2) by (auto simp: skip_integer_def)
next
  fix c ds
  assume "i = c # ds" "is_digit c" "c \<noteq> CHR ''0''" "list_all is_digit ds"
  then show "skip_integer (i @ r) = Some r"
    using nonzero_digit_iff [of c] dropWhile_digits_exact [OF _ assms(2)] by (simp add: skip_integer_def)
qed

lemma skip_fraction_complete:
  assumes "json_frac f" and "r = [] \<or> \<not> is_digit (hd r) \<and> hd r \<noteq> CHR ''.''"
  shows "skip_fraction (f @ r) = Some r"
proof (cases "f = []")
  case True
  with assms show ?thesis by (cases r) (auto simp: skip_fraction_def)
next
  case False
  then obtain ds where "f = CHR ''.'' # ds" "ds \<noteq> []" "list_all is_digit ds"
    using assms by (auto simp: json_frac_def)
  with assms dropWhile_digits_exact [of ds r] dropWhile_digits_neq [of ds r] show ?thesis
    by (simp add: skip_fraction_def Let_def) auto
qed

lemma skip_exponent_complete: "json_exp e \<Longrightarrow> skip_exponent e = Some []"
proof (cases "e = []")
  case False
  assume "json_exp e"
  with False obtain c sign ds where e: "e = c # sign @ ds" "c \<in> {CHR ''e'', CHR ''E''}"
    "sign \<in> {[], ''+'', ''-''}" "ds \<noteq> []" "list_all is_digit ds"
    by (auto simp: json_exp_def)
  then obtain d ds' where "ds = d # ds'" "is_digit d" by (cases ds) auto
  then have "(case sign @ ds of [] \<Rightarrow> sign @ ds
      | d # rest' \<Rightarrow> if d = CHR ''+'' \<or> d = CHR ''-'' then rest' else sign @ ds) = ds"
    using e by (auto simp: char_class_defs)
  with e dropWhile_digits_exact [of ds "[]"] dropWhile_digits_neq [of ds "[]"] show ?thesis
    unfolding e(1) skip_exponent_def list.case Let_def by auto
qed (simp add: skip_exponent_def)

lemma json_exp_head: "json_exp e \<Longrightarrow> e = [] \<or> \<not> is_digit (hd e) \<and> hd e \<noteq> CHR ''.''"
  by (auto simp: json_exp_def char_class_defs)

lemma json_frac_head:
  "json_frac f \<Longrightarrow> json_exp e \<Longrightarrow> f @ e = [] \<or> \<not> is_digit (hd (f @ e))"
  using json_exp_head [of e] by (auto simp: json_frac_def)

lemma json_int_head: "json_int i \<Longrightarrow> \<exists>c rest. i = c # rest \<and> c \<noteq> CHR ''-''"
  by (auto simp: json_int_def)

lemma valid_number_token_iff: "is_valid_json_number_token s \<longleftrightarrow> json_number s"
proof
  assume valid: "is_valid_json_number_token s"
  obtain sign b where s: "s = sign @ b" "sign \<in> {[], ''-''}"
    "(case s of [] \<Rightarrow> s | c # rest \<Rightarrow> if c = CHR ''-'' then rest else s) = b"
    by (cases s; cases "hd s = CHR ''-''") (use that [of "[]" s] that [of "[hd s]" "tl s"] in auto)
  from valid obtain r r' where "skip_integer b = Some r" "skip_fraction r = Some r'" "skip_exponent r' = Some []"
    unfolding is_valid_json_number_token_def s(3) Let_def by (auto split: option.splits)
  with skip_integer_sound skip_fraction_sound skip_exponent_sound s show "json_number s"
    unfolding json_number_def by (metis append_Nil2)
next
  assume "json_number s"
  then obtain sign i f e where s: "s = sign @ i @ f @ e" "sign \<in> {[], ''-''}" "json_int i" "json_frac f" "json_exp e"
    by (auto simp: json_number_def)
  then have "(case s of [] \<Rightarrow> s | c # rest \<Rightarrow> if c = CHR ''-'' then rest else s) = i @ f @ e"
    using json_int_head [OF s(3)] by auto
  then show "is_valid_json_number_token s"
    using skip_integer_complete [OF s(3) json_frac_head [OF s(4,5)]]
      skip_fraction_complete [OF s(4) json_exp_head [OF s(5)]] skip_exponent_complete [OF s(5)]
    by (simp add: is_valid_json_number_token_def)
qed

lemma validate_iff:
  "validate_json_value v d = None \<longleftrightarrow> json_ok v \<and> (json_depth v = 0 \<or> d + json_depth v \<le> Suc kMaxJsonNestingDepth)"
  "validate_elements xs d = None \<longleftrightarrow>
     elements_ok xs \<and> (elements_depth xs = 0 \<or> d + elements_depth xs \<le> Suc kMaxJsonNestingDepth)"
  "validate_members ms d = None \<longleftrightarrow>
     members_ok ms \<and> (members_depth ms = 0 \<or> d + members_depth ms \<le> Suc kMaxJsonNestingDepth)"
  by (induction v d and xs d and ms d
      rule: validate_json_value_validate_elements_validate_members.induct)
    (auto simp: error_of_def valid_number_token_iff split: option.splits sum.splits)

text \<open>
  C16: the number check accepts exactly the numbers of the JSON grammar, and validation of a value
  at container depth d succeeds exactly when no error is met anywhere in it and its nested
  containers stay within 64 levels.
\<close>

theorem json_validation_exact:
  "(is_valid_json_number_token s \<longleftrightarrow> json_number s) \<and>
   (validate_json_value v d = None \<longleftrightarrow>
      json_ok v \<and> (json_depth v = 0 \<or> d + json_depth v \<le> kMaxJsonNestingDepth + 1))"
  using valid_number_token_iff [of s] validate_iff(1) [of v d] by simp

end
