(* ===== verification/Linear_Probing.thy ===== *)
theory Linear_Probing
  imports Prelude
begin

text \<open>
  Open addressing with linear probing, the scheme of the parser's duplicate-price table and of the
  route table of a live subscription.  \<open>probe\<close> is the common search; the locale \<open>probe_table\<close> is the
  interface its clients rely on: the invariant of a table, what a search finds, and that a table
  that is not full always has room.
\<close>

datatype probe_result = Probe_empty nat | Probe_found nat | Probe_full

fun probe :: "nat \<Rightarrow> (nat \<Rightarrow> 'k option) \<Rightarrow> 'k \<Rightarrow> nat \<Rightarrow> nat \<Rightarrow> probe_result" where
  "probe n T k i 0 = Probe_full"
| "probe n T k i (Suc r) =
     (case T i of
        None \<Rightarrow> Probe_empty i
      | Some k' \<Rightarrow> if k' = k then Probe_found i else probe n T k ((i + 1) mod n) r)"

locale probe_table =
  fixes n :: nat and hash :: "'k \<Rightarrow> nat"
  assumes n_pos: "0 < n" and hash_less: "hash k < n"
begin

text \<open>The position visited after \<open>d\<close> steps of a search for \<open>k\<close>.\<close>

definition slot :: "'k \<Rightarrow> nat \<Rightarrow> nat" where
  "slot k d = (hash k + d) mod n"

text \<open>Every key is stored at the first position of its search that was free.\<close>

definition table_inv :: "(nat \<Rightarrow> 'k option) \<Rightarrow> bool" where
  "table_inv T \<longleftrightarrow> dom T \<subseteq> {..< n} \<and>
     (\<forall>i k. T i = Some k \<longrightarrow>
        (\<exists>d < n. i = slot k d \<and> (\<forall>e < d. T (slot k e) \<noteq> None \<and> T (slot k e) \<noteq> Some k)))"

definition search :: "(nat \<Rightarrow> 'k option) \<Rightarrow> 'k \<Rightarrow> probe_result" where
  "search T k = probe n T k (hash k) n"

lemma slot_0: "slot k 0 = hash k"
  using hash_less [of k] by (simp add: slot_def)

lemma slot_Suc: "(slot k d + 1) mod n = slot k (Suc d)"
  by (simp add: slot_def mod_Suc_eq)

lemma slot_less: "slot k d < n"
  using n_pos by (simp add: slot_def)

lemma slot_covers: "i < n \<Longrightarrow> \<exists>d < n. slot k d = i"
proof -
  assume "i < n"
  then have "slot k ((n - hash k + i) mod n) = i"
    using hash_less [of k] by (simp add: slot_def mod_add_right_eq)
  then show ?thesis using n_pos by (metis mod_less_divisor)
qed

lemma table_inv_empty: "table_inv (\<lambda>_. None)"
  by (simp add: table_inv_def)

text \<open>A search from step \<open>d\<close> ends at the first step that is free or holds the key.\<close>

lemma probe_spec:
  "case probe n T k (slot k d) r of
     Probe_empty i \<Rightarrow> \<exists>e. d \<le> e \<and> e < d + r \<and> i = slot k e \<and> T i = None \<and>
       (\<forall>e'. d \<le> e' \<and> e' < e \<longrightarrow> T (slot k e') \<noteq> None \<and> T (slot k e') \<noteq> Some k)
   | Probe_found i \<Rightarrow> \<exists>e. d \<le> e \<and> e < d + r \<and> i = slot k e \<and> T i = Some k \<and>
       (\<forall>e'. d \<le> e' \<and> e' < e \<longrightarrow> T (slot k e') \<noteq> None \<and> T (slot k e') \<noteq> Some k)
   | Probe_full \<Rightarrow> \<forall>e. d \<le> e \<and> e < d + r \<longrightarrow> T (slot k e) \<noteq> None \<and> T (slot k e) \<noteq> Some k"
proof (induction r arbitrary: d)
  case (Suc r)
  show ?case
  proof (cases "T (slot k d) = None \<or> T (slot k d) = Some k")
    case True
    then show ?thesis by (auto intro!: exI [of _ d])
  next
    case False
    then have step: "probe n T k (slot k d) (Suc r) = probe n T k (slot k (Suc d)) r"
      by (auto simp: slot_Suc [unfolded Suc_eq_plus1 [symmetric]])
    have ext: "(\<forall>e'. d \<le> e' \<and> e' < e \<longrightarrow> T (slot k e') \<noteq> None \<and> T (slot k e') \<noteq> Some k) \<longleftrightarrow>
        (\<forall>e'. Suc d \<le> e' \<and> e' < e \<longrightarrow> T (slot k e') \<noteq> None \<and> T (slot k e') \<noteq> Some k)" for e
      using False all_from_Suc [of d e "\<lambda>e'. T (slot k e') \<noteq> None \<and> T (slot k e') \<noteq> Some k"]
      by (cases "d < e") auto
    show ?thesis
      using Suc.IH [of "Suc d"] unfolding step ext
      by (cases "probe n T k (slot k (Suc d)) r") (auto intro: Suc_leD)
  qed
qed auto

lemma search_found:
  assumes "search T k = Probe_found i"
  shows "T i = Some k \<and> i < n"
  using probe_spec [where T = T and k = k and d = 0 and r = n] assms slot_less by (auto simp: search_def slot_0)

lemma search_empty:
  assumes "table_inv T" and "search T k = Probe_empty i"
  shows "T i = None \<and> i < n \<and> k \<notin> ran T \<and> table_inv (T(i \<mapsto> k))"
proof -
  obtain e where e: "e < n" "i = slot k e" "T i = None"
    and before: "\<forall>e' < e. T (slot k e') \<noteq> None \<and> T (slot k e') \<noteq> Some k"
    using probe_spec [where T = T and k = k and d = 0 and r = n] assms(2) by (auto simp: search_def slot_0)
  have "k \<notin> ran T"
  proof
    assume "k \<in> ran T"
    then obtain j d where d: "T j = Some k" "j = slot k d"
      "\<forall>e' < d. T (slot k e') \<noteq> None \<and> T (slot k e') \<noteq> Some k"
      using assms(1) unfolding table_inv_def ran_def by blast
    then show False using before e by (metis nat_neq_iff option.distinct(1))
  qed
  moreover have "table_inv (T(i \<mapsto> k))"
    unfolding table_inv_def
  proof (intro conjI allI impI)
    show "dom (T(i \<mapsto> k)) \<subseteq> {..< n}" using assms(1) e slot_less by (auto simp: table_inv_def)
  next
    fix j k'
    assume j: "(T(i \<mapsto> k)) j = Some k'"
    let ?P = "\<lambda>d. d < n \<and> j = slot k' d \<and>
      (\<forall>e < d. (T(i \<mapsto> k)) (slot k' e) \<noteq> None \<and> (T(i \<mapsto> k)) (slot k' e) \<noteq> Some k')"
    show "\<exists>d < n. j = slot k' d \<and>
      (\<forall>e < d. (T(i \<mapsto> k)) (slot k' e) \<noteq> None \<and> (T(i \<mapsto> k)) (slot k' e) \<noteq> Some k')"
    proof (cases "j = i")
      case True
      with j have "k' = k" by simp
      with True e before have "?P e" by auto
      then show ?thesis by blast
    next
      case False
      with j have Tj: "T j = Some k'" by simp
      then obtain d where "d < n" "j = slot k' d" "\<forall>e < d. T (slot k' e) \<noteq> None \<and> T (slot k' e) \<noteq> Some k'"
        using assms(1) unfolding table_inv_def by blast
      moreover have "k' \<noteq> k" using Tj \<open>k \<notin> ran T\<close> by (auto simp: ran_def)
      ultimately have "?P d" by auto
      then show ?thesis by blast
    qed
  qed
  ultimately show ?thesis using e slot_less by blast
qed

lemma search_member:
  assumes "table_inv T"
  shows "k \<in> ran T \<longleftrightarrow> (\<exists>i. search T k = Probe_found i)"
proof
  assume k: "k \<in> ran T"
  then obtain j d where d: "T j = Some k" "j = slot k d" "d < n"
    using assms unfolding table_inv_def ran_def by blast
  then have "search T k \<noteq> Probe_full"
    using probe_spec [where T = T and k = k and d = 0 and r = n] by (auto simp: search_def slot_0)
  moreover have "search T k \<noteq> Probe_empty i" for i
    using search_empty [OF assms, of k i] k by blast
  ultimately show "\<exists>i. search T k = Probe_found i" by (cases "search T k") auto
next
  assume "\<exists>i. search T k = Probe_found i"
  then show "k \<in> ran T" using search_found by (auto simp: ran_def)
qed

lemma search_not_full:
  assumes "table_inv T" and "card (dom T) < n"
  shows "search T k \<noteq> Probe_full"
proof
  assume "search T k = Probe_full"
  then have "\<forall>e < n. T (slot k e) \<noteq> None"
    using probe_spec [where T = T and k = k and d = 0 and r = n] by (simp add: search_def slot_0)
  then have "{..< n} \<subseteq> dom T" using slot_covers by (metis domIff lessThan_iff subsetI)
  then have "dom T = {..< n}" using assms(1) by (auto simp: table_inv_def)
  then show False using assms(2) by simp
qed

text \<open>A stored key is found where it is stored.\<close>

lemma search_stored:
  assumes "table_inv T" and "T i = Some k"
  shows "search T k = Probe_found i"
proof -
  obtain d where d: "d < n" "i = slot k d" "\<forall>e < d. T (slot k e) \<noteq> None \<and> T (slot k e) \<noteq> Some k"
    using assms unfolding table_inv_def by blast
  obtain j where j: "search T k = Probe_found j"
    using search_member [OF assms(1), of k] assms(2) by (auto simp: ran_def)
  then obtain e where "e < n" "j = slot k e" "T j = Some k" "\<forall>e' < e. T (slot k e') \<noteq> None \<and> T (slot k e') \<noteq> Some k"
    using probe_spec [where T = T and k = k and d = 0 and r = n] by (auto simp: search_def slot_0)
  with d assms(2) j show ?thesis by (metis nat_neq_iff)
qed

end

end
