(* ===== verification/Payload_Parser.thy ===== *)
theory Payload_Parser
  imports Json_Validation Linear_Probing
begin

unbundle bit_operations_syntax

text \<open>
  The payload parser (\<^verbatim>\<open>src/spot_payload_parser.cpp\<close>).  A payload is read once, in document order,
  through the simdjson observations of \<open>Json_Validation\<close>; \<open>iterate\<close> stands for
  \<open>simdjson::ondemand::parser::iterate\<close>.  Schema errors are recorded (the first one wins) while
  the rest of the document is still validated; malformed or too deeply nested JSON and a full
  duplicate table end the parse at once.  The state that survives a message is the storage of the
  level updates and the duplicate table with its generation stamp.
\<close>

type_synonym iterate_fn = "string \<Rightarrow> nat \<Rightarrow> json_error + json_value"

section \<open>Constants and failures\<close>

definition kDuplicateTableSize :: nat where "kDuplicateTableSize = 32768"
definition kDuplicateTableMask :: nat where "kDuplicateTableMask = kDuplicateTableSize - 1"
definition kRootFieldContainerDepth :: nat where "kRootFieldContainerDepth = 2"
definition kLevelContainerDepth :: nat where "kLevelContainerDepth = 3"
definition kLevelComponentContainerDepth :: nat where "kLevelComponentContainerDepth = 4"

record ParseFailure =
  pf_error :: SpotParseError
  pf_field :: SpotField
  pf_decimal_error :: DecimalParseError

definition no_failure :: ParseFailure where
  "no_failure = \<lparr>pf_error = SPE_none, pf_field = SF_none, pf_decimal_error = Dec_none\<rparr>"

definition pf_failed :: "ParseFailure \<Rightarrow> bool" where
  "pf_failed f \<longleftrightarrow> pf_error f \<noteq> SPE_none"

definition fail :: "SpotParseError \<Rightarrow> SpotField \<Rightarrow> DecimalParseError \<Rightarrow> ParseFailure" where
  "fail e field d = \<lparr>pf_error = e, pf_field = field, pf_decimal_error = d\<rparr>"

definition classify_json_error :: "json_error \<Rightarrow> SpotParseError" where
  "classify_json_error e = (if e = JE_DEPTH_ERROR then SPE_json_nesting_too_deep else SPE_malformed_json)"

definition fail_json :: "json_error \<Rightarrow> ParseFailure" where
  "fail_json e = fail (classify_json_error e) SF_root Dec_none"

definition is_fatal_document_error :: "SpotParseError \<Rightarrow> bool" where
  "is_fatal_document_error e \<longleftrightarrow> e = SPE_malformed_json \<or> e = SPE_json_nesting_too_deep"

text \<open>\<open>normalize\<close> maps lower-case ASCII letters to upper case; sizes are compared first.\<close>

definition normalize_ascii :: "char \<Rightarrow> nat" where
  "normalize_ascii c = (if is_lower c then byte_of c - 32 else byte_of c)"

definition equals_ascii_case_insensitive :: "string \<Rightarrow> string \<Rightarrow> bool" where
  "equals_ascii_case_insensitive lhs rhs =
     (if length lhs \<noteq> length rhs then False
      else list_all2 (\<lambda>a b. normalize_ascii a = normalize_ascii b) lhs rhs)"

definition mark_once :: "u32 \<Rightarrow> u32 \<Rightarrow> bool \<times> u32" where
  "mark_once fields_seen field = (if fields_seen AND field \<noteq> 0 then (False, fields_seen)
     else (True, fields_seen OR field))"

definition is_schema_conversion_error :: "json_error \<Rightarrow> bool" where
  "is_schema_conversion_error e \<longleftrightarrow> e = JE_INCORRECT_TYPE \<or> e = JE_NUMBER_OUT_OF_RANGE"

definition mix_key :: "int \<Rightarrow> BookSide \<Rightarrow> u64" where
  "mix_key price side =
     (let v = (word_of_int price :: u64);
          v = v XOR (if side = Bid then 0x9e3779b97f4a7c15 else 0xd1b54a32d192ed03);
          v = v XOR drop_bit 30 v;
          v = v * 0xbf58476d1ce4e5b9;
          v = v XOR drop_bit 27 v;
          v = v * 0x94d049bb133111eb;
          v = v XOR drop_bit 31 v
      in v)"

section \<open>Scalars\<close>

definition validated_wrong_type :: "json_value \<Rightarrow> SpotField \<Rightarrow> ParseFailure" where
  "validated_wrong_type v field =
     (case validate_json_value v kRootFieldContainerDepth of
        None \<Rightarrow> fail SPE_wrong_type field Dec_none
      | Some e \<Rightarrow> fail_json e)"

definition read_json_string :: "json_value \<Rightarrow> SpotField \<Rightarrow> ParseFailure \<times> string" where
  "read_json_string v field =
     (case json_type_of v of
        Inl e \<Rightarrow> (fail_json e, [])
      | Inr _ \<Rightarrow>
          (case v of
             JV_string (Inr s) \<Rightarrow> (no_failure, s)
           | JV_string (Inl e) \<Rightarrow> (fail_json e, [])
           | _ \<Rightarrow> (validated_wrong_type v field, [])))"

text \<open>The output parameter keeps its old value on an error.\<close>

definition read_json_uint64 :: "json_value \<Rightarrow> u64 \<Rightarrow> SpotField \<Rightarrow> ParseFailure \<times> u64" where
  "read_json_uint64 v old field =
     (case json_type_of v of
        Inl e \<Rightarrow> (fail_json e, old)
      | Inr _ \<Rightarrow>
          (case v of
             JV_number _ (Inr w) \<Rightarrow> (no_failure, w)
           | JV_number _ (Inl e) \<Rightarrow>
               (if is_schema_conversion_error e then fail SPE_wrong_type field Dec_none
                else fail_json e, old)
           | _ \<Rightarrow> (validated_wrong_type v field, old)))"

section \<open>The duplicate table\<close>

datatype InsertResult = Inserted | Duplicate | Table_full

record DuplicateSlot =
  dup_generation :: u64
  dup_price :: int
  dup_side :: BookSide

record ParserImpl =
  pi_updates :: "nat \<Rightarrow> LevelUpdate"
  pi_duplicates :: "nat \<Rightarrow> DuplicateSlot"
  pi_generation :: u64
  pi_update_count :: nat
  pi_encountered_levels :: nat

definition parser_init :: ParserImpl where
  "parser_init = \<lparr>pi_updates = (\<lambda>_. \<lparr>lu_price = 0, lu_quantity = 0, lu_side = Bid\<rparr>),
     pi_duplicates = (\<lambda>_. \<lparr>dup_generation = 0, dup_price = 0, dup_side = Bid\<rparr>),
     pi_generation = 0, pi_update_count = 0, pi_encountered_levels = 0\<rparr>"

definition begin_message :: "ParserImpl \<Rightarrow> ParserImpl" where
  "begin_message impl =
     (let impl = impl\<lparr>pi_update_count := 0, pi_encountered_levels := 0\<rparr> in
      if pi_generation impl = u64_max
      then impl\<lparr>pi_duplicates := (\<lambda>i. (pi_duplicates impl i)\<lparr>dup_generation := 0\<rparr>),
                pi_generation := 1\<rparr>
      else impl\<lparr>pi_generation := pi_generation impl + 1\<rparr>)"

function insert_unique_from ::
    "ParserImpl \<Rightarrow> int \<Rightarrow> BookSide \<Rightarrow> nat \<Rightarrow> nat \<Rightarrow> InsertResult \<times> ParserImpl" where
  "insert_unique_from impl price side slot_index probe_count =
     (if probe_count < kDuplicateTableSize then
        let slot = pi_duplicates impl slot_index in
        if dup_generation slot \<noteq> pi_generation impl
        then (Inserted, impl\<lparr>pi_duplicates := (pi_duplicates impl)(slot_index :=
                \<lparr>dup_generation = pi_generation impl, dup_price = price, dup_side = side\<rparr>)\<rparr>)
        else if dup_price slot = price \<and> dup_side slot = side then (Duplicate, impl)
        else insert_unique_from impl price side ((slot_index + 1) AND kDuplicateTableMask) (Suc probe_count)
      else (Table_full, impl))"
  by pat_completeness auto
termination
  by (relation "measure (\<lambda>(_, _, _, _, p). kDuplicateTableSize - p)") auto

declare insert_unique_from.simps [simp del]

definition insert_unique :: "ParserImpl \<Rightarrow> int \<Rightarrow> BookSide \<Rightarrow> InsertResult \<times> ParserImpl" where
  "insert_unique impl price side =
     insert_unique_from impl price side (unat (mix_key price side) AND kDuplicateTableMask) 0"

section \<open>Levels\<close>

text \<open>\<open>record_error\<close> keeps the first error.\<close>

definition first_failure :: "ParseFailure \<Rightarrow> ParseFailure \<Rightarrow> ParseFailure" where
  "first_failure old new = (if pf_failed old then old else new)"

text \<open>The loop over the components of one level.  \<open>Inl\<close> is a return out of \<open>parse_levels\<close>.\<close>

record PairLoop =
  pr_price_text :: string
  pr_quantity_text :: string
  pr_count :: nat
  pr_valid :: bool
  pr_first_error :: ParseFailure

definition skip_component :: "json_value \<Rightarrow> ParseFailure \<Rightarrow> PairLoop \<Rightarrow> ParseFailure + PairLoop" where
  "skip_component v error st =
     (let st = st\<lparr>pr_first_error := first_failure (pr_first_error st) error, pr_valid := False\<rparr> in
      case validate_json_value v kLevelComponentContainerDepth of
        Some e \<Rightarrow> Inl (fail_json e)
      | None \<Rightarrow> Inr (st\<lparr>pr_count := Suc (pr_count st)\<rparr>))"

definition parse_component :: "json_value \<Rightarrow> PairLoop \<Rightarrow> ParseFailure + PairLoop" where
  "parse_component v st =
     (if pr_count st \<ge> 2 then skip_component v (fail SPE_invalid_level_shape SF_level Dec_none) st
      else case json_type_of v of
        Inl e \<Rightarrow> Inl (fail_json e)
      | Inr _ \<Rightarrow>
          (case v of
             JV_string (Inl e) \<Rightarrow> Inl (fail_json e)
           | JV_string (Inr component) \<Rightarrow>
               Inr ((if pr_count st = 0 then st\<lparr>pr_price_text := component\<rparr>
                     else st\<lparr>pr_quantity_text := component\<rparr>)\<lparr>pr_count := Suc (pr_count st)\<rparr>)
           | _ \<Rightarrow> skip_component v
               (fail SPE_wrong_type (if pr_count st = 0 then SF_price else SF_quantity) Dec_none) st))"

fun parse_components :: "json_element list \<Rightarrow> PairLoop \<Rightarrow> ParseFailure + PairLoop" where
  "parse_components [] st = Inr st"
| "parse_components (Element_error e # rest) st = Inl (fail_json e)"
| "parse_components (Element v # rest) st =
     (case parse_component v st of Inl f \<Rightarrow> Inl f | Inr st \<Rightarrow> parse_components rest st)"

text \<open>The loop over the levels of one side; its first component is set by a return.\<close>

record LevelLoop =
  ll_impl :: ParserImpl
  ll_first_error :: ParseFailure
  ll_side_level_count :: nat
  ll_previous_price :: int
  ll_has_previous_price :: bool

definition ll_record_error :: "ParseFailure \<Rightarrow> LevelLoop \<Rightarrow> LevelLoop" where
  "ll_record_error error st = st\<lparr>ll_first_error := first_failure (ll_first_error st) error\<rparr>"

definition side_field :: "BookSide \<Rightarrow> SpotField" where
  "side_field side = (if side = Bid then SF_bids else SF_asks)"

definition store_level ::
    "BookSide \<Rightarrow> bool \<Rightarrow> int \<Rightarrow> int \<Rightarrow> LevelLoop \<Rightarrow> ParseFailure option \<times> LevelLoop" where
  "store_level side is_partial price quantity st =
     (case insert_unique (ll_impl st) price side of (insert_result, impl) \<Rightarrow>
        let st = st\<lparr>ll_impl := impl\<rparr> in
        (case insert_result of
           Duplicate \<Rightarrow> (None, ll_record_error (fail SPE_duplicate_price SF_price Dec_none) st)
         | Table_full \<Rightarrow> (Some (fail SPE_internal_capacity_error SF_level Dec_none), st)
         | Inserted \<Rightarrow>
             if is_partial \<and> ll_has_previous_price st \<and>
                \<not> (if side = Bid then ll_previous_price st > price else ll_previous_price st < price)
             then (None, ll_record_error (fail SPE_invalid_level_order (side_field side) Dec_none) st)
             else (None, st\<lparr>ll_impl := impl\<lparr>
                     pi_updates := (pi_updates impl)(pi_update_count impl :=
                       \<lparr>lu_price = price, lu_quantity = quantity, lu_side = side\<rparr>),
                     pi_update_count := Suc (pi_update_count impl)\<rparr>,
                   ll_previous_price := price, ll_has_previous_price := True\<rparr>)))"

definition convert_level ::
    "BookSide \<Rightarrow> bool \<Rightarrow> string \<Rightarrow> string \<Rightarrow> LevelLoop \<Rightarrow> ParseFailure option \<times> LevelLoop" where
  "convert_level side is_partial price_text quantity_text st =
     (let parsed_price = parse_decimal_1e8 price_text in
      if \<not> dec_has_value parsed_price
      then (None, ll_record_error (fail SPE_invalid_decimal SF_price (dec_error parsed_price)) st)
      else if dec_value parsed_price \<le> 0
      then (None, ll_record_error (fail SPE_non_positive_price SF_price Dec_none) st)
      else
        let parsed_quantity = parse_decimal_1e8 quantity_text in
        if \<not> dec_has_value parsed_quantity
        then (None, ll_record_error (fail SPE_invalid_decimal SF_quantity (dec_error parsed_quantity)) st)
        else if is_partial \<and> dec_value parsed_quantity \<le> 0
        then (None, ll_record_error (fail SPE_invalid_quantity SF_quantity Dec_none) st)
        else store_level side is_partial (dec_value parsed_price) (dec_value parsed_quantity) st)"

definition skip_level :: "json_value \<Rightarrow> ParseFailure \<Rightarrow> LevelLoop \<Rightarrow> ParseFailure option \<times> LevelLoop" where
  "skip_level v error st =
     (let st = ll_record_error error st in
      case validate_json_value v kLevelContainerDepth of
        Some e \<Rightarrow> (Some (fail_json e), st)
      | None \<Rightarrow> (None, st))"

definition parse_pair ::
    "BookSide \<Rightarrow> bool \<Rightarrow> json_element list \<Rightarrow> LevelLoop \<Rightarrow> ParseFailure option \<times> LevelLoop" where
  "parse_pair side is_partial pair st =
     (case parse_components pair \<lparr>pr_price_text = [], pr_quantity_text = [], pr_count = 0,
        pr_valid = True, pr_first_error = ll_first_error st\<rparr> of
        Inl f \<Rightarrow> (Some f, st)
      | Inr p \<Rightarrow>
          let st = st\<lparr>ll_first_error := pr_first_error p\<rparr> in
          if pr_count p \<noteq> 2
          then (None, ll_record_error (fail SPE_invalid_level_shape SF_level Dec_none) st)
          else if \<not> pr_valid p then (None, st)
          else convert_level side is_partial (pr_price_text p) (pr_quantity_text p) st)"

definition parse_level ::
    "BookSide \<Rightarrow> bool \<Rightarrow> json_value \<Rightarrow> LevelLoop \<Rightarrow> ParseFailure option \<times> LevelLoop" where
  "parse_level side is_partial v st =
     (let impl = ll_impl st;
          over_capacity = (pi_encountered_levels impl \<ge> kMaxDepthUpdates \<or>
            is_partial \<and> ll_side_level_count st \<ge> kMaxPartialDepthLevelsPerSide);
          st = st\<lparr>ll_impl := impl\<lparr>pi_encountered_levels := Suc (pi_encountered_levels impl)\<rparr>,
                  ll_side_level_count := Suc (ll_side_level_count st)\<rparr>
      in if over_capacity then skip_level v (fail SPE_too_many_levels (side_field side) Dec_none) st
         else case json_type_of v of
           Inl e \<Rightarrow> (Some (fail_json e), st)
         | Inr _ \<Rightarrow>
             (case v of
                JV_array_error e \<Rightarrow> (Some (fail_json e), st)
              | JV_array pair \<Rightarrow> parse_pair side is_partial pair st
              | _ \<Rightarrow> skip_level v (fail SPE_invalid_level_shape SF_level Dec_none) st))"

fun parse_level_list ::
    "BookSide \<Rightarrow> bool \<Rightarrow> json_element list \<Rightarrow> LevelLoop \<Rightarrow> ParseFailure option \<times> LevelLoop" where
  "parse_level_list side is_partial [] st = (None, st)"
| "parse_level_list side is_partial (Element_error e # rest) st = (Some (fail_json e), st)"
| "parse_level_list side is_partial (Element v # rest) st =
     (case parse_level side is_partial v st of
        (Some f, st) \<Rightarrow> (Some f, st)
      | (None, st) \<Rightarrow> parse_level_list side is_partial rest st)"

text \<open>
  The range a view denotes is read off the storage when it is made: later levels are stored behind
  it.  An early return leaves the output parameter alone.
\<close>

definition update_range :: "ParserImpl \<Rightarrow> nat \<Rightarrow> LevelUpdate list" where
  "update_range impl start = map (pi_updates impl) [start ..< pi_update_count impl]"

definition parse_levels ::
    "ParserImpl \<Rightarrow> json_value \<Rightarrow> BookSide \<Rightarrow> bool \<Rightarrow> LevelUpdate list \<Rightarrow>
     ParseFailure \<times> LevelUpdate list \<times> ParserImpl" where
  "parse_levels impl v side is_partial output =
     (case json_type_of v of
        Inl e \<Rightarrow> (fail_json e, output, impl)
      | Inr _ \<Rightarrow>
          (case v of
             JV_array_error e \<Rightarrow> (fail_json e, output, impl)
           | JV_array levels \<Rightarrow>
               (case parse_level_list side is_partial levels \<lparr>ll_impl = impl, ll_first_error = no_failure,
                  ll_side_level_count = 0, ll_previous_price = 0, ll_has_previous_price = False\<rparr> of
                  (Some f, st) \<Rightarrow> (f, output, ll_impl st)
                | (None, st) \<Rightarrow>
                    (ll_first_error st, update_range (ll_impl st) (pi_update_count impl), ll_impl st))
           | _ \<Rightarrow>
               (case validate_json_value v kRootFieldContainerDepth of
                  Some e \<Rightarrow> (fail_json e, output, impl)
                | None \<Rightarrow> (fail SPE_wrong_type (side_field side) Dec_none, output, impl))))"

section \<open>Trades\<close>

text \<open>One member of a trade object; true means return.\<close>

definition set_error :: "SpotParseError \<Rightarrow> SpotField \<Rightarrow> SpotParseResult \<Rightarrow> SpotParseResult" where
  "set_error e field r = r\<lparr>spr_error := e, spr_field := field\<rparr>"

definition update_trade ::
    "(SpotTradeAuditEvent \<Rightarrow> SpotTradeAuditEvent) \<Rightarrow> SpotParseResult \<Rightarrow> SpotParseResult" where
  "update_trade f r = r\<lparr>spr_event := (spr_event r)\<lparr>se_trade := f (se_trade (spr_event r))\<rparr>\<rparr>"

definition trade_member :: "string \<Rightarrow> string \<Rightarrow> json_value \<Rightarrow> SpotParseResult \<Rightarrow> bool \<times> SpotParseResult" where
  "trade_member expected_symbol key v r =
     (if key = ''e'' then
        (let r = update_trade (event_type_present_update (\<lambda>_. True)) r in
         case read_json_string v SF_event_type of (value_error, event_type) \<Rightarrow>
           if is_fatal_document_error (pf_error value_error)
           then (True, set_error (pf_error value_error) (pf_field value_error) r)
           else (False, update_trade (event_type_matches_update
                  (\<lambda>m. m \<and> \<not> pf_failed value_error \<and> event_type = ''trade'')) r))
      else if key = ''s'' then
        (let r = update_trade (symbol_present_update (\<lambda>_. True)) r in
         case read_json_string v SF_symbol of (value_error, symbol) \<Rightarrow>
           if is_fatal_document_error (pf_error value_error)
           then (True, set_error (pf_error value_error) (pf_field value_error) r)
           else (False, update_trade (symbol_matches_update
                  (\<lambda>m. m \<and> \<not> pf_failed value_error \<and> equals_ascii_case_insensitive symbol expected_symbol)) r))
      else
        (case validate_json_value v kRootFieldContainerDepth of
           Some e \<Rightarrow> (True, set_error (classify_json_error e) SF_root r)
         | None \<Rightarrow> (False, r)))"

fun trade_members :: "string \<Rightarrow> json_member list \<Rightarrow> SpotParseResult \<Rightarrow> SpotParseResult" where
  "trade_members expected_symbol [] r = r"
| "trade_members expected_symbol (Member_error e # rest) r = set_error (classify_json_error e) SF_root r"
| "trade_members expected_symbol (Member_key_error e # rest) r = set_error (classify_json_error e) SF_root r"
| "trade_members expected_symbol (Member key v # rest) r =
     (case trade_member expected_symbol key v r of
        (True, r) \<Rightarrow> r
      | (False, r) \<Rightarrow> trade_members expected_symbol rest r)"

definition result_of_kind :: "SpotStreamKind \<Rightarrow> SpotParseResult" where
  "result_of_kind kind = default_parse_result\<lparr>spr_event := (spr_event default_parse_result)\<lparr>se_kind := kind\<rparr>\<rparr>"

definition parse_trade :: "json_member list \<Rightarrow> string \<Rightarrow> SpotParseResult" where
  "parse_trade members expected_symbol = trade_members expected_symbol members (result_of_kind Trade)"

section \<open>Depth\<close>

definition kEventTypeBit :: u32 where "kEventTypeBit = 1"
definition kEventTimeBit :: u32 where "kEventTimeBit = 2"
definition kTransactionTimeBit :: u32 where "kTransactionTimeBit = 4"
definition kSymbolBit :: u32 where "kSymbolBit = 8"
definition kFirstUpdateIdBit :: u32 where "kFirstUpdateIdBit = 16"
definition kFinalUpdateIdBit :: u32 where "kFinalUpdateIdBit = 32"
definition kPreviousUpdateIdBit :: u32 where "kPreviousUpdateIdBit = 64"
definition kLastUpdateIdBit :: u32 where "kLastUpdateIdBit = 128"
definition kBidsBit :: u32 where "kBidsBit = 256"
definition kAsksBit :: u32 where "kAsksBit = 512"

definition kSpotDiffRequired :: u32 where
  "kSpotDiffRequired = kEventTypeBit OR kEventTimeBit OR kSymbolBit OR kFirstUpdateIdBit OR
     kFinalUpdateIdBit OR kBidsBit OR kAsksBit"

definition kSpotPartialRequired :: u32 where
  "kSpotPartialRequired = kLastUpdateIdBit OR kBidsBit OR kAsksBit"

definition kUsdMRequired :: u32 where
  "kUsdMRequired = kEventTypeBit OR kEventTimeBit OR kTransactionTimeBit OR kSymbolBit OR
     kFirstUpdateIdBit OR kFinalUpdateIdBit OR kPreviousUpdateIdBit OR kBidsBit OR kAsksBit"

record DepthLoop =
  dl_result :: SpotParseResult
  dl_fields :: u32
  dl_impl :: ParserImpl

definition dl_record_error :: "ParseFailure \<Rightarrow> DepthLoop \<Rightarrow> DepthLoop" where
  "dl_record_error f st =
     (if spr_error (dl_result st) = SPE_none
      then st\<lparr>dl_result := (dl_result st)\<lparr>spr_error := pf_error f, spr_field := pf_field f,
             spr_decimal_error := pf_decimal_error f\<rparr>\<rparr>
      else st)"

definition dl_overwrite_error :: "ParseFailure \<Rightarrow> DepthLoop \<Rightarrow> DepthLoop" where
  "dl_overwrite_error f st =
     st\<lparr>dl_result := (dl_result st)\<lparr>spr_error := pf_error f, spr_field := pf_field f,
       spr_decimal_error := pf_decimal_error f\<rparr>\<rparr>"

definition apply_failure :: "ParseFailure \<Rightarrow> DepthLoop \<Rightarrow> bool \<times> DepthLoop" where
  "apply_failure f st =
     (if \<not> pf_failed f then (False, st)
      else if is_fatal_document_error (pf_error f) then (True, dl_overwrite_error f st)
      else (True, dl_record_error f st))"

definition duplicate_field :: "u32 \<Rightarrow> SpotField \<Rightarrow> json_value \<Rightarrow> DepthLoop \<Rightarrow> bool \<times> DepthLoop" where
  "duplicate_field field_bit field v st =
     (case mark_once (dl_fields st) field_bit of
        (True, fs) \<Rightarrow> (False, st\<lparr>dl_fields := fs\<rparr>)
      | (False, _) \<Rightarrow>
          let st = dl_record_error (fail SPE_duplicate_field field Dec_none) st in
          (case validate_json_value v kRootFieldContainerDepth of
             Some e \<Rightarrow> (True, dl_overwrite_error (fail_json e) st)
           | None \<Rightarrow> (True, st)))"

definition fatal_return :: "DepthLoop \<Rightarrow> bool \<times> DepthLoop" where
  "fatal_return st = (is_fatal_document_error (spr_error (dl_result st)), st)"

definition update_depth :: "(SpotDepthEvent \<Rightarrow> SpotDepthEvent) \<Rightarrow> DepthLoop \<Rightarrow> DepthLoop" where
  "update_depth f st = st\<lparr>dl_result := (dl_result st)\<lparr>spr_event := (spr_event (dl_result st))
     \<lparr>se_depth := f (se_depth (spr_event (dl_result st)))\<rparr>\<rparr>\<rparr>"

text \<open>
  The branches for string members, for integer members (with the member of the event they set and
  what follows a successful read), and for the two level lists.  Each starts with the duplicate
  check; the Boolean result means return.
\<close>

definition string_field ::
    "u32 \<Rightarrow> SpotField \<Rightarrow> (string \<Rightarrow> bool) \<Rightarrow> SpotParseError \<Rightarrow> json_value \<Rightarrow> DepthLoop \<Rightarrow> bool \<times> DepthLoop" where
  "string_field field_bit field matches mismatch v st =
     (case duplicate_field field_bit field v st of
        (True, st) \<Rightarrow> fatal_return st
      | (False, st) \<Rightarrow>
          (case read_json_string v field of (value_error, s) \<Rightarrow>
             (case apply_failure value_error st of
                (True, st) \<Rightarrow> fatal_return st
              | (False, st) \<Rightarrow>
                  if matches s then (False, st)
                  else (False, dl_record_error (fail mismatch field Dec_none) st))))"

definition uint_field ::
    "u32 \<Rightarrow> SpotField \<Rightarrow> (SpotDepthEvent \<Rightarrow> u64) \<Rightarrow> (u64 \<Rightarrow> SpotDepthEvent \<Rightarrow> SpotDepthEvent) \<Rightarrow>
     (SpotDepthEvent \<Rightarrow> SpotDepthEvent) \<Rightarrow> json_value \<Rightarrow> DepthLoop \<Rightarrow> bool \<times> DepthLoop" where
  "uint_field field_bit field old store after v st =
     (case duplicate_field field_bit field v st of
        (True, st) \<Rightarrow> fatal_return st
      | (False, st) \<Rightarrow>
          (case read_json_uint64 v (old (se_depth (spr_event (dl_result st)))) field of (value_error, w) \<Rightarrow>
             (case apply_failure value_error (update_depth (store w) st) of
                (True, st) \<Rightarrow> fatal_return st
              | (False, st) \<Rightarrow> (False, update_depth after st))))"

definition levels_field ::
    "u32 \<Rightarrow> SpotField \<Rightarrow> BookSide \<Rightarrow> bool \<Rightarrow> (SpotDepthEvent \<Rightarrow> LevelUpdate list) \<Rightarrow>
     (LevelUpdate list \<Rightarrow> SpotDepthEvent \<Rightarrow> SpotDepthEvent) \<Rightarrow> json_value \<Rightarrow> DepthLoop \<Rightarrow> bool \<times> DepthLoop" where
  "levels_field field_bit field side is_partial old store v st =
     (case duplicate_field field_bit field v st of
        (True, st) \<Rightarrow> fatal_return st
      | (False, st) \<Rightarrow>
          (case parse_levels (dl_impl st) v side is_partial (old (se_depth (spr_event (dl_result st)))) of
             (f, output, impl) \<Rightarrow>
               let st = update_depth (store output) (st\<lparr>dl_impl := impl\<rparr>) in
               if \<not> pf_failed f then (False, st)
               else if is_fatal_document_error (pf_error f) \<or> pf_error f = SPE_internal_capacity_error
               then (True, dl_overwrite_error f st)
               else (False, dl_record_error f st)))"

definition uses_depth_update_shape :: "PayloadVenue \<Rightarrow> SpotStreamKind \<Rightarrow> bool" where
  "uses_depth_update_shape venue kind \<longleftrightarrow> venue = Venue_usdm \<or> kind = Depth_diff"

definition depth_member ::
    "PayloadVenue \<Rightarrow> SpotStreamKind \<Rightarrow> string \<Rightarrow> string \<Rightarrow> json_value \<Rightarrow> DepthLoop \<Rightarrow> bool \<times> DepthLoop" where
  "depth_member venue kind expected_symbol key v st =
     (let is_usdm = (venue = Venue_usdm); shape = uses_depth_update_shape venue kind in
      if shape \<and> key = ''e'' then
        string_field kEventTypeBit SF_event_type (\<lambda>s. s = ''depthUpdate'') SPE_unexpected_event_type v st
      else if shape \<and> key = ''E'' then
        uint_field kEventTimeBit SF_event_time event_time_ms (\<lambda>w. event_time_ms_update (\<lambda>_. w))
          (has_event_time_update (\<lambda>_. True)) v st
      else if is_usdm \<and> key = ''T'' then
        uint_field kTransactionTimeBit SF_transaction_time transaction_time_ms
          (\<lambda>w. transaction_time_ms_update (\<lambda>_. w)) (has_transaction_time_update (\<lambda>_. True)) v st
      else if shape \<and> key = ''s'' then
        string_field kSymbolBit SF_symbol (\<lambda>s. equals_ascii_case_insensitive s expected_symbol)
          SPE_symbol_mismatch v st
      else if shape \<and> key = ''U'' then
        uint_field kFirstUpdateIdBit SF_first_update_id first_update_id
          (\<lambda>w. first_update_id_update (\<lambda>_. w)) (\<lambda>e. e) v st
      else if shape \<and> key = ''u'' then
        uint_field kFinalUpdateIdBit SF_final_update_id final_update_id
          (\<lambda>w. final_update_id_update (\<lambda>_. w)) (\<lambda>e. e) v st
      else if is_usdm \<and> key = ''pu'' then
        uint_field kPreviousUpdateIdBit SF_previous_update_id previous_update_id
          (\<lambda>w. previous_update_id_update (\<lambda>_. w)) (has_previous_update_id_update (\<lambda>_. True)) v st
      else if \<not> is_usdm \<and> kind = Depth5 \<and> key = ''lastUpdateId'' then
        uint_field kLastUpdateIdBit SF_last_update_id final_update_id
          (\<lambda>w. final_update_id_update (\<lambda>_. w)) (\<lambda>e. e\<lparr>first_update_id := final_update_id e\<rparr>) v st
      else if (shape \<and> key = ''b'') \<or> (\<not> shape \<and> key = ''bids'') then
        levels_field kBidsBit SF_bids Bid (kind = Depth5) ev_bids (\<lambda>r. ev_bids_update (\<lambda>_. r)) v st
      else if (shape \<and> key = ''a'') \<or> (\<not> shape \<and> key = ''asks'') then
        levels_field kAsksBit SF_asks Ask (kind = Depth5) ev_asks (\<lambda>r. ev_asks_update (\<lambda>_. r)) v st
      else
        (case validate_json_value v kRootFieldContainerDepth of
           Some e \<Rightarrow> (True, dl_overwrite_error (fail_json e) st)
         | None \<Rightarrow> (False, st)))"

text \<open>The loop; its Boolean result says that it returned out of \<open>parse_depth\<close>.\<close>

fun depth_members ::
    "PayloadVenue \<Rightarrow> SpotStreamKind \<Rightarrow> string \<Rightarrow> json_member list \<Rightarrow> DepthLoop \<Rightarrow> bool \<times> DepthLoop" where
  "depth_members venue kind expected_symbol [] st = (False, st)"
| "depth_members venue kind expected_symbol (Member_error e # rest) st =
     (True, st\<lparr>dl_result := set_error (classify_json_error e) SF_root (dl_result st)\<rparr>)"
| "depth_members venue kind expected_symbol (Member_key_error e # rest) st =
     (True, st\<lparr>dl_result := set_error (classify_json_error e) SF_root (dl_result st)\<rparr>)"
| "depth_members venue kind expected_symbol (Member key v # rest) st =
     (case depth_member venue kind expected_symbol key v st of
        (True, st) \<Rightarrow> (True, st)
      | (False, st) \<Rightarrow> depth_members venue kind expected_symbol rest st)"

definition missing_field :: "PayloadVenue \<Rightarrow> SpotStreamKind \<Rightarrow> u32 \<Rightarrow> SpotField" where
  "missing_field venue kind fs =
     (let is_usdm = (venue = Venue_usdm); shape = uses_depth_update_shape venue kind in
      if fs AND kEventTypeBit = 0 \<and> shape then SF_event_type
      else if fs AND kEventTimeBit = 0 \<and> shape then SF_event_time
      else if fs AND kTransactionTimeBit = 0 \<and> is_usdm then SF_transaction_time
      else if fs AND kSymbolBit = 0 \<and> shape then SF_symbol
      else if fs AND kFirstUpdateIdBit = 0 \<and> shape then SF_first_update_id
      else if fs AND kFinalUpdateIdBit = 0 \<and> shape then SF_final_update_id
      else if fs AND kPreviousUpdateIdBit = 0 \<and> is_usdm then SF_previous_update_id
      else if fs AND kLastUpdateIdBit = 0 \<and> \<not> is_usdm \<and> kind = Depth5 then SF_last_update_id
      else if fs AND kBidsBit = 0 then SF_bids
      else SF_asks)"

definition required_fields :: "PayloadVenue \<Rightarrow> SpotStreamKind \<Rightarrow> u32" where
  "required_fields venue kind =
     (if venue = Venue_usdm then kUsdMRequired
      else if kind = Depth_diff then kSpotDiffRequired else kSpotPartialRequired)"

definition finish_depth :: "PayloadVenue \<Rightarrow> SpotStreamKind \<Rightarrow> DepthLoop \<Rightarrow> SpotParseResult" where
  "finish_depth venue kind st =
     (let result = dl_result st; depth = se_depth (spr_event result); required = required_fields venue kind in
      if spr_error result \<noteq> SPE_none then result
      else if dl_fields st AND required \<noteq> required
      then set_error SPE_missing_field (missing_field venue kind (dl_fields st)) result
      else if uses_depth_update_shape venue kind \<and> first_update_id depth > final_update_id depth
      then set_error SPE_invalid_update_range SF_first_update_id result
      else if venue = Venue_usdm \<and> previous_update_id depth \<ge> final_update_id depth
      then set_error SPE_invalid_update_range SF_previous_update_id result
      else if kind = Depth5 \<and> length (ev_bids depth) \<noteq> 0 \<and> length (ev_asks depth) \<noteq> 0 \<and>
              lu_price (ev_bids depth ! 0) \<ge> lu_price (ev_asks depth ! 0)
      then set_error SPE_crossed_book SF_level result
      else result)"

definition parse_depth ::
    "ParserImpl \<Rightarrow> json_member list \<Rightarrow> PayloadVenue \<Rightarrow> SpotStreamKind \<Rightarrow> string \<Rightarrow> SpotParseResult \<times> ParserImpl" where
  "parse_depth impl members venue kind expected_symbol =
     (case depth_members venue kind expected_symbol members
        \<lparr>dl_result = result_of_kind kind, dl_fields = 0, dl_impl = impl\<rparr> of
        (True, st) \<Rightarrow> (dl_result st, dl_impl st)
      | (False, st) \<Rightarrow> (finish_depth venue kind st, dl_impl st))"

section \<open>The entry point\<close>

text \<open>A moved-from parser has no implementation: \<open>None\<close>.\<close>

definition parse_root ::
    "ParserImpl \<Rightarrow> json_value \<Rightarrow> string \<Rightarrow> PayloadVenue \<Rightarrow> SpotStreamKind \<Rightarrow> string \<Rightarrow>
     SpotParseResult \<times> ParserImpl" where
  "parse_root impl document source venue kind expected_symbol =
     (case json_type_of document of
        Inl e \<Rightarrow> (set_error (classify_json_error e) SF_root (result_of_kind kind), impl)
      | Inr _ \<Rightarrow>
          (case document of
             JV_object_error e \<Rightarrow> (set_error (classify_json_error e) SF_root (result_of_kind kind), impl)
           | JV_object members \<Rightarrow>
               if kind = Trade then (parse_trade members expected_symbol, impl)
               else parse_depth impl members venue kind expected_symbol
           | _ \<Rightarrow>
               (set_error
                  (case validate_non_object_document document source kRootFieldContainerDepth of
                     None \<Rightarrow> SPE_root_not_object
                   | Some e \<Rightarrow> classify_json_error e)
                  SF_root (result_of_kind kind), impl)))"

definition parse ::
    "iterate_fn \<Rightarrow> ParserImpl option \<Rightarrow> PayloadVenue \<Rightarrow> SpotStreamKind \<Rightarrow> string \<Rightarrow> PaddedJsonView \<Rightarrow>
     SpotParseResult \<times> ParserImpl option" where
  "parse iterate impl venue kind expected_symbol payload =
     (case impl of
        None \<Rightarrow> (set_error SPE_invalid_input_buffer SF_root (result_of_kind kind), impl)
      | Some i \<Rightarrow>
          if pj_data payload = None \<or> pj_capacity payload < pj_size payload \<or>
             pj_capacity payload - pj_size payload < kJsonPaddingBytes
          then (set_error SPE_invalid_input_buffer SF_root (result_of_kind kind), impl)
          else if pj_size payload > kMaxPayloadBytes
          then (set_error SPE_payload_too_large SF_root (result_of_kind kind), impl)
          else
            let i = begin_message i in
            (case iterate (pj_bytes payload) (pj_capacity payload) of
               Inl e \<Rightarrow> (set_error (classify_json_error e) SF_root (result_of_kind kind), Some i)
             | Inr document \<Rightarrow>
                 (case parse_root i document (pj_bytes payload) venue kind expected_symbol of
                    (r, i) \<Rightarrow> (r, Some i))))"

definition parse_spot ::
    "iterate_fn \<Rightarrow> ParserImpl option \<Rightarrow> SpotStreamKind \<Rightarrow> string \<Rightarrow> PaddedJsonView \<Rightarrow>
     SpotParseResult \<times> ParserImpl option" where
  "parse_spot iterate impl kind expected_symbol payload =
     parse iterate impl Venue_spot kind expected_symbol payload"

end
