(* ===== verification/Top_Five_Book.thy ===== *)
theory Top_Five_Book
  imports Payload_Types
begin

text \<open>
  The partial top-five book (\<^verbatim>\<open>src/spot_book.cpp\<close>).  \<open>TopFiveBookCore\<close> keeps each side as an array of
  five levels and a size; \<open>SpotBookState\<close> and \<open>UsdMBookState\<close> add the venues' sequencing rules.
  The array operations are modelled as written (index loops and element moves); \<open>side_view\<close> reads
  off the visible levels, and the refinement lemmas relate each array operation to a list
  operation and a whole differential update to the top five levels of an updated price map.
\<close>

section \<open>Data\<close>

definition kVisibleBookDepth :: nat where "kVisibleBookDepth = 5"

record BookLevel =
  bl_price :: int
  bl_quantity :: int

definition empty_level :: BookLevel where
  "empty_level = \<lparr>bl_price = 0, bl_quantity = 0\<rparr>"

record Side =
  side_levels :: "BookLevel list"
  side_size :: nat

definition empty_side :: Side where
  "empty_side = \<lparr>side_levels = replicate 5 empty_level, side_size = 0\<rparr>"

datatype BookRowSide = Row_bid | Row_ask | Row_neutral

datatype BookApplyStatus =
    BA_applied_refresh
  | BA_applied_diff
  | BA_stale_refresh
  | BA_stale_diff
  | BA_ignored_while_invalid
  | BA_sequence_gap
  | BA_crossed_book

record BookApplyResult =
  bar_status :: BookApplyStatus
  bar_side :: BookRowSide

definition emits_snapshot :: "BookApplyResult \<Rightarrow> bool" where
  "emits_snapshot r \<longleftrightarrow> bar_status r = BA_applied_refresh \<or> bar_status r = BA_applied_diff"

record TopFiveBookCore =
  core_bids :: Side
  core_asks :: Side
  core_last_update_id :: u64
  core_valid :: bool

definition empty_core :: TopFiveBookCore where
  "empty_core = \<lparr>core_bids = empty_side, core_asks = empty_side, core_last_update_id = 0,
     core_valid = False\<rparr>"

section \<open>Array operations\<close>

definition better_price :: "BookSide \<Rightarrow> int \<Rightarrow> int \<Rightarrow> bool" where
  "better_price side lhs rhs = (if side = Bid then lhs > rhs else lhs < rhs)"

definition row_side :: "SpotDepthEvent \<Rightarrow> BookRowSide" where
  "row_side ev = (let has_bids = (length (ev_bids ev) \<noteq> 0); has_asks = (length (ev_asks ev) \<noteq> 0) in
     if has_bids = has_asks then Row_neutral else if has_bids then Row_bid else Row_ask)"

text \<open>The loop of \<open>find_price\<close>; the size of the side means "not found".\<close>

function find_price_from :: "Side \<Rightarrow> int \<Rightarrow> nat \<Rightarrow> nat" where
  "find_price_from side price index =
     (if index < side_size side
      then if bl_price (side_levels side ! index) = price then index
           else find_price_from side price (Suc index)
      else side_size side)"
  by pat_completeness auto
termination
  by (relation "measure (\<lambda>(s, _, i). side_size s - i)") auto

declare find_price_from.simps [simp del]

definition find_price :: "Side \<Rightarrow> int \<Rightarrow> nat" where
  "find_price side price = find_price_from side price 0"

text \<open>\<open>erase_level\<close>: move the later levels down by one, shrink, clear the freed cell.\<close>

function shift_down :: "BookLevel list \<Rightarrow> nat \<Rightarrow> nat \<Rightarrow> BookLevel list" where
  "shift_down levels destination count =
     (if destination + 1 < count
      then shift_down (levels[destination := levels ! (destination + 1)]) (destination + 1) count
      else levels)"
  by pat_completeness auto
termination
  by (relation "measure (\<lambda>(_, d, n). n - d)") auto

declare shift_down.simps [simp del]

definition erase_level :: "Side \<Rightarrow> nat \<Rightarrow> Side" where
  "erase_level side index =
     (let levels = shift_down (side_levels side) index (side_size side);
          new_size = side_size side - 1
      in \<lparr>side_levels = levels[new_size := empty_level], side_size = new_size\<rparr>)"

text \<open>\<open>insert_level\<close>: find the position, give up when it lies beyond a full side, move the
  worse levels up by one (the last one falls out of a full side), store the level.\<close>

function insert_position :: "Side \<Rightarrow> BookSide \<Rightarrow> int \<Rightarrow> nat \<Rightarrow> nat" where
  "insert_position side book_side price position =
     (if position < side_size side \<and> better_price book_side (bl_price (side_levels side ! position)) price
      then insert_position side book_side price (Suc position)
      else position)"
  by pat_completeness auto
termination
  by (relation "measure (\<lambda>(s, _, _, i). side_size s - i)") auto

declare insert_position.simps [simp del]

fun shift_up :: "BookLevel list \<Rightarrow> nat \<Rightarrow> nat \<Rightarrow> BookLevel list" where
  "shift_up levels destination position =
     (if destination > position
      then shift_up (levels[destination := levels ! (destination - 1)]) (destination - 1) position
      else levels)"

declare shift_up.simps [simp del]

definition insert_level :: "Side \<Rightarrow> BookSide \<Rightarrow> BookLevel \<Rightarrow> Side" where
  "insert_level side book_side level =
     (let position = insert_position side book_side (bl_price level) 0 in
      if side_size side = kVisibleBookDepth \<and> position = kVisibleBookDepth then side
      else
        let destination_limit =
              (if side_size side < kVisibleBookDepth then side_size side else kVisibleBookDepth - 1);
            levels = shift_up (side_levels side) destination_limit position
        in \<lparr>side_levels = levels[position := level],
            side_size = (if side_size side < kVisibleBookDepth then Suc (side_size side)
                         else side_size side)\<rparr>)"

text \<open>
  A partial refresh replaces a side.  The source asserts at most five updates, of the right side,
  with positive price and quantity: the parser's guarantee (\<open>refresh_range_ok\<close> below).
\<close>

definition refresh_step :: "Side \<Rightarrow> LevelUpdate \<Rightarrow> Side" where
  "refresh_step result update =
     \<lparr>side_levels = (side_levels result)[side_size result :=
        \<lparr>bl_price = lu_price update, bl_quantity = lu_quantity update\<rparr>],
      side_size = Suc (side_size result)\<rparr>"

definition make_refresh_side :: "LevelUpdate list \<Rightarrow> Side" where
  "make_refresh_side updates = foldl refresh_step empty_side updates"

text \<open>
  A differential update works on a copy: the first loop changes or deletes levels that were
  visible before the event, the second inserts the new ones.
\<close>

definition change_existing :: "Side \<Rightarrow> Side \<Rightarrow> LevelUpdate \<Rightarrow> Side" where
  "change_existing original candidate update =
     (let original_index = find_price original (lu_price update) in
      if original_index = side_size original then candidate
      else
        let candidate_index = find_price candidate (lu_price update) in
        if lu_quantity update = 0 then erase_level candidate candidate_index
        else candidate\<lparr>side_levels := (side_levels candidate)[candidate_index :=
               (side_levels candidate ! candidate_index)\<lparr>bl_quantity := lu_quantity update\<rparr>]\<rparr>)"

definition insert_new :: "Side \<Rightarrow> BookSide \<Rightarrow> Side \<Rightarrow> LevelUpdate \<Rightarrow> Side" where
  "insert_new original side candidate update =
     (if lu_quantity update = 0 \<or> find_price original (lu_price update) \<noteq> side_size original
      then candidate
      else insert_level candidate side
             \<lparr>bl_price = lu_price update, bl_quantity = lu_quantity update\<rparr>)"

definition apply_updates :: "Side \<Rightarrow> LevelUpdate list \<Rightarrow> BookSide \<Rightarrow> Side" where
  "apply_updates original updates side =
     (let candidate = foldl (change_existing original) original updates
      in foldl (insert_new original side) candidate updates)"

definition sides_crossed :: "Side \<Rightarrow> Side \<Rightarrow> bool" where
  "sides_crossed bids asks \<longleftrightarrow>
     side_size bids \<noteq> 0 \<and> side_size asks \<noteq> 0 \<and>
     bl_price (side_levels bids ! 0) \<ge> bl_price (side_levels asks ! 0)"

section \<open>The shared core\<close>

text \<open>
  A \<open>BookSideView\<close> is a pointer, possibly null, to a block of levels and a size.  \<open>core_bids_view\<close> and
  \<open>core_asks_view\<close> are the \<open>bids\<close> and \<open>asks\<close> members: they point at the core's own arrays.
\<close>

record BookSideView =
  bsv_data :: "BookLevel list option"
  bsv_size :: nat

definition bsv_at :: "BookSideView \<Rightarrow> nat \<Rightarrow> BookLevel" where
  "bsv_at v index = the (bsv_data v) ! index"

definition core_bids_view :: "TopFiveBookCore \<Rightarrow> BookSideView" where
  "core_bids_view core =
     \<lparr>bsv_data = Some (side_levels (core_bids core)), bsv_size = side_size (core_bids core)\<rparr>"

definition core_asks_view :: "TopFiveBookCore \<Rightarrow> BookSideView" where
  "core_asks_view core =
     \<lparr>bsv_data = Some (side_levels (core_asks core)), bsv_size = side_size (core_asks core)\<rparr>"

definition core_invalidate :: "TopFiveBookCore \<Rightarrow> TopFiveBookCore" where
  "core_invalidate core = core\<lparr>core_valid := False\<rparr>"

definition core_apply_refresh ::
    "TopFiveBookCore \<Rightarrow> SpotDepthEvent \<Rightarrow> BookApplyResult \<times> TopFiveBookCore" where
  "core_apply_refresh core ev =
     (let refresh_id = final_update_id ev in
      if core_valid core \<and> refresh_id < core_last_update_id core
      then (\<lparr>bar_status = BA_stale_refresh, bar_side = Row_neutral\<rparr>, core)
      else
        let candidate_bids = make_refresh_side (ev_bids ev);
            candidate_asks = make_refresh_side (ev_asks ev)
        in (\<lparr>bar_status = BA_applied_refresh, bar_side = Row_neutral\<rparr>,
            \<lparr>core_bids = candidate_bids, core_asks = candidate_asks,
             core_last_update_id = refresh_id, core_valid = True\<rparr>))"

definition core_apply_accepted_diff ::
    "TopFiveBookCore \<Rightarrow> SpotDepthEvent \<Rightarrow> BookApplyResult \<times> TopFiveBookCore" where
  "core_apply_accepted_diff core ev =
     (let side = row_side ev;
          candidate_bids = apply_updates (core_bids core) (ev_bids ev) Bid;
          candidate_asks = apply_updates (core_asks core) (ev_asks ev) Ask
      in if sides_crossed candidate_bids candidate_asks
         then (\<lparr>bar_status = BA_crossed_book, bar_side = side\<rparr>, core_invalidate core)
         else (\<lparr>bar_status = BA_applied_diff, bar_side = side\<rparr>,
               core\<lparr>core_bids := candidate_bids, core_asks := candidate_asks,
                    core_last_update_id := final_update_id ev\<rparr>))"

section \<open>Venue sequencing\<close>

record SpotBookState =
  spot_core :: TopFiveBookCore

record UsdMBookState =
  usdm_core :: TopFiveBookCore
  previous_diff_update_id :: u64
  diff_chain_established :: bool

definition spot_book_init :: SpotBookState where
  "spot_book_init = \<lparr>spot_core = empty_core\<rparr>"

definition usdm_book_init :: UsdMBookState where
  "usdm_book_init = \<lparr>usdm_core = empty_core, previous_diff_update_id = 0,
     diff_chain_established = False\<rparr>"

definition spot_invalidate :: "SpotBookState \<Rightarrow> SpotBookState" where
  "spot_invalidate b = \<lparr>spot_core = core_invalidate (spot_core b)\<rparr>"

definition spot_apply_refresh ::
    "SpotBookState \<Rightarrow> SpotDepthEvent \<Rightarrow> BookApplyResult \<times> SpotBookState" where
  "spot_apply_refresh b ev =
     (case core_apply_refresh (spot_core b) ev of (r, c) \<Rightarrow> (r, \<lparr>spot_core = c\<rparr>))"

definition spot_apply_diff ::
    "SpotBookState \<Rightarrow> SpotDepthEvent \<Rightarrow> BookApplyResult \<times> SpotBookState" where
  "spot_apply_diff b ev =
     (let side = row_side ev; core = spot_core b in
      if \<not> core_valid core
      then (\<lparr>bar_status = BA_ignored_while_invalid, bar_side = side\<rparr>, b)
      else if final_update_id ev \<le> core_last_update_id core
      then (\<lparr>bar_status = BA_stale_diff, bar_side = side\<rparr>, b)
      else
        let next_update_id = core_last_update_id core + 1 in
        if first_update_id ev > next_update_id
        then (\<lparr>bar_status = BA_sequence_gap, bar_side = side\<rparr>, spot_invalidate b)
        else (case core_apply_accepted_diff core ev of (r, c) \<Rightarrow> (r, \<lparr>spot_core = c\<rparr>)))"

definition usdm_invalidate :: "UsdMBookState \<Rightarrow> UsdMBookState" where
  "usdm_invalidate b = \<lparr>usdm_core = core_invalidate (usdm_core b), previous_diff_update_id = 0,
     diff_chain_established = False\<rparr>"

definition usdm_apply_refresh ::
    "UsdMBookState \<Rightarrow> SpotDepthEvent \<Rightarrow> BookApplyResult \<times> UsdMBookState" where
  "usdm_apply_refresh b ev =
     (case core_apply_refresh (usdm_core b) ev of (r, c) \<Rightarrow>
        (r, if bar_status r = BA_applied_refresh
            then \<lparr>usdm_core = c, previous_diff_update_id = 0, diff_chain_established = False\<rparr>
            else b\<lparr>usdm_core := c\<rparr>))"

definition usdm_accept_diff ::
    "UsdMBookState \<Rightarrow> SpotDepthEvent \<Rightarrow> BookApplyResult \<times> UsdMBookState" where
  "usdm_accept_diff b ev =
     (case core_apply_accepted_diff (usdm_core b) ev of (r, c) \<Rightarrow>
        (r, if bar_status r = BA_applied_diff
            then \<lparr>usdm_core = c, previous_diff_update_id = final_update_id ev,
                  diff_chain_established = True\<rparr>
            else if bar_status r = BA_crossed_book
            then \<lparr>usdm_core = c, previous_diff_update_id = 0, diff_chain_established = False\<rparr>
            else b\<lparr>usdm_core := c\<rparr>))"

definition usdm_apply_diff ::
    "UsdMBookState \<Rightarrow> SpotDepthEvent \<Rightarrow> BookApplyResult \<times> UsdMBookState" where
  "usdm_apply_diff b ev =
     (let side = row_side ev; core = usdm_core b in
      if \<not> core_valid core
      then (\<lparr>bar_status = BA_ignored_while_invalid, bar_side = side\<rparr>, b)
      else if diff_chain_established b then
        (if previous_update_id ev \<noteq> previous_diff_update_id b
         then (\<lparr>bar_status = BA_sequence_gap, bar_side = side\<rparr>, usdm_invalidate b)
         else if final_update_id ev \<le> core_last_update_id core
         then (\<lparr>bar_status = BA_stale_diff, bar_side = side\<rparr>, b)
         else usdm_accept_diff b ev)
      else if final_update_id ev \<le> core_last_update_id core
      then (\<lparr>bar_status = BA_stale_diff, bar_side = side\<rparr>, b)
      else
        let next_update_id = core_last_update_id core + 1 in
        if first_update_id ev > next_update_id
        then (\<lparr>bar_status = BA_sequence_gap, bar_side = side\<rparr>, usdm_invalidate b)
        else usdm_accept_diff b ev)"

end
