(* ===== verification/Book_Refinement.thy ===== *)
theory Book_Refinement
  imports Top_Five_Book
begin

text \<open>
  The array operations of the book refine list operations on the visible levels, and a
  differential update of a side refines an update of a price map: the visible levels afterwards
  are the five best of the map that results from the levels visible before.
\<close>

section \<open>The view of a side\<close>

definition side_view :: "Side \<Rightarrow> BookLevel list" where
  "side_view s = take (side_size s) (side_levels s)"

definition side_wf :: "Side \<Rightarrow> bool" where
  "side_wf s \<longleftrightarrow> length (side_levels s) = kVisibleBookDepth \<and> side_size s \<le> kVisibleBookDepth"

definition best_first :: "BookSide \<Rightarrow> BookLevel list \<Rightarrow> bool" where
  "best_first side xs \<longleftrightarrow>
     sorted_wrt (\<lambda>x y. better_price side (bl_price x) (bl_price y)) xs"

named_theorems side_simps \<open>sizes and views of well-formed sides\<close>

lemma side_wf_sizes [side_simps]:
  assumes "side_wf s"
  shows "length (side_levels s) = 5" and "side_size s \<le> 5" and "length (side_view s) = side_size s"
  using assms by (simp_all add: side_wf_def kVisibleBookDepth_def side_view_def)

lemma side_view_nth: "i < side_size s \<Longrightarrow> side_view s ! i = side_levels s ! i"
  by (simp add: side_view_def)

lemma empty_side_view [simp]: "side_view empty_side = []" and empty_side_wf [simp]: "side_wf empty_side"
  by (simp_all add: empty_side_def side_view_def side_wf_def kVisibleBookDepth_def)

lemma find_price_from_view:
  assumes "side_wf s" and "i \<le> side_size s"
  shows "find_price_from s p i = i + length (takeWhile (\<lambda>l. bl_price l \<noteq> p) (drop i (side_view s)))"
  using assms
proof (induction s p i rule: find_price_from.induct)
  case (1 s p i)
  show ?case
  proof (cases "i < side_size s")
    case True
    then have "drop i (side_view s) = side_levels s ! i # drop (Suc i) (side_view s)"
      using 1 by (simp add: Cons_nth_drop_Suc [symmetric] side_view_nth side_wf_sizes)
    with True 1 show ?thesis by (simp add: find_price_from.simps [of s p i])
  next
    case False
    with 1 have "i = side_size s" by simp
    with 1 show ?thesis by (simp add: find_price_from.simps [of s p "side_size s"] side_wf_sizes)
  qed
qed

lemma find_price_view:
  "side_wf s \<Longrightarrow> find_price s p = length (takeWhile (\<lambda>l. bl_price l \<noteq> p) (side_view s))"
  using find_price_from_view [of s 0 p] by (simp add: find_price_def)

lemma find_price_absent:
  assumes "side_wf s"
  shows "find_price s p = side_size s \<longleftrightarrow> p \<notin> bl_price ` set (side_view s)"
proof -
  have "length (takeWhile (\<lambda>l. bl_price l \<noteq> p) xs) = length xs \<longleftrightarrow> p \<notin> bl_price ` set xs" for xs
    by (induction xs) auto
  then show ?thesis using assms by (metis find_price_view side_wf_sizes(3))
qed

lemma find_price_le: "side_wf s \<Longrightarrow> find_price s p \<le> side_size s"
  by (metis find_price_view length_takeWhile_le side_wf_sizes(3))

section \<open>Erasing and changing a level\<close>

lemma shift_down_length [simp]: "length (shift_down xs d n) = length xs"
  by (induction xs d n rule: shift_down.induct) (subst shift_down.simps, simp)

lemma shift_down_nth:
  assumes "n \<le> length xs" and "i < length xs"
  shows "shift_down xs d n ! i = (if d \<le> i \<and> Suc i < n then xs ! Suc i else xs ! i)"
  using assms
proof (induction xs d n rule: shift_down.induct)
  case (1 xs d n)
  show ?case
  proof (cases "d + 1 < n")
    case True
    with 1 have IH: "shift_down (xs[d := xs ! (d + 1)]) (d + 1) n ! i
        = (if d + 1 \<le> i \<and> Suc i < n then xs[d := xs ! (d + 1)] ! Suc i else xs[d := xs ! (d + 1)] ! i)"
      by simp
    show ?thesis
      using True 1 IH by (subst shift_down.simps) (auto simp: nth_list_update)
  next
    case False
    then show ?thesis by (auto simp: shift_down.simps [of xs d n])
  qed
qed

lemma erase_level_view:
  assumes "side_wf s" and "i < side_size s"
  shows "side_view (erase_level s i) = take i (side_view s) @ drop (Suc i) (side_view s)"
proof (rule nth_equalityI)
  show "length (side_view (erase_level s i)) = length (take i (side_view s) @ drop (Suc i) (side_view s))"
    using assms side_wf_sizes(2) [OF assms(1)]
    by (simp add: erase_level_def Let_def side_view_def side_wf_sizes(1))
next
  fix j assume "j < length (side_view (erase_level s i))"
  then have j: "j < side_size s - 1"
    using assms by (simp add: erase_level_def Let_def side_view_def side_wf_sizes)
  then have "side_view (erase_level s i) ! j = shift_down (side_levels s) i (side_size s) ! j"
    using assms by (simp add: erase_level_def Let_def side_view_def)
  also have "\<dots> = (if i \<le> j then side_levels s ! Suc j else side_levels s ! j)"
    using assms j side_wf_sizes(2) [OF assms(1)] by (simp add: shift_down_nth side_wf_sizes(1))
  also have "\<dots> = (take i (side_view s) @ drop (Suc i) (side_view s)) ! j"
    using assms j by (auto simp: nth_append side_view_nth side_wf_sizes)
  finally show "side_view (erase_level s i) ! j
      = (take i (side_view s) @ drop (Suc i) (side_view s)) ! j" .
qed

lemma erase_level_wf: "side_wf s \<Longrightarrow> side_wf (erase_level s i)"
  by (auto simp: side_wf_def erase_level_def Let_def)

lemma price_not_again:
  assumes "distinct (map bl_price (x # xs))" and "y \<in> set xs"
  shows "bl_price y \<noteq> bl_price x"
  using assms by (metis distinct.simps(2) image_eqI list.set_map list.simps(9))

lemma erase_at_price:
  fixes p :: int
  assumes "distinct (map bl_price xs)"
  defines "i \<equiv> length (takeWhile (\<lambda>l. bl_price l \<noteq> p) xs)"
  shows "take i xs @ drop (Suc i) xs = filter (\<lambda>l. bl_price l \<noteq> p) xs"
  using assms(1) unfolding i_def
proof (induction xs)
  case (Cons x xs)
  show ?case
  proof (cases "bl_price x = p")
    case True
    with price_not_again [OF Cons.prems] have "filter (\<lambda>l. bl_price l \<noteq> p) xs = xs" by simp
    with True show ?thesis by simp
  qed (use Cons in simp)
qed simp

lemma change_at_price:
  fixes p :: int
  assumes "distinct (map bl_price xs)" and "p \<in> bl_price ` set xs"
  defines "i \<equiv> length (takeWhile (\<lambda>l. bl_price l \<noteq> p) xs)"
  shows "xs[i := (xs ! i)\<lparr>bl_quantity := q\<rparr>]
     = map (\<lambda>l. if bl_price l = p then l\<lparr>bl_quantity := q\<rparr> else l) xs"
  using assms(1,2) unfolding i_def
proof (induction xs)
  case (Cons x xs)
  show ?case
  proof (cases "bl_price x = p")
    case True
    with price_not_again [OF Cons.prems(1)]
    have "map (\<lambda>l. if bl_price l = p then l\<lparr>bl_quantity := q\<rparr> else l) xs = xs"
      by (intro map_idI) simp
    with True show ?thesis by simp
  qed (use Cons in auto)
qed simp

text \<open>The first loop's body on views, for a price the candidate still shows.\<close>

definition change_view :: "BookLevel list \<Rightarrow> LevelUpdate \<Rightarrow> BookLevel list" where
  "change_view xs u =
     (if lu_quantity u = 0 then filter (\<lambda>l. bl_price l \<noteq> lu_price u) xs
      else map (\<lambda>l. if bl_price l = lu_price u then l\<lparr>bl_quantity := lu_quantity u\<rparr> else l) xs)"

lemma change_existing_refines:
  assumes "side_wf orig" and "side_wf cand" and "distinct (map bl_price (side_view cand))"
    and "lu_price u \<in> bl_price ` set (side_view orig)"
    and "lu_price u \<in> bl_price ` set (side_view cand)"
  shows "side_wf (change_existing orig cand u)"
    and "side_view (change_existing orig cand u) = change_view (side_view cand) u"
proof -
  let ?i = "find_price cand (lu_price u)"
  have here: "find_price orig (lu_price u) \<noteq> side_size orig"
    using assms find_price_absent by blast
  have i: "?i < side_size cand"
    using assms(2,5) find_price_absent [of cand] find_price_le [of cand] by (metis le_neq_implies_less)
  show "side_wf (change_existing orig cand u)"
    using here assms(2) erase_level_wf by (auto simp: change_existing_def Let_def side_wf_def)
  have "side_view (erase_level cand ?i) = filter (\<lambda>l. bl_price l \<noteq> lu_price u) (side_view cand)"
    using erase_level_view [OF assms(2) i] erase_at_price [OF assms(3)] find_price_view [OF assms(2)] by simp
  moreover have "side_view (cand\<lparr>side_levels := (side_levels cand)[?i :=
      (side_levels cand ! ?i)\<lparr>bl_quantity := q\<rparr>]\<rparr>)
      = map (\<lambda>l. if bl_price l = lu_price u then l\<lparr>bl_quantity := q\<rparr> else l) (side_view cand)" for q
    using change_at_price [OF assms(3,5)] i find_price_view [OF assms(2)]
    by (simp add: side_view_def take_update_swap)
  ultimately show "side_view (change_existing orig cand u) = change_view (side_view cand) u"
    using here by (simp add: change_existing_def change_view_def Let_def)
qed

lemma change_existing_skip:
  "side_wf orig \<Longrightarrow> lu_price u \<notin> bl_price ` set (side_view orig) \<Longrightarrow> change_existing orig cand u = cand"
  by (simp add: change_existing_def Let_def find_price_absent)

section \<open>Inserting a level\<close>

definition ins_view :: "BookSide \<Rightarrow> BookLevel \<Rightarrow> BookLevel list \<Rightarrow> BookLevel list" where
  "ins_view side l xs =
     takeWhile (\<lambda>x. better_price side (bl_price x) (bl_price l)) xs @ l #
     dropWhile (\<lambda>x. better_price side (bl_price x) (bl_price l)) xs"

lemma shift_up_length [simp]: "length (shift_up xs d k) = length xs"
  by (induction xs d k rule: shift_up.induct) (subst shift_up.simps, simp)

lemma shift_up_nth:
  assumes "d < length xs" and "i < length xs"
  shows "shift_up xs d k ! i = (if k < i \<and> i \<le> d then xs ! (i - 1) else xs ! i)"
  using assms
proof (induction xs d k rule: shift_up.induct)
  case (1 xs d k)
  show ?case
  proof (cases "k < d")
    case True
    with 1 have IH: "shift_up (xs[d := xs ! (d - 1)]) (d - 1) k ! i
        = (if k < i \<and> i \<le> d - 1 then xs[d := xs ! (d - 1)] ! (i - 1) else xs[d := xs ! (d - 1)] ! i)"
      by simp
    show ?thesis using True 1 IH by (subst shift_up.simps) (auto simp: nth_list_update)
  next
    case False
    then show ?thesis by (auto simp: shift_up.simps [of xs d k])
  qed
qed

lemma insert_position_view:
  assumes "side_wf s" and "i \<le> side_size s"
  shows "insert_position s side p i
     = i + length (takeWhile (\<lambda>l. better_price side (bl_price l) p) (drop i (side_view s)))"
  using assms
proof (induction s side p i rule: insert_position.induct)
  case (1 s side p i)
  show ?case
  proof (cases "i < side_size s")
    case True
    then have "drop i (side_view s) = side_levels s ! i # drop (Suc i) (side_view s)"
      using 1 by (simp add: Cons_nth_drop_Suc [symmetric] side_view_nth side_wf_sizes)
    with True 1 show ?thesis by (simp add: insert_position.simps [of s side p i])
  next
    case False
    with 1 have "i = side_size s" by simp
    with 1 show ?thesis by (simp add: insert_position.simps [of s side p "side_size s"] side_wf_sizes)
  qed
qed

lemma take_insert_nth:
  assumes "k \<le> length v" and "j < length v + 1"
  shows "(take k v @ l # drop k v) ! j = (if j < k then v ! j else if j = k then l else v ! (j - 1))"
proof -
  consider "j < k" | "j = k" | "k < j" by linarith
  then show ?thesis
  proof cases
    case 3
    then obtain d where "j = Suc (k + d)" by (metis less_iff_Suc_add)
    with assms show ?thesis by (simp add: nth_append)
  qed (use assms in \<open>simp_all add: nth_append\<close>)
qed

lemma ins_view_split:
  defines "pos side l xs \<equiv> length (takeWhile (\<lambda>x. better_price side (bl_price x) (bl_price l)) xs)"
  shows "ins_view side l xs = take (pos side l xs) xs @ l # drop (pos side l xs) xs"
  unfolding ins_view_def pos_def by (metis (no_types) takeWhile_eq_take dropWhile_eq_drop)

lemma insert_level_view:
  assumes "side_wf s"
  shows "side_view (insert_level s side l) = take 5 (ins_view side l (side_view s))"
    and "side_wf (insert_level s side l)"
proof -
  let ?v = "side_view s" and ?n = "side_size s"
  define k where "k = length (takeWhile (\<lambda>x. better_price side (bl_price x) (bl_price l)) ?v)"
  have n: "?n \<le> 5" "length (side_levels s) = 5" "length ?v = ?n" using assms by (simp_all add: side_wf_sizes)
  have k: "k \<le> ?n" using length_takeWhile_le n(3) unfolding k_def by metis
  have pos: "insert_position s side (bl_price l) 0 = k"
    using insert_position_view [OF assms, of 0] by (simp add: k_def)
  have iv: "ins_view side l ?v = take k ?v @ l # drop k ?v"
    unfolding k_def by (rule ins_view_split)
  show "side_wf (insert_level s side l)"
    using n assms by (auto simp: insert_level_def Let_def side_wf_def kVisibleBookDepth_def)
  show "side_view (insert_level s side l) = take 5 (ins_view side l ?v)"
  proof (cases "?n = 5 \<and> k = 5")
    case True
    then show ?thesis using n pos iv by (simp add: insert_level_def kVisibleBookDepth_def)
  next
    case False
    define m where "m = min 5 (?n + 1)"
    have m: "m - 1 < 5" "k \<le> m - 1" "m - 1 \<le> ?n" using False n k unfolding m_def by auto
    have view: "side_view (insert_level s side l)
        = take m ((shift_up (side_levels s) (m - 1) k)[k := l])"
    proof (cases "?n < 5")
      case True
      then show ?thesis
        unfolding insert_level_def Let_def pos
        by (simp add: side_view_def kVisibleBookDepth_def m_def)
    next
      case full: False
      then show ?thesis
        using n(1) False unfolding insert_level_def Let_def pos
        by (simp add: side_view_def kVisibleBookDepth_def m_def)
    qed
    show ?thesis unfolding view iv
    proof (rule nth_equalityI)
      show len: "length (take m ((shift_up (side_levels s) (m - 1) k)[k := l]))
          = length (take 5 (take k ?v @ l # drop k ?v))"
        using n k by (auto simp: m_def)
      fix j assume "j < length (take m ((shift_up (side_levels s) (m - 1) k)[k := l]))"
      then have j: "j < m" "j < 5" "j < ?n + 1" by (auto simp: m_def)
      then have "take m ((shift_up (side_levels s) (m - 1) k)[k := l]) ! j
          = (if j < k then side_levels s ! j else if j = k then l else side_levels s ! (j - 1))"
        using n m k by (simp add: nth_list_update shift_up_nth)
      also have "\<dots> = (take k ?v @ l # drop k ?v) ! j"
        using j k n take_insert_nth [of k ?v j l] by (auto simp: side_view_nth)
      finally show "take m ((shift_up (side_levels s) (m - 1) k)[k := l]) ! j
          = take 5 (take k ?v @ l # drop k ?v) ! j"
        by (simp only: nth_take [OF j(2)])
    qed
  qed
qed

end
