(* ===== verification/Book_Map.thy ===== *)
theory Book_Map
  imports Book_Refinement
begin

text \<open>
  The abstract book side: a finite map from prices to quantities.  A differential update sets or
  deletes keys; what the book shows is the five best keys.  \<open>apply_updates\<close> refines this.
\<close>

section \<open>Price maps\<close>

type_synonym price_map = "int \<rightharpoonup> int"

definition levels_map :: "BookLevel list \<Rightarrow> price_map" where
  "levels_map xs = map_of (map (\<lambda>l. (bl_price l, bl_quantity l)) xs)"

definition map_update :: "price_map \<Rightarrow> LevelUpdate \<Rightarrow> price_map" where
  "map_update m u = (if lu_quantity u = 0 then m(lu_price u := None)
                     else m(lu_price u \<mapsto> lu_quantity u))"

definition map_updates :: "price_map \<Rightarrow> LevelUpdate list \<Rightarrow> price_map" where
  "map_updates m us = foldl map_update m us"

definition ordered_prices :: "BookSide \<Rightarrow> int set \<Rightarrow> int list" where
  "ordered_prices side P = (if side = Bid then rev (sorted_list_of_set P) else sorted_list_of_set P)"

definition levels_of :: "BookSide \<Rightarrow> price_map \<Rightarrow> BookLevel list" where
  "levels_of side m =
     map (\<lambda>p. \<lparr>bl_price = p, bl_quantity = the (m p)\<rparr>) (ordered_prices side (dom m))"

lemma map_updates_simps [simp]:
  "map_updates m [] = m"
  "map_updates m (u # us) = map_updates (map_update m u) us"
  "map_updates m (us @ [u]) = map_update (map_updates m us) u"
  by (simp_all add: map_updates_def)

lemma map_updates_other: "p \<notin> lu_price ` set us \<Longrightarrow> map_updates m us p = m p"
  by (induction us arbitrary: m) (auto simp: map_update_def)

lemma map_updates_at:
  "distinct (map lu_price us) \<Longrightarrow> u \<in> set us \<Longrightarrow>
     map_updates m us (lu_price u) = (if lu_quantity u = 0 then None else Some (lu_quantity u))"
proof (induction us arbitrary: m)
  case (Cons v us)
  show ?case
  proof (cases "u = v")
    case True
    with Cons.prems have "lu_price u \<notin> lu_price ` set us" by auto
    then show ?thesis using True by (simp add: map_updates_other) (simp add: map_update_def)
  qed (use Cons in simp)
qed simp

lemma map_updates_finite: "finite (dom m) \<Longrightarrow> finite (dom (map_updates m us))"
  by (induction us arbitrary: m) (auto simp: map_update_def)

lemma dom_levels_map: "dom (levels_map xs) = bl_price ` set xs"
  by (auto simp: levels_map_def dom_map_of_conv_image_fst image_image)

section \<open>Ordered levels\<close>

lemma better_price_simps [simp]:
  "better_price Bid a b \<longleftrightarrow> a > b" "better_price Ask a b \<longleftrightarrow> a < b"
  by (simp_all add: better_price_def)

lemma better_price_trans: "better_price side a b \<Longrightarrow> better_price side b c \<Longrightarrow> better_price side a c"
  by (cases side) auto

lemma better_price_total: "a \<noteq> b \<Longrightarrow> \<not> better_price side a b \<Longrightarrow> better_price side b a"
  by (cases side) auto

lemma better_price_irrefl [simp]: "\<not> better_price side a a"
  by (cases side) auto

lemma best_first_simps [simp]:
  "best_first side []"
  "best_first side (x # xs) \<longleftrightarrow>
     (\<forall>y \<in> set xs. better_price side (bl_price x) (bl_price y)) \<and> best_first side xs"
  by (simp_all add: best_first_def)

lemma best_first_distinct: "best_first side xs \<Longrightarrow> distinct (map bl_price xs)"
proof (induction xs)
  case (Cons x xs)
  then show ?case using better_price_irrefl by (fastforce simp: image_iff)
qed simp

lemma best_first_take: "best_first side xs \<Longrightarrow> best_first side (take n xs)"
  unfolding best_first_def by (rule sorted_wrt_take)

lemma best_first_filter: "best_first side xs \<Longrightarrow> best_first side (filter P xs)"
  unfolding best_first_def by (rule sorted_wrt_filter)

lemma ordered_prices_view:
  assumes "best_first side xs"
  shows "ordered_prices side (bl_price ` set xs) = map bl_price xs"
proof (cases side)
  case Bid
  have "sorted_wrt (>) (map bl_price xs)"
    using assms Bid by (simp add: best_first_def sorted_wrt_map)
  then have "sorted_wrt (<) (rev (map bl_price xs))" by (simp add: sorted_wrt_rev)
  then have "sorted (rev (map bl_price xs)) \<and> distinct (rev (map bl_price xs))"
    using strict_sorted_iff by blast
  then have "sorted_list_of_set (set (rev (map bl_price xs))) = rev (map bl_price xs)"
    using sorted_list_of_set.idem_if_sorted_distinct by blast
  with Bid show ?thesis by (simp add: ordered_prices_def)
next
  case Ask
  have "sorted_wrt (<) (map bl_price xs)"
    using assms Ask by (simp add: best_first_def sorted_wrt_map)
  then have "sorted (map bl_price xs) \<and> distinct (map bl_price xs)"
    using strict_sorted_iff by blast
  then have "sorted_list_of_set (set (map bl_price xs)) = map bl_price xs"
    using sorted_list_of_set.idem_if_sorted_distinct by blast
  with Ask show ?thesis by (simp add: ordered_prices_def)
qed

lemma levels_map_at:
  assumes "distinct (map bl_price xs)" and "l \<in> set xs"
  shows "levels_map xs (bl_price l) = Some (bl_quantity l)"
  unfolding levels_map_def
  by (rule map_of_is_SomeI) (use assms in \<open>auto simp: comp_def\<close>)

lemma levels_of_levels_map:
  assumes "best_first side xs"
  shows "levels_of side (levels_map xs) = xs"
proof -
  have "levels_of side (levels_map xs)
      = map (\<lambda>p. \<lparr>bl_price = p, bl_quantity = the (levels_map xs p)\<rparr>) (map bl_price xs)"
    by (simp add: levels_of_def dom_levels_map ordered_prices_view [OF assms])
  also have "\<dots> = map (\<lambda>l. l) xs"
    unfolding map_map comp_def
    by (rule map_cong) (simp_all add: levels_map_at [OF best_first_distinct [OF assms]])
  finally show ?thesis by simp
qed

lemma levels_of_prices:
  "finite (dom m) \<Longrightarrow> bl_price ` set (levels_of side m) = dom m"
  by (auto simp: levels_of_def ordered_prices_def image_image)

lemma levels_of_best_first:
  assumes "finite (dom m)"
  shows "best_first side (levels_of side m)"
proof -
  have "sorted_wrt (<) (sorted_list_of_set (dom m))" by simp
  then show ?thesis
    by (cases side) (simp_all add: best_first_def levels_of_def ordered_prices_def sorted_wrt_map
        sorted_wrt_rev)
qed

lemma levels_map_levels_of:
  assumes "finite (dom m)"
  shows "levels_map (levels_of side m) = m"
proof (rule ext)
  fix p
  show "levels_map (levels_of side m) p = m p"
  proof (cases "p \<in> dom m")
    case True
    then have "\<lparr>bl_price = p, bl_quantity = the (m p)\<rparr> \<in> set (levels_of side m)"
      using assms by (auto simp: levels_of_def ordered_prices_def)
    from levels_map_at [OF best_first_distinct [OF levels_of_best_first [OF assms]] this]
    show ?thesis using True by auto
  next
    case False
    then show ?thesis using dom_levels_map levels_of_prices [OF assms] by (metis domIff)
  qed
qed

section \<open>Inserting and changing on views\<close>

lemma ins_view_simps [simp]:
  "ins_view side l [] = [l]"
  "ins_view side l (x # xs) =
     (if better_price side (bl_price x) (bl_price l) then x # ins_view side l xs else l # x # xs)"
  by (simp_all add: ins_view_def)

lemma set_ins_view [simp]: "set (ins_view side l xs) = insert l (set xs)"
  by (induction xs) auto

lemma best_first_ins_view:
  assumes "best_first side xs" and "bl_price l \<notin> bl_price ` set xs"
  shows "best_first side (ins_view side l xs)"
  using assms
proof (induction xs)
  case (Cons x xs)
  then have "\<not> better_price side (bl_price x) (bl_price l) \<Longrightarrow> better_price side (bl_price l) (bl_price x)"
    using better_price_total [of "bl_price x" "bl_price l"] by auto
  with Cons show ?case by (auto intro: better_price_trans)
qed simp

lemma levels_map_Cons:
  "levels_map (x # xs) = (levels_map xs)(bl_price x \<mapsto> bl_quantity x)"
  by (simp add: levels_map_def)

lemma levels_map_ins_view:
  "bl_price l \<notin> bl_price ` set xs \<Longrightarrow>
     levels_map (ins_view side l xs) = (levels_map xs)(bl_price l \<mapsto> bl_quantity l)"
  by (induction xs) (auto simp: levels_map_Cons fun_upd_twist)

lemma ins_view_levels_of:
  assumes "finite (dom m)" and "bl_price l \<notin> dom m"
  shows "ins_view side l (levels_of side m) = levels_of side (m(bl_price l \<mapsto> bl_quantity l))"
proof -
  have fresh: "bl_price l \<notin> bl_price ` set (levels_of side m)"
    using assms by (simp add: levels_of_prices)
  then have "levels_map (ins_view side l (levels_of side m)) = m(bl_price l \<mapsto> bl_quantity l)"
    using assms(1) by (simp add: levels_map_ins_view levels_map_levels_of)
  moreover have "best_first side (ins_view side l (levels_of side m))"
    using fresh assms(1) by (intro best_first_ins_view levels_of_best_first)
  ultimately show ?thesis by (metis levels_of_levels_map)
qed

lemma take_ins_view: "take n (ins_view side l (take n xs)) = take n (ins_view side l xs)"
proof (induction xs arbitrary: n)
  case (Cons x xs)
  show ?case
  proof (cases n)
    case (Suc k)
    have "take k (take k xs) = take k xs" "take k (x # take k xs) = take k (x # xs)"
      by (simp, cases k, simp_all add: take_Suc_Cons min_def)
    with Cons Suc show ?thesis by simp
  qed simp
qed simp

lemma change_view_best_first: "best_first side xs \<Longrightarrow> best_first side (change_view xs u)"
proof -
  have "best_first side (map (\<lambda>l. if bl_price l = p then l\<lparr>bl_quantity := q\<rparr> else l) xs)
      = best_first side xs" for p q
    by (simp add: best_first_def sorted_wrt_map if_distrib [of bl_price] cong: if_cong)
  then show "best_first side xs \<Longrightarrow> best_first side (change_view xs u)"
    by (simp add: change_view_def best_first_filter)
qed

lemma levels_map_filter:
  "levels_map (filter (\<lambda>l. bl_price l \<noteq> p) xs) = (levels_map xs)(p := None)"
  by (induction xs) (auto simp: levels_map_def fun_upd_twist)

lemma levels_map_change:
  assumes "p \<in> bl_price ` set xs"
  shows "levels_map (map (\<lambda>l. if bl_price l = p then l\<lparr>bl_quantity := q\<rparr> else l) xs)
     = (levels_map xs)(p \<mapsto> q)"
proof (rule ext)
  fix r
  have "r \<noteq> p \<or> p \<notin> bl_price ` set xs \<Longrightarrow>
     levels_map (map (\<lambda>l. if bl_price l = p then l\<lparr>bl_quantity := q\<rparr> else l) xs) r = levels_map xs r"
    by (induction xs) (auto simp: levels_map_Cons)
  moreover have "levels_map (map (\<lambda>l. if bl_price l = p then l\<lparr>bl_quantity := q\<rparr> else l) xs) p = Some q"
    using assms by (induction xs) (auto simp: levels_map_Cons)
  ultimately show "levels_map (map (\<lambda>l. if bl_price l = p then l\<lparr>bl_quantity := q\<rparr> else l) xs) r
      = ((levels_map xs)(p \<mapsto> q)) r" by auto
qed

lemma levels_map_change_view:
  "lu_price u \<in> bl_price ` set xs \<Longrightarrow> levels_map (change_view xs u) = map_update (levels_map xs) u"
  by (simp add: change_view_def map_update_def levels_map_filter levels_map_change)

section \<open>A differential update of a side\<close>

text \<open>The first loop: changes and deletions of the levels shown before the event.\<close>

lemma change_loop_refines:
  assumes wf: "side_wf s" and bf: "best_first side (side_view s)"
    and d: "distinct (map lu_price us)"
  defines "m \<equiv> levels_map (side_view s)"
  defines "c \<equiv> foldl (change_existing s) s us"
  shows "side_wf c \<and> best_first side (side_view c) \<and>
     levels_map (side_view c) = map_updates m (filter (\<lambda>u. lu_price u \<in> dom m) us)"
  using d unfolding c_def
proof (induction us rule: rev_induct)
  case Nil
  then show ?case using wf bf by (simp add: m_def)
next
  case (snoc u us)
  let ?c = "foldl (change_existing s) s us"
  have IH: "side_wf ?c" "best_first side (side_view ?c)"
    "levels_map (side_view ?c) = map_updates m (filter (\<lambda>u. lu_price u \<in> dom m) us)"
    using snoc by auto
  show ?case
  proof (cases "lu_price u \<in> dom m")
    case True
    then have orig: "lu_price u \<in> bl_price ` set (side_view s)" by (simp add: m_def dom_levels_map)
    have "lu_price u \<notin> lu_price ` set (filter (\<lambda>u. lu_price u \<in> dom m) us)"
      using snoc.prems by auto
    then have "levels_map (side_view ?c) (lu_price u) = m (lu_price u)"
      using IH(3) map_updates_other by simp
    then have cand: "lu_price u \<in> bl_price ` set (side_view ?c)"
      using True by (metis dom_levels_map domIff)
    show ?thesis
      using change_existing_refines [OF wf IH(1) best_first_distinct [OF IH(2)] orig cand] IH True
      by (simp add: change_view_best_first levels_map_change_view [OF cand])
  next
    case False
    then have "lu_price u \<notin> bl_price ` set (side_view s)" by (simp add: m_def dom_levels_map)
    then show ?thesis using IH False wf by (simp add: change_existing_skip)
  qed
qed

text \<open>The second loop: insertion of levels not shown before, five kept.\<close>

lemma insert_loop_refines:
  assumes wf: "side_wf s" and wfc: "side_wf c" and fin: "finite (dom M)"
    and view: "side_view c = take 5 (levels_of side M)"
    and d: "distinct (map lu_price us)"
    and fresh: "\<And>p. p \<notin> bl_price ` set (side_view s) \<Longrightarrow> M p = None"
  defines "c' \<equiv> foldl (insert_new s side) c us"
  shows "side_wf c' \<and> side_view c' = take 5 (levels_of side (map_updates M
     (filter (\<lambda>u. lu_quantity u \<noteq> 0 \<and> lu_price u \<notin> bl_price ` set (side_view s)) us)))"
  using d unfolding c'_def
proof (induction us rule: rev_induct)
  case Nil
  then show ?case using wfc view by simp
next
  case (snoc u us)
  let ?new = "\<lambda>u. lu_quantity u \<noteq> 0 \<and> lu_price u \<notin> bl_price ` set (side_view s)"
  let ?c = "foldl (insert_new s side) c us" and ?M = "map_updates M (filter ?new us)"
  have IH: "side_wf ?c" "side_view ?c = take 5 (levels_of side ?M)" using snoc by auto
  show ?case
  proof (cases "?new u")
    case True
    let ?l = "\<lparr>bl_price = lu_price u, bl_quantity = lu_quantity u\<rparr>"
    have "lu_price u \<notin> lu_price ` set (filter ?new us)" using snoc.prems by auto
    then have "bl_price ?l \<notin> dom ?M" using True fresh map_updates_other by (simp add: domIff)
    then have ins: "ins_view side ?l (levels_of side ?M)
        = levels_of side (?M(lu_price u \<mapsto> lu_quantity u))"
      using ins_view_levels_of [OF map_updates_finite [OF fin], of ?l "filter ?new us"] by simp
    have step: "foldl (insert_new s side) c (us @ [u]) = insert_level ?c side ?l"
      using True find_price_absent [OF wf] by (simp add: insert_new_def)
    have upd: "map_updates M (filter ?new (us @ [u])) = ?M(lu_price u \<mapsto> lu_quantity u)"
      using True by (simp add: map_update_def fun_upd_def)
    show ?thesis
      unfolding step upd
      using insert_level_view [OF IH(1), of side ?l] unfolding IH(2) take_ins_view ins
      by (simp add: fun_upd_def)
  next
    case False
    then have "insert_new s side ?c u = ?c" using find_price_absent [OF wf] by (auto simp: insert_new_def)
    then show ?thesis using IH False by auto
  qed
qed

lemma map_updates_two_phases:
  assumes "distinct (map lu_price us)"
  shows "map_updates (map_updates m (filter (\<lambda>u. lu_price u \<in> dom m) us))
      (filter (\<lambda>u. lu_quantity u \<noteq> 0 \<and> lu_price u \<notin> dom m) us) = map_updates m us"
proof (rule ext)
  fix p
  let ?old = "filter (\<lambda>u. lu_price u \<in> dom m) us"
  let ?new = "filter (\<lambda>u. lu_quantity u \<noteq> 0 \<and> lu_price u \<notin> dom m) us"
  have d: "distinct (map lu_price ?old)" "distinct (map lu_price ?new)"
    using assms by (simp_all add: distinct_map_filter)
  show "map_updates (map_updates m ?old) ?new p = map_updates m us p"
  proof (cases "p \<in> lu_price ` set us")
    case False
    then have "p \<notin> lu_price ` set ?old" "p \<notin> lu_price ` set ?new" by auto
    with False show ?thesis by (simp add: map_updates_other)
  next
    case True
    then obtain u where u: "u \<in> set us" "p = lu_price u" by auto
    have uniq: "v \<in> set us \<Longrightarrow> lu_price v = p \<Longrightarrow> v = u" for v
      using u assms by (metis distinct_map inj_onD)
    consider "p \<in> dom m" | "p \<notin> dom m" "lu_quantity u = 0" | "p \<notin> dom m" "lu_quantity u \<noteq> 0" by blast
    then show ?thesis
    proof cases
      case 1
      then have "p \<notin> lu_price ` set ?new" by auto
      then show ?thesis using 1 u map_updates_at [OF d(1), of u m] map_updates_at [OF assms u(1)]
        by (simp add: map_updates_other)
    next
      case 2
      then have "p \<notin> lu_price ` set ?new" "p \<notin> lu_price ` set ?old" using uniq by auto
      then show ?thesis using 2 u map_updates_at [OF assms u(1)] by (auto simp: map_updates_other domIff)
    next
      case 3
      then show ?thesis using u map_updates_at [OF d(2), of u] map_updates_at [OF assms u(1)] by simp
    qed
  qed
qed

lemma apply_updates_refines:
  assumes "side_wf s" and "best_first side (side_view s)" and "distinct (map lu_price us)"
  shows "side_wf (apply_updates s us side) \<and>
     side_view (apply_updates s us side)
       = take 5 (levels_of side (map_updates (levels_map (side_view s)) us))"
proof -
  let ?m = "levels_map (side_view s)" and ?c = "foldl (change_existing s) s us"
  let ?M = "map_updates ?m (filter (\<lambda>u. lu_price u \<in> dom ?m) us)"
  have c: "side_wf ?c" "best_first side (side_view ?c)" "levels_map (side_view ?c) = ?M"
    using change_loop_refines [OF assms] by auto
  have fin: "finite (dom ?M)" by (rule map_updates_finite) (simp add: dom_levels_map)
  have "side_view ?c = take 5 (levels_of side ?M)"
    using levels_of_levels_map [OF c(2)] side_wf_sizes [OF c(1)] unfolding c(3) by simp
  moreover have "?M p = None" if "p \<notin> bl_price ` set (side_view s)" for p
  proof -
    from that have "p \<notin> dom ?m" by (simp add: dom_levels_map)
    then have "p \<notin> lu_price ` set (filter (\<lambda>u. lu_price u \<in> dom ?m) us)" by auto
    then show ?thesis using \<open>p \<notin> dom ?m\<close> by (simp add: map_updates_other domIff)
  qed
  ultimately have "side_wf (apply_updates s us side) \<and> side_view (apply_updates s us side) =
      take 5 (levels_of side (map_updates ?M (filter (\<lambda>u. lu_quantity u \<noteq> 0 \<and>
        lu_price u \<notin> bl_price ` set (side_view s)) us)))"
    using insert_loop_refines [OF assms(1) c(1) fin _ assms(3)] by (simp add: apply_updates_def Let_def)
  then show ?thesis using map_updates_two_phases [OF assms(3), of ?m] by (simp add: dom_levels_map)
qed

end
