(* ===== verification/Book_Sequencing.thy ===== *)
theory Book_Sequencing
  imports Book_Map
begin

text \<open>
  Invariants and sequencing of the two venue books.  \<open>core_inv\<close> is what every reachable core
  satisfies: well-formed sides, best price first, positive prices and quantities, never crossed.
  The locale \<open>sequenced_book\<close> is the interface the event processor relies on: an operation either
  leaves the core alone, invalidates it, replaces it by a refresh, or applies an accepted
  differential update with a larger final update id.  Both venue books are instances.
\<close>

section \<open>What the parser guarantees of an event\<close>

text \<open>These are the assertions of \<open>make_refresh_side\<close> and \<open>apply_updates\<close>.\<close>

definition diff_range_ok :: "BookSide \<Rightarrow> LevelUpdate list \<Rightarrow> bool" where
  "diff_range_ok side us \<longleftrightarrow>
     list_all (\<lambda>u. lu_side u = side \<and> lu_price u > 0 \<and> lu_price u \<le> i64_max \<and>
       lu_quantity u \<ge> 0 \<and> lu_quantity u \<le> i64_max) us \<and>
     distinct (map lu_price us)"

definition refresh_range_ok :: "BookSide \<Rightarrow> LevelUpdate list \<Rightarrow> bool" where
  "refresh_range_ok side us \<longleftrightarrow>
     length us \<le> kVisibleBookDepth \<and>
     list_all (\<lambda>u. lu_side u = side \<and> lu_price u > 0 \<and> lu_price u \<le> i64_max \<and>
       lu_quantity u > 0 \<and> lu_quantity u \<le> i64_max) us \<and>
     sorted_wrt (\<lambda>u v. better_price side (lu_price u) (lu_price v)) us"

definition diff_event_ok :: "SpotDepthEvent \<Rightarrow> bool" where
  "diff_event_ok ev \<longleftrightarrow> diff_range_ok Bid (ev_bids ev) \<and> diff_range_ok Ask (ev_asks ev)"

definition refresh_event_ok :: "SpotDepthEvent \<Rightarrow> bool" where
  "refresh_event_ok ev \<longleftrightarrow>
     refresh_range_ok Bid (ev_bids ev) \<and> refresh_range_ok Ask (ev_asks ev) \<and>
     \<not> sides_crossed (make_refresh_side (ev_bids ev)) (make_refresh_side (ev_asks ev))"

section \<open>The invariant\<close>

definition level_ok :: "BookLevel \<Rightarrow> bool" where
  "level_ok l \<longleftrightarrow> bl_price l > 0 \<and> bl_price l \<le> i64_max \<and> bl_quantity l > 0 \<and> bl_quantity l \<le> i64_max"

definition side_inv :: "BookSide \<Rightarrow> Side \<Rightarrow> bool" where
  "side_inv side s \<longleftrightarrow>
     side_wf s \<and> best_first side (side_view s) \<and>
     list_all level_ok (side_view s)"

definition core_inv :: "TopFiveBookCore \<Rightarrow> bool" where
  "core_inv core \<longleftrightarrow>
     side_inv Bid (core_bids core) \<and> side_inv Ask (core_asks core) \<and>
     \<not> sides_crossed (core_bids core) (core_asks core)"

lemma empty_core_inv [simp]: "core_inv empty_core"
  by (simp add: core_inv_def empty_core_def side_inv_def sides_crossed_def empty_side_def side_wf_def
      side_view_def kVisibleBookDepth_def)

lemma refresh_step_foldl:
  assumes "side_size s + length us \<le> 5" and "length (side_levels s) = 5"
  shows "side_wf (foldl refresh_step s us) \<and>
     side_view (foldl refresh_step s us)
       = side_view s @ map (\<lambda>u. \<lparr>bl_price = lu_price u, bl_quantity = lu_quantity u\<rparr>) us"
  using assms
proof (induction us arbitrary: s)
  case Nil
  then show ?case by (simp add: side_wf_def kVisibleBookDepth_def)
next
  case (Cons u us)
  have "side_view (refresh_step s u)
      = side_view s @ [\<lparr>bl_price = lu_price u, bl_quantity = lu_quantity u\<rparr>]"
    using Cons.prems by (simp add: refresh_step_def side_view_def take_Suc_conv_app_nth)
  moreover have "side_size (refresh_step s u) = Suc (side_size s)"
    "length (side_levels (refresh_step s u)) = 5"
    using Cons.prems by (simp_all add: refresh_step_def)
  ultimately show ?case using Cons.IH [of "refresh_step s u"] Cons.prems by simp
qed

lemma make_refresh_side_view:
  assumes "length us \<le> 5"
  shows "side_wf (make_refresh_side us) \<and>
     side_view (make_refresh_side us)
       = map (\<lambda>u. \<lparr>bl_price = lu_price u, bl_quantity = lu_quantity u\<rparr>) us"
  using refresh_step_foldl [of empty_side us] assms
  by (simp add: make_refresh_side_def) (simp add: empty_side_def)

lemma make_refresh_side_inv:
  assumes "refresh_range_ok side us"
  shows "side_inv side (make_refresh_side us)"
proof -
  have "length us \<le> 5" using assms by (simp add: refresh_range_ok_def kVisibleBookDepth_def)
  from make_refresh_side_view [OF this] show ?thesis
    using assms by (simp add: side_inv_def refresh_range_ok_def best_first_def sorted_wrt_map
        list_all_iff level_ok_def)
qed

lemma map_updates_positive:
  assumes "map_updates m us p = Some q"
    and "\<And>p q. m p = Some q \<Longrightarrow> level_ok \<lparr>bl_price = p, bl_quantity = q\<rparr>"
    and "diff_range_ok side us"
  shows "level_ok \<lparr>bl_price = p, bl_quantity = q\<rparr>"
  using assms
proof (induction us arbitrary: m)
  case (Cons u us)
  have "map_update m u p = Some q \<Longrightarrow> level_ok \<lparr>bl_price = p, bl_quantity = q\<rparr>" for p q
    using Cons.prems by (auto simp: map_update_def level_ok_def diff_range_ok_def split: if_splits)
  moreover have "diff_range_ok side us" using Cons.prems by (simp add: diff_range_ok_def)
  ultimately show ?case using Cons by auto
qed auto

lemma levels_map_in: "levels_map xs p = Some q \<Longrightarrow> \<exists>l \<in> set xs. bl_price l = p \<and> bl_quantity l = q"
  by (auto simp: levels_map_def dest!: map_of_SomeD)

lemma apply_updates_inv:
  assumes "side_inv side s" and "diff_range_ok side us"
  shows "side_inv side (apply_updates s us side)"
proof -
  let ?m = "levels_map (side_view s)"
  let ?M = "map_updates ?m us"
  have s: "side_wf s" "best_first side (side_view s)" "distinct (map lu_price us)"
    using assms by (auto simp: side_inv_def diff_range_ok_def)
  have fin: "finite (dom ?M)" by (rule map_updates_finite) (simp add: dom_levels_map)
  have pos: "?M p = Some q \<Longrightarrow> level_ok \<lparr>bl_price = p, bl_quantity = q\<rparr>" for p q
    by (rule map_updates_positive [of ?m us _ _ side])
      (use assms in \<open>auto simp: side_inv_def list_all_iff level_ok_def dest!: levels_map_in\<close>)
  have "list_all level_ok (levels_of side ?M)"
    using pos fin by (auto simp: list_all_iff levels_of_def ordered_prices_def split: if_splits)
  then have "list_all level_ok (take 5 (levels_of side ?M))"
    by (metis append_take_drop_id list_all_append)
  then show ?thesis
    using apply_updates_refines [OF s] best_first_take [OF levels_of_best_first [OF fin]]
    by (simp add: side_inv_def)
qed

lemma core_invalidate_inv: "core_inv core \<Longrightarrow> core_inv (core_invalidate core)"
  by (simp add: core_inv_def core_invalidate_def)

lemma core_apply_refresh_inv:
  "core_inv core \<Longrightarrow> refresh_event_ok ev \<Longrightarrow> core_inv (snd (core_apply_refresh core ev))"
  by (auto simp: core_apply_refresh_def Let_def core_inv_def refresh_event_ok_def make_refresh_side_inv)

lemma core_apply_accepted_diff_inv:
  "core_inv core \<Longrightarrow> diff_event_ok ev \<Longrightarrow> core_inv (snd (core_apply_accepted_diff core ev))"
  by (auto simp: core_apply_accepted_diff_def Let_def core_inv_def diff_event_ok_def
      core_invalidate_def apply_updates_inv)

section \<open>The interface of a venue book\<close>

datatype book_op =
    Op_invalidate
  | Op_refresh SpotDepthEvent
  | Op_diff SpotDepthEvent

fun op_ok :: "book_op \<Rightarrow> bool" where
  "op_ok Op_invalidate = True"
| "op_ok (Op_refresh ev) = refresh_event_ok ev"
| "op_ok (Op_diff ev) = diff_event_ok ev"

text \<open>Runs of operations, generic in the three operations of a venue book.\<close>

definition book_step ::
    "('b \<Rightarrow> 'b) \<Rightarrow> ('b \<Rightarrow> SpotDepthEvent \<Rightarrow> BookApplyResult \<times> 'b) \<Rightarrow>
     ('b \<Rightarrow> SpotDepthEvent \<Rightarrow> BookApplyResult \<times> 'b) \<Rightarrow> 'b \<Rightarrow> book_op \<Rightarrow> 'b" where
  "book_step inval refresh diff b p =
     (case p of Op_invalidate \<Rightarrow> inval b
      | Op_refresh ev \<Rightarrow> snd (refresh b ev)
      | Op_diff ev \<Rightarrow> snd (diff b ev))"

definition book_run ::
    "('b \<Rightarrow> 'b) \<Rightarrow> ('b \<Rightarrow> SpotDepthEvent \<Rightarrow> BookApplyResult \<times> 'b) \<Rightarrow>
     ('b \<Rightarrow> SpotDepthEvent \<Rightarrow> BookApplyResult \<times> 'b) \<Rightarrow> 'b \<Rightarrow> book_op list \<Rightarrow> 'b" where
  "book_run inval refresh diff b ps = foldl (book_step inval refresh diff) b ps"

text \<open>The statuses a sequence of differential events gets.\<close>

fun diff_statuses ::
    "('b \<Rightarrow> SpotDepthEvent \<Rightarrow> BookApplyResult \<times> 'b) \<Rightarrow> 'b \<Rightarrow> SpotDepthEvent list \<Rightarrow>
     BookApplyStatus list" where
  "diff_statuses diff b [] = []"
| "diff_statuses diff b (ev # evs) = bar_status (fst (diff b ev)) # diff_statuses diff (snd (diff b ev)) evs"

locale sequenced_book =
  fixes core_of :: "'b \<Rightarrow> TopFiveBookCore"
    and inval :: "'b \<Rightarrow> 'b"
    and refresh :: "'b \<Rightarrow> SpotDepthEvent \<Rightarrow> BookApplyResult \<times> 'b"
    and diff :: "'b \<Rightarrow> SpotDepthEvent \<Rightarrow> BookApplyResult \<times> 'b"
  assumes core_inval: "core_of (inval b) = core_invalidate (core_of b)"
    and core_refresh: "map_prod id core_of (refresh b ev) = core_apply_refresh (core_of b) ev"
    and diff_invalid: "\<not> core_valid (core_of b) \<Longrightarrow>
      diff b ev = (\<lparr>bar_status = BA_ignored_while_invalid, bar_side = row_side ev\<rparr>, b)"
    and diff_valid: "core_valid (core_of b) \<Longrightarrow>
      bar_status (fst (diff b ev)) = BA_stale_diff \<and> snd (diff b ev) = b \<or>
      bar_status (fst (diff b ev)) = BA_sequence_gap \<and> snd (diff b ev) = inval b \<or>
      core_last_update_id (core_of b) < final_update_id ev \<and>
      map_prod id core_of (diff b ev) = core_apply_accepted_diff (core_of b) ev"
begin

lemma refresh_parts:
  "fst (refresh b ev) = fst (core_apply_refresh (core_of b) ev)"
  "core_of (snd (refresh b ev)) = snd (core_apply_refresh (core_of b) ev)"
  using core_refresh [of b ev] by (metis fst_map_prod id_apply, metis snd_map_prod)

lemma diff_cases:
  obtains (same) "bar_status (fst (diff b ev)) \<in> {BA_ignored_while_invalid, BA_stale_diff}"
      "core_of (snd (diff b ev)) = core_of b"
  | (gap) "bar_status (fst (diff b ev)) = BA_sequence_gap"
      "core_of (snd (diff b ev)) = core_invalidate (core_of b)"
  | (accepted) "core_valid (core_of b)" "core_last_update_id (core_of b) < final_update_id ev"
      "fst (diff b ev) = fst (core_apply_accepted_diff (core_of b) ev)"
      "core_of (snd (diff b ev)) = snd (core_apply_accepted_diff (core_of b) ev)"
proof (cases "core_valid (core_of b)")
  case True
  from diff_valid [OF True, of ev] show thesis
    using that True core_inval
    by (metis fst_map_prod id_apply insertI1 insertI2 snd_map_prod)
next
  case False
  from diff_invalid [OF False, of ev] that(1) show thesis by simp
qed

lemma step_inv:
  assumes "core_inv (core_of b)" and "op_ok p"
  shows "core_inv (core_of (book_step inval refresh diff b p))"
proof (cases p)
  case Op_invalidate
  then show ?thesis using assms by (simp add: book_step_def core_inval core_invalidate_inv)
next
  case (Op_refresh ev)
  then show ?thesis using assms by (simp add: book_step_def refresh_parts core_apply_refresh_inv)
next
  case (Op_diff ev)
  then show ?thesis
    using assms by (cases rule: diff_cases [of b ev])
      (simp_all add: book_step_def core_invalidate_inv core_apply_accepted_diff_inv)
qed

lemma run_inv:
  assumes "core_inv (core_of b)" and "list_all op_ok ps"
  shows "core_inv (core_of (book_run inval refresh diff b ps))"
  using assms
proof (induction ps arbitrary: b)
  case Nil
  then show ?case by (simp add: book_run_def)
next
  case (Cons p ps)
  then show ?case using step_inv [of b p] by (simp add: book_run_def)
qed

text \<open>An update that emits a snapshot leaves a valid book with the event's final update id.\<close>

lemma snapshot_valid:
  assumes "emits_snapshot (fst (diff b ev))"
  shows "core_valid (core_of b) \<and> core_valid (core_of (snd (diff b ev))) \<and>
    core_last_update_id (core_of b) < final_update_id ev \<and>
    core_last_update_id (core_of (snd (diff b ev))) = final_update_id ev"
  using assms
  by (cases rule: diff_cases [of b ev])
    (auto simp: emits_snapshot_def core_apply_accepted_diff_def Let_def core_invalidate_def split: if_splits)

lemma rejected_keeps_levels:
  assumes "\<not> emits_snapshot (fst (diff b ev))"
  shows "core_bids (core_of (snd (diff b ev))) = core_bids (core_of b) \<and>
    core_asks (core_of (snd (diff b ev))) = core_asks (core_of b) \<and>
    core_last_update_id (core_of (snd (diff b ev))) = core_last_update_id (core_of b)"
  using assms
  by (cases rule: diff_cases [of b ev])
    (auto simp: emits_snapshot_def core_apply_accepted_diff_def Let_def core_invalidate_def split: if_splits)

lemma refresh_recovers:
  assumes "\<not> core_valid (core_of b)"
  shows "emits_snapshot (fst (refresh b ev)) \<and> core_valid (core_of (snd (refresh b ev))) \<and>
    core_last_update_id (core_of (snd (refresh b ev))) = final_update_id ev"
  using assms unfolding refresh_parts by (simp add: core_apply_refresh_def Let_def emits_snapshot_def)

lemma invalid_stays:
  assumes "\<not> core_valid (core_of b)"
  shows "diff_statuses diff b evs = replicate (length evs) BA_ignored_while_invalid"
  using assms by (induction evs) (simp_all add: diff_invalid)

lemma failure_invalidates:
  assumes "bar_status (fst (diff b ev)) \<in> {BA_sequence_gap, BA_crossed_book}"
  shows "\<not> core_valid (core_of (snd (diff b ev)))"
  using assms
  by (cases rule: diff_cases [of b ev])
    (auto simp: core_apply_accepted_diff_def Let_def core_invalidate_def split: if_splits)

lemma failure_ignores_rest:
  assumes "bar_status (fst (diff b ev)) \<in> {BA_sequence_gap, BA_crossed_book}"
  shows "diff_statuses diff b (ev # evs)
     = bar_status (fst (diff b ev)) # replicate (length evs) BA_ignored_while_invalid"
  using invalid_stays [OF failure_invalidates [OF assms]] by simp

lemma applied_increasing:
  assumes "set (diff_statuses diff b evs) \<subseteq> {BA_applied_diff}"
  shows "sorted_wrt (<) (map final_update_id evs) \<and>
    (\<forall>ev \<in> set evs. core_last_update_id (core_of b) < final_update_id ev)"
  using assms
proof (induction evs arbitrary: b)
  case (Cons ev evs)
  then have "emits_snapshot (fst (diff b ev))" by (simp add: emits_snapshot_def)
  from snapshot_valid [OF this] Cons.IH [of "snd (diff b ev)"] Cons.prems show ?case
    by fastforce
qed simp

end

lemma spot_diff_cases:
  "core_valid (spot_core b) \<Longrightarrow>
     bar_status (fst (spot_apply_diff b ev)) = BA_stale_diff \<and> snd (spot_apply_diff b ev) = b \<or>
     bar_status (fst (spot_apply_diff b ev)) = BA_sequence_gap \<and>
       snd (spot_apply_diff b ev) = spot_invalidate b \<or>
     core_last_update_id (spot_core b) < final_update_id ev \<and>
     first_update_id ev \<le> core_last_update_id (spot_core b) + 1 \<and>
     map_prod id spot_core (spot_apply_diff b ev) = core_apply_accepted_diff (spot_core b) ev"
  by (auto simp: spot_apply_diff_def Let_def not_le not_less split: prod.splits)

interpretation spot: sequenced_book spot_core spot_invalidate spot_apply_refresh spot_apply_diff
  by unfold_locales
    (use spot_diff_cases in \<open>auto simp: spot_invalidate_def spot_apply_refresh_def spot_apply_diff_def
       split: prod.splits\<close>)

lemma usdm_accept_diff_core:
  "map_prod id usdm_core (usdm_accept_diff b ev) = core_apply_accepted_diff (usdm_core b) ev"
  by (auto simp: usdm_accept_diff_def split: prod.splits)

lemma usdm_diff_cases:
  "core_valid (usdm_core b) \<Longrightarrow>
     bar_status (fst (usdm_apply_diff b ev)) = BA_stale_diff \<and> snd (usdm_apply_diff b ev) = b \<or>
     bar_status (fst (usdm_apply_diff b ev)) = BA_sequence_gap \<and>
       snd (usdm_apply_diff b ev) = usdm_invalidate b \<or>
     core_last_update_id (usdm_core b) < final_update_id ev \<and>
     (if diff_chain_established b then previous_update_id ev = previous_diff_update_id b
      else first_update_id ev \<le> core_last_update_id (usdm_core b) + 1) \<and>
     usdm_apply_diff b ev = usdm_accept_diff b ev"
  by (auto simp: usdm_apply_diff_def Let_def not_le not_less)

interpretation usdm: sequenced_book usdm_core usdm_invalidate usdm_apply_refresh usdm_apply_diff
proof unfold_locales
  fix b :: UsdMBookState and ev :: SpotDepthEvent
  show "usdm_core (usdm_invalidate b) = core_invalidate (usdm_core b)"
    by (simp add: usdm_invalidate_def)
  show "map_prod id usdm_core (usdm_apply_refresh b ev) = core_apply_refresh (usdm_core b) ev"
    by (auto simp: usdm_apply_refresh_def split: prod.splits)
  show "\<not> core_valid (usdm_core b) \<Longrightarrow>
      usdm_apply_diff b ev = (\<lparr>bar_status = BA_ignored_while_invalid, bar_side = row_side ev\<rparr>, b)"
    by (simp add: usdm_apply_diff_def)
  show "core_valid (usdm_core b) \<Longrightarrow>
      bar_status (fst (usdm_apply_diff b ev)) = BA_stale_diff \<and> snd (usdm_apply_diff b ev) = b \<or>
      bar_status (fst (usdm_apply_diff b ev)) = BA_sequence_gap \<and>
        snd (usdm_apply_diff b ev) = usdm_invalidate b \<or>
      core_last_update_id (usdm_core b) < final_update_id ev \<and>
      map_prod id usdm_core (usdm_apply_diff b ev) = core_apply_accepted_diff (usdm_core b) ev"
    using usdm_diff_cases [of b ev] usdm_accept_diff_core [of b ev] by auto
qed

section \<open>Properties\<close>

text \<open>
  C3: a differential update of a side shows exactly the five best levels of the price map obtained
  by applying all its updates to the levels shown before, whatever their order in the event, and
  the array stays well-formed, ordered and positive.
\<close>

theorem apply_updates_top_five:
  assumes "side_inv side s" and "diff_range_ok side us"
  shows "side_inv side (apply_updates s us side) \<and>
     side_view (apply_updates s us side)
       = take kVisibleBookDepth (levels_of side (map_updates (levels_map (side_view s)) us))"
  using assms apply_updates_inv [OF assms] apply_updates_refines [of s side us]
  by (simp add: side_inv_def diff_range_ok_def kVisibleBookDepth_def)

definition sample_bids :: Side where
  "sample_bids = make_refresh_side
     [\<lparr>lu_price = 50, lu_quantity = 1, lu_side = Bid\<rparr>, \<lparr>lu_price = 40, lu_quantity = 2, lu_side = Bid\<rparr>,
      \<lparr>lu_price = 30, lu_quantity = 3, lu_side = Bid\<rparr>, \<lparr>lu_price = 20, lu_quantity = 4, lu_side = Bid\<rparr>,
      \<lparr>lu_price = 10, lu_quantity = 5, lu_side = Bid\<rparr>]"

definition sample_updates :: "LevelUpdate list" where
  "sample_updates =
     [\<lparr>lu_price = 35, lu_quantity = 7, lu_side = Bid\<rparr>, \<lparr>lu_price = 40, lu_quantity = 0, lu_side = Bid\<rparr>,
      \<lparr>lu_price = 60, lu_quantity = 8, lu_side = Bid\<rparr>]"

theorem apply_updates_top_five_witness:
  "side_inv Bid sample_bids \<and> diff_range_ok Bid sample_updates \<and>
   map bl_price (side_view (apply_updates sample_bids sample_updates Bid)) = [60, 50, 35, 30, 20] \<and>
   side_view (apply_updates sample_bids sample_updates Bid)
     = take kVisibleBookDepth (levels_of Bid (map_updates (levels_map (side_view sample_bids)) sample_updates))"
proof -
  have h: "side_inv Bid sample_bids" "diff_range_ok Bid sample_updates" by code_simp+
  have "map bl_price (side_view (apply_updates sample_bids sample_updates Bid)) = [60, 50, 35, 30, 20]"
    by code_simp
  with h apply_updates_top_five [OF h] show ?thesis by blast
qed

text \<open>
  C6: both venue books keep their invariant along every run of invalidations, refreshes and
  differential updates with events as the parser delivers them: at most five levels a side, best
  price first without duplicates, positive prices and quantities, and never a crossed book.
\<close>

theorem book_runs_keep_invariant:
  assumes "list_all op_ok ps"
  shows "core_inv (spot_core (book_run spot_invalidate spot_apply_refresh spot_apply_diff spot_book_init ps)) \<and>
         core_inv (usdm_core (book_run usdm_invalidate usdm_apply_refresh usdm_apply_diff usdm_book_init ps))"
  using assms by (auto intro!: spot.run_inv usdm.run_inv simp: spot_book_init_def usdm_book_init_def)

definition sample_refresh :: SpotDepthEvent where
  "sample_refresh = default_depth_event\<lparr>first_update_id := 100, final_update_id := 100,
     ev_bids := [\<lparr>lu_price = 50, lu_quantity = 1, lu_side = Bid\<rparr>],
     ev_asks := [\<lparr>lu_price = 60, lu_quantity = 2, lu_side = Ask\<rparr>]\<rparr>"

definition sample_diff :: SpotDepthEvent where
  "sample_diff = default_depth_event\<lparr>has_previous_update_id := True, previous_update_id := 99,
     first_update_id := 101, final_update_id := 105,
     ev_bids := [\<lparr>lu_price = 55, lu_quantity = 3, lu_side = Bid\<rparr>], ev_asks := []\<rparr>"

definition sample_next_diff :: SpotDepthEvent where
  "sample_next_diff = default_depth_event\<lparr>has_previous_update_id := True, previous_update_id := 105,
     first_update_id := 106, final_update_id := 107, ev_bids := [],
     ev_asks := [\<lparr>lu_price = 60, lu_quantity = 0, lu_side = Ask\<rparr>,
                 \<lparr>lu_price = 61, lu_quantity = 9, lu_side = Ask\<rparr>]\<rparr>"

theorem book_runs_keep_invariant_witness:
  "core_inv (spot_core (book_run spot_invalidate spot_apply_refresh spot_apply_diff spot_book_init
     [Op_refresh sample_refresh, Op_diff sample_diff, Op_invalidate])) \<and>
   core_inv (usdm_core (book_run usdm_invalidate usdm_apply_refresh usdm_apply_diff usdm_book_init
     [Op_refresh sample_refresh, Op_diff sample_diff, Op_invalidate]))"
  by (rule book_runs_keep_invariant) code_simp

text \<open>
  C8: Spot differential events that are all applied are contiguous: each starts no later than the
  id after the previous final id, and the final ids increase strictly.
\<close>

fun spot_contiguous :: "u64 \<Rightarrow> SpotDepthEvent list \<Rightarrow> bool" where
  "spot_contiguous last_id [] = True"
| "spot_contiguous last_id (ev # evs) \<longleftrightarrow>
     last_id < final_update_id ev \<and> unat (first_update_id ev) \<le> Suc (unat last_id) \<and>
     spot_contiguous (final_update_id ev) evs"

lemma spot_applied_step:
  assumes "bar_status (fst (spot_apply_diff b ev)) = BA_applied_diff"
  shows "core_last_update_id (spot_core b) < final_update_id ev \<and>
    unat (first_update_id ev) \<le> Suc (unat (core_last_update_id (spot_core b)))"
proof -
  have snap: "core_valid (spot_core b) \<and> core_last_update_id (spot_core b) < final_update_id ev"
    using spot.snapshot_valid [of b ev] assms by (simp add: emits_snapshot_def)
  then have "first_update_id ev \<le> core_last_update_id (spot_core b) + 1"
    using spot_diff_cases [of b ev] assms by auto
  then show ?thesis using snap unat_succ_below [of _ "final_update_id ev"]
    by (metis word_le_nat_alt)
qed

theorem spot_applied_diffs_contiguous:
  assumes "set (diff_statuses spot_apply_diff b evs) \<subseteq> {BA_applied_diff}"
  shows "spot_contiguous (core_last_update_id (spot_core b)) evs"
  using assms
proof (induction evs arbitrary: b)
  case (Cons ev evs)
  then have "emits_snapshot (fst (spot_apply_diff b ev))" by (simp add: emits_snapshot_def)
  from spot.snapshot_valid [OF this] spot_applied_step [of b ev] Cons.prems
    Cons.IH [of "snd (spot_apply_diff b ev)"] show ?case by simp
qed simp

theorem spot_applied_diffs_contiguous_witness:
  "spot_contiguous 100 [sample_diff, sample_next_diff]"
proof -
  let ?b = "snd (spot_apply_refresh spot_book_init sample_refresh)"
  have "set (diff_statuses spot_apply_diff ?b [sample_diff, sample_next_diff]) \<subseteq> {BA_applied_diff}"
    by code_simp
  from spot_applied_diffs_contiguous [OF this] show ?thesis
    by (simp add: spot_apply_refresh_def core_apply_refresh_def sample_refresh_def spot_book_init_def
        empty_core_def)
qed

text \<open>
  C9: USD-M differential events that are all applied form an unbroken chain: from the second one
  on, each names the previous applied event's final id as its predecessor, the first one after a
  refresh overlaps it, and the final ids increase strictly.
\<close>

fun usdm_chained :: "u64 option \<Rightarrow> u64 \<Rightarrow> SpotDepthEvent list \<Rightarrow> bool" where
  "usdm_chained prev last_id [] = True"
| "usdm_chained prev last_id (ev # evs) \<longleftrightarrow>
     last_id < final_update_id ev \<and>
     (case prev of None \<Rightarrow> unat (first_update_id ev) \<le> Suc (unat last_id)
      | Some u \<Rightarrow> previous_update_id ev = u) \<and>
     usdm_chained (Some (final_update_id ev)) (final_update_id ev) evs"

definition chain_head :: "UsdMBookState \<Rightarrow> u64 option" where
  "chain_head b = (if diff_chain_established b then Some (previous_diff_update_id b) else None)"

lemma usdm_applied_step:
  assumes "bar_status (fst (usdm_apply_diff b ev)) = BA_applied_diff"
  shows "core_last_update_id (usdm_core b) < final_update_id ev \<and>
    (case chain_head b of
       None \<Rightarrow> unat (first_update_id ev) \<le> Suc (unat (core_last_update_id (usdm_core b)))
     | Some u \<Rightarrow> previous_update_id ev = u) \<and>
    chain_head (snd (usdm_apply_diff b ev)) = Some (final_update_id ev)"
proof -
  have snap: "core_valid (usdm_core b)" "core_last_update_id (usdm_core b) < final_update_id ev"
    using usdm.snapshot_valid [of b ev] assms by (simp_all add: emits_snapshot_def)
  have c: "if diff_chain_established b then previous_update_id ev = previous_diff_update_id b
       else first_update_id ev \<le> core_last_update_id (usdm_core b) + 1"
    "usdm_apply_diff b ev = usdm_accept_diff b ev"
    using usdm_diff_cases [OF snap(1), of ev] assms by auto
  have "chain_head (snd (usdm_apply_diff b ev)) = Some (final_update_id ev)"
    using assms unfolding c(2)
    by (auto simp: usdm_accept_diff_def chain_head_def split: prod.splits if_splits)
  then show ?thesis
    using c(1) snap(2) unat_succ_below [OF snap(2)] by (auto simp: chain_head_def word_le_nat_alt)
qed

theorem usdm_applied_diffs_chained:
  assumes "set (diff_statuses usdm_apply_diff b evs) \<subseteq> {BA_applied_diff}"
  shows "usdm_chained (chain_head b) (core_last_update_id (usdm_core b)) evs"
  using assms
proof (induction evs arbitrary: b)
  case (Cons ev evs)
  then have "emits_snapshot (fst (usdm_apply_diff b ev))" by (simp add: emits_snapshot_def)
  from usdm.snapshot_valid [OF this] usdm_applied_step [of b ev] Cons.prems
    Cons.IH [of "snd (usdm_apply_diff b ev)"] show ?case by simp
qed simp

theorem usdm_applied_diffs_chained_witness:
  "usdm_chained None 100 [sample_diff, sample_next_diff]"
proof -
  let ?b = "snd (usdm_apply_refresh usdm_book_init sample_refresh)"
  have "set (diff_statuses usdm_apply_diff ?b [sample_diff, sample_next_diff]) \<subseteq> {BA_applied_diff}"
    by code_simp
  from usdm_applied_diffs_chained [OF this] show ?thesis
    by (simp add: usdm_apply_refresh_def core_apply_refresh_def sample_refresh_def usdm_book_init_def
        empty_core_def chain_head_def)
qed

text \<open>
  Updates are atomic.  A differential event that is not applied, on either venue, leaves the
  visible levels and the last update id as they were; a sequence gap or a crossing candidate
  additionally makes the book ignore every later differential event.
\<close>

theorem rejected_diff_atomic:
  "(emits_snapshot (fst (spot_apply_diff b ev)) \<or>
     core_bids (spot_core (snd (spot_apply_diff b ev))) = core_bids (spot_core b) \<and>
     core_asks (spot_core (snd (spot_apply_diff b ev))) = core_asks (spot_core b) \<and>
     core_last_update_id (spot_core (snd (spot_apply_diff b ev))) = core_last_update_id (spot_core b)) \<and>
   (emits_snapshot (fst (usdm_apply_diff c ev)) \<or>
     core_bids (usdm_core (snd (usdm_apply_diff c ev))) = core_bids (usdm_core c) \<and>
     core_asks (usdm_core (snd (usdm_apply_diff c ev))) = core_asks (usdm_core c) \<and>
     core_last_update_id (usdm_core (snd (usdm_apply_diff c ev))) = core_last_update_id (usdm_core c))"
  using spot.rejected_keeps_levels [of b ev] usdm.rejected_keeps_levels [of c ev] by blast

text \<open>
  C14: recovery.  After a sequence gap or a crossed candidate every further differential event is
  ignored, however many arrive, and the next partial refresh makes the book valid again at the
  refresh's update id.
\<close>

theorem failed_diff_waits_for_refresh:
  assumes "bar_status (fst (spot_apply_diff b ev)) \<in> {BA_sequence_gap, BA_crossed_book}"
    and "bar_status (fst (usdm_apply_diff c ev)) \<in> {BA_sequence_gap, BA_crossed_book}"
  shows "diff_statuses spot_apply_diff (snd (spot_apply_diff b ev)) evs
           = replicate (length evs) BA_ignored_while_invalid \<and>
         diff_statuses usdm_apply_diff (snd (usdm_apply_diff c ev)) evs
           = replicate (length evs) BA_ignored_while_invalid \<and>
         bar_status (fst (spot_apply_refresh (snd (spot_apply_diff b ev)) r)) = BA_applied_refresh \<and>
         core_valid (spot_core (snd (spot_apply_refresh (snd (spot_apply_diff b ev)) r))) \<and>
         bar_status (fst (usdm_apply_refresh (snd (usdm_apply_diff c ev)) r)) = BA_applied_refresh \<and>
         core_valid (usdm_core (snd (usdm_apply_refresh (snd (usdm_apply_diff c ev)) r)))"
proof -
  note inv = spot.failure_invalidates [OF assms(1)] usdm.failure_invalidates [OF assms(2)]
  then show ?thesis
    using spot.refresh_recovers [OF inv(1), of r] usdm.refresh_recovers [OF inv(2), of r]
    by (auto simp: spot.invalid_stays usdm.invalid_stays spot.refresh_parts usdm.refresh_parts
        core_apply_refresh_def Let_def)
qed

definition crossing_diff :: SpotDepthEvent where
  "crossing_diff = default_depth_event\<lparr>has_previous_update_id := True, previous_update_id := 99,
     first_update_id := 101, final_update_id := 102,
     ev_bids := [\<lparr>lu_price = 60, lu_quantity = 1, lu_side = Bid\<rparr>]\<rparr>"

theorem failed_diff_waits_for_refresh_witness:
  "diff_statuses spot_apply_diff
     (snd (spot_apply_diff (snd (spot_apply_refresh spot_book_init sample_refresh)) crossing_diff)) [sample_diff]
     = [BA_ignored_while_invalid]"
proof -
  let ?b = "snd (spot_apply_refresh spot_book_init sample_refresh)"
  let ?c = "snd (usdm_apply_refresh usdm_book_init sample_refresh)"
  have "bar_status (fst (spot_apply_diff ?b crossing_diff)) \<in> {BA_sequence_gap, BA_crossed_book}"
    "bar_status (fst (usdm_apply_diff ?c crossing_diff)) \<in> {BA_sequence_gap, BA_crossed_book}"
    by code_simp+
  from failed_diff_waits_for_refresh [OF this, of "[sample_diff]"] show ?thesis by simp
qed

end
