(* ===== verification/Payload_Guarantees.thy ===== *)
theory Payload_Guarantees
  imports Payload_Parser Book_Sequencing
begin

unbundle bit_operations_syntax

text \<open>
  What a successful parse guarantees.  The duplicate table is an instance of the linear-probing
  interface: a price of a side is reported as a duplicate exactly when it was seen before in the
  same message, the table is never full, and the storage is never overrun.  From these, the event
  of a successful parse satisfies everything the top-five book asserts of its input.
\<close>

section \<open>The duplicate table\<close>

definition dup_hash :: "int \<times> BookSide \<Rightarrow> nat" where
  "dup_hash k = (unat (mix_key (fst k) (snd k)) AND kDuplicateTableMask)"

definition occupied :: "ParserImpl \<Rightarrow> nat \<Rightarrow> (int \<times> BookSide) option" where
  "occupied impl i =
     (if i < kDuplicateTableSize \<and> dup_generation (pi_duplicates impl i) = pi_generation impl
      then Some (dup_price (pi_duplicates impl i), dup_side (pi_duplicates impl i)) else None)"

text \<open>The prices seen so far in the current message.\<close>

definition seen :: "ParserImpl \<Rightarrow> (int \<times> BookSide) set" where
  "seen impl = ran (occupied impl)"

lemma and_table_mask: "m AND kDuplicateTableMask = m mod kDuplicateTableSize"
proof -
  have "m AND mask 15 = take_bit 15 m" by (simp add: take_bit_eq_mask)
  then show ?thesis
    by (simp add: kDuplicateTableMask_def kDuplicateTableSize_def mask_eq_exp_minus_1 take_bit_eq_mod)
qed

interpretation dup: probe_table kDuplicateTableSize dup_hash
  by unfold_locales (simp_all add: dup_hash_def and_table_mask, simp_all add: kDuplicateTableSize_def)

definition dup_store :: "ParserImpl \<Rightarrow> nat \<Rightarrow> int \<Rightarrow> BookSide \<Rightarrow> ParserImpl" where
  "dup_store impl i price side = impl\<lparr>pi_duplicates := (pi_duplicates impl)(i :=
     \<lparr>dup_generation = pi_generation impl, dup_price = price, dup_side = side\<rparr>)\<rparr>"

lemma insert_unique_from_probe:
  assumes "i < kDuplicateTableSize"
  shows "insert_unique_from impl price side i c =
    (case probe kDuplicateTableSize (occupied impl) (price, side) i (kDuplicateTableSize - c) of
       Probe_empty j \<Rightarrow> (Inserted, dup_store impl j price side)
     | Probe_found _ \<Rightarrow> (Duplicate, impl)
     | Probe_full \<Rightarrow> (Table_full, impl))"
  using assms
proof (induction "kDuplicateTableSize - c" arbitrary: c i)
  case 0
  then show ?case by (simp add: insert_unique_from.simps [of impl price side i c])
next
  case (Suc r)
  then have c: "c < kDuplicateTableSize" "kDuplicateTableSize - c = Suc r" "r = kDuplicateTableSize - Suc c"
    by simp_all
  have "(i + 1) mod kDuplicateTableSize < kDuplicateTableSize" using dup.n_pos by simp
  from Suc.hyps(1) [OF c(3) this] Suc.prems c show ?case
    by (subst insert_unique_from.simps)
      (auto simp: occupied_def and_table_mask dup_store_def)
qed

lemma insert_unique_search:
  "insert_unique impl price side =
    (case dup.search (occupied impl) (price, side) of
       Probe_empty j \<Rightarrow> (Inserted, dup_store impl j price side)
     | Probe_found _ \<Rightarrow> (Duplicate, impl)
     | Probe_full \<Rightarrow> (Table_full, impl))"
  using insert_unique_from_probe [of "dup_hash (price, side)" impl price side 0]
    dup.hash_less [of "(price, side)"]
  by (simp add: insert_unique_def dup.search_def dup_hash_def)

lemma occupied_dup_store:
  "j < kDuplicateTableSize \<Longrightarrow> occupied (dup_store impl j price side) = (occupied impl)(j \<mapsto> (price, side))"
  by (auto simp: occupied_def dup_store_def fun_eq_iff)

lemma occupied_cong:
  "pi_duplicates impl' = pi_duplicates impl \<Longrightarrow> pi_generation impl' = pi_generation impl \<Longrightarrow>
     occupied impl' = occupied impl"
  by (simp add: occupied_def fun_eq_iff)

section \<open>Invariants of the parser's storage\<close>

text \<open>Between messages: no slot is stamped with a later generation.\<close>

definition stamps_ok :: "ParserImpl \<Rightarrow> bool" where
  "stamps_ok impl \<longleftrightarrow> (\<forall>i. dup_generation (pi_duplicates impl i) \<le> pi_generation impl)"

text \<open>During a message.\<close>

definition level_budget :: "ParserImpl \<Rightarrow> nat" where
  "level_budget impl = min (pi_encountered_levels impl) kMaxDepthUpdates"

definition impl_inv :: "ParserImpl \<Rightarrow> bool" where
  "impl_inv impl \<longleftrightarrow> stamps_ok impl \<and> dup.table_inv (occupied impl) \<and>
     card (dom (occupied impl)) \<le> level_budget impl \<and> pi_update_count impl \<le> level_budget impl"

lemma parser_init_stamps: "stamps_ok parser_init"
  by (simp add: stamps_ok_def parser_init_def)

lemma begin_message_inv:
  assumes "stamps_ok impl"
  shows "impl_inv (begin_message impl) \<and> seen (begin_message impl) = {} \<and>
    pi_update_count (begin_message impl) = 0"
proof -
  have less: "dup_generation (pi_duplicates (begin_message impl) i) < pi_generation (begin_message impl)" for i
  proof (cases "pi_generation impl = u64_max")
    case False
    then have "pi_generation impl < pi_generation impl + 1" by (rule u64_succ_gt)
    with assms False show ?thesis
      by (auto simp: begin_message_def stamps_ok_def intro: le_less_trans)
  qed (simp add: begin_message_def)
  have "occupied (begin_message impl) i = None" for i
    using less [of i, THEN less_imp_neq] by (simp add: occupied_def)
  then have "occupied (begin_message impl) = (\<lambda>_. None)" by blast
  moreover have "stamps_ok (begin_message impl)"
    using less by (auto simp: stamps_ok_def intro: less_imp_le)
  ultimately show ?thesis
    using dup.table_inv_empty
    by (simp add: impl_inv_def seen_def) (simp add: begin_message_def Let_def)
qed

lemma impl_inv_table:
  assumes "impl_inv impl"
  shows "dup.table_inv (occupied impl)" "card (dom (occupied impl)) < kDuplicateTableSize"
  using assms by (auto simp: impl_inv_def level_budget_def kMaxDepthUpdates_def kDuplicateTableSize_def)

lemma insert_unique_cases:
  assumes inv: "dup.table_inv (occupied impl)" and small: "card (dom (occupied impl)) < kDuplicateTableSize"
  obtains (dup) "insert_unique impl price side = (Duplicate, impl)" "(price, side) \<in> seen impl"
  | (new) j where "j < kDuplicateTableSize"
      "insert_unique impl price side = (Inserted, dup_store impl j price side)"
      "(price, side) \<notin> seen impl" "seen (dup_store impl j price side) = insert (price, side) (seen impl)"
      "dup.table_inv (occupied (dup_store impl j price side))"
      "card (dom (occupied (dup_store impl j price side))) = Suc (card (dom (occupied impl)))"
proof -
  note nf = dup.search_not_full [OF inv small]
  show thesis
  proof (cases "dup.search (occupied impl) (price, side)")
    case (Probe_found i)
    then show thesis
      using dup.search_member [OF inv] that(1) by (auto simp: insert_unique_search seen_def)
  next
    case (Probe_empty j)
    note e = dup.search_empty [OF inv Probe_empty]
    have fin: "finite (dom (occupied impl))"
      using inv by (auto simp: dup.table_inv_def intro: finite_subset)
    have "ran ((occupied impl)(j \<mapsto> (price, side))) = insert (price, side) (ran (occupied impl))"
      using e by (simp add: ran_map_upd)
    with e fin Probe_empty show thesis
      by (intro that(2) [of j])
        (auto simp: insert_unique_search seen_def occupied_dup_store card_insert_if)
  qed (use nf in blast)
qed

section \<open>Levels of one side\<close>

definition update_ok :: "BookSide \<Rightarrow> bool \<Rightarrow> LevelUpdate \<Rightarrow> bool" where
  "update_ok side is_partial u \<longleftrightarrow> lu_side u = side \<and> 0 < lu_price u \<and> lu_price u \<le> i64_max \<and>
     0 \<le> lu_quantity u \<and> lu_quantity u \<le> i64_max \<and> (is_partial \<longrightarrow> 0 < lu_quantity u)"

definition range_inv :: "BookSide \<Rightarrow> bool \<Rightarrow> (int \<times> BookSide) set \<Rightarrow> LevelUpdate list \<Rightarrow> bool" where
  "range_inv side is_partial known us \<longleftrightarrow>
     list_all (update_ok side is_partial) us \<and> (\<forall>u \<in> set us. (lu_price u, side) \<in> known) \<and>
     distinct (map lu_price us) \<and>
     (is_partial \<longrightarrow> sorted_wrt (\<lambda>u v. better_price side (lu_price u) (lu_price v)) us)"

definition levels_inv :: "BookSide \<Rightarrow> bool \<Rightarrow> nat \<Rightarrow> LevelLoop \<Rightarrow> bool" where
  "levels_inv side is_partial start st \<longleftrightarrow>
     (let us = update_range (ll_impl st) start in
      impl_inv (ll_impl st) \<and> start \<le> pi_update_count (ll_impl st) \<and>
      range_inv side is_partial (seen (ll_impl st)) us \<and> length us \<le> ll_side_level_count st \<and>
      ll_has_previous_price st = (us \<noteq> []) \<and> (us \<noteq> [] \<longrightarrow> ll_previous_price st = lu_price (last us)))"

definition count_ok :: "bool \<Rightarrow> LevelLoop \<Rightarrow> bool" where
  "count_ok is_partial st \<longleftrightarrow> pf_error (ll_first_error st) \<noteq> SPE_internal_capacity_error \<and>
     (is_partial \<and> \<not> pf_failed (ll_first_error st) \<longrightarrow> ll_side_level_count st \<le> 5)"

definition level_room :: "nat \<Rightarrow> LevelLoop \<Rightarrow> bool" where
  "level_room start st \<longleftrightarrow>
     card (dom (occupied (ll_impl st))) < level_budget (ll_impl st) \<and>
     pi_update_count (ll_impl st) < level_budget (ll_impl st) \<and>
     length (update_range (ll_impl st) start) < ll_side_level_count st"

lemma failed_first [simp]: "pf_failed (first_failure old new) \<longleftrightarrow> pf_failed old \<or> pf_failed new"
  by (simp add: first_failure_def)

lemma failed_fail [simp]: "pf_failed (fail e field d) \<longleftrightarrow> e \<noteq> SPE_none"
  by (simp add: pf_failed_def fail_def)

lemma pf_error_fail [simp]: "pf_error (fail e field d) = e"
  by (simp add: fail_def)

lemma pf_error_first:
  "pf_error (first_failure old new) = (if pf_failed old then pf_error old else pf_error new)"
  by (simp add: first_failure_def)

lemma failed_fail_json [simp]: "pf_failed (fail_json e)"
  by (simp add: fail_json_def classify_json_error_def)

lemma fail_json_no_capacity [simp]: "pf_error (fail_json e) \<noteq> SPE_internal_capacity_error"
  by (simp add: fail_json_def fail_def classify_json_error_def)

lemma levels_inv_record [simp]:
  "levels_inv side is_partial start (ll_record_error f st) = levels_inv side is_partial start st"
  by (simp add: levels_inv_def ll_record_error_def)

lemma levels_inv_error [simp]:
  "levels_inv side is_partial start (st\<lparr>ll_first_error := f\<rparr>) = levels_inv side is_partial start st"
  by (simp add: levels_inv_def)

lemma count_ok_record:
  "count_ok is_partial st \<Longrightarrow> pf_error f \<noteq> SPE_internal_capacity_error \<Longrightarrow>
     count_ok is_partial (ll_record_error f st)"
  by (simp add: count_ok_def ll_record_error_def pf_error_first)

lemma range_inv_snoc:
  assumes "range_inv side is_partial known us" and "update_ok side is_partial u"
    and "(lu_price u, side) \<notin> known"
    and "is_partial \<Longrightarrow> us \<noteq> [] \<Longrightarrow> better_price side (lu_price (last us)) (lu_price u)"
  shows "range_inv side is_partial (insert (lu_price u, side) known) (us @ [u])"
proof -
  have "better_price side (lu_price v) (lu_price u)" if p: "is_partial" and v: "v \<in> set us" for v
  proof -
    from v obtain ys l where us: "us = ys @ [l]" by (cases us rule: rev_cases) auto
    with assms(4) p have l: "better_price side (lu_price l) (lu_price u)" by simp
    have "v = l \<or> better_price side (lu_price v) (lu_price l)"
      using assms(1) p v us by (auto simp: range_inv_def sorted_wrt_append)
    with l show ?thesis using better_price_trans by blast
  qed
  with assms show ?thesis by (auto simp: range_inv_def sorted_wrt_append)
qed

lemma update_range_store:
  assumes "start \<le> pi_update_count impl"
  shows "update_range (impl\<lparr>pi_updates := (pi_updates impl)(pi_update_count impl := u),
       pi_update_count := Suc (pi_update_count impl)\<rparr>) start = update_range impl start @ [u]"
  using assms by (simp add: update_range_def)

lemma update_range_dup_store [simp]: "update_range (dup_store impl j price side) start = update_range impl start"
  by (simp add: update_range_def dup_store_def)

lemma dup_store_simps [simp]:
  "pi_update_count (dup_store impl j price side) = pi_update_count impl"
  "level_budget (dup_store impl j price side) = level_budget impl"
  "pi_encountered_levels (dup_store impl j price side) = pi_encountered_levels impl"
  "stamps_ok impl \<Longrightarrow> stamps_ok (dup_store impl j price side)"
  by (simp_all add: dup_store_def level_budget_def stamps_ok_def)

lemma store_level_inv:
  assumes inv: "levels_inv side is_partial start st" and room: "level_room start st"
    and count: "count_ok is_partial st"
    and u: "update_ok side is_partial \<lparr>lu_price = price, lu_quantity = quantity, lu_side = side\<rparr>"
  shows "case store_level side is_partial price quantity st of (r, st') \<Rightarrow>
    r = None \<and> levels_inv side is_partial start st' \<and> count_ok is_partial st'"
proof -
  have impl: "impl_inv (ll_impl st)" using inv by (simp add: levels_inv_def Let_def)
  from impl_inv_table [OF impl] show ?thesis
  proof (cases rule: insert_unique_cases [where price = price and side = side])
    case dup
    with inv count show ?thesis by (simp add: store_level_def count_ok_record)
  next
    case (new j)
    let ?impl = "dup_store (ll_impl st) j price side"
    have dup_inv: "impl_inv ?impl"
      using impl room new by (auto simp: impl_inv_def level_room_def)
    have seen: "range_inv side is_partial (seen ?impl) (update_range (ll_impl st) start)"
      using inv new(4) by (auto simp: levels_inv_def range_inv_def Let_def)
    show ?thesis
    proof (cases "is_partial \<and> ll_has_previous_price st \<and>
        \<not> (if side = Bid then ll_previous_price st > price else ll_previous_price st < price)")
      case True
      then have "store_level side is_partial price quantity st = (None,
          ll_record_error (fail SPE_invalid_level_order (side_field side) Dec_none) (st\<lparr>ll_impl := ?impl\<rparr>))"
        using new by (auto simp: store_level_def Let_def)
      moreover have "count_ok is_partial (st\<lparr>ll_impl := ?impl\<rparr>)" using count by (simp add: count_ok_def)
      ultimately show ?thesis
        using dup_inv seen inv by (simp add: count_ok_record) (simp add: levels_inv_def Let_def)
    next
      case False
      let ?u = "\<lparr>lu_price = price, lu_quantity = quantity, lu_side = side\<rparr>"
      let ?impl' = "?impl\<lparr>pi_updates := (pi_updates ?impl)(pi_update_count ?impl := ?u),
          pi_update_count := Suc (pi_update_count ?impl)\<rparr>"
      have "range_inv side is_partial (insert (lu_price ?u, side) (seen (ll_impl st)))
          (update_range (ll_impl st) start @ [?u])"
        by (rule range_inv_snoc) (use inv u new False in
            \<open>auto simp: levels_inv_def Let_def better_price_def split: if_splits\<close>)
      moreover have "update_range ?impl' start = update_range (ll_impl st) start @ [?u]"
        using inv by (subst update_range_store) (simp_all add: levels_inv_def Let_def)
      moreover have occ: "occupied ?impl' = occupied ?impl" by (rule occupied_cong) simp_all
      moreover have "impl_inv ?impl'"
        using dup_inv room new occ
        by (simp add: impl_inv_def level_room_def stamps_ok_def level_budget_def)
      moreover have "store_level side is_partial price quantity st = (None, st\<lparr>ll_impl := ?impl',
          ll_previous_price := price, ll_has_previous_price := True\<rparr>)"
        using new(2) False by (auto simp: store_level_def Let_def)
      moreover have "length (update_range (ll_impl st) start) < ll_side_level_count st"
        using room by (simp add: level_room_def)
      ultimately show ?thesis
        using inv count new(4) by (simp add: levels_inv_def Let_def count_ok_def seen_def)
    qed
  qed
qed

lemma convert_level_inv:
  assumes "levels_inv side is_partial start st" and "level_room start st" and "count_ok is_partial st"
  shows "case convert_level side is_partial p q st of (r, st') \<Rightarrow>
    r = None \<and> levels_inv side is_partial start st' \<and> count_ok is_partial st'"
proof (cases "dec_has_value (parse_decimal_1e8 p) \<and> 0 < dec_value (parse_decimal_1e8 p) \<and>
    dec_has_value (parse_decimal_1e8 q) \<and> (is_partial \<longrightarrow> 0 < dec_value (parse_decimal_1e8 q))")
  case True
  then have "update_ok side is_partial \<lparr>lu_price = dec_value (parse_decimal_1e8 p),
      lu_quantity = dec_value (parse_decimal_1e8 q), lu_side = side\<rparr>"
    using parse_decimal_1e8_range [of p] parse_decimal_1e8_range [of q]
    by (simp add: update_ok_def dec_has_value_def)
  from store_level_inv [OF assms this] True show ?thesis
    by (auto simp: convert_level_def Let_def)
next
  case False
  with assms show ?thesis
    by (auto simp: convert_level_def Let_def count_ok_record)
qed

text \<open>Recorded errors persist, and none of them is a capacity error.\<close>

definition error_grows :: "ParseFailure \<Rightarrow> ParseFailure \<Rightarrow> bool" where
  "error_grows old new \<longleftrightarrow> (pf_failed old \<longrightarrow> pf_failed new) \<and>
     (pf_error old \<noteq> SPE_internal_capacity_error \<longrightarrow> pf_error new \<noteq> SPE_internal_capacity_error)"

lemma skip_component_grows:
  "skip_component v f st = Inr p \<Longrightarrow> pf_error f \<noteq> SPE_internal_capacity_error \<Longrightarrow>
     error_grows (pr_first_error st) (pr_first_error p)"
  by (auto simp: skip_component_def Let_def error_grows_def pf_error_first split: option.splits if_splits)

lemma parse_component_grows:
  "parse_component v st = Inr p \<Longrightarrow> error_grows (pr_first_error st) (pr_first_error p)"
  by (auto simp: parse_component_def error_grows_def split: if_splits sum.splits json_value.splits
      dest!: skip_component_grows [unfolded error_grows_def])

lemma parse_components_grows:
  "parse_components xs st = Inr p \<Longrightarrow> error_grows (pr_first_error st) (pr_first_error p)"
proof (induction xs st rule: parse_components.induct)
  case (3 v rest st)
  then show ?case using parse_component_grows [of v st]
    by (auto simp: error_grows_def split: sum.splits)
qed (auto simp: error_grows_def)

lemma parse_components_error:
  "parse_components xs st = Inl f \<Longrightarrow> \<exists>e. f = fail_json e"
  by (induction xs st rule: parse_components.induct)
    (auto split: sum.splits if_splits json_value.splits option.splits
      simp: parse_component_def skip_component_def Let_def)

lemma parse_pair_inv:
  assumes "levels_inv side is_partial start st" and "level_room start st" and "count_ok is_partial st"
  shows "case parse_pair side is_partial pair st of (r, st') \<Rightarrow>
    (r = None \<or> (\<exists>e. r = Some (fail_json e))) \<and> levels_inv side is_partial start st' \<and> count_ok is_partial st'"
proof (cases "parse_components pair \<lparr>pr_price_text = [], pr_quantity_text = [], pr_count = 0,
      pr_valid = True, pr_first_error = ll_first_error st\<rparr>")
  case (Inl f)
  with assms parse_components_error [OF Inl] show ?thesis by (auto simp: parse_pair_def)
next
  case (Inr p)
  let ?st = "st\<lparr>ll_first_error := pr_first_error p\<rparr>"
  have c: "count_ok is_partial ?st" using assms(3) parse_components_grows [OF Inr] by (auto simp: count_ok_def error_grows_def)
  have i: "levels_inv side is_partial start ?st" "level_room start ?st" using assms by (simp_all add: level_room_def)
  from convert_level_inv [OF i c, of "pr_price_text p" "pr_quantity_text p"] Inr i c show ?thesis
    by (auto simp: parse_pair_def Let_def count_ok_record)
qed

lemma skip_level_inv:
  assumes "levels_inv side is_partial start st" and "count_ok is_partial st \<or> pf_failed f"
    and "pf_error f \<noteq> SPE_internal_capacity_error"
    and "pf_error (ll_first_error st) \<noteq> SPE_internal_capacity_error"
  shows "case skip_level v f st of (r, st') \<Rightarrow>
    (r = None \<or> (\<exists>e. r = Some (fail_json e))) \<and> levels_inv side is_partial start st' \<and> count_ok is_partial st'"
  using assms
  by (auto simp: skip_level_def Let_def count_ok_def ll_record_error_def pf_error_first split: option.splits)

lemma parse_level_inv:
  assumes "levels_inv side is_partial start st" and "count_ok is_partial st"
  shows "case parse_level side is_partial v st of (r, st') \<Rightarrow>
    (r = None \<or> (\<exists>e. r = Some (fail_json e))) \<and> levels_inv side is_partial start st' \<and> count_ok is_partial st'"
proof -
  let ?impl = "(ll_impl st)\<lparr>pi_encountered_levels := Suc (pi_encountered_levels (ll_impl st))\<rparr>"
  let ?st = "st\<lparr>ll_impl := ?impl, ll_side_level_count := Suc (ll_side_level_count st)\<rparr>"
  have occ: "occupied ?impl = occupied (ll_impl st)" by (rule occupied_cong) simp_all
  then have "seen ?impl = seen (ll_impl st)" by (simp add: seen_def)
  moreover have range: "update_range ?impl start = update_range (ll_impl st) start"
    by (simp add: update_range_def)
  moreover have "impl_inv ?impl"
    using assms(1) occ by (auto simp: levels_inv_def Let_def impl_inv_def stamps_ok_def level_budget_def)
  ultimately have inv: "levels_inv side is_partial start ?st"
    using assms(1) by (simp add: levels_inv_def Let_def)
  have cap: "pf_error (ll_first_error ?st) \<noteq> SPE_internal_capacity_error"
    using assms(2) by (simp add: count_ok_def)
  show ?thesis
  proof (cases "pi_encountered_levels (ll_impl st) \<ge> kMaxDepthUpdates \<or>
      is_partial \<and> ll_side_level_count st \<ge> kMaxPartialDepthLevelsPerSide")
    case True
    with skip_level_inv [OF inv _ _ cap, of "fail SPE_too_many_levels (side_field side) Dec_none" v]
    show ?thesis by (simp add: parse_level_def Let_def)
  next
    case False
    then have c: "count_ok is_partial ?st" and room: "level_room start ?st"
      using assms occ range
      by (auto simp: count_ok_def kMaxPartialDepthLevelsPerSide_def level_room_def level_budget_def
          levels_inv_def impl_inv_def Let_def)
    define s where "s = ?st"
    note parts = parse_pair_inv [OF inv room c, folded s_def]
      skip_level_inv [OF inv disjI1 [OF c] _ cap, folded s_def]
      inv [folded s_def] c [folded s_def]
    have "parse_level side is_partial v st =
        (case json_type_of v of
           Inl e \<Rightarrow> (Some (fail_json e), s)
         | Inr _ \<Rightarrow>
             (case v of
                JV_array_error e \<Rightarrow> (Some (fail_json e), s)
              | JV_array pair \<Rightarrow> parse_pair side is_partial pair s
              | _ \<Rightarrow> skip_level v (fail SPE_invalid_level_shape SF_level Dec_none) s))"
      by (simp only: parse_level_def Let_def False if_False s_def)
    with parts show ?thesis by (cases v) (simp_all, blast+)
  qed
qed

lemma parse_level_list_inv:
  assumes "levels_inv side is_partial start st" and "count_ok is_partial st"
  shows "case parse_level_list side is_partial xs st of (r, st') \<Rightarrow>
    (r = None \<or> (\<exists>e. r = Some (fail_json e))) \<and> levels_inv side is_partial start st' \<and> count_ok is_partial st'"
  using assms
proof (induction side is_partial xs st rule: parse_level_list.induct)
  case (3 side is_partial v rest st)
  from parse_level_inv [OF 3(2,3), of v] 3(1) show ?case
    by (cases "parse_level side is_partial v st") (auto split: option.splits)
qed auto

definition range_ok :: "BookSide \<Rightarrow> bool \<Rightarrow> LevelUpdate list \<Rightarrow> bool" where
  "range_ok side is_partial us = (if is_partial then refresh_range_ok side us else diff_range_ok side us)"

lemma range_ok_Nil [simp]: "range_ok side is_partial []"
  by (simp add: range_ok_def refresh_range_ok_def diff_range_ok_def)

lemma parse_levels_inv:
  assumes "impl_inv impl"
  shows "case parse_levels impl v side is_partial old of (f, output, impl') \<Rightarrow>
    impl_inv impl' \<and> pf_error f \<noteq> SPE_internal_capacity_error \<and>
    (pf_failed f \<or> range_ok side is_partial output)"
proof (cases "\<exists>levels. v = JV_array levels")
  case False
  with assms show ?thesis
    by (cases v) (auto simp: parse_levels_def split: option.splits)
next
  case True
  then obtain levels where v: "v = JV_array levels" by blast
  let ?st = "\<lparr>ll_impl = impl, ll_first_error = no_failure, ll_side_level_count = 0,
    ll_previous_price = 0, ll_has_previous_price = False\<rparr>"
  obtain r st' where run: "parse_level_list side is_partial levels ?st = (r, st')" by fastforce
  have "levels_inv side is_partial (pi_update_count impl) ?st" "count_ok is_partial ?st"
    using assms by (auto simp: levels_inv_def range_inv_def update_range_def count_ok_def no_failure_def)
  from parse_level_list_inv [OF this, of levels] run
  have r: "r = None \<or> (\<exists>e. r = Some (fail_json e))"
    and inv: "levels_inv side is_partial (pi_update_count impl) st'" and c: "count_ok is_partial st'"
    by auto
  show ?thesis
  proof (cases r)
    case (Some f)
    with r v run inv show ?thesis by (auto simp: parse_levels_def levels_inv_def Let_def)
  next
    case None
    let ?us = "update_range (ll_impl st') (pi_update_count impl)"
    have "pf_failed (ll_first_error st') \<or> range_ok side is_partial ?us"
      using inv c
      by (auto simp: levels_inv_def range_inv_def Let_def count_ok_def range_ok_def refresh_range_ok_def
          diff_range_ok_def update_ok_def list_all_iff kVisibleBookDepth_def)
    moreover have "pf_error (ll_first_error st') \<noteq> SPE_internal_capacity_error"
      using c by (simp add: count_ok_def)
    ultimately show ?thesis using None v run inv by (auto simp: parse_levels_def levels_inv_def Let_def)
  qed
qed

section \<open>The depth event\<close>

abbreviation dl_event :: "DepthLoop \<Rightarrow> SpotDepthEvent" where
  "dl_event st \<equiv> se_depth (spr_event (dl_result st))"

definition depth_inv :: "SpotStreamKind \<Rightarrow> DepthLoop \<Rightarrow> bool" where
  "depth_inv kind st \<longleftrightarrow> impl_inv (dl_impl st) \<and>
     spr_error (dl_result st) \<noteq> SPE_internal_capacity_error \<and>
     (spr_error (dl_result st) = SPE_none \<longrightarrow>
        range_ok Bid (kind = Depth5) (ev_bids (dl_event st)) \<and> range_ok Ask (kind = Depth5) (ev_asks (dl_event st)))"

lemma depth_inv_record:
  "depth_inv kind st \<Longrightarrow> pf_error f \<noteq> SPE_internal_capacity_error \<Longrightarrow> depth_inv kind (dl_record_error f st)"
  by (auto simp: depth_inv_def dl_record_error_def)

lemma depth_inv_overwrite:
  "impl_inv (dl_impl st) \<Longrightarrow> pf_failed f \<Longrightarrow> pf_error f \<noteq> SPE_internal_capacity_error \<Longrightarrow>
     depth_inv kind (dl_overwrite_error f st)"
  by (auto simp: depth_inv_def dl_overwrite_error_def pf_failed_def)

lemma depth_inv_impl: "depth_inv kind st \<Longrightarrow> impl_inv (dl_impl st)"
  by (simp add: depth_inv_def)

lemma depth_inv_update:
  assumes "depth_inv kind st" and "\<And>e. ev_bids (g e) = ev_bids e" and "\<And>e. ev_asks (g e) = ev_asks e"
  shows "depth_inv kind (update_depth g st)"
  using assms by (simp add: depth_inv_def update_depth_def)

lemma dl_record_error_impl [simp]: "dl_impl (dl_record_error f st) = dl_impl st"
  by (simp add: dl_record_error_def)

lemma apply_failure_inv:
  assumes "depth_inv kind st" and "pf_error f \<noteq> SPE_internal_capacity_error"
  shows "depth_inv kind (snd (apply_failure f st))"
  using assms
  by (simp add: apply_failure_def depth_inv_record depth_inv_overwrite depth_inv_impl)

lemma duplicate_field_inv:
  assumes "depth_inv kind st"
  shows "depth_inv kind (snd (duplicate_field field_bit field v st))"
proof -
  have "depth_inv kind (st\<lparr>dl_fields := fs\<rparr>)" for fs using assms by (simp add: depth_inv_def)
  moreover have "depth_inv kind (dl_record_error (fail SPE_duplicate_field field Dec_none) st)"
    by (rule depth_inv_record [OF assms]) simp
  ultimately show ?thesis
    using depth_inv_impl [OF assms]
    by (auto simp: duplicate_field_def Let_def depth_inv_overwrite split: prod.splits bool.splits option.splits)
qed

lemma read_string_no_capacity: "pf_error (fst (read_json_string v field)) \<noteq> SPE_internal_capacity_error"
  by (auto simp: read_json_string_def validated_wrong_type_def no_failure_def
      split: sum.splits json_value.splits option.splits)

lemma read_uint64_no_capacity: "pf_error (fst (read_json_uint64 v old field)) \<noteq> SPE_internal_capacity_error"
  by (auto simp: read_json_uint64_def validated_wrong_type_def no_failure_def
      split: sum.splits json_value.splits option.splits)

lemma string_field_inv:
  assumes "depth_inv kind st" and "mismatch \<noteq> SPE_internal_capacity_error"
  shows "depth_inv kind (snd (string_field field_bit field matches mismatch v st))"
proof -
  obtain d st1 where d: "duplicate_field field_bit field v st = (d, st1)" by fastforce
  obtain f s where f: "read_json_string v field = (f, s)" by fastforce
  obtain a st2 where a: "apply_failure f st1 = (a, st2)" by fastforce
  have 1: "depth_inv kind st1" using duplicate_field_inv [OF assms(1), of field_bit field v] d by simp
  moreover have "depth_inv kind st2"
    using apply_failure_inv [OF 1, of f] read_string_no_capacity [of v field] f a by simp
  ultimately show ?thesis
    using assms(2) by (auto simp: string_field_def d f a fatal_return_def depth_inv_record split: bool.splits)
qed

lemma uint_field_inv:
  assumes "depth_inv kind st"
    and "\<And>w e. ev_bids (store w e) = ev_bids e \<and> ev_asks (store w e) = ev_asks e"
    and "\<And>e. ev_bids (after e) = ev_bids e \<and> ev_asks (after e) = ev_asks e"
  shows "depth_inv kind (snd (uint_field field_bit field old store after v st))"
proof -
  obtain d st1 where d: "duplicate_field field_bit field v st = (d, st1)" by fastforce
  obtain f w where f: "read_json_uint64 v (old (dl_event st1)) field = (f, w)" by fastforce
  obtain a st2 where a: "apply_failure f (update_depth (store w) st1) = (a, st2)" by fastforce
  have 1: "depth_inv kind st1" using duplicate_field_inv [OF assms(1), of field_bit field v] d by simp
  then have "depth_inv kind (update_depth (store w) st1)" by (rule depth_inv_update) (simp_all add: assms)
  then have 2: "depth_inv kind st2"
    using apply_failure_inv [of kind _ f] read_uint64_no_capacity [of v "old (dl_event st1)" field] f a
    by (metis fst_conv snd_conv)
  then have "depth_inv kind (update_depth after st2)" by (rule depth_inv_update) (simp_all add: assms)
  with 1 2 show ?thesis by (auto simp: uint_field_def d f a fatal_return_def split: bool.splits)
qed

lemma levels_field_inv:
  assumes "depth_inv kind st" and "p = (kind = Depth5)"
    and "\<And>r e. (side = Bid \<longrightarrow> ev_bids (store r e) = r \<and> ev_asks (store r e) = ev_asks e) \<and>
      (side = Ask \<longrightarrow> ev_asks (store r e) = r \<and> ev_bids (store r e) = ev_bids e)"
  shows "depth_inv kind (snd (levels_field field_bit field side p old store v st))"
proof -
  obtain d st1 where d: "duplicate_field field_bit field v st = (d, st1)" by fastforce
  obtain f r impl where f: "parse_levels (dl_impl st1) v side p (old (dl_event st1)) = (f, r, impl)"
    by (cases "parse_levels (dl_impl st1) v side p (old (dl_event st1))") auto
  have 1: "depth_inv kind st1" using duplicate_field_inv [OF assms(1), of field_bit field v] d by simp
  have pl: "impl_inv impl" "pf_error f \<noteq> SPE_internal_capacity_error" "pf_failed f \<or> range_ok side p r"
    using parse_levels_inv [OF depth_inv_impl [OF 1], where v = v and side = side and is_partial = p
        and old = "old (dl_event st1)"] f by auto
  let ?st = "update_depth (store r) (st1\<lparr>dl_impl := impl\<rparr>)"
  have "\<not> pf_failed f \<Longrightarrow> depth_inv kind ?st"
    using 1 pl assms(2) assms(3) [of r "dl_event st1"]
    by (cases side) (auto simp: depth_inv_def update_depth_def)
  moreover have "pf_failed f \<Longrightarrow> depth_inv kind (dl_record_error f ?st)"
    using 1 pl by (auto simp: depth_inv_def update_depth_def dl_record_error_def pf_failed_def)
  moreover have "pf_failed f \<Longrightarrow> depth_inv kind (dl_overwrite_error f ?st)"
    using pl by (intro depth_inv_overwrite) (simp_all add: update_depth_def)
  ultimately show ?thesis using 1
    by (auto simp: levels_field_def d f fatal_return_def Let_def split: bool.splits)
qed

lemma depth_inv_if:
  "depth_inv kind (snd a) \<Longrightarrow> depth_inv kind (snd b) \<Longrightarrow> depth_inv kind (snd (if c then a else b))"
  by simp

lemma depth_member_inv:
  assumes "depth_inv kind st"
  shows "depth_inv kind (snd (depth_member venue kind expected_symbol key v st))"
proof -
  have other: "depth_inv kind (snd (case validate_json_value v kRootFieldContainerDepth of
      Some e \<Rightarrow> (True, dl_overwrite_error (fail_json e) st) | None \<Rightarrow> (False, st)))"
    using assms depth_inv_impl [OF assms] by (auto simp: depth_inv_overwrite split: option.splits)
  show ?thesis
    unfolding depth_member_def Let_def
    by (intro depth_inv_if other string_field_inv uint_field_inv levels_field_inv assms) simp_all
qed

lemma depth_members_inv:
  "depth_inv kind st \<Longrightarrow> depth_inv kind (snd (depth_members venue kind expected_symbol ms st))"
proof (induction venue kind expected_symbol ms st rule: depth_members.induct)
  case (4 venue kind expected_symbol key v rest st)
  then show ?case
    using depth_member_inv [OF 4(2), of venue expected_symbol key v]
    by (cases "depth_member venue kind expected_symbol key v st") (auto split: bool.splits)
qed (auto simp: depth_inv_def set_error_def classify_json_error_def)

section \<open>The whole parse\<close>

lemma make_refresh_side_first:
  assumes "length us \<le> 5"
  shows "side_size (make_refresh_side us) = length us"
    and "us \<noteq> [] \<Longrightarrow> bl_price (side_levels (make_refresh_side us) ! 0) = lu_price (us ! 0)"
proof -
  note wf = make_refresh_side_view [OF assms, THEN conjunct1]
  note v = make_refresh_side_view [OF assms, THEN conjunct2]
  have size: "length (side_view (make_refresh_side us)) = side_size (make_refresh_side us)"
    using wf by (simp add: side_wf_def side_view_def)
  with v show s: "side_size (make_refresh_side us) = length us" by simp
  assume ne: "us \<noteq> []"
  then have "side_levels (make_refresh_side us) ! 0 = side_view (make_refresh_side us) ! 0"
    using s by (simp add: side_view_def)
  with v ne show "bl_price (side_levels (make_refresh_side us) ! 0) = lu_price (us ! 0)" by simp
qed

text \<open>
  What the accepted payload says besides its levels: a member that was seen without an error has set
  the flag of its field.
\<close>

definition flag_inv :: "u32 \<Rightarrow> (SpotDepthEvent \<Rightarrow> bool) \<Rightarrow> DepthLoop \<Rightarrow> bool" where
  "flag_inv b flag st \<longleftrightarrow>
     (spr_error (dl_result st) = SPE_none \<longrightarrow> dl_fields st AND b \<noteq> 0 \<longrightarrow> flag (dl_event st))"

lemma flag_inv_record: "flag_inv b flag st \<Longrightarrow> flag_inv b flag (dl_record_error f st)"
  by (simp add: flag_inv_def dl_record_error_def)

lemma flag_inv_overwrite: "pf_failed f \<Longrightarrow> flag_inv b flag (dl_overwrite_error f st)"
  by (simp add: flag_inv_def dl_overwrite_error_def pf_failed_def)

lemma flag_inv_record_failed: "pf_failed f \<Longrightarrow> flag_inv b flag (dl_record_error f st)"
  by (simp add: flag_inv_def dl_record_error_def pf_failed_def)

lemma flag_inv_update: "flag_inv b flag st \<Longrightarrow> (\<And>e. flag (g e) = flag e) \<Longrightarrow> flag_inv b flag (update_depth g st)"
  by (simp add: flag_inv_def update_depth_def)

lemma apply_failure_flag:
  "apply_failure f st = (failed, st') \<Longrightarrow>
     if failed then flag_inv b flag st' else st' = st"
  by (auto simp: apply_failure_def flag_inv_overwrite flag_inv_record_failed split: if_splits)

text \<open>A member of another field, and the member of the field itself before its value is read.\<close>

lemma duplicate_field_flag:
  assumes "duplicate_field fb field v st = (dup, st')" and "flag_inv b flag st"
  shows "dup \<Longrightarrow> flag_inv b flag st'" and "fb AND b = 0 \<Longrightarrow> flag_inv b flag st'"
proof -
  have "pf_failed (fail SPE_duplicate_field field Dec_none)" by (simp add: pf_failed_def fail_def)
  then show dup: "flag_inv b flag st'" if dup
    using assms that
    by (auto simp: duplicate_field_def Let_def flag_inv_overwrite flag_inv_record_failed split: prod.splits bool.splits option.splits)
  show "flag_inv b flag st'" if other: "fb AND b = 0"
  proof (cases dup)
    case False
    then have "st' = st\<lparr>dl_fields := dl_fields st OR fb\<rparr>"
      using assms(1) by (auto simp: duplicate_field_def mark_once_def Let_def split: if_splits prod.splits bool.splits option.splits)
    with other assms(2) show ?thesis by (simp add: flag_inv_def bit.conj_disj_distrib2)
  qed (use dup in simp)
qed

lemma string_field_flag:
  assumes "flag_inv b flag st" and "fb AND b = 0"
  shows "flag_inv b flag (snd (string_field fb field matches mismatch v st))"
proof -
  obtain d st1 where d: "duplicate_field fb field v st = (d, st1)" by fastforce
  obtain f s where f: "read_json_string v field = (f, s)" by fastforce
  obtain a st2 where a: "apply_failure f st1 = (a, st2)" by fastforce
  note 1 = duplicate_field_flag(2) [OF d assms]
  with apply_failure_flag [OF a, of b flag] have "flag_inv b flag st2" by (cases a) simp_all
  with 1 show ?thesis
    by (auto simp: string_field_def d f a fatal_return_def flag_inv_record split: bool.splits)
qed

lemma uint_field_flag:
  assumes "flag_inv b flag st" and "\<And>w e. flag (store w e) = flag e"
    and "fb AND b = 0 \<and> (\<forall>e. flag (after e) = flag e) \<or> (\<forall>e. flag (after e))"
  shows "flag_inv b flag (snd (uint_field fb field old store after v st))"
proof -
  obtain d st1 where d: "duplicate_field fb field v st = (d, st1)" by fastforce
  obtain f w where f: "read_json_uint64 v (old (dl_event st1)) field = (f, w)" by fastforce
  obtain a st2 where a: "apply_failure f (update_depth (store w) st1) = (a, st2)" by fastforce
  note 1 = duplicate_field_flag [OF d assms(1)]
  note 2 = apply_failure_flag [OF a, of b flag]
  have "\<not> a \<Longrightarrow> flag_inv b flag (update_depth after st2)"
  proof (cases "\<forall>e. flag (after e)")
    case False
    assume "\<not> a"
    with 2 1(2) False assms(2,3) show ?thesis by (auto intro: flag_inv_update)
  qed (simp add: flag_inv_def update_depth_def)
  with 1(1) 2 show ?thesis by (auto simp: uint_field_def d f a fatal_return_def split: bool.splits)
qed

lemma levels_field_flag:
  assumes "flag_inv b flag st" and "fb AND b = 0" and "\<And>r e. flag (store r e) = flag e"
  shows "flag_inv b flag (snd (levels_field fb field side p old store v st))"
proof -
  obtain d st1 where d: "duplicate_field fb field v st = (d, st1)" by fastforce
  obtain f r impl where f: "parse_levels (dl_impl st1) v side p (old (dl_event st1)) = (f, r, impl)"
    by (cases "parse_levels (dl_impl st1) v side p (old (dl_event st1))") auto
  note 1 = duplicate_field_flag(2) [OF d assms(1,2)]
  then have "flag_inv b flag (st1\<lparr>dl_impl := impl\<rparr>)" by (simp add: flag_inv_def)
  then have "flag_inv b flag (update_depth (store r) (st1\<lparr>dl_impl := impl\<rparr>))"
    by (rule flag_inv_update) (simp add: assms(3))
  with 1 show ?thesis
    by (auto simp: levels_field_def d f fatal_return_def Let_def flag_inv_record flag_inv_overwrite split: bool.splits)
qed

lemmas field_bits = kEventTypeBit_def kEventTimeBit_def kTransactionTimeBit_def kSymbolBit_def kFirstUpdateIdBit_def
  kFinalUpdateIdBit_def kPreviousUpdateIdBit_def kLastUpdateIdBit_def kBidsBit_def kAsksBit_def

lemma flag_inv_if:
  "flag_inv b flag (snd x) \<Longrightarrow> flag_inv b flag (snd y) \<Longrightarrow> flag_inv b flag (snd (if c then x else y))"
  by simp

lemma depth_member_flag:
  assumes "flag_inv b flag st"
    and "(b, flag) \<in> {(kEventTimeBit, has_event_time), (kTransactionTimeBit, has_transaction_time),
      (kPreviousUpdateIdBit, has_previous_update_id)}"
  shows "flag_inv b flag (snd (depth_member venue kind symb key v st))"
proof -
  have other: "flag_inv b flag (snd (case validate_json_value v kRootFieldContainerDepth of
      Some e \<Rightarrow> (True, dl_overwrite_error (fail_json e) st) | None \<Rightarrow> (False, st)))"
    using assms(1) by (auto simp: flag_inv_overwrite split: option.splits)
  from assms(2) consider "b = kEventTimeBit" "flag = has_event_time" | "b = kTransactionTimeBit" "flag = has_transaction_time"
    | "b = kPreviousUpdateIdBit" "flag = has_previous_update_id" by auto
  then show ?thesis
    by cases (unfold depth_member_def Let_def,
        (intro flag_inv_if other string_field_flag uint_field_flag levels_field_flag assms(1); simp add: field_bits)+)
qed

lemma depth_members_flag:
  "flag_inv b flag st \<Longrightarrow> (b, flag) \<in> {(kEventTimeBit, has_event_time), (kTransactionTimeBit, has_transaction_time),
      (kPreviousUpdateIdBit, has_previous_update_id)} \<Longrightarrow>
   flag_inv b flag (snd (depth_members venue kind symb ms st))"
proof (induction venue kind symb ms st rule: depth_members.induct)
  case (4 venue kind symb key v rest st)
  then show ?case
    using depth_member_flag [OF 4(2,3), of venue kind symb key v]
    by (cases "depth_member venue kind symb key v st") (auto split: bool.splits)
qed (auto simp: flag_inv_def set_error_def classify_json_error_def)

definition depth_result_ok :: "PayloadVenue \<Rightarrow> SpotStreamKind \<Rightarrow> SpotDepthEvent \<Rightarrow> bool" where
  "depth_result_ok venue kind ev \<longleftrightarrow>
     (if kind = Depth5 then refresh_event_ok ev else diff_event_ok ev) \<and>
     (uses_depth_update_shape venue kind \<longrightarrow> has_event_time ev \<and> first_update_id ev \<le> final_update_id ev) \<and>
     (venue = Venue_usdm \<longrightarrow> has_transaction_time ev \<and> has_previous_update_id ev \<and>
        previous_update_id ev < final_update_id ev)"

definition flags_inv :: "DepthLoop \<Rightarrow> bool" where
  "flags_inv st \<longleftrightarrow> flag_inv kEventTimeBit has_event_time st \<and> flag_inv kTransactionTimeBit has_transaction_time st \<and>
     flag_inv kPreviousUpdateIdBit has_previous_update_id st"

lemma required_flags:
  assumes "fs AND required_fields venue kind = required_fields venue kind"
  shows "uses_depth_update_shape venue kind \<Longrightarrow> fs AND kEventTimeBit \<noteq> 0"
    and "venue = Venue_usdm \<Longrightarrow> fs AND kTransactionTimeBit \<noteq> 0 \<and> fs AND kPreviousUpdateIdBit \<noteq> 0"
proof -
  have sub: "fs AND b = b" if "b AND required_fields venue kind = b" for b
    using assms that by (metis and.assoc and.commute)
  show "fs AND kEventTimeBit \<noteq> 0" if "uses_depth_update_shape venue kind"
    using that by (subst sub) (auto simp: required_fields_def kUsdMRequired_def kSpotDiffRequired_def field_bits
        uses_depth_update_shape_def)
  show "fs AND kTransactionTimeBit \<noteq> 0 \<and> fs AND kPreviousUpdateIdBit \<noteq> 0" if "venue = Venue_usdm"
    using that by (subst (1 2) sub) (auto simp: required_fields_def kUsdMRequired_def field_bits)
qed

lemma finish_depth_ok:
  assumes "depth_inv kind st" and "spr_error (finish_depth venue kind st) = SPE_none" and flags: "flags_inv st"
  shows "depth_result_ok venue kind (se_depth (spr_event (finish_depth venue kind st)))"
proof -
  let ?ev = "dl_event st"
  have fin: "finish_depth venue kind st = dl_result st" "spr_error (dl_result st) = SPE_none"
    and fields: "dl_fields st AND required_fields venue kind = required_fields venue kind"
    and ids: "uses_depth_update_shape venue kind \<longrightarrow> first_update_id ?ev \<le> final_update_id ?ev"
      "venue = Venue_usdm \<longrightarrow> previous_update_id ?ev < final_update_id ?ev"
    and cross: "kind = Depth5 \<and> ev_bids ?ev \<noteq> [] \<and> ev_asks ?ev \<noteq> [] \<longrightarrow>
      lu_price (ev_bids ?ev ! 0) < lu_price (ev_asks ?ev ! 0)"
    using assms(2) by (auto simp: finish_depth_def Let_def set_error_def not_le not_less split: if_splits)
  have r: "range_ok Bid (kind = Depth5) (ev_bids ?ev)" "range_ok Ask (kind = Depth5) (ev_asks ?ev)"
    using assms(1) fin(2) by (simp_all add: depth_inv_def)
  have set: "uses_depth_update_shape venue kind \<longrightarrow> has_event_time ?ev"
    "venue = Venue_usdm \<longrightarrow> has_transaction_time ?ev \<and> has_previous_update_id ?ev"
    using flags fin(2) required_flags [OF fields] by (simp_all add: flags_inv_def flag_inv_def)
  show ?thesis
  proof (cases "kind = Depth5")
    case True
    then have "refresh_range_ok Bid (ev_bids ?ev)" "refresh_range_ok Ask (ev_asks ?ev)"
      using r by (simp_all add: range_ok_def)
    moreover from this have "length (ev_bids ?ev) \<le> 5" "length (ev_asks ?ev) \<le> 5"
      by (simp_all add: refresh_range_ok_def kVisibleBookDepth_def)
    ultimately have "refresh_event_ok ?ev"
      using cross True make_refresh_side_first
      by (auto simp: refresh_event_ok_def sides_crossed_def)
    with True ids set fin show ?thesis by (simp add: depth_result_ok_def)
  next
    case False
    with r ids set fin show ?thesis by (simp add: depth_result_ok_def diff_event_ok_def range_ok_def)
  qed
qed

lemma finish_depth_no_capacity:
  "depth_inv kind st \<Longrightarrow> spr_error (finish_depth venue kind st) \<noteq> SPE_internal_capacity_error"
  by (simp add: finish_depth_def Let_def set_error_def depth_inv_def)

text \<open>A return out of the member loop always carries an error.\<close>

definition returns_error :: "bool \<times> DepthLoop \<Rightarrow> bool" where
  "returns_error r \<longleftrightarrow> (fst r \<longrightarrow> spr_error (dl_result (snd r)) \<noteq> SPE_none)"

lemma returns_error_False [simp]: "returns_error (False, st)"
  by (simp add: returns_error_def)

lemma fatal_return_error [simp]: "returns_error (fatal_return st)"
  by (auto simp: fatal_return_def is_fatal_document_error_def returns_error_def)

lemma overwrite_return_error: "pf_failed f \<Longrightarrow> returns_error (True, dl_overwrite_error f st)"
  by (simp add: returns_error_def dl_overwrite_error_def pf_failed_def)

lemma string_field_return: "returns_error (string_field field_bit field matches mismatch v st)"
  by (simp add: string_field_def split: prod.split bool.split)

lemma uint_field_return: "returns_error (uint_field field_bit field old store after v st)"
  by (simp add: uint_field_def split: prod.split bool.split)

lemma levels_field_return: "returns_error (levels_field field_bit field side p old store v st)"
  by (simp add: levels_field_def Let_def overwrite_return_error split: prod.split bool.split)

lemma depth_member_return: "returns_error (depth_member venue kind expected_symbol key v st)"
proof -
  have other: "returns_error (case validate_json_value v kRootFieldContainerDepth of
      Some e \<Rightarrow> (True, dl_overwrite_error (fail_json e) st) | None \<Rightarrow> (False, st))"
    by (simp add: overwrite_return_error split: option.split)
  show ?thesis
    unfolding depth_member_def Let_def
    by (simp only: string_field_return uint_field_return levels_field_return other split: if_split) simp
qed

lemma depth_members_return_error:
  "returns_error (depth_members venue kind expected_symbol ms st)"
proof (induction venue kind expected_symbol ms st rule: depth_members.induct)
  case (4 venue kind expected_symbol key v rest st)
  show ?case
  proof (cases "depth_member venue kind expected_symbol key v st")
    case (Pair b st')
    with 4 [OF Pair [symmetric]] depth_member_return [of venue kind expected_symbol key v st] show ?thesis
      by (cases b) simp_all
  qed
qed (simp_all add: set_error_def classify_json_error_def returns_error_def)

lemma parse_depth_guarantees:
  assumes "impl_inv impl"
  shows "case parse_depth impl ms venue kind symb of (r, impl') \<Rightarrow>
    impl_inv impl' \<and> spr_error r \<noteq> SPE_internal_capacity_error \<and>
    (spr_error r = SPE_none \<longrightarrow> depth_result_ok venue kind (se_depth (spr_event r)))"
proof -
  let ?st = "\<lparr>dl_result = result_of_kind kind, dl_fields = 0, dl_impl = impl\<rparr>"
  obtain b st where run: "depth_members venue kind symb ms ?st = (b, st)" by fastforce
  have "depth_inv kind ?st"
    using assms by (simp add: depth_inv_def result_of_kind_def default_parse_result_def default_depth_event_def)
  from depth_members_inv [OF this, of venue symb ms] run have inv: "depth_inv kind st" by simp
  have start: "flag_inv b flag ?st" for b flag by (simp add: flag_inv_def)
  have flags: "flags_inv st"
    unfolding flags_inv_def using depth_members_flag [OF start, where venue = venue and kind = kind and symb = symb and ms = ms] run by simp
  show ?thesis
  proof (cases b)
    case True
    with run inv depth_members_return_error [of venue kind symb ms ?st] show ?thesis
      by (simp add: parse_depth_def depth_inv_def returns_error_def)
  next
    case False
    with run inv finish_depth_ok [OF inv _ flags, of venue] finish_depth_no_capacity [OF inv, of venue] show ?thesis
      by (simp add: parse_depth_def depth_inv_impl)
  qed
qed

lemma impl_inv_stamps: "impl_inv impl \<Longrightarrow> stamps_ok impl \<and> pi_update_count impl \<le> kMaxDepthUpdates"
  by (simp add: impl_inv_def level_budget_def)

lemma parse_root_guarantees:
  assumes "impl_inv impl"
  shows "case parse_root impl document source venue kind symb of (r, impl') \<Rightarrow>
    impl_inv impl' \<and> spr_error r \<noteq> SPE_internal_capacity_error \<and>
    (spr_error r = SPE_none \<and> kind \<noteq> Trade \<longrightarrow> depth_result_ok venue kind (se_depth (spr_event r)))"
proof -
  have trade: "spr_error (trade_members symb ms r) \<noteq> SPE_internal_capacity_error"
    if "spr_error r \<noteq> SPE_internal_capacity_error" for ms r
    using that
  proof (induction symb ms r rule: trade_members.induct)
    case (4 symb key v rest r)
    have "spr_error (snd (trade_member symb key v r)) \<noteq> SPE_internal_capacity_error"
      using 4(2) by (auto simp: trade_member_def Let_def set_error_def update_trade_def classify_json_error_def
          is_fatal_document_error_def split: prod.splits option.splits)
    with 4(1) show ?case by (auto split: prod.splits bool.splits)
  qed (auto simp: set_error_def classify_json_error_def)
  have r0: "spr_error (result_of_kind k) = SPE_none" for k
    by (simp add: result_of_kind_def default_parse_result_def)
  show ?thesis
    using assms parse_depth_guarantees [OF assms] trade [of "result_of_kind Trade"]
    by (cases document)
      (auto simp: parse_root_def parse_trade_def set_error_def classify_json_error_def r0 split: option.splits)
qed

text \<open>One call, on a live parser whose stamps are in order.\<close>

lemma parse_guarantees:
  assumes "stamps_ok impl" and "pi_update_count impl \<le> kMaxDepthUpdates"
  shows "case parse iterate (Some impl) venue kind symb payload of (r, impl') \<Rightarrow>
    (\<exists>i. impl' = Some i \<and> stamps_ok i \<and> pi_update_count i \<le> kMaxDepthUpdates) \<and>
    spr_error r \<noteq> SPE_internal_capacity_error \<and>
    (spr_error r = SPE_none \<and> kind \<noteq> Trade \<longrightarrow> depth_result_ok venue kind (se_depth (spr_event r)))"
proof -
  have inv: "impl_inv (begin_message impl)" using begin_message_inv [OF assms(1)] by simp
  note root = parse_root_guarantees [OF inv, where source = "pj_bytes payload" and venue = venue
      and kind = kind and symb = symb]
  show ?thesis
  proof (cases "iterate (pj_bytes payload) (pj_capacity payload)")
    case (Inl e)
    with assms impl_inv_stamps [OF inv] show ?thesis
      by (simp add: parse_def Let_def set_error_def classify_json_error_def)
  next
    case (Inr document)
    with assms root [of document] impl_inv_stamps show ?thesis
      by (auto simp: parse_def Let_def set_error_def split: prod.splits)
  qed
qed

text \<open>The parser after a sequence of calls.\<close>

type_synonym parse_call = "PayloadVenue \<times> SpotStreamKind \<times> string \<times> PaddedJsonView"

fun parser_after :: "iterate_fn \<Rightarrow> ParserImpl option \<Rightarrow> parse_call list \<Rightarrow> ParserImpl option" where
  "parser_after iterate impl [] = impl"
| "parser_after iterate impl ((venue, kind, symb, payload) # calls) =
     parser_after iterate (snd (parse iterate impl venue kind symb payload)) calls"

lemma parser_after_ok:
  assumes "stamps_ok impl" and "pi_update_count impl \<le> kMaxDepthUpdates"
  shows "\<exists>i. parser_after iterate (Some impl) calls = Some i \<and> stamps_ok i \<and> pi_update_count i \<le> kMaxDepthUpdates"
  using assms
proof (induction calls arbitrary: impl)
  case (Cons call calls)
  obtain venue kind symb payload where call: "call = (venue, kind, symb, payload)" by (cases call)
  obtain i where "snd (parse iterate (Some impl) venue kind symb payload) = Some i" "stamps_ok i"
    "pi_update_count i \<le> kMaxDepthUpdates"
    using parse_guarantees [OF Cons.prems, where iterate = iterate and venue = venue and kind = kind
        and symb = symb and payload = payload] by (auto split: prod.splits)
  with Cons.IH [of i] call show ?case by simp
qed simp

lemma parser_after_init:
  "\<exists>i. parser_after iterate (Some parser_init) calls = Some i \<and> stamps_ok i \<and> pi_update_count i \<le> kMaxDepthUpdates"
  by (rule parser_after_ok) (simp_all add: parser_init_stamps, simp add: parser_init_def)

section \<open>Properties\<close>

text \<open>
  C4: whatever messages a parser has read before and whatever the JSON reader reports, a parse
  never exhausts the duplicate table and never stores beyond the 16384 updates it has room for; and
  an accepted depth payload satisfies everything the book asserts of its input: sides, positive
  prices, non-negative (for a refresh positive) quantities, no duplicate price, at most five ordered
  and uncrossed levels in a refresh, update ids in order, and for USD-M the predecessor id that
  chaining requires.
\<close>

theorem parse_delivers_book_input:
  "case parse iterate (parser_after iterate (Some parser_init) calls) venue kind symb payload of (r, impl) \<Rightarrow>
     spr_error r \<noteq> SPE_internal_capacity_error \<and>
     (\<exists>i. impl = Some i \<and> pi_update_count i \<le> kMaxDepthUpdates) \<and>
     (spr_has_value r \<and> kind \<noteq> Trade \<longrightarrow> depth_result_ok venue kind (se_depth (spr_event r)))"
proof -
  obtain i where "parser_after iterate (Some parser_init) calls = Some i" "stamps_ok i"
    "pi_update_count i \<le> kMaxDepthUpdates"
    using parser_after_init by blast
  with parse_guarantees [where impl = i and iterate = iterate and venue = venue and kind = kind
        and symb = symb and payload = payload] show ?thesis
    by (auto simp: spr_has_value_def split: prod.splits)
qed

definition sample_payload :: PaddedJsonView where
  "sample_payload = \<lparr>pj_data = Some ''{}'', pj_size = 2, pj_capacity = 128\<rparr>"

definition sample_json :: json_value where
  "sample_json = JV_object
     [Member ''lastUpdateId'' (JV_number ''100'' (Inr 100)),
      Member ''bids'' (JV_array [Element (JV_array
        [Element (JV_string (Inr ''50.5'')), Element (JV_string (Inr ''1''))])]),
      Member ''asks'' (JV_array [Element (JV_array
        [Element (JV_string (Inr ''51'')), Element (JV_string (Inr ''2''))])])]"

definition sample_iterate :: iterate_fn where
  "sample_iterate bytes capacity = Inr sample_json"

theorem parse_delivers_book_input_witness:
  "spr_has_value (fst (parse sample_iterate (Some parser_init) Venue_spot Depth5 ''BTCUSDT'' sample_payload)) \<and>
   refresh_event_ok (se_depth (spr_event
     (fst (parse sample_iterate (Some parser_init) Venue_spot Depth5 ''BTCUSDT'' sample_payload))))"
proof -
  have v: "spr_has_value (fst (parse sample_iterate (Some parser_init) Venue_spot Depth5 ''BTCUSDT'' sample_payload))"
    by code_simp
  show ?thesis
    using parse_delivers_book_input [where iterate = sample_iterate and calls = "[]" and venue = Venue_spot
        and kind = Depth5 and symb = "''BTCUSDT''" and payload = sample_payload] v
    by (simp add: case_prod_beta depth_result_ok_def)
qed

text \<open>
  C10: within one message the duplicate table answers exactly: a price of a side is a duplicate if
  and only if it was offered before in the same message, for any number of prices the parser
  admits, and whatever earlier messages left in the table.
\<close>

fun insert_all :: "ParserImpl \<Rightarrow> (int \<times> BookSide) list \<Rightarrow> InsertResult list" where
  "insert_all impl [] = []"
| "insert_all impl ((price, side) # ks) =
     (case insert_unique impl price side of (r, impl) \<Rightarrow> r # insert_all impl ks)"

fun expected_inserts :: "(int \<times> BookSide) set \<Rightarrow> (int \<times> BookSide) list \<Rightarrow> InsertResult list" where
  "expected_inserts known [] = []"
| "expected_inserts known (k # ks) =
     (if k \<in> known then Duplicate else Inserted) # expected_inserts (insert k known) ks"

lemma insert_all_expected:
  assumes "dup.table_inv (occupied impl)" and "card (dom (occupied impl)) + length ks \<le> kDuplicateTableSize"
  shows "insert_all impl ks = expected_inserts (seen impl) ks"
  using assms
proof (induction ks arbitrary: impl)
  case (Cons k ks)
  obtain price side where k: "k = (price, side)" by (cases k)
  have small: "card (dom (occupied impl)) < kDuplicateTableSize" using Cons.prems by simp
  from Cons.prems(1) small show ?case
  proof (cases rule: insert_unique_cases [where price = price and side = side])
    case dup
    then show ?thesis using Cons k by (simp add: insert_absorb)
  next
    case (new j)
    then show ?thesis using Cons.IH [of "dup_store impl j price side"] Cons.prems k by simp
  qed
qed simp

theorem duplicate_table_exact:
  assumes "parser_after iterate (Some parser_init) calls = Some impl" and "length ks \<le> kMaxDepthUpdates"
  shows "insert_all (begin_message impl) ks = expected_inserts {} ks"
proof -
  have "stamps_ok impl" using parser_after_init [of iterate calls] assms(1) by simp
  from begin_message_inv [OF this] have inv: "impl_inv (begin_message impl)" and "seen (begin_message impl) = {}"
    "dom (occupied (begin_message impl)) = {}" by (auto simp: seen_def ran_def dom_def)
  then have "insert_all (begin_message impl) ks = expected_inserts (seen (begin_message impl)) ks"
    using assms(2)
    by (intro insert_all_expected [OF impl_inv_table(1) [OF inv]])
      (simp add: kMaxDepthUpdates_def kDuplicateTableSize_def)
  with \<open>seen (begin_message impl) = {}\<close> show ?thesis by simp
qed

theorem duplicate_table_exact_witness:
  "insert_all (begin_message parser_init) [(5, Bid), (5, Ask), (7, Bid), (5, Bid)]
     = [Inserted, Inserted, Inserted, Duplicate]"
  using duplicate_table_exact [of sample_iterate "[]" parser_init "[(5, Bid), (5, Ask), (7, Bid), (5, Bid)]"]
  by (simp add: kMaxDepthUpdates_def)

end
