(* ===== verification/Std_String.thy ===== *)
theory Std_String
  imports Prelude
begin

text \<open>
  The part of \<open>std::string\<close> the program's buffers rely on: contents, capacity and growth.  Whether
  a growth allocation succeeds, and how much capacity it yields, is the allocator's choice: an
  argument of every operation.  An operation that needs no more than the present capacity does not
  allocate; one that does either throws \<open>std::bad_alloc\<close> (\<open>None\<close>, the string unchanged) or leaves
  a capacity of at least the new size.
\<close>

record StdString =
  str_bytes :: string
  str_capacity :: nat

record Allocator =
  alloc_ok :: "nat \<Rightarrow> bool"
  alloc_capacity :: "nat \<Rightarrow> nat \<Rightarrow> nat"

definition empty_string :: StdString where
  "empty_string = \<lparr>str_bytes = [], str_capacity = 0\<rparr>"

definition str_reserve :: "Allocator \<Rightarrow> StdString \<Rightarrow> nat \<Rightarrow> StdString option" where
  "str_reserve al s n =
     (if n \<le> str_capacity s then Some s
      else if alloc_ok al n
      then Some (s\<lparr>str_capacity := max n (alloc_capacity al (str_capacity s) n)\<rparr>)
      else None)"

definition str_append :: "Allocator \<Rightarrow> StdString \<Rightarrow> string \<Rightarrow> StdString option" where
  "str_append al s bytes =
     (case str_reserve al s (length (str_bytes s) + length bytes) of
        None \<Rightarrow> None
      | Some t \<Rightarrow> Some (t\<lparr>str_bytes := str_bytes s @ bytes\<rparr>))"

definition str_clear :: "StdString \<Rightarrow> StdString" where
  "str_clear s = s\<lparr>str_bytes := []\<rparr>"

lemma str_append_bytes:
  "str_append al s bytes = Some t \<Longrightarrow> str_bytes t = str_bytes s @ bytes"
  by (auto simp: str_append_def split: option.splits)

lemma str_append_fits:
  "length (str_bytes s) + length bytes \<le> str_capacity s \<Longrightarrow>
     str_append al s bytes = Some (s\<lparr>str_bytes := str_bytes s @ bytes\<rparr>)"
  by (simp add: str_append_def str_reserve_def)

lemma str_append_capacity:
  "str_append al s bytes = Some t \<Longrightarrow>
     str_capacity s \<le> str_capacity t \<and> length (str_bytes t) \<le> str_capacity t"
  by (auto simp: str_append_def str_reserve_def split: option.splits if_splits)

lemma str_clear_simps [simp]:
  "str_bytes (str_clear s) = []" "str_capacity (str_clear s) = str_capacity s"
  by (simp_all add: str_clear_def)

end
