(* ===== verification/Symbol_Identity.thy ===== *)
theory Symbol_Identity
  imports Prelude
begin

unbundle bit_operations_syntax

text \<open>
  Symbol names and instrument identifiers (\<^verbatim>\<open>src/symbol_identity.cpp\<close>).  A symbol is normalized when
  it is 1 to 32 upper-case letters or digits; its identifier is a 31-bit FNV-1a hash, never zero.
  A configured set of symbols is accepted when it has 1 to 32 normalized, pairwise different
  symbols whose identifiers are pairwise different.
\<close>

section \<open>Data and operations\<close>

definition kMaxNormalizedSymbolBytes :: nat where "kMaxNormalizedSymbolBytes = 32"
definition kMaxConfiguredSymbols :: nat where "kMaxConfiguredSymbols = 32"

text \<open>\<open>static_cast<std::size_t>(-1)\<close>.\<close>

definition kNoSymbolIndex :: nat where "kNoSymbolIndex = 18446744073709551615"

definition kFnvOffsetBasis :: u32 where "kFnvOffsetBasis = 2166136261"
definition kFnvPrime :: u32 where "kFnvPrime = 16777619"
definition kPositiveIdMask :: u32 where "kPositiveIdMask = 0x7fffffff"

datatype SymbolValidationError =
    Sym_none
  | Sym_invalid_input
  | Sym_empty_symbol_set
  | Sym_too_many_symbols
  | Sym_invalid_symbol
  | Sym_duplicate_symbol
  | Sym_instrument_id_collision

record InstrumentIdResult =
  iid_value :: int
  iid_error :: SymbolValidationError

record SymbolSetValidationResult =
  symset_error :: SymbolValidationError
  symset_first_index :: nat
  symset_second_index :: nat

definition iid_has_value :: "InstrumentIdResult \<Rightarrow> bool" where
  "iid_has_value r \<longleftrightarrow> iid_error r = Sym_none"

definition symset_has_value :: "SymbolSetValidationResult \<Rightarrow> bool" where
  "symset_has_value r \<longleftrightarrow> symset_error r = Sym_none"

definition is_normalized_symbol :: "string \<Rightarrow> bool" where
  "is_normalized_symbol symbol =
     (if symbol = [] \<or> length symbol > kMaxNormalizedSymbolBytes then False
      else list_all (\<lambda>byte. is_upper byte \<or> is_digit byte) symbol)"

definition fnv1a_step :: "u32 \<Rightarrow> char \<Rightarrow> u32" where
  "fnv1a_step h byte = (h XOR of_nat (byte_of byte)) * kFnvPrime"

definition derive_instrument_id :: "string \<Rightarrow> InstrumentIdResult" where
  "derive_instrument_id normalized_symbol =
     (if \<not> is_normalized_symbol normalized_symbol
      then \<lparr>iid_value = 0, iid_error = Sym_invalid_symbol\<rparr>
      else let h = foldl fnv1a_step kFnvOffsetBasis normalized_symbol;
               v = h AND kPositiveIdMask;
               v' = (if v = 0 then 1 else v)
           in \<lparr>iid_value = sint v', iid_error = Sym_none\<rparr>)"

text \<open>
  The nested loops of \<open>validate_symbol_set\<close>.  \<open>check_previous\<close> is the inner loop over the symbols
  before the current one, \<open>validate_from\<close> the outer loop; \<open>before\<close> holds the symbols already passed.
\<close>

fun check_previous ::
    "string \<Rightarrow> int \<Rightarrow> nat \<Rightarrow> nat \<Rightarrow> string list \<Rightarrow> SymbolSetValidationResult option" where
  "check_previous symbol current previous index [] = None"
| "check_previous symbol current previous index (p # ps) =
     (if p = symbol then Some \<lparr>symset_error = Sym_duplicate_symbol,
        symset_first_index = previous, symset_second_index = index\<rparr>
      else if iid_value (derive_instrument_id p) = current
      then Some \<lparr>symset_error = Sym_instrument_id_collision,
        symset_first_index = previous, symset_second_index = index\<rparr>
      else check_previous symbol current (Suc previous) index ps)"

fun validate_from :: "string list \<Rightarrow> string list \<Rightarrow> SymbolSetValidationResult" where
  "validate_from before [] = \<lparr>symset_error = Sym_none,
     symset_first_index = kNoSymbolIndex, symset_second_index = kNoSymbolIndex\<rparr>"
| "validate_from before (s # rest) =
     (let current = derive_instrument_id s; index = length before in
      if \<not> iid_has_value current then \<lparr>symset_error = iid_error current,
        symset_first_index = index, symset_second_index = index\<rparr>
      else case check_previous s (iid_value current) 0 index before of
        Some e \<Rightarrow> e
      | None \<Rightarrow> validate_from (before @ [s]) rest)"

text \<open>The pointer argument may be null: \<open>None\<close>; otherwise it points to \<open>count\<close> names.\<close>

definition validate_symbol_set :: "string list option \<Rightarrow> nat \<Rightarrow> SymbolSetValidationResult" where
  "validate_symbol_set normalized_symbols count =
     (if count = 0 then \<lparr>symset_error = Sym_empty_symbol_set,
        symset_first_index = kNoSymbolIndex, symset_second_index = kNoSymbolIndex\<rparr>
      else if count > kMaxConfiguredSymbols then \<lparr>symset_error = Sym_too_many_symbols,
        symset_first_index = kNoSymbolIndex, symset_second_index = kNoSymbolIndex\<rparr>
      else case normalized_symbols of
        None \<Rightarrow> \<lparr>symset_error = Sym_invalid_input,
          symset_first_index = kNoSymbolIndex, symset_second_index = kNoSymbolIndex\<rparr>
      | Some xs \<Rightarrow> validate_from [] (take count xs))"

section \<open>Correctness\<close>

lemma normalized_symbol_iff:
  "is_normalized_symbol s \<longleftrightarrow>
     s \<noteq> [] \<and> length s \<le> 32 \<and> list_all (\<lambda>c. is_upper c \<or> is_digit c) s"
  by (auto simp: is_normalized_symbol_def kMaxNormalizedSymbolBytes_def)

lemma iid_has_value_iff: "iid_has_value (derive_instrument_id s) \<longleftrightarrow> is_normalized_symbol s"
  by (auto simp: iid_has_value_def derive_instrument_id_def Let_def)

lemma masked_id_range:
  fixes h :: u32
  shows "0 < sint (if h AND kPositiveIdMask = 0 then 1 else h AND kPositiveIdMask) \<and>
         sint (if h AND kPositiveIdMask = 0 then 1 else h AND kPositiveIdMask) \<le> 2147483647"
proof -
  let ?v = "h AND kPositiveIdMask"
  have "?v \<le> 0x7fffffff"
    unfolding kPositiveIdMask_def by (rule word_and_le1)
  then have le: "uint ?v \<le> 2147483647" by (simp add: word_le_def)
  have "- 2147483648 \<le> uint ?v" by (rule order_trans [OF _ uint_ge_0]) simp
  with le have "sint ?v = uint ?v"
    by (simp add: sint_uint signed_take_bit_int_eq_self_iff)
  moreover have "?v \<noteq> 0 \<Longrightarrow> 0 < uint ?v"
    by (metis less_le uint_0_iff uint_ge_0)
  ultimately show ?thesis using le by auto
qed

text \<open>
  The identifier of a normalized symbol is a positive 31-bit integer, and no identifier is
  given to any other text.
\<close>

theorem derive_instrument_id_positive:
  "if is_normalized_symbol s
   then iid_error (derive_instrument_id s) = Sym_none \<and>
        0 < iid_value (derive_instrument_id s) \<and> iid_value (derive_instrument_id s) \<le> 2147483647
   else derive_instrument_id s = \<lparr>iid_value = 0, iid_error = Sym_invalid_symbol\<rparr>"
  using masked_id_range [of "foldl fnv1a_step kFnvOffsetBasis s"]
  by (simp add: derive_instrument_id_def Let_def)

abbreviation instrument_id :: "string \<Rightarrow> int" where
  "instrument_id s \<equiv> iid_value (derive_instrument_id s)"

lemma check_previous_None:
  "check_previous s v p i ps = None \<longleftrightarrow> s \<notin> set ps \<and> v \<notin> instrument_id ` set ps"
  by (induction ps arbitrary: p) auto

lemma check_previous_error:
  "check_previous s v p i ps = Some r \<Longrightarrow> symset_error r \<noteq> Sym_none"
  by (induction ps arbitrary: p) (auto split: if_splits)

lemma validate_from_ok:
  "symset_has_value (validate_from before xs) \<longleftrightarrow>
     list_all is_normalized_symbol xs \<and>
     (\<forall>i < length xs. xs ! i \<notin> set (before @ take i xs) \<and>
        instrument_id (xs ! i) \<notin> instrument_id ` set (before @ take i xs))"
proof (induction before xs rule: validate_from.induct)
  case (1 before)
  then show ?case by (simp add: symset_has_value_def)
next
  case (2 before s rest)
  show ?case
  proof (cases "is_normalized_symbol s \<and> check_previous s (instrument_id s) 0 (length before) before = None")
    case True
    then have step: "validate_from before (s # rest) = validate_from (before @ [s]) rest"
      by (simp add: iid_has_value_iff)
    from True "2.IH" [OF refl refl] have
      "symset_has_value (validate_from (before @ [s]) rest) \<longleftrightarrow>
         list_all is_normalized_symbol rest \<and>
         (\<forall>i < length rest. rest ! i \<notin> set (before @ s # take i rest) \<and>
            instrument_id (rest ! i) \<notin> instrument_id ` set (before @ s # take i rest))"
      by (simp add: iid_has_value_iff)
    with True step show ?thesis
      by (auto simp: check_previous_None All_less_Suc2)
  next
    case False
    then show ?thesis
      by (auto simp: Let_def iid_has_value_iff check_previous_None symset_has_value_def All_less_Suc2
          dest: check_previous_error split: option.splits)
        (auto simp: derive_instrument_id_def iid_has_value_def)
  qed
qed

lemma distinct_map_prefix:
  "distinct (map f xs) \<longleftrightarrow> (\<forall>i < length xs. f (xs ! i) \<notin> f ` set (take i xs))"
proof (induction xs rule: rev_induct)
  case (snoc x xs)
  have "\<And>i. i < length xs \<Longrightarrow> (xs @ [x]) ! i = xs ! i \<and> take i (xs @ [x]) = take i xs"
    by (simp add: nth_append)
  with snoc show ?case by (auto simp: All_less_Suc nth_append)
qed simp

lemma symbol_set_valid_iff:
  "symset_has_value (validate_symbol_set (Some xs) (length xs)) \<longleftrightarrow>
     0 < length xs \<and> length xs \<le> 32 \<and> list_all is_normalized_symbol xs \<and>
     distinct xs \<and> distinct (map instrument_id xs)"
proof -
  have "symset_has_value (validate_from [] xs) \<longleftrightarrow>
      list_all is_normalized_symbol xs \<and> distinct xs \<and> distinct (map instrument_id xs)"
    using distinct_map_prefix [of "\<lambda>s. s" xs] distinct_map_prefix [of instrument_id xs]
    unfolding validate_from_ok by (auto simp: image_iff)
  then show ?thesis
    by (auto simp: validate_symbol_set_def kMaxConfiguredSymbols_def symset_has_value_def)
qed

text \<open>
  C15: a symbol set is accepted exactly when it has 1 to 32 symbols, all normalized, and no two
  positions share a name or an instrument identifier.
\<close>

theorem validate_symbol_set_correct:
  "symset_has_value (validate_symbol_set (Some xs) (length xs)) \<longleftrightarrow>
     0 < length xs \<and> length xs \<le> 32 \<and> list_all is_normalized_symbol xs \<and>
     distinct xs \<and> distinct (map instrument_id xs)"
  by (rule symbol_set_valid_iff)

end
