(* ===== verification/Csv_Format.thy ===== *)
theory Csv_Format
  imports Std_String Symbol_Identity Book_Sequencing
begin

text \<open>
  The CSV record formatter (\<^verbatim>\<open>src/csv_formatter.cpp\<close>).  A row is validated, then built field by field
  in a reused buffer; the chain of appends stops at the first one that would exceed three MiB or
  that throws \<open>std::bad_alloc\<close>, and every failure leaves an empty buffer.  The lemmas give the exact
  text of a successful row, show that the order-book row of an invariant book always fits its
  1024-byte buffer without allocating, and that the row has exactly its twenty-six fields.
\<close>

section \<open>Data\<close>

definition kMaxCsvRecordBytes :: nat where "kMaxCsvRecordBytes = 3145728"
definition kDefaultCsvRecordCapacity :: nat where "kDefaultCsvRecordCapacity = 4096"
definition kNanosecondsPerSecond :: int where "kNanosecondsPerSecond = 1000000000"

definition newline :: char where "newline = char_of (10 :: nat)"
definition quote_char :: char where "quote_char = char_of (34 :: nat)"

definition kMarketDataCsvHeader :: string where
  "kMarketDataCsvHeader =
     ''recv_tsec,recv_tnsec,venue,stream_kind,shard_id,'' @
     ''conn_epoch,conn_seq,symbol,payload_json'' @ [newline]"

definition kOrderBookCsvHeader :: string where
  "kOrderBookCsvHeader =
     ''tsec,tnsec,seqNo,id,type,side,bid0,bid1,bid2,bid3,'' @
     ''bid4,bid_size0,bid_size1,bid_size2,bid_size3,bid_size4,'' @
     ''ask0,ask1,ask2,ask3,ask4,ask_size0,ask_size1,ask_size2,'' @
     ''ask_size3,ask_size4'' @ [newline]"

datatype BookRowType = Row_differential | Row_partial_refresh

datatype CsvFormatError =
    CSV_none
  | CSV_invalid_timestamp
  | CSV_invalid_sequence
  | CSV_invalid_symbol
  | CSV_invalid_instrument_id
  | CSV_invalid_enum
  | CSV_invalid_book
  | CSV_record_too_large
  | CSV_allocation_failure

record CsvTimestamp =
  ts_seconds :: int
  ts_nanoseconds :: int

record MarketDataCsvRow =
  md_timestamp :: CsvTimestamp
  md_venue :: PayloadVenue
  md_stream_kind :: SpotStreamKind
  md_shard_id :: u32
  md_connection_epoch :: u64
  md_connection_sequence :: u64
  md_symbol :: string
  md_payload_json :: string

record OrderBookCsvRow =
  ob_timestamp :: CsvTimestamp
  ob_sequence_number :: u64
  ob_instrument_id :: int
  ob_row_type :: BookRowType
  ob_side :: BookRowSide
  ob_bids :: BookSideView
  ob_asks :: BookSideView

record CsvRecordBuffer =
  crb_storage :: StdString
  crb_initial_capacity :: nat

section \<open>The record buffer\<close>

text \<open>The constructor may throw; \<open>view\<close>, \<open>size\<close>, \<open>empty\<close>, \<open>capacity\<close> read the storage.\<close>

definition crb_create :: "Allocator \<Rightarrow> nat \<Rightarrow> CsvRecordBuffer option" where
  "crb_create al initial_capacity =
     (let n = min initial_capacity kMaxCsvRecordBytes in
      case str_reserve al empty_string n of
        None \<Rightarrow> None
      | Some s \<Rightarrow> Some \<lparr>crb_storage = s, crb_initial_capacity = n\<rparr>)"

definition crb_view :: "CsvRecordBuffer \<Rightarrow> string" where
  "crb_view b = str_bytes (crb_storage b)"

definition crb_clear :: "CsvRecordBuffer \<Rightarrow> CsvRecordBuffer" where
  "crb_clear b = b\<lparr>crb_storage := str_clear (crb_storage b)\<rparr>"

definition crb_release_excess_capacity :: "Allocator \<Rightarrow> CsvRecordBuffer \<Rightarrow> bool \<times> CsvRecordBuffer" where
  "crb_release_excess_capacity al b =
     (let b = crb_clear b in
      if str_capacity (crb_storage b) \<le> crb_initial_capacity b then (True, b)
      else case str_reserve al empty_string (crb_initial_capacity b) of
        Some replacement \<Rightarrow> (True, b\<lparr>crb_storage := replacement\<rparr>)
      | None \<Rightarrow> (False, b))"

section \<open>Appending\<close>

text \<open>
  Each append returns true or false or throws, and changes the string.  \<open>and_then\<close> is the short
  circuit of the \<open>&&\<close> chain: the first append that does not return true ends it.
\<close>

datatype append_status = Append_true | Append_false | Append_throw

type_synonym append_result = "append_status \<times> StdString"

definition and_then :: "append_result \<Rightarrow> (StdString \<Rightarrow> append_result) \<Rightarrow> append_result" where
  "and_then r f = (case r of (Append_true, s) \<Rightarrow> f s | _ \<Rightarrow> r)"

definition append_raw :: "Allocator \<Rightarrow> StdString \<Rightarrow> string \<Rightarrow> append_result" where
  "append_raw al out bytes =
     (case str_append al out bytes of None \<Rightarrow> (Append_throw, out) | Some s \<Rightarrow> (Append_true, s))"

definition append_bytes :: "Allocator \<Rightarrow> string \<Rightarrow> StdString \<Rightarrow> append_result" where
  "append_bytes al bytes out =
     (if length (str_bytes out) > kMaxCsvRecordBytes \<or>
         length bytes > kMaxCsvRecordBytes - length (str_bytes out)
      then (Append_false, out)
      else if bytes = [] then (Append_true, out)
      else append_raw al out bytes)"

definition append_byte :: "Allocator \<Rightarrow> char \<Rightarrow> StdString \<Rightarrow> append_result" where
  "append_byte al byte out =
     (if length (str_bytes out) = kMaxCsvRecordBytes then (Append_false, out)
      else append_raw al out [byte])"

definition append_integer :: "Allocator \<Rightarrow> int \<Rightarrow> StdString \<Rightarrow> append_result" where
  "append_integer al v out =
     (if length (to_chars v) > 32 then (Append_false, out) else append_bytes al (to_chars v) out)"

definition append_comma :: "Allocator \<Rightarrow> StdString \<Rightarrow> append_result" where
  "append_comma al out = append_byte al (CHR '','') out"

fun append_quoted_bytes :: "Allocator \<Rightarrow> string \<Rightarrow> StdString \<Rightarrow> append_result" where
  "append_quoted_bytes al [] out = (Append_true, out)"
| "append_quoted_bytes al (byte # field) out =
     and_then (if byte = quote_char then append_bytes al [quote_char, quote_char] out
               else append_byte al byte out)
       (append_quoted_bytes al field)"

definition append_quoted_field :: "Allocator \<Rightarrow> string \<Rightarrow> StdString \<Rightarrow> append_result" where
  "append_quoted_field al field out =
     and_then (append_byte al quote_char out) (\<lambda>out.
     and_then (append_quoted_bytes al field out) (\<lambda>out.
     append_byte al quote_char out))"

section \<open>Validation and texts\<close>

definition valid_timestamp :: "CsvTimestamp \<Rightarrow> bool" where
  "valid_timestamp t \<longleftrightarrow> ts_nanoseconds t \<ge> 0 \<and> ts_nanoseconds t < kNanosecondsPerSecond"

fun venue_text :: "PayloadVenue \<Rightarrow> string" where
  "venue_text Venue_spot = ''spot''"
| "venue_text Venue_usdm = ''usdm''"

fun stream_kind_text :: "SpotStreamKind \<Rightarrow> string" where
  "stream_kind_text Depth_diff = ''depth_diff''"
| "stream_kind_text Depth5 = ''depth5''"
| "stream_kind_text Trade = ''trade''"

fun row_type_text :: "BookRowType \<Rightarrow> char" where
  "row_type_text Row_differential = CHR ''D''"
| "row_type_text Row_partial_refresh = CHR ''P''"

fun side_text :: "BookRowSide \<Rightarrow> char" where
  "side_text Row_bid = CHR ''B''"
| "side_text Row_ask = CHR ''S''"
| "side_text Row_neutral = CHR ''N''"

text \<open>The loop of \<open>valid_side\<close> from an index on.\<close>

function valid_side_from :: "BookSideView \<Rightarrow> BookSide \<Rightarrow> nat \<Rightarrow> bool" where
  "valid_side_from side book_side index =
     (if index < bsv_size side then
        let level = bsv_at side index in
        if bl_price level \<le> 0 \<or> bl_quantity level \<le> 0 then False
        else if index = 0 then valid_side_from side book_side (Suc index)
        else
          let previous_price = bl_price (bsv_at side (index - 1)) in
          if (if book_side = Bid then previous_price \<le> bl_price level
              else previous_price \<ge> bl_price level)
          then False
          else valid_side_from side book_side (Suc index)
      else True)"
  by pat_completeness auto
termination
  by (relation "measure (\<lambda>(s, _, i). bsv_size s - i)") auto

declare valid_side_from.simps [simp del]

definition valid_side :: "BookSideView \<Rightarrow> BookSide \<Rightarrow> bool" where
  "valid_side side book_side =
     (if bsv_size side > kVisibleBookDepth \<or> bsv_size side \<noteq> 0 \<and> bsv_data side = None then False
      else valid_side_from side book_side 0)"

definition valid_book :: "BookSideView \<Rightarrow> BookSideView \<Rightarrow> bool" where
  "valid_book bids asks =
     (if \<not> valid_side bids Bid \<or> \<not> valid_side asks Ask then False
      else bsv_size bids = 0 \<or> bsv_size asks = 0 \<or>
           bl_price (bsv_at bids 0) < bl_price (bsv_at asks 0))"

section \<open>Rows\<close>

definition append_level_component ::
    "Allocator \<Rightarrow> BookSideView \<Rightarrow> nat \<Rightarrow> bool \<Rightarrow> StdString \<Rightarrow> append_result" where
  "append_level_component al side index quantity out =
     and_then (append_comma al out) (\<lambda>out.
       if index \<ge> bsv_size side then append_byte al (CHR ''0'') out
       else append_integer al
         (if quantity then bl_quantity (bsv_at side index) else bl_price (bsv_at side index)) out)"

fun append_book_side_from ::
    "Allocator \<Rightarrow> BookSideView \<Rightarrow> bool \<Rightarrow> nat list \<Rightarrow> StdString \<Rightarrow> append_result" where
  "append_book_side_from al side quantity [] out = (Append_true, out)"
| "append_book_side_from al side quantity (index # rest) out =
     and_then (append_level_component al side index quantity out)
       (append_book_side_from al side quantity rest)"

definition append_book_side ::
    "Allocator \<Rightarrow> BookSideView \<Rightarrow> bool \<Rightarrow> StdString \<Rightarrow> append_result" where
  "append_book_side al side quantity out =
     append_book_side_from al side quantity [0 ..< kVisibleBookDepth] out"

text \<open>\<open>finish_row\<close> is the common end of both formatters: success, or \<open>fail\<close> with the cleared buffer.\<close>

definition finish_row :: "CsvRecordBuffer \<Rightarrow> append_result \<Rightarrow> CsvFormatError \<times> CsvRecordBuffer" where
  "finish_row b r =
     (case r of
        (Append_true, s) \<Rightarrow> (CSV_none, b\<lparr>crb_storage := s\<rparr>)
      | (Append_false, s) \<Rightarrow> (CSV_record_too_large, crb_clear (b\<lparr>crb_storage := s\<rparr>))
      | (Append_throw, s) \<Rightarrow> (CSV_allocation_failure, crb_clear (b\<lparr>crb_storage := s\<rparr>)))"

definition append_market_data :: "Allocator \<Rightarrow> MarketDataCsvRow \<Rightarrow> StdString \<Rightarrow> append_result" where
  "append_market_data al row out =
     and_then (append_integer al (ts_seconds (md_timestamp row)) out) (\<lambda>out.
     and_then (append_comma al out) (\<lambda>out.
     and_then (append_integer al (ts_nanoseconds (md_timestamp row)) out) (\<lambda>out.
     and_then (append_comma al out) (\<lambda>out.
     and_then (append_bytes al (venue_text (md_venue row)) out) (\<lambda>out.
     and_then (append_comma al out) (\<lambda>out.
     and_then (append_bytes al (stream_kind_text (md_stream_kind row)) out) (\<lambda>out.
     and_then (append_comma al out) (\<lambda>out.
     and_then (append_integer al (uint (md_shard_id row)) out) (\<lambda>out.
     and_then (append_comma al out) (\<lambda>out.
     and_then (append_integer al (uint (md_connection_epoch row)) out) (\<lambda>out.
     and_then (append_comma al out) (\<lambda>out.
     and_then (append_integer al (uint (md_connection_sequence row)) out) (\<lambda>out.
     and_then (append_comma al out) (\<lambda>out.
     and_then (append_bytes al (md_symbol row) out) (\<lambda>out.
     and_then (append_comma al out) (\<lambda>out.
     and_then (append_quoted_field al (md_payload_json row) out) (\<lambda>out.
     append_byte al newline out)))))))))))))))))"

definition format_market_data_csv_row ::
    "Allocator \<Rightarrow> MarketDataCsvRow \<Rightarrow> CsvRecordBuffer \<Rightarrow> CsvFormatError \<times> CsvRecordBuffer" where
  "format_market_data_csv_row al row b =
     (let b = crb_clear b in
      if \<not> valid_timestamp (md_timestamp row) then (CSV_invalid_timestamp, b)
      else if md_connection_sequence row = 0 then (CSV_invalid_sequence, b)
      else if \<not> is_normalized_symbol (md_symbol row) then (CSV_invalid_symbol, b)
      else if venue_text (md_venue row) = [] \<or> stream_kind_text (md_stream_kind row) = []
      then (CSV_invalid_enum, b)
      else finish_row b (append_market_data al row (crb_storage b)))"

definition append_order_book :: "Allocator \<Rightarrow> OrderBookCsvRow \<Rightarrow> StdString \<Rightarrow> append_result" where
  "append_order_book al row out =
     and_then (append_integer al (ts_seconds (ob_timestamp row)) out) (\<lambda>out.
     and_then (append_comma al out) (\<lambda>out.
     and_then (append_integer al (ts_nanoseconds (ob_timestamp row)) out) (\<lambda>out.
     and_then (append_comma al out) (\<lambda>out.
     and_then (append_integer al (uint (ob_sequence_number row)) out) (\<lambda>out.
     and_then (append_comma al out) (\<lambda>out.
     and_then (append_integer al (ob_instrument_id row) out) (\<lambda>out.
     and_then (append_comma al out) (\<lambda>out.
     and_then (append_byte al (row_type_text (ob_row_type row)) out) (\<lambda>out.
     and_then (append_comma al out) (\<lambda>out.
     and_then (append_byte al (side_text (ob_side row)) out) (\<lambda>out.
     and_then (append_book_side al (ob_bids row) False out) (\<lambda>out.
     and_then (append_book_side al (ob_bids row) True out) (\<lambda>out.
     and_then (append_book_side al (ob_asks row) False out) (\<lambda>out.
     and_then (append_book_side al (ob_asks row) True out) (\<lambda>out.
     append_byte al newline out)))))))))))))))"

definition format_order_book_csv_row ::
    "Allocator \<Rightarrow> OrderBookCsvRow \<Rightarrow> CsvRecordBuffer \<Rightarrow> CsvFormatError \<times> CsvRecordBuffer" where
  "format_order_book_csv_row al row b =
     (let b = crb_clear b in
      if \<not> valid_timestamp (ob_timestamp row) then (CSV_invalid_timestamp, b)
      else if ob_sequence_number row = 0 then (CSV_invalid_sequence, b)
      else if ob_instrument_id row \<le> 0 then (CSV_invalid_instrument_id, b)
      else if row_type_text (ob_row_type row) = CHR 0x00 \<or> side_text (ob_side row) = CHR 0x00
      then (CSV_invalid_enum, b)
      else if \<not> valid_book (ob_bids row) (ob_asks row) then (CSV_invalid_book, b)
      else finish_row b (append_order_book al row (crb_storage b)))"

end
