(* ===== verification/Csv_Rows.thy ===== *)
theory Csv_Rows
  imports Csv_Format
begin

text \<open>
  What the CSV formatter promises.  The locale \<open>appender\<close> is the contract every append helper and
  every \<open>&&\<close> chain of them satisfies: it appends one fixed text or reports, without touching the
  buffer's capacity downwards, that the text does not fit or could not be allocated.  The two row
  formatters are composed from it; their texts, sizes and failure modes follow.
\<close>

section \<open>The contract of an append\<close>

locale appender =
  fixes f :: "StdString \<Rightarrow> append_result" and t :: string
  assumes appended: "length (str_bytes out) \<le> kMaxCsvRecordBytes \<Longrightarrow> f out = (Append_true, s) \<Longrightarrow>
      str_bytes s = str_bytes out @ t \<and> length (str_bytes s) \<le> kMaxCsvRecordBytes"
    and no_false: "length (str_bytes out) + length t \<le> kMaxCsvRecordBytes \<Longrightarrow>
      fst (f out) \<noteq> Append_false"
    and fits: "length (str_bytes out) + length t \<le> kMaxCsvRecordBytes \<Longrightarrow>
      length (str_bytes out) + length t \<le> str_capacity out \<Longrightarrow>
      f out = (Append_true, out\<lparr>str_bytes := str_bytes out @ t\<rparr>)"
begin

text \<open>The formatters start from a cleared buffer and end with \<open>finish_row\<close>.\<close>

lemma finish_none:
  assumes "crb_view b = []" and "finish_row b (f (crb_storage b)) = (CSV_none, b')"
  shows "crb_view b' = t \<and> length t \<le> kMaxCsvRecordBytes"
proof -
  obtain s where "f (crb_storage b) = (Append_true, s)" "b' = b\<lparr>crb_storage := s\<rparr>"
    using assms(2) by (auto simp: finish_row_def split: append_status.splits prod.splits)
  with appended [of "crb_storage b" s] assms(1) show ?thesis by (auto simp: crb_view_def)
qed

lemma finish_error:
  assumes "finish_row b (f (crb_storage b)) = (e, b')" and "e \<noteq> CSV_none"
  shows "crb_view b' = [] \<and> e \<in> {CSV_record_too_large, CSV_allocation_failure}"
  using assms by (auto simp: finish_row_def crb_view_def crb_clear_def split: append_status.splits prod.splits)

lemma finish_fits:
  assumes "crb_view b = []" and "length t \<le> kMaxCsvRecordBytes"
    and "length t \<le> str_capacity (crb_storage b)"
  shows "finish_row b (f (crb_storage b))
     = (CSV_none, b\<lparr>crb_storage := (crb_storage b)\<lparr>str_bytes := t\<rparr>\<rparr>)"
  using assms fits [of "crb_storage b"] by (simp add: finish_row_def crb_view_def)

lemma finish_not_too_large:
  assumes "crb_view b = []" and "length t \<le> kMaxCsvRecordBytes"
  shows "fst (finish_row b (f (crb_storage b))) \<noteq> CSV_record_too_large"
  using assms no_false [of "crb_storage b"]
  by (auto simp: finish_row_def crb_view_def split: append_status.splits prod.splits)

lemma finish_too_large:
  assumes "crb_view b = []" and "length t > kMaxCsvRecordBytes"
  shows "fst (finish_row b (f (crb_storage b))) \<noteq> CSV_none"
  using finish_none [OF assms(1)] assms(2) by (metis leD prod.collapse)

end

lemma append_raw_appender:
  assumes "length (str_bytes out) + length bytes \<le> kMaxCsvRecordBytes"
  shows "append_raw al out bytes = (Append_true, s) \<Longrightarrow>
      str_bytes s = str_bytes out @ bytes \<and> length (str_bytes s) \<le> kMaxCsvRecordBytes"
    and "fst (append_raw al out bytes) \<noteq> Append_false"
    and "length (str_bytes out) + length bytes \<le> str_capacity out \<Longrightarrow>
      append_raw al out bytes = (Append_true, out\<lparr>str_bytes := str_bytes out @ bytes\<rparr>)"
  using assms
  by (auto simp: append_raw_def str_append_fits split: option.splits dest: str_append_bytes)

lemma append_bytes_appender: "appender (append_bytes al bytes) bytes"
proof
  fix out s
  show "str_bytes s = str_bytes out @ bytes \<and> length (str_bytes s) \<le> kMaxCsvRecordBytes"
    if "length (str_bytes out) \<le> kMaxCsvRecordBytes" "append_bytes al bytes out = (Append_true, s)"
    using that append_raw_appender(1) [of out bytes al s]
    by (auto simp: append_bytes_def split: if_splits)
next
  fix out
  show "fst (append_bytes al bytes out) \<noteq> Append_false"
    if "length (str_bytes out) + length bytes \<le> kMaxCsvRecordBytes"
    using that append_raw_appender(2) [of out bytes al] by (auto simp: append_bytes_def)
next
  fix out
  show "append_bytes al bytes out = (Append_true, out\<lparr>str_bytes := str_bytes out @ bytes\<rparr>)"
    if "length (str_bytes out) + length bytes \<le> kMaxCsvRecordBytes"
      "length (str_bytes out) + length bytes \<le> str_capacity out"
    using that append_raw_appender(3) [of out bytes al] by (auto simp: append_bytes_def)
qed

lemma append_byte_appender: "appender (append_byte al c) [c]"
proof
  fix out s
  show "str_bytes s = str_bytes out @ [c] \<and> length (str_bytes s) \<le> kMaxCsvRecordBytes"
    if "length (str_bytes out) \<le> kMaxCsvRecordBytes" "append_byte al c out = (Append_true, s)"
    using that append_raw_appender(1) [of out "[c]" al s]
    by (auto simp: append_byte_def split: if_splits)
next
  fix out
  show "fst (append_byte al c out) \<noteq> Append_false"
    if "length (str_bytes out) + length [c] \<le> kMaxCsvRecordBytes"
    using that append_raw_appender(2) [of out "[c]" al] by (auto simp: append_byte_def)
next
  fix out
  show "append_byte al c out = (Append_true, out\<lparr>str_bytes := str_bytes out @ [c]\<rparr>)"
    if "length (str_bytes out) + length [c] \<le> kMaxCsvRecordBytes"
      "length (str_bytes out) + length [c] \<le> str_capacity out"
    using that append_raw_appender(3) [of out "[c]" al] by (auto simp: append_byte_def)
qed

interpretation bytes: appender "append_bytes al bytes" bytes for al bytes
  by (rule append_bytes_appender)

interpretation byte: appender "append_byte al c" "[c]" for al c
  by (rule append_byte_appender)

text \<open>Nothing to append, and one append after another.\<close>

lemma appender_nothing: "appender (Pair Append_true) []"
  by unfold_locales auto

lemma appender_and_then:
  assumes f: "appender f t" and g: "appender g u"
  shows "appender (\<lambda>out. and_then (f out) g) (t @ u)"
proof
  fix out s
  show "str_bytes s = str_bytes out @ (t @ u) \<and> length (str_bytes s) \<le> kMaxCsvRecordBytes"
    if len: "length (str_bytes out) \<le> kMaxCsvRecordBytes"
      and run: "and_then (f out) g = (Append_true, s)"
  proof -
    obtain m where m: "f out = (Append_true, m)" "g m = (Append_true, s)"
      using run by (auto simp: and_then_def split: prod.splits append_status.splits)
    have "str_bytes m = str_bytes out @ t" "length (str_bytes m) \<le> kMaxCsvRecordBytes"
      using appender.appended [OF f len m(1)] by blast+
    with appender.appended [OF g _ m(2)] show ?thesis by auto
  qed
next
  fix out
  show "fst (and_then (f out) g) \<noteq> Append_false"
    if len: "length (str_bytes out) + length (t @ u) \<le> kMaxCsvRecordBytes"
  proof (cases "f out")
    case (Pair st m)
    then show ?thesis
      using appender.appended [OF f _, of out m] appender.no_false [OF f, of out]
        appender.no_false [OF g, of m] len
      by (cases st) (auto simp: and_then_def)
  qed
next
  fix out
  show "and_then (f out) g = (Append_true, out\<lparr>str_bytes := str_bytes out @ t @ u\<rparr>)"
    if "length (str_bytes out) + length (t @ u) \<le> kMaxCsvRecordBytes"
      "length (str_bytes out) + length (t @ u) \<le> str_capacity out"
    using that appender.fits [OF f, of out]
      appender.fits [OF g, of "out\<lparr>str_bytes := str_bytes out @ t\<rparr>"]
    by (simp add: and_then_def)
qed

lemma append_integer_appender:
  "length (to_chars v) \<le> 32 \<Longrightarrow> appender (append_integer al v) (to_chars v)"
  using append_bytes_appender [of al "to_chars v"]
  by (simp add: append_integer_def [abs_def])

lemma append_comma_appender: "appender (append_comma al) '',''"
  using append_byte_appender by (simp add: append_comma_def [abs_def])

section \<open>Row texts\<close>

definition quote_field :: "string \<Rightarrow> string" where
  "quote_field field = concat (map (\<lambda>c. if c = quote_char then [quote_char, quote_char] else [c]) field)"

lemma append_quoted_bytes_appender: "appender (append_quoted_bytes al field) (quote_field field)"
proof (induction field)
  case Nil
  then show ?case using appender_nothing
    by (simp add: quote_field_def append_quoted_bytes.simps [abs_def])
next
  case (Cons c field)
  have "appender (\<lambda>out. if c = quote_char then append_bytes al [quote_char, quote_char] out
      else append_byte al c out) (if c = quote_char then [quote_char, quote_char] else [c])"
    using append_bytes_appender append_byte_appender by simp
  from appender_and_then [OF this Cons] show ?case
    by (simp add: quote_field_def append_quoted_bytes.simps [abs_def])
qed

lemma append_quoted_field_appender:
  "appender (append_quoted_field al field) (quote_char # quote_field field @ [quote_char])"
  using appender_and_then [OF append_byte_appender
      appender_and_then [OF append_quoted_bytes_appender append_byte_appender]]
  by (simp add: append_quoted_field_def [abs_def])

interpretation quoted: appender "append_quoted_field al field"
    "quote_char # quote_field field @ [quote_char]" for al field
  by (rule append_quoted_field_appender)

definition level_text :: "BookSideView \<Rightarrow> bool \<Rightarrow> nat \<Rightarrow> string" where
  "level_text side quantity index =
     (if index \<ge> bsv_size side then ''0''
      else to_chars (if quantity then bl_quantity (bsv_at side index) else bl_price (bsv_at side index)))"

text \<open>The fields of an order-book row, and the row: fields separated by commas, then a newline.\<close>

definition ob_fields :: "OrderBookCsvRow \<Rightarrow> string list" where
  "ob_fields row =
     [to_chars (ts_seconds (ob_timestamp row)), to_chars (ts_nanoseconds (ob_timestamp row)),
      to_chars (uint (ob_sequence_number row)), to_chars (ob_instrument_id row),
      [row_type_text (ob_row_type row)], [side_text (ob_side row)]] @
     map (level_text (ob_bids row) False) [0 ..< 5] @ map (level_text (ob_bids row) True) [0 ..< 5] @
     map (level_text (ob_asks row) False) [0 ..< 5] @ map (level_text (ob_asks row) True) [0 ..< 5]"

definition md_fields :: "MarketDataCsvRow \<Rightarrow> string list" where
  "md_fields row =
     [to_chars (ts_seconds (md_timestamp row)), to_chars (ts_nanoseconds (md_timestamp row)),
      venue_text (md_venue row), stream_kind_text (md_stream_kind row),
      to_chars (uint (md_shard_id row)), to_chars (uint (md_connection_epoch row)),
      to_chars (uint (md_connection_sequence row)), md_symbol row,
      quote_char # quote_field (md_payload_json row) @ [quote_char]]"

fun join_commas :: "string list \<Rightarrow> string" where
  "join_commas [] = []"
| "join_commas [x] = x"
| "join_commas (x # y # xs) = x @ '','' @ join_commas (y # xs)"

definition csv_line :: "string list \<Rightarrow> string" where
  "csv_line fs = join_commas fs @ [newline]"

lemma join_commas_Cons: "xs \<noteq> [] \<Longrightarrow> join_commas (x # xs) = x @ '','' @ join_commas xs"
  by (cases xs) simp_all

text \<open>Integers that are values of their C++ types.\<close>

definition timestamp_in_range :: "CsvTimestamp \<Rightarrow> bool" where
  "timestamp_in_range t \<longleftrightarrow> i64_min \<le> ts_seconds t \<and> ts_seconds t \<le> i64_max"

definition view_in_range :: "BookSideView \<Rightarrow> bool" where
  "view_in_range v \<longleftrightarrow> (\<forall>index < bsv_size v. level_ok (bsv_at v index))"

definition md_row_in_range :: "MarketDataCsvRow \<Rightarrow> bool" where
  "md_row_in_range row \<longleftrightarrow> timestamp_in_range (md_timestamp row)"

definition ob_row_in_range :: "OrderBookCsvRow \<Rightarrow> bool" where
  "ob_row_in_range row \<longleftrightarrow>
     timestamp_in_range (ob_timestamp row) \<and> ob_instrument_id row \<le> 2147483647 \<and>
     view_in_range (ob_bids row) \<and> view_in_range (ob_asks row)"

lemma timestamp_lengths:
  assumes "timestamp_in_range t" and "valid_timestamp t"
  shows "length (to_chars (ts_seconds t)) \<le> 20" "length (to_chars (ts_nanoseconds t)) \<le> 9"
  using assms length_to_chars_i64 [of "ts_seconds t"] length_to_chars_nonneg [of "ts_nanoseconds t" 9]
  by (simp_all add: timestamp_in_range_def valid_timestamp_def kNanosecondsPerSecond_def)

lemma length_le_32: "length xs \<le> n \<Longrightarrow> n \<le> 32 \<Longrightarrow> length xs \<le> (32 :: nat)"
  by simp

lemma append_market_data_appender:
  assumes "md_row_in_range row" and "valid_timestamp (md_timestamp row)"
  shows "appender (append_market_data al row) (csv_line (md_fields row))"
proof -
  note ts = timestamp_lengths [OF assms(1) [unfolded md_row_in_range_def] assms(2)]
  note int = append_integer_appender [OF length_le_32]
  have "csv_line (md_fields row) =
      to_chars (ts_seconds (md_timestamp row)) @ '','' @ to_chars (ts_nanoseconds (md_timestamp row)) @ '','' @
      venue_text (md_venue row) @ '','' @ stream_kind_text (md_stream_kind row) @ '','' @
      to_chars (uint (md_shard_id row)) @ '','' @ to_chars (uint (md_connection_epoch row)) @ '','' @
      to_chars (uint (md_connection_sequence row)) @ '','' @ md_symbol row @ '','' @
      (quote_char # quote_field (md_payload_json row) @ [quote_char]) @ [newline]"
    by (simp add: csv_line_def md_fields_def)
  then show ?thesis
    unfolding append_market_data_def [abs_def]
    by (simp only:) (intro appender_and_then append_comma_appender append_bytes_appender
        append_byte_appender append_quoted_field_appender int [OF ts(1)] int [OF ts(2)]
        int [OF length_to_chars_u32] int [OF length_to_chars_u64]; simp)
qed

lemma length_to_chars_level:
  "level_ok l \<Longrightarrow> length (to_chars (if quantity then bl_quantity l else bl_price l)) \<le> 19"
  by (rule length_to_chars_nonneg) (auto simp: level_ok_def i64_max_def)

lemma length_level_text:
  "view_in_range v \<Longrightarrow> length (level_text v quantity index) \<le> 19"
  using length_to_chars_level [of "bsv_at v index" quantity]
  by (auto simp: level_text_def view_in_range_def)

lemma append_level_component_appender:
  assumes "view_in_range v"
  shows "appender (append_level_component al v index quantity) ('','' @ level_text v quantity index)"
proof -
  have "appender (\<lambda>out. if index \<ge> bsv_size v then append_byte al (CHR ''0'') out
       else append_integer al
         (if quantity then bl_quantity (bsv_at v index) else bl_price (bsv_at v index)) out)
     (level_text v quantity index)"
    using assms length_to_chars_level [of "bsv_at v index" quantity]
      append_integer_appender [OF length_le_32] append_byte_appender
    by (auto simp: level_text_def view_in_range_def not_le)
  from appender_and_then [OF append_comma_appender this] show ?thesis
    by (simp add: append_level_component_def [abs_def])
qed

lemma append_book_side_from_appender:
  assumes "view_in_range v"
  shows "appender (append_book_side_from al v quantity is)
     (concat (map (\<lambda>i. '','' @ level_text v quantity i) is))"
proof (induction "is")
  case Nil
  then show ?case using appender_nothing by (simp add: append_book_side_from.simps [abs_def])
next
  case (Cons i "is")
  from appender_and_then [OF append_level_component_appender [OF assms] Cons] show ?case
    by (simp add: append_book_side_from.simps [abs_def])
qed

lemma append_book_side_appender:
  assumes "view_in_range v"
  shows "appender (append_book_side al v quantity)
     (concat (map (\<lambda>x. '','' @ x) (map (level_text v quantity) [0 ..< 5])))"
  using append_book_side_from_appender [OF assms, of al quantity "[0 ..< 5]"]
  by (simp add: append_book_side_def [abs_def] kVisibleBookDepth_def comp_def)

lemma join_commas_concat: "ys \<noteq> [] \<Longrightarrow> '','' @ join_commas ys = concat (map (\<lambda>x. '','' @ x) ys)"
proof (induction ys)
  case (Cons y ys)
  then show ?case by (cases "ys = []") (simp_all add: join_commas_Cons)
qed simp

lemma join_commas_append:
  "xs \<noteq> [] \<Longrightarrow> join_commas (xs @ ys) = join_commas xs @ concat (map (\<lambda>x. '','' @ x) ys)"
proof (induction xs)
  case (Cons x xs)
  then show ?case
    by (cases "xs = []"; cases "ys = []")
      (simp_all add: join_commas_Cons join_commas_concat [simplified])
qed simp

lemma append_order_book_appender:
  assumes "ob_row_in_range row" and "valid_timestamp (ob_timestamp row)" and "ob_instrument_id row > 0"
  shows "appender (append_order_book al row) (csv_line (ob_fields row))"
proof -
  have r: "timestamp_in_range (ob_timestamp row)" "view_in_range (ob_bids row)"
    "view_in_range (ob_asks row)" and id: "length (to_chars (ob_instrument_id row)) \<le> 10"
    using assms length_to_chars_nonneg [of "ob_instrument_id row" 10] by (simp_all add: ob_row_in_range_def)
  note ts = timestamp_lengths [OF r(1) assms(2)]
  note int = append_integer_appender [OF length_le_32]
  let ?side = "\<lambda>v q. concat (map (\<lambda>x. '','' @ x) (map (level_text v q) [0 ..< 5]))"
  have "csv_line (ob_fields row) =
      to_chars (ts_seconds (ob_timestamp row)) @ '','' @ to_chars (ts_nanoseconds (ob_timestamp row)) @ '','' @
      to_chars (uint (ob_sequence_number row)) @ '','' @ to_chars (ob_instrument_id row) @ '','' @
      [row_type_text (ob_row_type row)] @ '','' @ [side_text (ob_side row)] @
      ?side (ob_bids row) False @ ?side (ob_bids row) True @
      ?side (ob_asks row) False @ ?side (ob_asks row) True @ [newline]"
    unfolding csv_line_def ob_fields_def
    by (subst join_commas_append) (simp_all del: upt_Suc)
  then show ?thesis
    unfolding append_order_book_def [abs_def]
    by (simp only:) (intro appender_and_then append_comma_appender append_byte_appender
        int [OF ts(1)] int [OF ts(2)] int [OF length_to_chars_u64] int [OF id]
        append_book_side_appender r; simp)
qed

section \<open>Sizes\<close>

lemma length_join_commas:
  "length (join_commas xs) = sum_list (map length xs) + (length xs - 1)"
  by (induction xs rule: join_commas.induct) simp_all

lemma sum_list_length_bound:
  "(\<And>x. x \<in> set xs \<Longrightarrow> length x \<le> n) \<Longrightarrow> sum_list (map length xs) \<le> n * length xs"
  by (induction xs) (auto simp: add_mono)

lemma length_order_book_row:
  assumes "ob_row_in_range row" and "valid_timestamp (ob_timestamp row)" and "ob_instrument_id row > 0"
  shows "length (csv_line (ob_fields row)) \<le> 546"
proof -
  have r: "timestamp_in_range (ob_timestamp row)" "view_in_range (ob_bids row)"
    "view_in_range (ob_asks row)" and id: "length (to_chars (ob_instrument_id row)) \<le> 10"
    using assms length_to_chars_nonneg [of "ob_instrument_id row" 10] by (simp_all add: ob_row_in_range_def)
  note ts = timestamp_lengths [OF r(1) assms(2)]
  have "length x \<le> 20" if "x \<in> set (ob_fields row)" for x
    using that ts id length_to_chars_u64 [of "ob_sequence_number row"] length_level_text [OF r(2)]
      length_level_text [OF r(3)]
    by (auto simp: ob_fields_def intro: le_trans [of _ 19])
  from sum_list_length_bound [of "ob_fields row", OF this] show ?thesis
    by (simp add: csv_line_def length_join_commas ob_fields_def)
qed

section \<open>Valid books\<close>

lemma valid_side_from_iff:
  "valid_side_from v side i \<longleftrightarrow>
     (\<forall>j. i \<le> j \<and> j < bsv_size v \<longrightarrow>
        bl_price (bsv_at v j) > 0 \<and> bl_quantity (bsv_at v j) > 0 \<and>
        (j = 0 \<or> better_price side (bl_price (bsv_at v (j - 1))) (bl_price (bsv_at v j))))"
proof (induction "bsv_size v - i" arbitrary: i)
  case 0
  then show ?case by (simp add: valid_side_from.simps [of v side i])
next
  case (Suc n)
  let ?ok = "\<lambda>j. bl_price (bsv_at v j) > 0 \<and> bl_quantity (bsv_at v j) > 0 \<and>
      (j = 0 \<or> better_price side (bl_price (bsv_at v (j - 1))) (bl_price (bsv_at v j)))"
  from Suc have "i < bsv_size v" "n = bsv_size v - Suc i" by simp_all
  then have "valid_side_from v side i \<longleftrightarrow> ?ok i \<and> (\<forall>j. Suc i \<le> j \<and> j < bsv_size v \<longrightarrow> ?ok j)"
    using Suc(1) [of "Suc i"]
    by (subst valid_side_from.simps) (auto simp: Let_def better_price_def)
  with \<open>i < bsv_size v\<close> show ?case by (subst all_from_Suc) blast+
qed

lemma side_inv_valid:
  assumes "side_inv side s"
  shows "valid_side \<lparr>bsv_data = Some (side_levels s), bsv_size = side_size s\<rparr> side \<and>
    view_in_range \<lparr>bsv_data = Some (side_levels s), bsv_size = side_size s\<rparr>"
proof -
  have s: "side_size s \<le> 5" "length (side_levels s) = 5"
    using assms by (simp_all add: side_inv_def side_wf_def kVisibleBookDepth_def)
  have nth: "side_view s ! i = side_levels s ! i" if "i < side_size s" for i
    using that by (simp add: side_view_def)
  have len: "length (side_view s) = side_size s" using s by (simp add: side_view_def)
  have ok: "level_ok (side_levels s ! i)" if "i < side_size s" for i
    using assms that nth len by (metis list_all_length side_inv_def)
  have "better_price side (bl_price (side_levels s ! (j - 1))) (bl_price (side_levels s ! j))"
    if "j < side_size s" "j \<noteq> 0" for j
  proof -
    have "sorted_wrt (\<lambda>a b. better_price side (bl_price a) (bl_price b)) (side_view s)"
      using assms by (simp add: side_inv_def best_first_def sorted_wrt_map)
    from sorted_wrt_nth_less [OF this, of "j - 1" j] that len nth show ?thesis by simp
  qed
  with ok s show ?thesis
    by (auto simp: valid_side_def valid_side_from_iff view_in_range_def bsv_at_def level_ok_def
        kVisibleBookDepth_def)
qed

lemma core_inv_valid_book:
  assumes "core_inv core"
  shows "valid_book (core_bids_view core) (core_asks_view core) \<and>
    view_in_range (core_bids_view core) \<and> view_in_range (core_asks_view core)"
  using assms side_inv_valid [of Bid "core_bids core"] side_inv_valid [of Ask "core_asks core"]
  by (auto simp: core_inv_def valid_book_def core_bids_view_def core_asks_view_def sides_crossed_def
      bsv_at_def)

section \<open>Fields\<close>

fun split_commas :: "string \<Rightarrow> string list" where
  "split_commas [] = [[]]"
| "split_commas (c # cs) =
     (if c = CHR '','' then [] # split_commas cs
      else case split_commas cs of [] \<Rightarrow> [[c]] | f # fs \<Rightarrow> (c # f) # fs)"

lemma split_commas_neq_Nil [simp]: "split_commas s \<noteq> []"
  by (induction s) (auto split: list.splits)

lemma split_commas_plain:
  "CHR '','' \<notin> set x \<Longrightarrow> split_commas x = [x]"
  by (induction x) auto

lemma split_commas_append:
  "CHR '','' \<notin> set x \<Longrightarrow> split_commas (x @ '','' @ s) = x # split_commas s"
  by (induction x) auto

lemma split_join_commas:
  assumes "xs \<noteq> []" and "\<forall>x \<in> set xs. CHR '','' \<notin> set x"
  shows "split_commas (join_commas xs) = xs"
  using assms
proof (induction xs rule: join_commas.induct)
  case (3 x y xs)
  then show ?case using split_commas_append [of x "join_commas (y # xs)"] by simp
qed (simp_all add: split_commas_plain)

lemma comma_notin_to_chars [simp]: "CHR '','' \<notin> set (to_chars v)"
  using to_chars_chars [of "CHR '',''" v] by auto

lemma split_order_book_row:
  "split_commas (butlast (csv_line (ob_fields row))) = ob_fields row"
proof -
  have "CHR '','' \<notin> set x" if "x \<in> set (ob_fields row)" for x
    using that
    by (cases "ob_row_type row"; cases "ob_side row") (auto simp: ob_fields_def level_text_def)
  moreover have "ob_fields row \<noteq> []" by (simp add: ob_fields_def)
  ultimately show ?thesis by (simp add: csv_line_def split_join_commas)
qed

section \<open>Properties\<close>

definition order_book_row ::
    "CsvTimestamp \<Rightarrow> u64 \<Rightarrow> int \<Rightarrow> BookRowType \<Rightarrow> BookRowSide \<Rightarrow> TopFiveBookCore \<Rightarrow> OrderBookCsvRow" where
  "order_book_row ts seq iid ty side core =
     \<lparr>ob_timestamp = ts, ob_sequence_number = seq, ob_instrument_id = iid, ob_row_type = ty,
      ob_side = side, ob_bids = core_bids_view core, ob_asks = core_asks_view core\<rparr>"

lemma format_order_book_total:
  fixes ty :: BookRowType and side :: BookRowSide
  assumes "core_inv core" and "valid_timestamp ts" and "timestamp_in_range ts" and "seq \<noteq> 0"
    and "0 < iid" and "iid \<le> 2147483647" and "546 \<le> str_capacity (crb_storage b)"
  defines "row \<equiv> order_book_row ts seq iid ty side core"
  shows "format_order_book_csv_row al row b =
     (CSV_none, b\<lparr>crb_storage := (crb_storage b)\<lparr>str_bytes := csv_line (ob_fields row)\<rparr>\<rparr>) \<and>
     length (csv_line (ob_fields row)) \<le> 546"
proof -
  have range: "ob_row_in_range row" "valid_timestamp (ob_timestamp row)" "ob_instrument_id row > 0"
    using assms core_inv_valid_book [OF assms(1)]
    by (simp_all add: row_def order_book_row_def ob_row_in_range_def)
  note len = length_order_book_row [OF range]
  have "finish_row (crb_clear b) (append_order_book al row (crb_storage (crb_clear b))) =
     (CSV_none, b\<lparr>crb_storage := (crb_storage b)\<lparr>str_bytes := csv_line (ob_fields row)\<rparr>\<rparr>)"
    using appender.finish_fits [OF append_order_book_appender [OF range], of "crb_clear b"] len assms(7)
    by (simp add: crb_view_def crb_clear_def str_clear_def kMaxCsvRecordBytes_def)
  moreover have "row_type_text (ob_row_type row) \<noteq> CHR 0x00" "side_text (ob_side row) \<noteq> CHR 0x00"
    by (cases "ob_row_type row"; simp) (cases "ob_side row"; simp)
  ultimately show ?thesis
    using assms(4) range len core_inv_valid_book [OF assms(1)]
    by (simp add: format_order_book_csv_row_def Let_def row_def order_book_row_def)
qed

text \<open>
  C7: the order-book row of every book that satisfies the invariant is formatted: neither the
  book check nor the size limit nor the allocator can reject it, because a row is at most 546 bytes
  and the row buffer holds 1024.  Splitting the line at its commas gives back its twenty-six fields,
  as many as the header has.
\<close>

theorem order_book_row_always_formats:
  assumes "core_inv core" and "valid_timestamp ts" and "timestamp_in_range ts" and "seq \<noteq> 0"
    and "0 < iid" and "iid \<le> 2147483647" and "1024 \<le> str_capacity (crb_storage b)"
  shows "case format_order_book_csv_row al (order_book_row ts seq iid ty side core) b of (e, b') \<Rightarrow>
     e = CSV_none \<and> length (crb_view b') \<le> 546 \<and>
     split_commas (butlast (crb_view b')) = ob_fields (order_book_row ts seq iid ty side core) \<and>
     last (crb_view b') = newline \<and>
     length (split_commas (butlast (crb_view b'))) = length (split_commas kOrderBookCsvHeader)"
proof -
  let ?row = "order_book_row ts seq iid ty side core"
  have "length (split_commas kOrderBookCsvHeader) = 26" by code_simp
  moreover have "length (ob_fields ?row) = 26" by (simp add: ob_fields_def)
  moreover have "546 \<le> str_capacity (crb_storage b)" using assms(7) by simp
  ultimately show ?thesis
    using format_order_book_total [OF assms(1-6), of b al ty side] split_order_book_row [of ?row]
    by (simp add: crb_view_def) (simp add: csv_line_def)
qed

definition sample_core :: TopFiveBookCore where
  "sample_core = snd (core_apply_refresh empty_core sample_refresh)"

definition sample_buffer :: CsvRecordBuffer where
  "sample_buffer = \<lparr>crb_storage = \<lparr>str_bytes = [], str_capacity = 1024\<rparr>, crb_initial_capacity = 1024\<rparr>"

definition failing_allocator :: Allocator where
  "failing_allocator = \<lparr>alloc_ok = (\<lambda>_. False), alloc_capacity = (\<lambda>_ n. n)\<rparr>"

theorem order_book_row_always_formats_witness:
  "fst (format_order_book_csv_row failing_allocator
     (order_book_row \<lparr>ts_seconds = 1700000000, ts_nanoseconds = 5\<rparr> 1 7 Row_partial_refresh Row_neutral
        sample_core) sample_buffer) = CSV_none"
proof -
  have "core_inv sample_core" "valid_timestamp \<lparr>ts_seconds = 1700000000, ts_nanoseconds = 5\<rparr>"
    "timestamp_in_range \<lparr>ts_seconds = 1700000000, ts_nanoseconds = 5\<rparr>"
    "1024 \<le> str_capacity (crb_storage sample_buffer)" "(1 :: u64) \<noteq> 0" "0 < (7 :: int)"
    "(7 :: int) \<le> 2147483647" by code_simp+
  from order_book_row_always_formats [OF this(1-3,5-7,4), where al = failing_allocator]
  show ?thesis by (simp add: case_prod_beta)
qed

text \<open>
  C12: the audit formatter is all or nothing.  On success the buffer holds exactly the row's nine
  fields, the payload quoted with its quotes doubled, and a newline, and is no longer than three
  MiB; on every error it is empty; and a row that is too long is never accepted.
\<close>

theorem market_data_row_exact:
  assumes "md_row_in_range row"
  shows "case format_market_data_csv_row al row b of (e, b') \<Rightarrow>
     (if e = CSV_none
      then valid_timestamp (md_timestamp row) \<and> md_connection_sequence row \<noteq> 0 \<and>
           is_normalized_symbol (md_symbol row) \<and> crb_view b' = csv_line (md_fields row) \<and>
           length (crb_view b') \<le> kMaxCsvRecordBytes
      else crb_view b' = []) \<and>
     (e = CSV_record_too_large \<longrightarrow> length (csv_line (md_fields row)) > kMaxCsvRecordBytes)"
proof (cases "valid_timestamp (md_timestamp row) \<and> md_connection_sequence row \<noteq> 0 \<and>
    is_normalized_symbol (md_symbol row)")
  case True
  let ?b = "crb_clear b"
  obtain e b' where r: "finish_row ?b (append_market_data al row (crb_storage ?b)) = (e, b')"
    by fastforce
  have "venue_text (md_venue row) \<noteq> []" "stream_kind_text (md_stream_kind row) \<noteq> []"
    by (cases "md_venue row"; simp) (cases "md_stream_kind row"; simp)
  with True r have f: "format_market_data_csv_row al row b = (e, b')"
    by (simp add: format_market_data_csv_row_def Let_def)
  have b: "crb_view ?b = []" by (simp add: crb_view_def crb_clear_def)
  note app = append_market_data_appender [OF assms, of al]
  have "e = CSV_none \<Longrightarrow> crb_view b' = csv_line (md_fields row) \<and>
      length (csv_line (md_fields row)) \<le> kMaxCsvRecordBytes"
    using appender.finish_none [OF app b, of b'] True r by simp
  moreover have "e \<noteq> CSV_none \<Longrightarrow> crb_view b' = []"
    using appender.finish_error [OF app r] True by simp
  moreover have "e = CSV_record_too_large \<Longrightarrow> length (csv_line (md_fields row)) > kMaxCsvRecordBytes"
    using appender.finish_not_too_large [OF app b] True r by (metis fst_conv leI)
  ultimately show ?thesis using True by (simp add: f)
next
  case False
  then show ?thesis
    by (auto simp: format_market_data_csv_row_def Let_def crb_view_def crb_clear_def)
qed

definition sample_md_row :: MarketDataCsvRow where
  "sample_md_row = \<lparr>md_timestamp = \<lparr>ts_seconds = -1, ts_nanoseconds = 999\<rparr>, md_venue = Venue_usdm,
     md_stream_kind = Trade, md_shard_id = 0, md_connection_epoch = 2, md_connection_sequence = 3,
     md_symbol = ''BTCUSDT'', md_payload_json = [CHR ''{'', quote_char, CHR ''e'', quote_char, CHR ''}'']\<rparr>"

theorem market_data_row_exact_witness:
  "fst (format_market_data_csv_row failing_allocator sample_md_row sample_buffer) = CSV_none \<and>
   crb_view (snd (format_market_data_csv_row failing_allocator sample_md_row sample_buffer))
     = csv_line (md_fields sample_md_row)"
proof -
  have "md_row_in_range sample_md_row" by code_simp
  moreover from this have "fst (format_market_data_csv_row failing_allocator sample_md_row sample_buffer) = CSV_none"
  proof -
    have valid: "valid_timestamp (md_timestamp sample_md_row)" by code_simp
    have "md_connection_sequence sample_md_row \<noteq> 0"
      "is_normalized_symbol (md_symbol sample_md_row)" "length (csv_line (md_fields sample_md_row)) = 42"
      by code_simp+
    then show ?thesis
      using valid append_market_data_appender [of sample_md_row failing_allocator,
          OF \<open>md_row_in_range sample_md_row\<close> valid, THEN appender.finish_fits, of "crb_clear sample_buffer"]
      by (simp add: format_market_data_csv_row_def Let_def crb_view_def crb_clear_def kMaxCsvRecordBytes_def)
        (simp add: sample_md_row_def sample_buffer_def)
  qed
  ultimately show ?thesis
    using market_data_row_exact [of sample_md_row failing_allocator sample_buffer]
    by (simp add: case_prod_beta)
qed

end
