(* ===== verification/Event_Processor.thy ===== *)
theory Event_Processor
  imports Payload_Guarantees Csv_Rows
begin

text \<open>
  The event processor (\<^verbatim>\<open>src/event_processor.cpp\<close>): one payload of one symbol is checked against its
  connection context, parsed, audited, applied to a copy of the venue's book, formatted as an
  order-book row and only then committed.  State is passed explicitly: the symbol's state, the
  parser's storage and the row batch.  The two allocators decide the growth of the two row buffers.
\<close>

section \<open>Data\<close>

datatype EventOutputMode = Live_capture | Replay_output

datatype EventProcessStatus =
    EPS_not_processed
  | EPS_applied_refresh
  | EPS_applied_diff
  | EPS_stale_refresh
  | EPS_stale_diff
  | EPS_ignored_while_invalid
  | EPS_sequence_gap
  | EPS_crossed_book
  | EPS_trade_audited
  | EPS_schema_rejected
  | EPS_pre_audit_rejected

datatype EventProcessError = EPE_none | EPE_invalid_context | EPE_sequence_overflow | EPE_csv_format_error

record EventContext =
  ctx_timestamp :: CsvTimestamp
  ctx_venue :: PayloadVenue
  ctx_stream_kind :: SpotStreamKind
  ctx_shard_id :: u32
  ctx_connection_epoch :: u64
  ctx_connection_sequence :: u64
  ctx_symbol :: string

record EventRowBatch =
  audit_row :: CsvRecordBuffer
  order_book_row_buffer :: CsvRecordBuffer
  has_audit_row :: bool
  has_order_book_row :: bool

record EventProcessResult =
  epr_status :: EventProcessStatus
  epr_error :: EventProcessError
  epr_parse_error :: SpotParseError
  epr_parse_field :: SpotField
  epr_csv_error :: CsvFormatError
  epr_book_status :: BookApplyStatus
  epr_has_book_status :: bool
  epr_trade_diagnostic_mismatch :: bool

text \<open>The symbol's fixed byte array and its size are the string they hold.\<close>

record SymbolState =
  st_symbol :: string
  st_venue :: PayloadVenue
  st_instrument_id :: int
  st_sequence_number :: u64
  st_has_observed_connection :: bool
  st_current_connection_epoch :: u64
  st_last_connection_sequence :: u64
  st_spot_book :: SpotBookState
  st_usdm_book :: UsdMBookState

definition kOrderBookRecordCapacity :: nat where "kOrderBookRecordCapacity = 1024"

definition default_event_result :: EventProcessResult where
  "default_event_result = \<lparr>epr_status = EPS_not_processed, epr_error = EPE_none, epr_parse_error = SPE_none,
     epr_parse_field = SF_none, epr_csv_error = CSV_none, epr_book_status = BA_ignored_while_invalid,
     epr_has_book_status = False, epr_trade_diagnostic_mismatch = False\<rparr>"

definition epr_success :: "EventProcessResult \<Rightarrow> bool" where
  "epr_success r \<longleftrightarrow> epr_error r = EPE_none"

section \<open>Classification\<close>

fun audit_eligible :: "SpotParseError \<Rightarrow> bool" where
  "audit_eligible SPE_none = True"
| "audit_eligible SPE_missing_field = True"
| "audit_eligible SPE_duplicate_field = True"
| "audit_eligible SPE_wrong_type = True"
| "audit_eligible SPE_unexpected_event_type = True"
| "audit_eligible SPE_symbol_mismatch = True"
| "audit_eligible SPE_invalid_decimal = True"
| "audit_eligible SPE_non_positive_price = True"
| "audit_eligible SPE_invalid_quantity = True"
| "audit_eligible SPE_invalid_update_range = True"
| "audit_eligible SPE_too_many_levels = True"
| "audit_eligible SPE_invalid_level_shape = True"
| "audit_eligible SPE_duplicate_price = True"
| "audit_eligible SPE_invalid_level_order = True"
| "audit_eligible SPE_crossed_book = True"
| "audit_eligible SPE_invalid_input_buffer = False"
| "audit_eligible SPE_payload_too_large = False"
| "audit_eligible SPE_json_nesting_too_deep = False"
| "audit_eligible SPE_malformed_json = False"
| "audit_eligible SPE_root_not_object = False"
| "audit_eligible SPE_internal_capacity_error = False"

fun event_status :: "BookApplyStatus \<Rightarrow> EventProcessStatus" where
  "event_status BA_applied_refresh = EPS_applied_refresh"
| "event_status BA_applied_diff = EPS_applied_diff"
| "event_status BA_stale_refresh = EPS_stale_refresh"
| "event_status BA_stale_diff = EPS_stale_diff"
| "event_status BA_ignored_while_invalid = EPS_ignored_while_invalid"
| "event_status BA_sequence_gap = EPS_sequence_gap"
| "event_status BA_crossed_book = EPS_crossed_book"

section \<open>Symbol state\<close>

definition create_symbol_state :: "PayloadVenue \<Rightarrow> string \<Rightarrow> SymbolState option" where
  "create_symbol_state venue normalized_symbol =
     (let r = derive_instrument_id normalized_symbol in
      if \<not> iid_has_value r then None
      else Some \<lparr>st_symbol = normalized_symbol, st_venue = venue, st_instrument_id = iid_value r,
        st_sequence_number = 0, st_has_observed_connection = False, st_current_connection_epoch = 0,
        st_last_connection_sequence = 0, st_spot_book = spot_book_init, st_usdm_book = usdm_book_init\<rparr>)"

definition book_core :: "SymbolState \<Rightarrow> TopFiveBookCore" where
  "book_core st = (if st_venue st = Venue_spot then spot_core (st_spot_book st) else usdm_core (st_usdm_book st))"

definition book_valid :: "SymbolState \<Rightarrow> bool" where
  "book_valid st = core_valid (book_core st)"

definition last_update_id :: "SymbolState \<Rightarrow> u64" where
  "last_update_id st = core_last_update_id (book_core st)"

definition state_invalidate :: "SymbolState \<Rightarrow> SymbolState" where
  "state_invalidate st =
     (if st_venue st = Venue_spot then st\<lparr>st_spot_book := spot_invalidate (st_spot_book st)\<rparr>
      else st\<lparr>st_usdm_book := usdm_invalidate (st_usdm_book st)\<rparr>)"

text \<open>\<open>None\<close> is the return value false, which leaves the output parameter alone.\<close>

definition checked_next_sequence :: "u64 \<Rightarrow> u64 option" where
  "checked_next_sequence current = (if current = u64_max then None else Some (current + 1))"

definition context_is_valid :: "SymbolState \<Rightarrow> EventContext \<Rightarrow> bool" where
  "context_is_valid st ctx =
     (if ctx_venue ctx \<noteq> st_venue st \<or> ctx_symbol ctx \<noteq> st_symbol st \<or> ctx_shard_id ctx \<noteq> 0 \<or>
         ts_nanoseconds (ctx_timestamp ctx) < 0 \<or>
         ts_nanoseconds (ctx_timestamp ctx) \<ge> kNanosecondsPerSecond \<or> ctx_connection_sequence ctx = 0
      then False
      else if \<not> st_has_observed_connection st then True
      else if ctx_connection_epoch ctx < st_current_connection_epoch st then False
      else ctx_connection_epoch ctx \<noteq> st_current_connection_epoch st \<or>
           ctx_connection_sequence ctx > st_last_connection_sequence st)"

section \<open>Row batches\<close>

definition batch_create :: "Allocator \<Rightarrow> Allocator \<Rightarrow> EventRowBatch option" where
  "batch_create al_audit al_book =
     (case crb_create al_audit kDefaultCsvRecordCapacity of
        None \<Rightarrow> None
      | Some a \<Rightarrow>
          (case crb_create al_book kOrderBookRecordCapacity of
             None \<Rightarrow> None
           | Some b \<Rightarrow> Some \<lparr>audit_row = a, order_book_row_buffer = b, has_audit_row = False,
               has_order_book_row = False\<rparr>))"

definition batch_clear :: "EventRowBatch \<Rightarrow> EventRowBatch" where
  "batch_clear b = \<lparr>audit_row = crb_clear (audit_row b), order_book_row_buffer = crb_clear (order_book_row_buffer b),
     has_audit_row = False, has_order_book_row = False\<rparr>"

definition batch_release_excess_capacity ::
    "Allocator \<Rightarrow> Allocator \<Rightarrow> EventRowBatch \<Rightarrow> bool \<times> EventRowBatch" where
  "batch_release_excess_capacity al_audit al_book b =
     (case crb_release_excess_capacity al_audit (audit_row b) of (audit_released, a) \<Rightarrow>
        (case crb_release_excess_capacity al_book (order_book_row_buffer b) of (book_released, o') \<Rightarrow>
           (audit_released \<and> book_released,
            \<lparr>audit_row = a, order_book_row_buffer = o', has_audit_row = False, has_order_book_row = False\<rparr>)))"

definition format_audit_row ::
    "Allocator \<Rightarrow> EventContext \<Rightarrow> PaddedJsonView \<Rightarrow> EventRowBatch \<Rightarrow> CsvFormatError \<times> EventRowBatch" where
  "format_audit_row al ctx payload b =
     (case format_market_data_csv_row al
        \<lparr>md_timestamp = ctx_timestamp ctx, md_venue = ctx_venue ctx, md_stream_kind = ctx_stream_kind ctx,
         md_shard_id = ctx_shard_id ctx, md_connection_epoch = ctx_connection_epoch ctx,
         md_connection_sequence = ctx_connection_sequence ctx, md_symbol = ctx_symbol ctx,
         md_payload_json = pj_bytes payload\<rparr> (audit_row b) of (error, row) \<Rightarrow>
        (error, b\<lparr>audit_row := row, has_audit_row := (error = CSV_none)\<rparr>))"

section \<open>Processing\<close>

definition epoch_changed :: "SymbolState \<Rightarrow> EventContext \<Rightarrow> bool" where
  "epoch_changed st ctx \<longleftrightarrow>
     st_has_observed_connection st \<and> ctx_connection_epoch ctx > st_current_connection_epoch st"

definition commit_context :: "EventContext \<Rightarrow> SymbolState \<Rightarrow> SymbolState" where
  "commit_context ctx st = st\<lparr>st_has_observed_connection := True,
     st_current_connection_epoch := ctx_connection_epoch ctx,
     st_last_connection_sequence := ctx_connection_sequence ctx\<rparr>"

text \<open>The book update of a depth event, on copies of the venue's book.\<close>

definition spot_candidate :: "SymbolState \<Rightarrow> EventContext \<Rightarrow> SpotDepthEvent \<Rightarrow> BookApplyResult \<times> SpotBookState" where
  "spot_candidate st ctx ev =
     (let b = (if epoch_changed st ctx then spot_invalidate (st_spot_book st) else st_spot_book st)
      in if ctx_stream_kind ctx = Depth5 then spot_apply_refresh b ev else spot_apply_diff b ev)"

definition usdm_candidate :: "SymbolState \<Rightarrow> EventContext \<Rightarrow> SpotDepthEvent \<Rightarrow> BookApplyResult \<times> UsdMBookState" where
  "usdm_candidate st ctx ev =
     (let b = (if epoch_changed st ctx then usdm_invalidate (st_usdm_book st) else st_usdm_book st)
      in if ctx_stream_kind ctx = Depth5 then usdm_apply_refresh b ev else usdm_apply_diff b ev)"

text \<open>The result of the update, the core to show, and the state with the candidate committed.\<close>

definition apply_candidate ::
    "SymbolState \<Rightarrow> EventContext \<Rightarrow> SpotDepthEvent \<Rightarrow> BookApplyResult \<times> TopFiveBookCore \<times> SymbolState" where
  "apply_candidate st ctx ev =
     (if ctx_venue ctx = Venue_spot
      then (case spot_candidate st ctx ev of (r, b) \<Rightarrow> (r, spot_core b, st\<lparr>st_spot_book := b\<rparr>))
      else (case usdm_candidate st ctx ev of (r, b) \<Rightarrow> (r, usdm_core b, st\<lparr>st_usdm_book := b\<rparr>)))"

definition process_depth ::
    "Allocator \<Rightarrow> SymbolState \<Rightarrow> EventContext \<Rightarrow> SpotDepthEvent \<Rightarrow> EventProcessResult \<Rightarrow> EventRowBatch \<Rightarrow>
     EventProcessResult \<times> SymbolState \<times> EventRowBatch" where
  "process_depth al_book st ctx ev result out =
     (case apply_candidate st ctx ev of (book_result, core, committed) \<Rightarrow>
        let result = result\<lparr>epr_book_status := bar_status book_result, epr_has_book_status := True,
              epr_status := event_status (bar_status book_result)\<rparr>
        in if emits_snapshot book_result then
             (case checked_next_sequence (st_sequence_number st) of
                None \<Rightarrow> (result\<lparr>epr_error := EPE_sequence_overflow, epr_status := EPS_not_processed\<rparr>,
                         st, batch_clear out)
              | Some next_sequence \<Rightarrow>
                  (case format_order_book_csv_row al_book
                     \<lparr>ob_timestamp = ctx_timestamp ctx, ob_sequence_number = next_sequence,
                      ob_instrument_id = st_instrument_id st,
                      ob_row_type = (if ctx_stream_kind ctx = Depth_diff then Row_differential
                                     else Row_partial_refresh),
                      ob_side = bar_side book_result,
                      ob_bids = core_bids_view core, ob_asks = core_asks_view core\<rparr>
                     (order_book_row_buffer out) of (book_error, row) \<Rightarrow>
                     if book_error \<noteq> CSV_none
                     then (result\<lparr>epr_error := EPE_csv_format_error, epr_csv_error := book_error,
                             epr_status := EPS_not_processed\<rparr>,
                           st, batch_clear (out\<lparr>order_book_row_buffer := row\<rparr>))
                     else (result, (commit_context ctx committed)\<lparr>st_sequence_number := next_sequence\<rparr>,
                           out\<lparr>order_book_row_buffer := row, has_order_book_row := True\<rparr>)))
           else (result, commit_context ctx committed, out))"

definition reject_event :: "SymbolState \<Rightarrow> EventContext \<Rightarrow> SymbolState" where
  "reject_event st ctx =
     commit_context ctx
       (if epoch_changed st ctx \<or> ctx_stream_kind ctx = Depth_diff then state_invalidate st else st)"

text \<open>The steps after the audit row has been written or was not asked for.\<close>

definition process_audited ::
    "Allocator \<Rightarrow> SymbolState \<Rightarrow> EventContext \<Rightarrow> SpotParseResult \<Rightarrow> EventProcessResult \<Rightarrow> EventRowBatch \<Rightarrow>
     EventProcessResult \<times> SymbolState \<times> EventRowBatch" where
  "process_audited al_book st ctx parsed result out =
     (if \<not> spr_has_value parsed
      then (result\<lparr>epr_status := EPS_schema_rejected\<rparr>, reject_event st ctx, out)
      else if ctx_stream_kind ctx = Trade
      then (result\<lparr>epr_trade_diagnostic_mismatch :=
                \<not> event_type_matches (se_trade (spr_event parsed)) \<or>
                \<not> symbol_matches (se_trade (spr_event parsed)),
              epr_status := EPS_trade_audited\<rparr>,
            commit_context ctx (if epoch_changed st ctx then state_invalidate st else st), out)
      else process_depth al_book st ctx (se_depth (spr_event parsed)) result out)"

definition process_parsed ::
    "Allocator \<Rightarrow> Allocator \<Rightarrow> SymbolState \<Rightarrow> EventContext \<Rightarrow> PaddedJsonView \<Rightarrow> EventOutputMode \<Rightarrow>
     SpotParseResult \<Rightarrow> EventRowBatch \<Rightarrow> EventProcessResult \<times> SymbolState \<times> EventRowBatch" where
  "process_parsed al_audit al_book st ctx payload output_mode parsed out =
     (let result = default_event_result\<lparr>epr_parse_error := spr_error parsed, epr_parse_field := spr_field parsed\<rparr>
      in if \<not> audit_eligible (spr_error parsed)
         then (result\<lparr>epr_status := EPS_pre_audit_rejected\<rparr>, reject_event st ctx, out)
         else if output_mode = Live_capture then
           (case format_audit_row al_audit ctx payload out of (audit_error, out) \<Rightarrow>
              if audit_error \<noteq> CSV_none
              then (result\<lparr>epr_error := EPE_csv_format_error, epr_csv_error := audit_error\<rparr>, st, batch_clear out)
              else process_audited al_book st ctx parsed result out)
         else process_audited al_book st ctx parsed result out)"

definition process ::
    "iterate_fn \<Rightarrow> Allocator \<Rightarrow> Allocator \<Rightarrow> ParserImpl option \<Rightarrow> SymbolState \<Rightarrow> EventContext \<Rightarrow>
     PaddedJsonView \<Rightarrow> EventOutputMode \<Rightarrow> EventRowBatch \<Rightarrow>
     EventProcessResult \<times> SymbolState \<times> ParserImpl option \<times> EventRowBatch" where
  "process iterate al_audit al_book parser st ctx payload output_mode out =
     (let out = batch_clear out in
      if \<not> context_is_valid st ctx
      then (default_event_result\<lparr>epr_error := EPE_invalid_context\<rparr>, st, parser, out)
      else
        (case parse iterate parser (ctx_venue ctx) (ctx_stream_kind ctx) (st_symbol st) payload of
           (parsed, parser) \<Rightarrow>
             (case process_parsed al_audit al_book st ctx payload output_mode parsed out of
                (result, st, out) \<Rightarrow> (result, st, parser, out))))"

end
