(* ===== verification/Event_Guarantees.thy ===== *)
theory Event_Guarantees
  imports Event_Processor
begin

text \<open>
  What processing an event guarantees: failures are atomic, the invariants of the books, the parser
  and the row buffers carry over, order-book rows never fail to format and are numbered 1, 2, 3, ...,
  connection coordinates increase, a new connection epoch invalidates the book until the next
  refresh, and live capture audits exactly the eligible payloads.
\<close>

section \<open>Invariants\<close>

definition state_inv :: "SymbolState \<Rightarrow> bool" where
  "state_inv st \<longleftrightarrow> is_normalized_symbol (st_symbol st) \<and>
     0 < st_instrument_id st \<and> st_instrument_id st \<le> 2147483647 \<and>
     core_inv (spot_core (st_spot_book st)) \<and> core_inv (usdm_core (st_usdm_book st))"

definition parser_ok :: "ParserImpl option \<Rightarrow> bool" where
  "parser_ok p \<longleftrightarrow> (\<exists>i. p = Some i \<and> stamps_ok i \<and> pi_update_count i \<le> kMaxDepthUpdates)"

definition batch_ok :: "EventRowBatch \<Rightarrow> bool" where
  "batch_ok b \<longleftrightarrow> kOrderBookRecordCapacity \<le> str_capacity (crb_storage (order_book_row_buffer b))"

definition batch_empty :: "EventRowBatch \<Rightarrow> bool" where
  "batch_empty b \<longleftrightarrow> \<not> has_audit_row b \<and> \<not> has_order_book_row b \<and>
     crb_view (audit_row b) = [] \<and> crb_view (order_book_row_buffer b) = []"

lemma instrument_id_range:
  "iid_has_value (derive_instrument_id s) \<Longrightarrow>
     0 < iid_value (derive_instrument_id s) \<and> iid_value (derive_instrument_id s) \<le> 2147483647"
  using masked_id_range [of "foldl fnv1a_step kFnvOffsetBasis s"]
  by (auto simp: derive_instrument_id_def iid_has_value_def Let_def split: if_splits)

lemma create_symbol_state_inv: "create_symbol_state venue s = Some st \<Longrightarrow> state_inv st"
  using instrument_id_range [of s]
  by (auto simp: create_symbol_state_def Let_def state_inv_def iid_has_value_iff spot_book_init_def
      usdm_book_init_def split: if_splits)

lemma batch_create_ok: "batch_create al_audit al_book = Some b \<Longrightarrow> batch_ok b"
  by (auto simp: batch_create_def crb_create_def str_reserve_def batch_ok_def kOrderBookRecordCapacity_def
      kMaxCsvRecordBytes_def empty_string_def Let_def split: option.splits if_splits)

lemma batch_clear_empty [simp]: "batch_empty (batch_clear b)"
  by (simp add: batch_empty_def batch_clear_def crb_view_def crb_clear_def)

lemma batch_clear_flags [simp]:
  "has_audit_row (batch_clear b) = False" "has_order_book_row (batch_clear b) = False"
  "batch_ok (batch_clear b) = batch_ok b"
  by (simp_all add: batch_clear_def batch_ok_def crb_clear_def)

lemma format_audit_row_frame:
  assumes "format_audit_row al ctx payload b = (e, b')"
  shows "order_book_row_buffer b' = order_book_row_buffer b" "has_order_book_row b' = has_order_book_row b"
    "has_audit_row b' = (e = CSV_none)"
  using assms by (auto simp: format_audit_row_def split: prod.splits)

lemma commit_context_simps [simp]:
  "st_sequence_number (commit_context ctx st) = st_sequence_number st"
  "st_venue (commit_context ctx st) = st_venue st"
  "st_symbol (commit_context ctx st) = st_symbol st"
  "book_core (commit_context ctx st) = book_core st"
  "state_inv (commit_context ctx st) = state_inv st"
  by (simp_all add: commit_context_def book_core_def state_inv_def)

lemma state_invalidate_simps [simp]:
  "st_sequence_number (state_invalidate st) = st_sequence_number st"
  "st_venue (state_invalidate st) = st_venue st"
  "st_symbol (state_invalidate st) = st_symbol st"
  "state_inv st \<Longrightarrow> state_inv (state_invalidate st)"
  "core_valid (book_core (state_invalidate st)) = False"
  by (auto simp: state_invalidate_def state_inv_def spot_invalidate_def usdm_invalidate_def
      core_invalidate_inv [unfolded core_invalidate_def] book_core_def core_invalidate_def)

section \<open>The book update\<close>

definition event_ok :: "EventContext \<Rightarrow> SpotDepthEvent \<Rightarrow> bool" where
  "event_ok ctx ev \<longleftrightarrow> (if ctx_stream_kind ctx = Depth5 then refresh_event_ok ev else diff_event_ok ev)"

lemma spot_candidate_inv:
  assumes "core_inv (spot_core (st_spot_book st))" and "event_ok ctx ev"
  shows "core_inv (spot_core (snd (spot_candidate st ctx ev)))"
proof -
  let ?b = "if epoch_changed st ctx then spot_invalidate (st_spot_book st) else st_spot_book st"
  have "core_inv (spot_core ?b)"
    using assms(1) spot.core_inval core_invalidate_inv by simp
  then show ?thesis
    using spot.step_inv [of ?b "Op_refresh ev"] spot.step_inv [of ?b "Op_diff ev"] assms(2)
    by (auto simp: spot_candidate_def Let_def book_step_def event_ok_def)
qed

lemma usdm_candidate_inv:
  assumes "core_inv (usdm_core (st_usdm_book st))" and "event_ok ctx ev"
  shows "core_inv (usdm_core (snd (usdm_candidate st ctx ev)))"
proof -
  let ?b = "if epoch_changed st ctx then usdm_invalidate (st_usdm_book st) else st_usdm_book st"
  have "core_inv (usdm_core ?b)"
    using assms(1) usdm.core_inval core_invalidate_inv by simp
  then show ?thesis
    using usdm.step_inv [of ?b "Op_refresh ev"] usdm.step_inv [of ?b "Op_diff ev"] assms(2)
    by (auto simp: usdm_candidate_def Let_def book_step_def event_ok_def)
qed

lemma apply_candidate_frame:
  assumes "apply_candidate st ctx ev = (r, core, st')"
  shows "st_sequence_number st' = st_sequence_number st" "st_venue st' = st_venue st"
    "st_symbol st' = st_symbol st" "st_instrument_id st' = st_instrument_id st"
    "ctx_venue ctx = st_venue st \<Longrightarrow> book_core st' = core"
  using assms by (auto simp: apply_candidate_def book_core_def split: if_splits prod.splits)

lemma apply_candidate_inv:
  assumes "apply_candidate st ctx ev = (r, core, st')" and "state_inv st" and "event_ok ctx ev"
  shows "core_inv core \<and> state_inv st'"
  using assms spot_candidate_inv [of st ctx ev] usdm_candidate_inv [of st ctx ev]
  by (auto simp: apply_candidate_def state_inv_def split: if_splits prod.splits)

section \<open>One event\<close>

text \<open>Failures are atomic; no hypothesis is needed.\<close>

lemma process_depth_failure:
  assumes "process_depth al st ctx ev result out = (r, st', out')" and "epr_error result = EPE_none"
    and "epr_error r \<noteq> EPE_none"
  shows "st' = st \<and> batch_empty out'"
  using assms by (auto simp: process_depth_def Let_def split: prod.splits if_splits option.splits)

lemma process_parsed_failure:
  assumes "process_parsed al_audit al_book st ctx payload mode parsed out = (r, st', out')"
    and "epr_error r \<noteq> EPE_none"
  shows "st' = st \<and> batch_empty out'"
  using assms
  by (auto simp: process_parsed_def process_audited_def Let_def default_event_result_def
      split: prod.splits if_splits dest!: process_depth_failure)

lemma process_failure:
  assumes "process iterate al_audit al_book parser st ctx payload mode out = (r, st', parser', out')"
    and "epr_error r \<noteq> EPE_none"
  shows "st' = st \<and> batch_empty out'"
  using assms process_parsed_failure
  by (fastforce simp: process_def Let_def default_event_result_def split: prod.splits if_splits)

text \<open>The order-book row of a successful event, and its number.\<close>

definition row_of_event ::
    "SymbolState \<Rightarrow> EventContext \<Rightarrow> BookRowSide \<Rightarrow> SymbolState \<Rightarrow> OrderBookCsvRow" where
  "row_of_event st ctx side st' = order_book_row (ctx_timestamp ctx) (st_sequence_number st')
     (st_instrument_id st) (if ctx_stream_kind ctx = Depth_diff then Row_differential else Row_partial_refresh)
     side (book_core st')"

definition row_effect :: "SymbolState \<Rightarrow> EventContext \<Rightarrow> SymbolState \<Rightarrow> EventRowBatch \<Rightarrow> bool" where
  "row_effect st ctx st' out' =
     (if has_order_book_row out'
      then st_sequence_number st \<noteq> u64_max \<and> st_sequence_number st' = st_sequence_number st + 1 \<and>
           (\<exists>side. crb_view (order_book_row_buffer out') = csv_line (ob_fields (row_of_event st ctx side st')))
      else st_sequence_number st' = st_sequence_number st)"

lemma succ_neq_0: "(x :: u64) \<noteq> u64_max \<Longrightarrow> x + 1 \<noteq> 0"
  using u64_succ_gt [of x] by (metis word_not_simps(1))

lemma process_depth_silent:
  assumes "apply_candidate st ctx ev = (br, core, c)" and "\<not> (emits_snapshot br \<and> st_sequence_number st \<noteq> u64_max)"
    and "process_depth al st ctx ev result out = (r, st', out')"
  shows "(st' = commit_context ctx c \<and> out' = out \<or> st' = st \<and> out' = batch_clear out) \<and>
     epr_csv_error r = epr_csv_error result"
  using assms by (auto simp: process_depth_def Let_def checked_next_sequence_def split: if_splits)

text \<open>The row of an event that shows the book; no allocator and no earlier content matters.\<close>

lemma process_depth_emits:
  assumes a: "apply_candidate st ctx ev = (br, core, c)" and emits: "emits_snapshot br" "st_sequence_number st \<noteq> u64_max"
    and inv: "state_inv st" and ev: "event_ok ctx ev" and b: "batch_ok out"
    and ts: "valid_timestamp (ctx_timestamp ctx)" "timestamp_in_range (ctx_timestamp ctx)"
  defines "row \<equiv> order_book_row (ctx_timestamp ctx) (st_sequence_number st + 1) (st_instrument_id st)
     (if ctx_stream_kind ctx = Depth_diff then Row_differential else Row_partial_refresh) (bar_side br) core"
  shows "process_depth al st ctx ev result out =
     (result\<lparr>epr_book_status := bar_status br, epr_has_book_status := True, epr_status := event_status (bar_status br)\<rparr>,
      (commit_context ctx c)\<lparr>st_sequence_number := st_sequence_number st + 1\<rparr>,
      out\<lparr>order_book_row_buffer := (order_book_row_buffer out)\<lparr>crb_storage :=
            (crb_storage (order_book_row_buffer out))\<lparr>str_bytes := csv_line (ob_fields row)\<rparr>\<rparr>,
          has_order_book_row := True\<rparr>)"
proof -
  let ?ty = "if ctx_stream_kind ctx = Depth_diff then Row_differential else Row_partial_refresh"
  have "546 \<le> str_capacity (crb_storage (order_book_row_buffer out))"
    using b by (simp add: batch_ok_def kOrderBookRecordCapacity_def)
  from format_order_book_total [where al = al and ty = ?ty and side = "bar_side br",
      OF conjunct1 [OF apply_candidate_inv [OF a inv ev]] ts succ_neq_0 [of "st_sequence_number st"] _ _ this] inv emits(2)
  have "format_order_book_csv_row al row (order_book_row_buffer out) =
      (CSV_none, (order_book_row_buffer out)\<lparr>crb_storage :=
         (crb_storage (order_book_row_buffer out))\<lparr>str_bytes := csv_line (ob_fields row)\<rparr>\<rparr>)"
    by (simp add: state_inv_def row_def)
  then show ?thesis
    using emits by (simp add: process_depth_def a Let_def checked_next_sequence_def row_def order_book_row_def)
qed

lemma process_depth_effect:
  assumes run: "process_depth al st ctx ev result out = (r, st', out')"
    and inv: "state_inv st" and ev: "event_ok ctx ev" and b: "batch_ok out" and h: "\<not> has_order_book_row out"
    and ts: "valid_timestamp (ctx_timestamp ctx)" "timestamp_in_range (ctx_timestamp ctx)"
    and v: "ctx_venue ctx = st_venue st"
  shows "state_inv st' \<and> batch_ok out' \<and> row_effect st ctx st' out' \<and>
     epr_csv_error r = epr_csv_error result"
proof -
  obtain br core c where a: "apply_candidate st ctx ev = (br, core, c)" by (cases "apply_candidate st ctx ev")
  note frame = apply_candidate_frame [OF a] apply_candidate_inv [OF a inv ev]
  show ?thesis
  proof (cases "emits_snapshot br \<and> st_sequence_number st \<noteq> u64_max")
    case False
    from process_depth_silent [OF a False run] inv b h frame show ?thesis
      by (auto simp: row_effect_def batch_ok_def batch_clear_def crb_clear_def)
  next
    case True
    from process_depth_emits [OF a _ _ inv ev b ts, of al result] run True frame b v show ?thesis
      by (auto simp: row_effect_def batch_ok_def state_inv_def row_of_event_def book_core_def
          commit_context_def crb_view_def)
  qed
qed

text \<open>Every successful or failing call.\<close>

lemma context_valid_parts:
  assumes "context_is_valid st ctx"
  shows "ctx_venue ctx = st_venue st" "ctx_symbol ctx = st_symbol st" "ctx_connection_sequence ctx \<noteq> 0"
    "valid_timestamp (ctx_timestamp ctx)"
    "st_has_observed_connection st \<Longrightarrow>
       st_current_connection_epoch st < ctx_connection_epoch ctx \<or>
       st_current_connection_epoch st = ctx_connection_epoch ctx \<and>
       st_last_connection_sequence st < ctx_connection_sequence ctx"
  using assms by (auto simp: context_is_valid_def valid_timestamp_def split: if_splits)

lemma reject_event_effect:
  assumes "state_inv st"
  shows "state_inv (reject_event st ctx) \<and> st_sequence_number (reject_event st ctx) = st_sequence_number st"
  using assms by (simp add: reject_event_def)

lemma process_audited_effect:
  assumes run: "process_audited al st ctx parsed result out = (r, st', out')"
    and inv: "state_inv st" and b: "batch_ok out" and h: "\<not> has_order_book_row out"
    and ts: "valid_timestamp (ctx_timestamp ctx)" "timestamp_in_range (ctx_timestamp ctx)"
    and v: "ctx_venue ctx = st_venue st"
    and ev: "spr_has_value parsed \<and> ctx_stream_kind ctx \<noteq> Trade \<longrightarrow> event_ok ctx (se_depth (spr_event parsed))"
  shows "state_inv st' \<and> batch_ok out' \<and> row_effect st ctx st' out' \<and> epr_csv_error r = epr_csv_error result"
proof (cases "spr_has_value parsed \<and> ctx_stream_kind ctx \<noteq> Trade")
  case True
  with run have "process_depth al st ctx (se_depth (spr_event parsed)) result out = (r, st', out')"
    by (simp add: process_audited_def)
  from process_depth_effect [OF this inv _ b h ts v] ev True show ?thesis by simp
next
  case False
  with run inv b h reject_event_effect [OF inv, of ctx] show ?thesis
    by (auto simp: process_audited_def row_effect_def split: if_splits)
qed

lemma process_effect:
  assumes run: "process iterate al_audit al_book parser st ctx payload mode out = (r, st', parser', out')"
    and inv: "state_inv st" and p: "parser_ok parser" and b: "batch_ok out"
    and ts: "timestamp_in_range (ctx_timestamp ctx)"
  shows "state_inv st' \<and> parser_ok parser' \<and> batch_ok out' \<and> row_effect st ctx st' out'"
proof (cases "context_is_valid st ctx")
  case False
  with run inv p b show ?thesis by (auto simp: process_def row_effect_def)
next
  case True
  note ctx = context_valid_parts [OF True]
  obtain i where i: "parser = Some i" "stamps_ok i" "pi_update_count i \<le> kMaxDepthUpdates"
    using p by (auto simp: parser_ok_def)
  obtain parsed parser1 where parse:
    "parse iterate parser (ctx_venue ctx) (ctx_stream_kind ctx) (st_symbol st) payload = (parsed, parser1)" by fastforce
  have p1: "parser_ok parser1" and ev: "spr_has_value parsed \<and> ctx_stream_kind ctx \<noteq> Trade \<longrightarrow>
      event_ok ctx (se_depth (spr_event parsed))"
    using parse_guarantees [where iterate = iterate and venue = "ctx_venue ctx" and kind = "ctx_stream_kind ctx"
        and symb = "st_symbol st" and payload = payload, OF i(2,3)] parse i(1)
    by (auto simp: parser_ok_def event_ok_def depth_result_ok_def spr_has_value_def)
  have pp: "process_parsed al_audit al_book st ctx payload mode parsed (batch_clear out) = (r, st', out')"
    and par: "parser' = parser1"
    using run True parse by (auto simp: process_def split: prod.splits)
  let ?r = "default_event_result\<lparr>epr_parse_error := spr_error parsed, epr_parse_field := spr_field parsed\<rparr>"
  obtain e out1 where f: "format_audit_row al_audit ctx payload (batch_clear out) = (e, out1)" by fastforce
  note out1 = format_audit_row_frame [OF f]
  have b0: "batch_ok (batch_clear out)" and b1: "batch_ok out1" "\<not> has_order_book_row out1"
    using b out1 by (auto simp: batch_ok_def batch_clear_def crb_clear_def)
  consider (pre) "\<not> audit_eligible (spr_error parsed)"
    | (audit) "audit_eligible (spr_error parsed)" "mode = Live_capture" "e \<noteq> CSV_none"
    | (live) "audit_eligible (spr_error parsed)" "mode = Live_capture" "e = CSV_none"
    | (replay) "audit_eligible (spr_error parsed)" "mode \<noteq> Live_capture" by blast
  then have "state_inv st' \<and> batch_ok out' \<and> row_effect st ctx st' out'"
  proof cases
    case pre
    with pp b0 reject_event_effect [OF inv, of ctx] show ?thesis
      by (auto simp: process_parsed_def row_effect_def)
  next
    case audit
    with pp f b1 inv show ?thesis by (auto simp: process_parsed_def row_effect_def)
  next
    case live
    with pp f have "process_audited al_book st ctx parsed ?r out1 = (r, st', out')"
      by (simp add: process_parsed_def)
    from process_audited_effect [OF this inv b1 ctx(4) ts ctx(1) ev] show ?thesis by blast
  next
    case replay
    with pp have "process_audited al_book st ctx parsed ?r (batch_clear out) = (r, st', out')"
      by (simp add: process_parsed_def)
    from process_audited_effect [OF this inv b0 _ ctx(4) ts ctx(1) ev] show ?thesis by simp
  qed
  with p1 par show ?thesis by blast
qed

lemma process_identity:
  assumes "process iterate al_audit al_book parser st ctx payload mode out = (r, st', parser', out')"
  shows "st_symbol st' = st_symbol st" "st_venue st' = st_venue st"
  using assms
  by (auto simp: process_def process_parsed_def process_audited_def process_depth_def reject_event_def Let_def
      commit_context_def apply_candidate_def split: prod.splits if_splits option.splits)

text \<open>A successful call commits its connection coordinates.\<close>

lemma commit_context_coordinates [simp]:
  "st_has_observed_connection (commit_context ctx st)"
  "st_current_connection_epoch (commit_context ctx st) = ctx_connection_epoch ctx"
  "st_last_connection_sequence (commit_context ctx st) = ctx_connection_sequence ctx"
  by (simp_all add: commit_context_def)

definition committed_to :: "EventContext \<Rightarrow> SymbolState \<Rightarrow> bool" where
  "committed_to ctx st \<longleftrightarrow> st_has_observed_connection st \<and>
     st_current_connection_epoch st = ctx_connection_epoch ctx \<and>
     st_last_connection_sequence st = ctx_connection_sequence ctx"

lemma committed_to_commit [simp]: "committed_to ctx (commit_context ctx st)"
  by (simp add: committed_to_def)

lemma process_depth_commits:
  assumes "process_depth al st ctx ev result out = (r, st', out')" and "epr_error r = EPE_none"
  shows "committed_to ctx st'"
  using assms
  by (auto simp: process_depth_def Let_def committed_to_def split: prod.splits if_splits option.splits)

lemma process_audited_commits:
  assumes "process_audited al st ctx parsed result out = (r, st', out')" and "epr_error r = EPE_none"
  shows "committed_to ctx st'"
  using assms process_depth_commits
  by (auto simp: process_audited_def reject_event_def split: if_splits)

lemma process_commits:
  assumes "process iterate al_audit al_book parser st ctx payload mode out = (r, st', parser', out')"
    and "epr_error r = EPE_none"
  shows "context_is_valid st ctx \<and> committed_to ctx st'"
proof -
  have valid: "context_is_valid st ctx"
    using assms by (auto simp: process_def Let_def split: if_splits)
  obtain parsed p where "parse iterate parser (ctx_venue ctx) (ctx_stream_kind ctx) (st_symbol st) payload = (parsed, p)"
    by fastforce
  with assms(1) valid
  have "process_parsed al_audit al_book st ctx payload mode parsed (batch_clear out) = (r, st', out')"
    by (auto simp: process_def split: prod.splits)
  then have "committed_to ctx st'"
    using assms(2) process_audited_commits
    by (auto simp: process_parsed_def Let_def reject_event_def split: if_splits prod.splits)
  with valid show ?thesis by blast
qed

section \<open>Runs\<close>

record event_input =
  in_context :: EventContext
  in_payload :: PaddedJsonView
  in_mode :: EventOutputMode
  in_audit_allocator :: Allocator
  in_book_allocator :: Allocator

text \<open>The result, the state and the rows after each event of a sequence.\<close>

fun process_all ::
    "iterate_fn \<Rightarrow> ParserImpl option \<Rightarrow> SymbolState \<Rightarrow> EventRowBatch \<Rightarrow> event_input list \<Rightarrow>
     (EventProcessResult \<times> SymbolState \<times> EventRowBatch) list" where
  "process_all iterate parser st out [] = []"
| "process_all iterate parser st out (x # xs) =
     (case process iterate (in_audit_allocator x) (in_book_allocator x) parser st (in_context x)
        (in_payload x) (in_mode x) out of (r, st, parser, out) \<Rightarrow>
        (r, st, out) # process_all iterate parser st out xs)"

definition emitted_rows :: "(EventProcessResult \<times> SymbolState \<times> EventRowBatch) list \<Rightarrow> string list" where
  "emitted_rows outs =
     map (\<lambda>(_, _, out). crb_view (order_book_row_buffer out)) (filter (\<lambda>(_, _, out). has_order_book_row out) outs)"

definition row_number_text :: "string \<Rightarrow> string" where
  "row_number_text row = split_commas (butlast row) ! 2"

lemma row_of_event_number:
  "row_number_text (csv_line (ob_fields (row_of_event st ctx side st'))) = to_chars (uint (st_sequence_number st'))"
  unfolding row_number_text_def split_order_book_row
  by (simp add: ob_fields_def row_of_event_def order_book_row_def)

lemma rows_numbered_from:
  assumes "state_inv st" and "parser_ok parser" and "batch_ok out"
    and "list_all (\<lambda>x. timestamp_in_range (ctx_timestamp (in_context x))) xs"
  shows "map row_number_text (emitted_rows (process_all iterate parser st out xs)) =
     map (\<lambda>k. to_chars (int (unat (st_sequence_number st) + k)))
       [1 ..< Suc (length (emitted_rows (process_all iterate parser st out xs)))]"
  using assms
proof (induction xs arbitrary: st parser out)
  case (Cons x xs)
  obtain r st' parser' out' where run: "process iterate (in_audit_allocator x) (in_book_allocator x) parser st
      (in_context x) (in_payload x) (in_mode x) out = (r, st', parser', out')"
    by (metis surj_pair)
  have "timestamp_in_range (ctx_timestamp (in_context x))" using Cons.prems(4) by simp
  note eff = process_effect [OF run Cons.prems(1-3) this]
  define E where "E = emitted_rows (process_all iterate parser' st' out' xs)"
  have E: "emitted_rows (process_all iterate parser st out (x # xs)) =
      (if has_order_book_row out' then crb_view (order_book_row_buffer out') # E else E)"
    by (simp add: run E_def emitted_rows_def)
  have ih: "map row_number_text E =
     map (\<lambda>k. to_chars (int (unat (st_sequence_number st') + k))) [1 ..< Suc (length E)]"
    unfolding E_def using eff Cons.prems(4) by (intro Cons.IH) simp_all
  have row: "row_effect st (in_context x) st' out'" using eff by blast
  show ?case
  proof (cases "has_order_book_row out'")
    case False
    then have "st_sequence_number st' = st_sequence_number st" using row by (simp add: row_effect_def)
    with False ih show ?thesis unfolding E by simp
  next
    case True
    have seq: "unat (st_sequence_number st') = Suc (unat (st_sequence_number st))"
      using True row unat_succ_below [OF u64_succ_gt [of "st_sequence_number st"]] by (simp add: row_effect_def)
    have num: "row_number_text (crb_view (order_book_row_buffer out')) = to_chars (int (unat (st_sequence_number st')))"
      using True row row_of_event_number by (auto simp: row_effect_def)
    from True show ?thesis
      unfolding E by (simp add: num ih seq map_upt_shift ac_simps del: upt_Suc)
  qed
qed (simp add: emitted_rows_def)

text \<open>Connection coordinates, ordered by epoch and then by sequence.\<close>

definition coords_less :: "u64 \<times> u64 \<Rightarrow> u64 \<times> u64 \<Rightarrow> bool" where
  "coords_less a b \<longleftrightarrow> fst a < fst b \<or> fst a = fst b \<and> snd a < snd b"

definition input_coords :: "event_input \<Rightarrow> u64 \<times> u64" where
  "input_coords x = (ctx_connection_epoch (in_context x), ctx_connection_sequence (in_context x))"

definition accepted_coords ::
    "event_input list \<Rightarrow> (EventProcessResult \<times> SymbolState \<times> EventRowBatch) list \<Rightarrow> (u64 \<times> u64) list" where
  "accepted_coords xs outs =
     map (\<lambda>(x, _). input_coords x) (filter (\<lambda>(_, r, _, _). epr_error r = EPE_none) (zip xs outs))"

lemma coords_less_trans: "coords_less a b \<Longrightarrow> coords_less b c \<Longrightarrow> coords_less a c"
  by (auto simp: coords_less_def)

lemma accepted_coords_above:
  "sorted_wrt coords_less (accepted_coords xs (process_all iterate parser st out xs)) \<and>
   (st_has_observed_connection st \<longrightarrow>
      (\<forall>c \<in> set (accepted_coords xs (process_all iterate parser st out xs)).
         coords_less (st_current_connection_epoch st, st_last_connection_sequence st) c))"
proof (induction xs arbitrary: st parser out)
  case Nil
  then show ?case by (simp add: accepted_coords_def)
next
  case (Cons x xs)
  obtain r st' parser' out' where run: "process iterate (in_audit_allocator x) (in_book_allocator x) parser st
      (in_context x) (in_payload x) (in_mode x) out = (r, st', parser', out')"
    by (metis surj_pair)
  define A where "A = accepted_coords xs (process_all iterate parser' st' out' xs)"
  have A: "accepted_coords (x # xs) (process_all iterate parser st out (x # xs)) =
      (if epr_error r = EPE_none then input_coords x # A else A)"
    by (simp add: run A_def accepted_coords_def)
  note ih = Cons.IH [of parser' st' out', folded A_def]
  show ?case
  proof (cases "epr_error r = EPE_none")
    case False
    with ih process_failure [OF run False] show ?thesis unfolding A by simp
  next
    case True
    from process_commits [OF run True] have v: "context_is_valid st (in_context x)"
      and c: "committed_to (in_context x) st'" by auto
    then have "\<forall>c \<in> set A. coords_less (input_coords x) c"
      using ih by (simp add: committed_to_def input_coords_def)
    moreover have "st_has_observed_connection st \<Longrightarrow>
        coords_less (st_current_connection_epoch st, st_last_connection_sequence st) (input_coords x)"
      using context_valid_parts(5) [OF v] by (auto simp: coords_less_def input_coords_def)
    ultimately show ?thesis
      unfolding A using True ih by (auto intro: coords_less_trans [of _ "input_coords x"])
  qed
qed

section \<open>Epochs and audit rows\<close>

lemma apply_candidate_epoch:
  assumes "apply_candidate st ctx ev = (r, core, st')" and "epoch_changed st ctx"
    and "ctx_venue ctx = st_venue st" and "ctx_stream_kind ctx \<noteq> Depth5"
  shows "\<not> core_valid (book_core st') \<and> \<not> emits_snapshot r"
proof -
  have "\<not> core_valid (spot_core (spot_invalidate b))" "\<not> core_valid (usdm_core (usdm_invalidate c))" for b c
    by (simp_all add: spot_invalidate_def usdm_invalidate_def core_invalidate_def)
  with assms show ?thesis
    by (auto simp: apply_candidate_def spot_candidate_def usdm_candidate_def spot.diff_invalid usdm.diff_invalid
        book_core_def emits_snapshot_def split: if_splits)
qed

lemma process_audited_epoch:
  assumes "process_audited al st ctx parsed result out = (r, st', out')" and "epr_error r = EPE_none"
    and "epoch_changed st ctx" and "ctx_venue ctx = st_venue st" and "ctx_stream_kind ctx \<noteq> Depth5"
  shows "\<not> core_valid (book_core st')"
proof -
  obtain br core c where a: "apply_candidate st ctx (se_depth (spr_event parsed)) = (br, core, c)"
    by (metis surj_pair)
  show ?thesis
    using assms apply_candidate_epoch [OF a assms(3-5)]
    by (auto simp: process_audited_def reject_event_def process_depth_def a Let_def split: if_splits)
qed

lemma process_epoch:
  assumes run: "process iterate al_audit al_book parser st ctx payload mode out = (r, st', parser', out')"
    and ok: "epr_error r = EPE_none" and e: "epoch_changed st ctx" and k: "ctx_stream_kind ctx \<noteq> Depth5"
  shows "\<not> core_valid (book_core st')"
proof -
  have valid: "context_is_valid st ctx" using process_commits [OF run ok] by blast
  obtain parsed p where "parse iterate parser (ctx_venue ctx) (ctx_stream_kind ctx) (st_symbol st) payload = (parsed, p)"
    by fastforce
  with run valid
  have "process_parsed al_audit al_book st ctx payload mode parsed (batch_clear out) = (r, st', out')"
    by (auto simp: process_def split: prod.splits)
  then show ?thesis
    using ok e process_audited_epoch [OF _ ok e context_valid_parts(1) [OF valid] k]
    by (auto simp: process_parsed_def Let_def reject_event_def split: if_splits prod.splits)
qed

text \<open>The audit row of an event.\<close>

definition audit_row_of :: "EventContext \<Rightarrow> PaddedJsonView \<Rightarrow> MarketDataCsvRow" where
  "audit_row_of ctx payload =
     \<lparr>md_timestamp = ctx_timestamp ctx, md_venue = ctx_venue ctx, md_stream_kind = ctx_stream_kind ctx,
      md_shard_id = ctx_shard_id ctx, md_connection_epoch = ctx_connection_epoch ctx,
      md_connection_sequence = ctx_connection_sequence ctx, md_symbol = ctx_symbol ctx,
      md_payload_json = pj_bytes payload\<rparr>"

lemma process_audited_keeps_audit:
  assumes "process_audited al st ctx parsed result out = (r, st', out')" and "epr_error r = EPE_none"
    and "epr_error result = EPE_none"
  shows "audit_row out' = audit_row out \<and> has_audit_row out' = has_audit_row out \<and>
     epr_parse_error r = epr_parse_error result"
  using assms
  by (auto simp: process_audited_def process_depth_def Let_def split: if_splits prod.splits option.splits)

lemma format_audit_row_text:
  assumes "format_audit_row al ctx payload out = (CSV_none, out')" and "timestamp_in_range (ctx_timestamp ctx)"
    and "valid_timestamp (ctx_timestamp ctx)"
  shows "crb_view (audit_row out') = csv_line (md_fields (audit_row_of ctx payload))"
proof -
  let ?row = "audit_row_of ctx payload" and ?b = "crb_clear (audit_row out)"
  obtain b' where f: "format_market_data_csv_row al ?row (audit_row out) = (CSV_none, b')"
    "out' = out\<lparr>audit_row := b', has_audit_row := True\<rparr>"
    using assms(1) by (auto simp: format_audit_row_def audit_row_of_def split: prod.splits)
  have fin: "finish_row ?b (append_market_data al ?row (crb_storage ?b)) = (CSV_none, b')"
    using f(1) by (auto simp: format_market_data_csv_row_def Let_def split: if_splits)
  have "appender (append_market_data al ?row) (csv_line (md_fields ?row))"
    using assms by (intro append_market_data_appender) (simp_all add: md_row_in_range_def audit_row_of_def)
  from appender.finish_none [OF this _ fin] f(2) show ?thesis by (simp add: crb_view_def crb_clear_def)
qed

lemma process_audit:
  assumes run: "process iterate al_audit al_book parser st ctx payload mode out = (r, st', parser', out')"
    and ok: "epr_error r = EPE_none" and ts: "timestamp_in_range (ctx_timestamp ctx)"
  shows "has_audit_row out' \<longleftrightarrow> mode = Live_capture \<and> audit_eligible (epr_parse_error r)"
    and "has_audit_row out' \<Longrightarrow> crb_view (audit_row out') = csv_line (md_fields (audit_row_of ctx payload))"
proof -
  have valid: "context_is_valid st ctx" using process_commits [OF run ok] by blast
  obtain parsed p where "parse iterate parser (ctx_venue ctx) (ctx_stream_kind ctx) (st_symbol st) payload = (parsed, p)"
    by fastforce
  with run valid
  have pp: "process_parsed al_audit al_book st ctx payload mode parsed (batch_clear out) = (r, st', out')"
    by (auto simp: process_def split: prod.splits)
  obtain e out1 where f: "format_audit_row al_audit ctx payload (batch_clear out) = (e, out1)" by fastforce
  let ?r = "default_event_result\<lparr>epr_parse_error := spr_error parsed, epr_parse_field := spr_field parsed\<rparr>"
  have r0: "epr_error ?r = EPE_none" by (simp add: default_event_result_def)
  note keep = process_audited_keeps_audit [OF _ ok r0]
  note audit_text = format_audit_row_text [OF _ ts context_valid_parts(4) [OF valid]]
  show "has_audit_row out' \<longleftrightarrow> mode = Live_capture \<and> audit_eligible (epr_parse_error r)"
    using pp ok f format_audit_row_frame [OF f]
    by (auto simp: process_parsed_def Let_def split: if_splits dest!: keep)
  show "crb_view (audit_row out') = csv_line (md_fields (audit_row_of ctx payload))" if "has_audit_row out'"
    using that pp ok f audit_text [of al_audit payload "batch_clear out" out1]
    by (auto simp: process_parsed_def Let_def split: if_splits dest!: keep)
qed

section \<open>Properties\<close>

text \<open>
  C5: a failing call changes nothing: the symbol's state (book, sequence number, connection
  coordinates) is the one before the call and the row batch is empty, so the caller can neither
  write a half-made row nor lose an update.
\<close>

theorem process_failure_atomic:
  "case process iterate al_audit al_book parser st ctx payload mode out of (r, st', parser', out') \<Rightarrow>
     epr_error r = EPE_none \<or> st' = st \<and> batch_empty out'"
  using process_failure [of iterate al_audit al_book parser st ctx payload mode out]
  by (auto split: prod.splits)

text \<open>
  C2: the order-book rows that a symbol's events produce are numbered 1, 2, 3, ... without gap or
  repetition, whatever the payloads, the JSON reader and the allocators do and however many events
  are rejected in between: the third field of the k-th row is k.
\<close>

theorem order_book_rows_numbered:
  assumes "create_symbol_state venue symb = Some st" and "batch_create al_audit al_book = Some out"
    and "list_all (\<lambda>x. timestamp_in_range (ctx_timestamp (in_context x))) xs"
  shows "map row_number_text (emitted_rows (process_all iterate (Some parser_init) st out xs)) =
     map (\<lambda>k. to_chars (int k))
       [1 ..< Suc (length (emitted_rows (process_all iterate (Some parser_init) st out xs)))]"
proof -
  have "st_sequence_number st = 0"
    using assms(1) by (auto simp: create_symbol_state_def Let_def split: if_splits)
  moreover have "parser_ok (Some parser_init)"
    using parser_init_stamps by (simp add: parser_ok_def) (simp add: parser_init_def)
  ultimately show ?thesis
    using rows_numbered_from [OF create_symbol_state_inv [OF assms(1)] _ batch_create_ok [OF assms(2)] assms(3),
        of "Some parser_init" iterate]
    by simp
qed

definition generous_allocator :: Allocator where
  "generous_allocator = \<lparr>alloc_ok = (\<lambda>_. True), alloc_capacity = (\<lambda>_ n. n)\<rparr>"

definition sample_context :: "u64 \<Rightarrow> u64 \<Rightarrow> EventContext" where
  "sample_context epoch seq = \<lparr>ctx_timestamp = \<lparr>ts_seconds = 7, ts_nanoseconds = 1\<rparr>,
     ctx_venue = Venue_spot, ctx_stream_kind = Depth5, ctx_shard_id = 0, ctx_connection_epoch = epoch,
     ctx_connection_sequence = seq, ctx_symbol = ''BTCUSDT''\<rparr>"

definition sample_input :: "u64 \<Rightarrow> u64 \<Rightarrow> event_input" where
  "sample_input epoch seq = \<lparr>in_context = sample_context epoch seq, in_payload = sample_payload,
     in_mode = Replay_output, in_audit_allocator = failing_allocator, in_book_allocator = failing_allocator\<rparr>"

definition sample_state :: SymbolState where
  "sample_state = \<lparr>st_symbol = ''BTCUSDT'', st_venue = Venue_spot, st_instrument_id = 1747767916,
     st_sequence_number = 0, st_has_observed_connection = False, st_current_connection_epoch = 0,
     st_last_connection_sequence = 0, st_spot_book = spot_book_init, st_usdm_book = usdm_book_init\<rparr>"

definition sample_batch :: EventRowBatch where
  "sample_batch = \<lparr>
     audit_row = \<lparr>crb_storage = \<lparr>str_bytes = [], str_capacity = 4096\<rparr>, crb_initial_capacity = 4096\<rparr>,
     order_book_row_buffer =
       \<lparr>crb_storage = \<lparr>str_bytes = [], str_capacity = 1024\<rparr>, crb_initial_capacity = 1024\<rparr>,
     has_audit_row = False, has_order_book_row = False\<rparr>"

definition empty_refresh_json :: json_value where
  "empty_refresh_json = JV_object [Member ''lastUpdateId'' (JV_number ''1'' (Inr 1)),
     Member ''bids'' (JV_array []), Member ''asks'' (JV_array [])]"

definition empty_refresh_iterate :: iterate_fn where
  "empty_refresh_iterate bytes capacity = Inr empty_refresh_json"

theorem order_book_rows_numbered_witness:
  "map row_number_text (emitted_rows (process_all empty_refresh_iterate (Some parser_init) sample_state
     sample_batch [sample_input 1 1, sample_input 1 1])) = [''1'']"
proof -
  let ?xs = "[sample_input 1 1, sample_input 1 1]"
  let ?outs = "process_all empty_refresh_iterate (Some parser_init) sample_state sample_batch ?xs"
  have c: "create_symbol_state Venue_spot ''BTCUSDT'' = Some sample_state"
    "batch_create generous_allocator generous_allocator = Some sample_batch"
    "list_all (\<lambda>x. timestamp_in_range (ctx_timestamp (in_context x))) ?xs" by code_simp+
  have n: "length (emitted_rows ?outs) = 1" by code_simp
  have "to_chars 1 = ''1''" by code_simp
  with order_book_rows_numbered [OF c, of empty_refresh_iterate] show ?thesis unfolding n by simp
qed

text \<open>
  The events of a symbol that are accepted have strictly increasing connection coordinates,
  epoch first and sequence within the epoch, however the events arrive: a repeated or reordered
  message is never processed twice.
\<close>

theorem accepted_events_ordered:
  "sorted_wrt coords_less (accepted_coords xs (process_all iterate parser st out xs))"
  using accepted_coords_above by blast

text \<open>
  A successful event of a later connection epoch that is not a refresh leaves the book invalid,
  whatever the payload: no order-book row mixes levels of two connections.
\<close>

theorem new_epoch_invalidates_book:
  assumes "epoch_changed st ctx" and "ctx_stream_kind ctx \<noteq> Depth5"
  shows "case process iterate al_audit al_book parser st ctx payload mode out of (r, st', parser', out') \<Rightarrow>
     epr_error r = EPE_none \<longrightarrow> \<not> book_valid st' \<and> committed_to ctx st'"
  using process_epoch [OF _ _ assms, of iterate al_audit al_book parser payload mode out]
    process_commits [of iterate al_audit al_book parser st ctx payload mode out]
  by (auto simp: book_valid_def split: prod.splits)

definition observed_state :: SymbolState where
  "observed_state = sample_state\<lparr>st_has_observed_connection := True, st_current_connection_epoch := 1,
     st_last_connection_sequence := 9, st_spot_book := snd (spot_apply_refresh spot_book_init sample_refresh)\<rparr>"

definition trade_context :: EventContext where
  "trade_context = (sample_context 2 1)\<lparr>ctx_stream_kind := Trade\<rparr>"

theorem new_epoch_invalidates_book_witness:
  "book_valid observed_state \<and>
   \<not> book_valid (fst (snd (process (\<lambda>_ _. Inr (JV_object [])) failing_allocator failing_allocator
       (Some parser_init) observed_state trade_context sample_payload Replay_output sample_batch)))"
proof -
  let ?run = "process (\<lambda>_ _. Inr (JV_object [])) failing_allocator failing_allocator
       (Some parser_init) observed_state trade_context sample_payload Replay_output sample_batch"
  have h: "epoch_changed observed_state trade_context" "ctx_stream_kind trade_context \<noteq> Depth5"
    "book_valid observed_state" by code_simp+
  have "epr_error (fst ?run) = EPE_none" by code_simp
  with new_epoch_invalidates_book [OF h(1,2), of "\<lambda>_ _. Inr (JV_object [])" failing_allocator failing_allocator
      "Some parser_init" sample_payload Replay_output sample_batch] h(3)
  show ?thesis by (auto simp: case_prod_beta)
qed

text \<open>
  C11: a successful event carries an audit row exactly when it was captured live and its payload is
  a complete JSON object within the limits (even when its schema is rejected), and that row is the
  exact CSV text of the event's context and payload.
\<close>

theorem audit_row_exact:
  assumes "timestamp_in_range (ctx_timestamp ctx)"
  shows "case process iterate al_audit al_book parser st ctx payload mode out of (r, st', parser', out') \<Rightarrow>
     epr_error r = EPE_none \<longrightarrow>
       (has_audit_row out' \<longleftrightarrow> mode = Live_capture \<and> audit_eligible (epr_parse_error r)) \<and>
       (has_audit_row out' \<longrightarrow> crb_view (audit_row out') = csv_line (md_fields (audit_row_of ctx payload)))"
  using process_audit [OF _ _ assms, of iterate al_audit al_book parser st payload mode out]
  by (auto split: prod.splits)

theorem audit_row_exact_witness:
  "has_audit_row (snd (snd (snd (process (\<lambda>_ _. Inr (JV_object [])) failing_allocator failing_allocator
     (Some parser_init) observed_state trade_context sample_payload Live_capture sample_batch)))) \<and>
   crb_view (audit_row (snd (snd (snd (process (\<lambda>_ _. Inr (JV_object [])) failing_allocator failing_allocator
     (Some parser_init) observed_state trade_context sample_payload Live_capture sample_batch)))))
     = csv_line (md_fields (audit_row_of trade_context sample_payload))"
proof -
  let ?run = "process (\<lambda>_ _. Inr (JV_object [])) failing_allocator failing_allocator
       (Some parser_init) observed_state trade_context sample_payload Live_capture sample_batch"
  have h: "timestamp_in_range (ctx_timestamp trade_context)" by code_simp
  have "epr_error (fst ?run) = EPE_none" "audit_eligible (epr_parse_error (fst ?run))" by code_simp+
  with audit_row_exact [OF h, where iterate = "\<lambda>_ _. Inr (JV_object [])" and al_audit = failing_allocator
      and al_book = failing_allocator and parser = "Some parser_init" and st = observed_state
      and payload = sample_payload and mode = Live_capture and out = sample_batch]
  show ?thesis by (auto simp: case_prod_beta)
qed

end
