(* ===== verification/Live_Subscription.thy ===== *)
theory Live_Subscription
  imports Payload_Types Symbol_Identity Linear_Probing
begin

unbundle bit_operations_syntax

text \<open>
  The combined-stream subscription (\<^verbatim>\<open>include/hft/live_subscription.h\<close>, \<^verbatim>\<open>src/live_subscription.cpp\<close>): three
  stream names per symbol, the request target that lists them, and a 256-slot open-addressing table
  from stream names to routes.
\<close>

section \<open>Data\<close>

definition kStreamsPerSymbol :: nat where "kStreamsPerSymbol = 3"
definition kMaxDerivedStreams :: nat where "kMaxDerivedStreams = kMaxConfiguredSymbols * kStreamsPerSymbol"
definition kMaxCombinedTargetBytes :: nat where "kMaxCombinedTargetBytes = 8192"
definition kMaxEnvelopeStreamNameBytes :: nat where "kMaxEnvelopeStreamNameBytes = 128"
definition kLookupSlotCount :: nat where "kLookupSlotCount = 256"
definition kLookupSlotMask :: nat where "kLookupSlotMask = kLookupSlotCount - 1"

record VenueEndpoint =
  ep_host :: string
  ep_port :: string
  ep_combined_target_prefix :: string

datatype SubscriptionErrorCode =
    SUB_none
  | SUB_invalid_venue
  | SUB_invalid_symbols
  | SUB_stream_count_exceeded
  | SUB_target_size_overflow
  | SUB_target_too_large
  | SUB_allocation_failure
  | SUB_route_table_failure

record SubscriptionError =
  sub_code :: SubscriptionErrorCode
  sub_symbol_error :: SymbolValidationError
  sub_first_index :: nat
  sub_second_index :: nat

definition subscription_error :: "SubscriptionErrorCode \<Rightarrow> SubscriptionError" where
  "subscription_error code = \<lparr>sub_code = code, sub_symbol_error = Sym_none, sub_first_index = kNoSymbolIndex,
     sub_second_index = kNoSymbolIndex\<rparr>"

record CombinedTargetSizeResult =
  cts_bytes :: nat
  cts_error :: SubscriptionErrorCode

record LiveRoute =
  lr_stream_name :: string
  lr_normalized_symbol :: string
  lr_symbol_index :: nat
  lr_stream_kind :: SpotStreamKind

datatype RouteLookupError = RL_none | RL_unknown_stream | RL_stream_name_too_long

record RouteLookupResult =
  rlr_route :: "LiveRoute option"
  rlr_error :: RouteLookupError

text \<open>\<open>ls_routes\<close> are the routes built so far; an entry of \<open>ls_lookup\<close> is an index into them or none.\<close>

record LiveSubscription =
  ls_venue :: PayloadVenue
  ls_endpoint :: VenueEndpoint
  ls_target :: string
  ls_symbols :: "string list"
  ls_routes :: "LiveRoute list"
  ls_lookup :: "nat \<Rightarrow> nat"

section \<open>Operations\<close>

definition kSuffixes :: "string list" where
  "kSuffixes = [''@depth@100ms'', ''@depth5@100ms'', ''@trade'']"

definition kKinds :: "SpotStreamKind list" where
  "kKinds = [Depth_diff, Depth5, Trade]"

definition size_max :: nat where "size_max = 18446744073709551615"

text \<open>\<open>None\<close> is the return value false.\<close>

definition checked_size_add :: "nat \<Rightarrow> nat \<Rightarrow> nat option" where
  "checked_size_add bytes increment = (if increment > size_max - bytes then None else Some (bytes + increment))"

definition hash_stream :: "string \<Rightarrow> u64" where
  "hash_stream stream =
     foldl (\<lambda>h byte. (h XOR of_nat (byte_of byte)) * 1099511628211) 14695981039346656037 stream"

definition lowercase_symbol :: "string \<Rightarrow> string" where
  "lowercase_symbol s = map (\<lambda>byte. if is_upper byte then char_of (byte_of byte - 65 + 97) else byte) s"

fun production_endpoint :: "PayloadVenue \<Rightarrow> VenueEndpoint" where
  "production_endpoint Venue_spot = \<lparr>ep_host = ''stream.binance.com'', ep_port = ''9443'',
     ep_combined_target_prefix = ''/stream?streams=''\<rparr>"
| "production_endpoint Venue_usdm = \<lparr>ep_host = ''fstream.binance.com'', ep_port = ''443'',
     ep_combined_target_prefix = ''/public/stream?streams=''\<rparr>"

text \<open>The nested size loops: three suffixes per symbol.\<close>

fun add_suffix_sizes :: "nat \<Rightarrow> nat \<Rightarrow> string list \<Rightarrow> nat option" where
  "add_suffix_sizes bytes symbol_bytes [] = Some bytes"
| "add_suffix_sizes bytes symbol_bytes (suffix # suffixes) =
     (case checked_size_add bytes symbol_bytes of
        None \<Rightarrow> None
      | Some bytes \<Rightarrow>
          (case checked_size_add bytes (length suffix) of
             None \<Rightarrow> None
           | Some bytes \<Rightarrow> add_suffix_sizes bytes symbol_bytes suffixes))"

fun add_symbol_sizes :: "nat \<Rightarrow> string list \<Rightarrow> nat option" where
  "add_symbol_sizes bytes [] = Some bytes"
| "add_symbol_sizes bytes (s # symbols) =
     (case add_suffix_sizes bytes (length s) kSuffixes of
        None \<Rightarrow> None
      | Some bytes \<Rightarrow> add_symbol_sizes bytes symbols)"

definition checked_combined_target_size :: "nat \<Rightarrow> string list option \<Rightarrow> nat \<Rightarrow> CombinedTargetSizeResult" where
  "checked_combined_target_size target_prefix_bytes normalized_symbols symbol_count =
     (if normalized_symbols = None \<or> symbol_count = 0 \<or> symbol_count > kMaxConfiguredSymbols
      then \<lparr>cts_bytes = 0, cts_error = SUB_invalid_symbols\<rparr>
      else if symbol_count > size_max div kStreamsPerSymbol
      then \<lparr>cts_bytes = 0, cts_error = SUB_stream_count_exceeded\<rparr>
      else
        let stream_count = symbol_count * kStreamsPerSymbol in
        if stream_count > kMaxDerivedStreams then \<lparr>cts_bytes = 0, cts_error = SUB_stream_count_exceeded\<rparr>
        else case add_symbol_sizes target_prefix_bytes (take symbol_count (the normalized_symbols)) of
          None \<Rightarrow> \<lparr>cts_bytes = 0, cts_error = SUB_target_size_overflow\<rparr>
        | Some bytes \<Rightarrow>
            (case checked_size_add bytes (stream_count - 1) of
               None \<Rightarrow> \<lparr>cts_bytes = 0, cts_error = SUB_target_size_overflow\<rparr>
             | Some bytes \<Rightarrow> \<lparr>cts_bytes = bytes, cts_error = SUB_none\<rparr>))"

text \<open>The probe loops; \<open>probe_count\<close> is the loop counter.\<close>

function find_route_from ::
    "LiveRoute list \<Rightarrow> (nat \<Rightarrow> nat) \<Rightarrow> string \<Rightarrow> nat \<Rightarrow> nat \<Rightarrow> RouteLookupResult" where
  "find_route_from routes lookup stream_name slot_index probe_count =
     (if probe_count \<ge> kLookupSlotCount then \<lparr>rlr_route = None, rlr_error = RL_unknown_stream\<rparr>
      else
        let route_index = lookup slot_index in
        if route_index = kNoSymbolIndex then \<lparr>rlr_route = None, rlr_error = RL_unknown_stream\<rparr>
        else if lr_stream_name (routes ! route_index) = stream_name
        then \<lparr>rlr_route = Some (routes ! route_index), rlr_error = RL_none\<rparr>
        else find_route_from routes lookup stream_name ((slot_index + 1) AND kLookupSlotMask) (Suc probe_count))"
  by pat_completeness auto
termination
  by (relation "measure (\<lambda>(_, _, _, _, probe_count). kLookupSlotCount - probe_count)") auto

declare find_route_from.simps [simp del]

definition find_route :: "LiveSubscription \<Rightarrow> string \<Rightarrow> RouteLookupResult" where
  "find_route sub stream_name =
     (if length stream_name > kMaxEnvelopeStreamNameBytes
      then \<lparr>rlr_route = None, rlr_error = RL_stream_name_too_long\<rparr>
      else find_route_from (ls_routes sub) (ls_lookup sub) stream_name
             (unat (hash_stream stream_name) AND kLookupSlotMask) 0)"

function insert_route_from ::
    "LiveRoute list \<Rightarrow> (nat \<Rightarrow> nat) \<Rightarrow> nat \<Rightarrow> nat \<Rightarrow> nat \<Rightarrow> bool \<times> (nat \<Rightarrow> nat)" where
  "insert_route_from routes lookup route_index slot_index probe_count =
     (if probe_count \<ge> kLookupSlotCount then (False, lookup)
      else if lookup slot_index = kNoSymbolIndex then (True, lookup(slot_index := route_index))
      else if lr_stream_name (routes ! lookup slot_index) = lr_stream_name (routes ! route_index)
      then (False, lookup)
      else insert_route_from routes lookup route_index ((slot_index + 1) AND kLookupSlotMask) (Suc probe_count))"
  by pat_completeness auto
termination
  by (relation "measure (\<lambda>(_, _, _, _, probe_count). kLookupSlotCount - probe_count)") auto

declare insert_route_from.simps [simp del]

definition insert_route :: "LiveSubscription \<Rightarrow> nat \<Rightarrow> bool \<times> LiveSubscription" where
  "insert_route sub route_index =
     (case insert_route_from (ls_routes sub) (ls_lookup sub) route_index
             (unat (hash_stream (lr_stream_name (ls_routes sub ! route_index))) AND kLookupSlotMask) 0 of
        (inserted, lookup) \<Rightarrow> (inserted, sub\<lparr>ls_lookup := lookup\<rparr>))"

text \<open>One route: extend the target, build the route, enter it into the table.\<close>

definition add_route :: "LiveSubscription \<Rightarrow> nat \<Rightarrow> string \<Rightarrow> nat \<Rightarrow> LiveSubscription option" where
  "add_route sub symbol_index normalized kind_index =
     (let route_index = length (ls_routes sub);
          target = (if route_index \<noteq> 0 then ls_target sub @ ''/'' else ls_target sub);
          stream_name = lowercase_symbol normalized @ kSuffixes ! kind_index;
          route = \<lparr>lr_stream_name = stream_name, lr_normalized_symbol = normalized, lr_symbol_index = symbol_index,
            lr_stream_kind = kKinds ! kind_index\<rparr>
      in case insert_route (sub\<lparr>ls_target := target @ stream_name, ls_routes := ls_routes sub @ [route]\<rparr>) route_index of
           (True, sub) \<Rightarrow> Some sub
         | (False, _) \<Rightarrow> None)"

fun add_routes :: "LiveSubscription \<Rightarrow> nat \<Rightarrow> string \<Rightarrow> nat list \<Rightarrow> LiveSubscription option" where
  "add_routes sub symbol_index normalized [] = Some sub"
| "add_routes sub symbol_index normalized (kind_index # kinds) =
     (case add_route sub symbol_index normalized kind_index of
        None \<Rightarrow> None
      | Some sub \<Rightarrow> add_routes sub symbol_index normalized kinds)"

fun add_symbols :: "LiveSubscription \<Rightarrow> nat \<Rightarrow> string list \<Rightarrow> LiveSubscription option" where
  "add_symbols sub symbol_index [] = Some sub"
| "add_symbols sub symbol_index (normalized # symbols) =
     (case add_routes (sub\<lparr>ls_symbols := ls_symbols sub @ [normalized]\<rparr>) symbol_index normalized
             [0 ..< kStreamsPerSymbol] of
        None \<Rightarrow> None
      | Some sub \<Rightarrow> add_symbols sub (Suc symbol_index) symbols)"

definition empty_subscription :: "PayloadVenue \<Rightarrow> LiveSubscription" where
  "empty_subscription venue = \<lparr>ls_venue = venue, ls_endpoint = production_endpoint venue, ls_target = [],
     ls_symbols = [], ls_routes = [], ls_lookup = (\<lambda>_. kNoSymbolIndex)\<rparr>"

text \<open>The last argument says whether the allocations of the construction succeed.\<close>

definition create_subscription ::
    "PayloadVenue \<Rightarrow> string list option \<Rightarrow> nat \<Rightarrow> bool \<Rightarrow> SubscriptionError + LiveSubscription" where
  "create_subscription venue normalized_symbols symbol_count allocated =
     (let endpoint = production_endpoint venue in
      if ep_host endpoint = [] then Inl (subscription_error SUB_invalid_venue)
      else
        let symbols = validate_symbol_set normalized_symbols symbol_count in
        if \<not> symset_has_value symbols
        then Inl ((subscription_error SUB_invalid_symbols)\<lparr>sub_symbol_error := symset_error symbols,
                sub_first_index := symset_first_index symbols, sub_second_index := symset_second_index symbols\<rparr>)
        else
          let target_size = checked_combined_target_size (length (ep_combined_target_prefix endpoint))
                normalized_symbols symbol_count
          in if cts_error target_size \<noteq> SUB_none then Inl (subscription_error (cts_error target_size))
             else if cts_bytes target_size > kMaxCombinedTargetBytes then Inl (subscription_error SUB_target_too_large)
             else if \<not> allocated then Inl (subscription_error SUB_allocation_failure)
             else case add_symbols ((empty_subscription venue)\<lparr>ls_target := ep_combined_target_prefix endpoint\<rparr>) 0
                       (take symbol_count (the normalized_symbols)) of
               None \<Rightarrow> Inl (subscription_error SUB_route_table_failure)
             | Some sub \<Rightarrow>
                 if length (ls_target sub) \<noteq> cts_bytes target_size
                 then Inl (subscription_error SUB_route_table_failure) else Inr sub)"

definition route_at :: "LiveSubscription \<Rightarrow> nat \<Rightarrow> LiveRoute option" where
  "route_at sub index = (if index < length (ls_routes sub) then Some (ls_routes sub ! index) else None)"

definition subscription_symbol :: "LiveSubscription \<Rightarrow> nat \<Rightarrow> string" where
  "subscription_symbol sub index = (if index < length (ls_symbols sub) then ls_symbols sub ! index else [])"

end
