(* ===== verification/Live_Subscription_Guarantees.thy ===== *)
theory Live_Subscription_Guarantees
  imports Live_Subscription
begin

unbundle bit_operations_syntax

text \<open>
  The subscription for a valid symbol set is always built: its target is the venue's prefix followed
  by all stream names joined by a slash, and the route table answers every lookup exactly.  The
  second client of \<open>probe_table\<close>: 256 slots, keyed by stream name.
\<close>

section \<open>What is subscribed\<close>

text \<open>The routes of symbol number \<open>i\<close>, in the order of the suffixes.\<close>

definition routes_of :: "nat \<Rightarrow> string \<Rightarrow> LiveRoute list" where
  "routes_of i s = map (\<lambda>k. \<lparr>lr_stream_name = lowercase_symbol s @ kSuffixes ! k, lr_normalized_symbol = s,
     lr_symbol_index = i, lr_stream_kind = kKinds ! k\<rparr>) [0 ..< 3]"

fun subscribed :: "nat \<Rightarrow> string list \<Rightarrow> LiveRoute list" where
  "subscribed i [] = []"
| "subscribed i (s # xs) = routes_of i s @ subscribed (Suc i) xs"

fun joined :: "string list \<Rightarrow> string" where
  "joined [] = []"
| "joined [x] = x"
| "joined (x # y # xs) = x @ ''/'' @ joined (y # xs)"

text \<open>The route of a name among the given ones.\<close>

definition lookup_among :: "LiveRoute list \<Rightarrow> string \<Rightarrow> RouteLookupResult" where
  "lookup_among rs stream_name =
     (if length stream_name > 128 then \<lparr>rlr_route = None, rlr_error = RL_stream_name_too_long\<rparr>
      else case find (\<lambda>r. lr_stream_name r = stream_name) rs of
        None \<Rightarrow> \<lparr>rlr_route = None, rlr_error = RL_unknown_stream\<rparr>
      | Some r \<Rightarrow> \<lparr>rlr_route = Some r, rlr_error = RL_none\<rparr>)"

section \<open>The route table\<close>

definition route_hash :: "string \<Rightarrow> nat" where
  "route_hash stream_name = unat (hash_stream stream_name) AND kLookupSlotMask"

definition slots :: "LiveRoute list \<Rightarrow> (nat \<Rightarrow> nat) \<Rightarrow> nat \<Rightarrow> string option" where
  "slots rs lookup i = (if i < kLookupSlotCount \<and> lookup i \<noteq> kNoSymbolIndex
     then Some (lr_stream_name (rs ! lookup i)) else None)"

lemma and_slot_mask: "m AND kLookupSlotMask = m mod kLookupSlotCount"
proof -
  have "m AND mask 8 = take_bit 8 m" by (simp add: take_bit_eq_mask)
  then show ?thesis
    by (simp add: kLookupSlotMask_def kLookupSlotCount_def mask_eq_exp_minus_1 take_bit_eq_mod)
qed

interpretation rt: probe_table kLookupSlotCount route_hash
  by unfold_locales (simp_all add: route_hash_def and_slot_mask, simp_all add: kLookupSlotCount_def)

definition table_ok :: "LiveRoute list \<Rightarrow> (nat \<Rightarrow> nat) \<Rightarrow> bool" where
  "table_ok rs lookup \<longleftrightarrow> distinct (map lr_stream_name rs) \<and>
     (\<forall>i. lookup i \<noteq> kNoSymbolIndex \<longrightarrow> i < kLookupSlotCount \<and> lookup i < length rs) \<and>
     ran (slots rs lookup) = lr_stream_name ` set rs \<and>
     rt.table_inv (slots rs lookup) \<and> card (dom (slots rs lookup)) \<le> length rs"

lemma find_route_from_probe:
  assumes "i < kLookupSlotCount"
  shows "find_route_from rs lookup name i c =
    (case probe kLookupSlotCount (slots rs lookup) name i (kLookupSlotCount - c) of
       Probe_found j \<Rightarrow> \<lparr>rlr_route = Some (rs ! lookup j), rlr_error = RL_none\<rparr>
     | _ \<Rightarrow> \<lparr>rlr_route = None, rlr_error = RL_unknown_stream\<rparr>)"
  using assms
proof (induction "kLookupSlotCount - c" arbitrary: c i)
  case 0
  then show ?case by (simp add: find_route_from.simps [of rs lookup name i c])
next
  case (Suc r)
  then have c: "c < kLookupSlotCount" "kLookupSlotCount - c = Suc r" "r = kLookupSlotCount - Suc c"
    by simp_all
  have "(i + 1) mod kLookupSlotCount < kLookupSlotCount" using rt.n_pos by simp
  from Suc.hyps(1) [OF c(3) this] Suc.prems c show ?case
    by (subst find_route_from.simps) (auto simp: slots_def and_slot_mask)
qed

lemma insert_route_from_probe:
  assumes "i < kLookupSlotCount"
  shows "insert_route_from rs lookup r i c =
    (case probe kLookupSlotCount (slots rs lookup) (lr_stream_name (rs ! r)) i (kLookupSlotCount - c) of
       Probe_empty j \<Rightarrow> (True, lookup(j := r))
     | _ \<Rightarrow> (False, lookup))"
  using assms
proof (induction "kLookupSlotCount - c" arbitrary: c i)
  case 0
  then show ?case by (simp add: insert_route_from.simps [of rs lookup r i c])
next
  case (Suc m)
  then have c: "c < kLookupSlotCount" "kLookupSlotCount - c = Suc m" "m = kLookupSlotCount - Suc c"
    by simp_all
  have "(i + 1) mod kLookupSlotCount < kLookupSlotCount" using rt.n_pos by simp
  from Suc.hyps(1) [OF c(3) this] Suc.prems c show ?case
    by (subst insert_route_from.simps) (auto simp: slots_def and_slot_mask)
qed

lemma find_distinct_name:
  assumes "distinct (map lr_stream_name rs)" and "j < length rs"
  shows "find (\<lambda>r. lr_stream_name r = lr_stream_name (rs ! j)) rs = Some (rs ! j)"
  using assms by (auto simp: find_Some_iff nth_eq_iff_index_eq distinct_map distinct_conv_nth)

text \<open>A lookup answers for exactly the routes in the table.\<close>

lemma find_route_among:
  assumes ok: "table_ok (ls_routes sub) (ls_lookup sub)"
  shows "find_route sub name = lookup_among (ls_routes sub) name"
proof (cases "length name > 128")
  case True
  then show ?thesis by (simp add: find_route_def lookup_among_def kMaxEnvelopeStreamNameBytes_def)
next
  case False
  let ?T = "slots (ls_routes sub) (ls_lookup sub)"
  have inv: "rt.table_inv ?T" using ok by (simp add: table_ok_def)
  have fr: "find_route sub name = (case rt.search ?T name of
       Probe_found j \<Rightarrow> \<lparr>rlr_route = Some (ls_routes sub ! ls_lookup sub j), rlr_error = RL_none\<rparr>
     | _ \<Rightarrow> \<lparr>rlr_route = None, rlr_error = RL_unknown_stream\<rparr>)"
    using False find_route_from_probe [OF rt.hash_less, of "ls_routes sub" "ls_lookup sub" name name 0]
    by (simp add: find_route_def kMaxEnvelopeStreamNameBytes_def rt.search_def route_hash_def)
  show ?thesis
  proof (cases "name \<in> ran ?T")
    case True
    then obtain j where j: "rt.search ?T name = Probe_found j" using rt.search_member [OF inv] by blast
    then have "?T j = Some name" using rt.search_found by blast
    then have "name = lr_stream_name (ls_routes sub ! ls_lookup sub j)" "ls_lookup sub j < length (ls_routes sub)"
      using ok by (auto simp: slots_def table_ok_def split: if_splits)
    then have "find (\<lambda>r. lr_stream_name r = name) (ls_routes sub) = Some (ls_routes sub ! ls_lookup sub j)"
      using ok find_distinct_name [of "ls_routes sub" "ls_lookup sub j"] by (simp add: table_ok_def)
    then show ?thesis using fr j False by (simp add: lookup_among_def)
  next
    case nin: False
    then have "find (\<lambda>r. lr_stream_name r = name) (ls_routes sub) = None"
      using ok by (auto simp: find_None_iff table_ok_def)
    moreover have "rt.search ?T name \<noteq> Probe_found j" for j using nin rt.search_member [OF inv] by blast
    ultimately show ?thesis using fr False by (cases "rt.search ?T name") (auto simp: lookup_among_def)
  qed
qed

text \<open>A route with a new name finds room as long as the table is not full.\<close>

lemma insert_new_route:
  assumes ok: "table_ok (ls_routes sub) (ls_lookup sub)"
    and new: "lr_stream_name r \<notin> lr_stream_name ` set (ls_routes sub)" and room: "length (ls_routes sub) < 256"
  shows "\<exists>lookup. insert_route (sub\<lparr>ls_target := t, ls_routes := ls_routes sub @ [r]\<rparr>) (length (ls_routes sub)) =
      (True, sub\<lparr>ls_target := t, ls_routes := ls_routes sub @ [r], ls_lookup := lookup\<rparr>) \<and>
      table_ok (ls_routes sub @ [r]) lookup"
proof -
  let ?rs = "ls_routes sub" and ?l = "ls_lookup sub" and ?k = "lr_stream_name r"
  let ?T = "slots ?rs ?l"
  have same: "slots (?rs @ [r]) ?l = ?T"
    using ok by (auto simp: slots_def table_ok_def nth_append)
  have inv: "rt.table_inv ?T" and card: "card (dom ?T) \<le> length ?rs" and ran: "ran ?T = lr_stream_name ` set ?rs"
    using ok by (simp_all add: table_ok_def)
  have "rt.search ?T ?k \<noteq> Probe_full"
    using rt.search_not_full [OF inv] card room by (simp add: kLookupSlotCount_def)
  moreover have "rt.search ?T ?k \<noteq> Probe_found j" for j using rt.search_member [OF inv] new ran by blast
  ultimately obtain j where j: "rt.search ?T ?k = Probe_empty j" by (cases "rt.search ?T ?k") auto
  note e = rt.search_empty [OF inv j]
  let ?l' = "?l(j := length ?rs)"
  have T': "slots (?rs @ [r]) ?l' = ?T(j \<mapsto> ?k)"
  proof
    fix x
    show "slots (?rs @ [r]) ?l' x = (?T(j \<mapsto> ?k)) x"
      using e room fun_cong [OF same, of x]
      by (cases "x = j"; cases "x < kLookupSlotCount \<and> ?l x \<noteq> kNoSymbolIndex")
        (auto simp: slots_def, simp add: kNoSymbolIndex_def)
  qed
  have "insert_route (sub\<lparr>ls_target := t, ls_routes := ?rs @ [r]\<rparr>) (length ?rs) =
      (True, sub\<lparr>ls_target := t, ls_routes := ?rs @ [r], ls_lookup := ?l'\<rparr>)"
    using insert_route_from_probe [OF rt.hash_less, of "?rs @ [r]" ?l "length ?rs" ?k 0] j
    by (simp add: insert_route_def same rt.search_def route_hash_def)
  moreover have "table_ok (?rs @ [r]) ?l'"
    unfolding table_ok_def
  proof (intro conjI)
    show "distinct (map lr_stream_name (?rs @ [r]))" using ok new by (simp add: table_ok_def)
    show "\<forall>i. ?l' i \<noteq> kNoSymbolIndex \<longrightarrow> i < kLookupSlotCount \<and> ?l' i < length (?rs @ [r])"
      using ok e by (auto simp: table_ok_def less_Suc_eq)
    show "ran (slots (?rs @ [r]) ?l') = lr_stream_name ` set (?rs @ [r])"
      unfolding T' using e ran by simp
    show "rt.table_inv (slots (?rs @ [r]) ?l')" unfolding T' using e by blast
    have "finite (dom ?T)" by (rule finite_subset [of _ "{..< kLookupSlotCount}"]) (auto simp: slots_def split: if_splits)
    then show "card (dom (slots (?rs @ [r]) ?l')) \<le> length (?rs @ [r])"
      unfolding T' using card e by (simp add: domIff card_insert_if)
  qed
  ultimately show ?thesis by blast
qed


section \<open>Stream names\<close>

lemma byte_of_lower:
  "byte_of (if is_upper c then char_of (byte_of c - 65 + 97) else c) =
   (if is_upper c then byte_of c + 32 else byte_of c)"
  by (auto simp: byte_of_def is_upper_def)

lemma lower_char_inj:
  assumes "is_upper c \<or> is_digit c" "is_upper d \<or> is_digit d"
    and "(if is_upper c then char_of (byte_of c - 65 + 97) else c) =
      (if is_upper d then char_of (byte_of d - 65 + 97) else d)"
  shows "c = d"
  using arg_cong [OF assms(3), of byte_of] assms(1,2) unfolding byte_of_lower byte_of_inj [symmetric]
  by (auto simp: is_upper_def is_digit_def split: if_splits)

lemma lowercase_inj:
  assumes "is_normalized_symbol s" "is_normalized_symbol s'" "lowercase_symbol s = lowercase_symbol s'"
  shows "s = s'"
proof (rule map_inj_on [OF assms(3) [unfolded lowercase_symbol_def]])
  show "inj_on (\<lambda>byte. if is_upper byte then char_of (byte_of byte - 65 + 97) else byte) (set s \<union> set s')"
    using assms(1,2) by (intro inj_onI) (auto simp: normalized_symbol_iff list_all_iff intro: lower_char_inj)
qed

lemma lower_not_at:
  assumes "is_normalized_symbol s" and "c \<in> set (lowercase_symbol s)"
  shows "c \<noteq> CHR ''@''"
proof -
  obtain d where d: "d \<in> set s" "c = (if is_upper d then char_of (byte_of d - 65 + 97) else d)"
    using assms(2) by (auto simp: lowercase_symbol_def)
  then have "is_upper d \<or> is_digit d" using assms(1) by (auto simp: normalized_symbol_iff list_all_iff)
  then have "byte_of c \<noteq> 64" unfolding d(2) byte_of_lower by (auto simp: is_upper_def is_digit_def)
  then show ?thesis by (auto simp: byte_of_def)
qed

lemma takeWhile_at:
  assumes "is_normalized_symbol s" and "k < 3"
  shows "takeWhile (\<lambda>c. c \<noteq> CHR ''@'') (lowercase_symbol s @ kSuffixes ! k) = lowercase_symbol s"
  using assms lower_not_at [OF assms(1)]
  by (subst takeWhile_append2) (auto simp: kSuffixes_def less_Suc_eq numeral_3_eq_3)

lemma stream_name_inj:
  assumes "is_normalized_symbol s" "is_normalized_symbol s'" "k < 3" "k' < 3"
    and "lowercase_symbol s @ kSuffixes ! k = lowercase_symbol s' @ kSuffixes ! k'"
  shows "s = s' \<and> k = k'"
proof -
  have "lowercase_symbol s = lowercase_symbol s'"
    using takeWhile_at [OF assms(1,3)] takeWhile_at [OF assms(2,4)] assms(5) by simp
  then show ?thesis
    using lowercase_inj [OF assms(1,2)] assms(3-5)
    by (auto simp: kSuffixes_def less_Suc_eq numeral_3_eq_3)
qed

lemma subscribed_name:
  "r \<in> set (subscribed i xs) \<Longrightarrow> \<exists>s \<in> set xs. \<exists>k < 3. lr_stream_name r = lowercase_symbol s @ kSuffixes ! k"
  by (induction xs arbitrary: i) (fastforce simp: routes_of_def)+

lemma stream_names_distinct:
  assumes "list_all is_normalized_symbol xs" "distinct xs"
  shows "distinct (map lr_stream_name (subscribed i xs))"
  using assms
proof (induction xs arbitrary: i)
  case (Cons s xs)
  have "distinct (map lr_stream_name (routes_of i s))"
    using Cons.prems(1) stream_name_inj by (auto simp: routes_of_def distinct_map inj_on_def)
  moreover have "lr_stream_name ` set (routes_of i s) \<inter> lr_stream_name ` set (subscribed (Suc i) xs) = {}"
  proof -
    have False if "r \<in> set (routes_of i s)" "r' \<in> set (subscribed (Suc i) xs)"
      "lr_stream_name r = lr_stream_name r'" for r r'
    proof -
      obtain s' k' where s': "s' \<in> set xs" "k' < 3" "lr_stream_name r' = lowercase_symbol s' @ kSuffixes ! k'"
        using subscribed_name [OF \<open>r' \<in> _\<close>] by blast
      obtain k where k: "k < 3" "lr_stream_name r = lowercase_symbol s @ kSuffixes ! k"
        using \<open>r \<in> _\<close> by (auto simp: routes_of_def)
      have "is_normalized_symbol s" "is_normalized_symbol s'"
        using Cons.prems(1) s'(1) by (simp_all add: list_all_iff)
      then have "s = s'" using stream_name_inj [OF _ _ k(1) s'(2)] that(3) k(2) s'(3) by metis
      then show False using s'(1) Cons.prems(2) by simp
    qed
    then show ?thesis by blast
  qed
  ultimately show ?case using Cons by simp
qed simp

lemma joined_snoc: "xs \<noteq> [] \<Longrightarrow> joined (xs @ [x]) = joined xs @ ''/'' @ x"
  by (induction xs rule: joined.induct) auto

section \<open>Building the subscription\<close>

text \<open>The subscription after the routes \<open>rs\<close> of the symbols \<open>xs\<close> have been added.\<close>

definition built :: "PayloadVenue \<Rightarrow> string list \<Rightarrow> LiveRoute list \<Rightarrow> LiveSubscription \<Rightarrow> bool" where
  "built venue xs rs sub \<longleftrightarrow> ls_venue sub = venue \<and> ls_endpoint sub = production_endpoint venue \<and>
     ls_target sub = ep_combined_target_prefix (production_endpoint venue) @ joined (map lr_stream_name rs) \<and>
     ls_symbols sub = xs \<and> ls_routes sub = rs \<and> table_ok rs (ls_lookup sub)"

lemma add_route_built:
  assumes b: "built venue xs rs sub" and "distinct (map lr_stream_name (rs @ [r]))" and "length rs < 256"
    and r: "r = \<lparr>lr_stream_name = lowercase_symbol s @ kSuffixes ! k, lr_normalized_symbol = s,
      lr_symbol_index = i, lr_stream_kind = kKinds ! k\<rparr>"
  shows "\<exists>sub'. add_route sub i s k = Some sub' \<and> built venue xs (rs @ [r]) sub'"
proof -
  let ?t = "(if length (ls_routes sub) \<noteq> 0 then ls_target sub @ ''/'' else ls_target sub) @ lr_stream_name r"
  obtain l where "insert_route (sub\<lparr>ls_target := ?t, ls_routes := ls_routes sub @ [r]\<rparr>) (length (ls_routes sub)) =
      (True, sub\<lparr>ls_target := ?t, ls_routes := ls_routes sub @ [r], ls_lookup := l\<rparr>)" "table_ok (ls_routes sub @ [r]) l"
    using insert_new_route [of sub r ?t] assms(1-3) by (auto simp: built_def)
  then show ?thesis
    using b r joined_snoc [of "map lr_stream_name rs" "lr_stream_name r"]
    by (auto simp: add_route_def Let_def built_def)
qed

lemma add_routes_built:
  assumes "built venue xs rs sub" and "distinct (map lr_stream_name (rs @ map route ks))"
    and "length rs + length ks \<le> 256"
    and r: "\<And>k. route k = \<lparr>lr_stream_name = lowercase_symbol s @ kSuffixes ! k, lr_normalized_symbol = s,
      lr_symbol_index = i, lr_stream_kind = kKinds ! k\<rparr>"
  shows "\<exists>sub'. add_routes sub i s ks = Some sub' \<and> built venue xs (rs @ map route ks) sub'"
  using assms(1-3)
proof (induction ks arbitrary: rs sub)
  case (Cons k ks)
  obtain sub1 where "add_route sub i s k = Some sub1" "built venue xs (rs @ [route k]) sub1"
    using add_route_built [OF Cons.prems(1) _ _ r, of k] Cons.prems(2,3) by auto
  with Cons.IH [of "rs @ [route k]" sub1] Cons.prems show ?case by auto
qed simp

lemma subscribed_snoc_length: "length (subscribed i xs) = 3 * length xs"
  by (induction xs arbitrary: i) (auto simp: routes_of_def)

lemma add_symbols_built:
  assumes "built venue xs rs sub" and "distinct (map lr_stream_name (rs @ subscribed i ys))"
    and "length rs + 3 * length ys \<le> 256"
  shows "\<exists>sub'. add_symbols sub i ys = Some sub' \<and> built venue (xs @ ys) (rs @ subscribed i ys) sub'"
  using assms
proof (induction ys arbitrary: xs rs sub i)
  case (Cons s ys)
  let ?sub = "sub\<lparr>ls_symbols := ls_symbols sub @ [s]\<rparr>"
  let ?route = "\<lambda>k. \<lparr>lr_stream_name = lowercase_symbol s @ kSuffixes ! k, lr_normalized_symbol = s,
      lr_symbol_index = i, lr_stream_kind = kKinds ! k\<rparr>"
  have "built venue (xs @ [s]) rs ?sub" using Cons.prems(1) by (simp add: built_def)
  then obtain sub1 where "add_routes ?sub i s [0 ..< kStreamsPerSymbol] = Some sub1"
      "built venue (xs @ [s]) (rs @ routes_of i s) sub1"
    using add_routes_built [of venue "xs @ [s]" rs ?sub ?route "[0 ..< kStreamsPerSymbol]" s i] Cons.prems(2,3)
    by (simp add: routes_of_def kStreamsPerSymbol_def Int_Un_distrib) blast
  with Cons.IH [of "xs @ [s]" "rs @ routes_of i s" sub1 "Suc i"] Cons.prems(2,3) show ?case
    by (auto simp: routes_of_def)
qed simp

section \<open>The size of the target\<close>

lemma checked_size_add_small: "a + b \<le> size_max \<Longrightarrow> checked_size_add a b = Some (a + b)"
  by (simp add: checked_size_add_def)

lemma add_symbol_sizes_exact:
  "n + sum_list (map (\<lambda>s. 3 * length s + 31) xs) \<le> size_max \<Longrightarrow>
   add_symbol_sizes n xs = Some (n + sum_list (map (\<lambda>s. 3 * length s + 31) xs))"
  by (induction xs arbitrary: n) (simp_all add: kSuffixes_def checked_size_add_small)

lemma joined_length: "xs \<noteq> [] \<Longrightarrow> length (joined xs) = sum_list (map length xs) + (length xs - 1)"
  by (induction xs rule: joined.induct) auto

lemma names_length:
  "sum_list (map (length \<circ> lr_stream_name) (subscribed i xs)) = sum_list (map (\<lambda>s. 3 * length s + 31) xs)"
  by (induction xs arbitrary: i) (simp_all add: routes_of_def kSuffixes_def lowercase_symbol_def upt_rec)

lemma sizes_bound:
  "list_all is_normalized_symbol xs \<Longrightarrow> sum_list (map (\<lambda>s. 3 * length s + 31) xs) \<le> 127 * length xs"
  by (induction xs) (auto simp: normalized_symbol_iff)


section \<open>The subscription of a symbol set\<close>

lemma target_size_exact:
  assumes "list_all is_normalized_symbol xs" "xs \<noteq> []" "length xs \<le> 32" "n \<le> 23"
  shows "checked_combined_target_size n (Some xs) (length xs) =
    \<lparr>cts_bytes = n + length (joined (map lr_stream_name (subscribed i xs))), cts_error = SUB_none\<rparr>"
    and "n + length (joined (map lr_stream_name (subscribed i xs))) \<le> kMaxCombinedTargetBytes"
proof -
  let ?m = "sum_list (map (\<lambda>s. 3 * length s + 31) xs)"
  have m: "?m \<le> 127 * 32" using sizes_bound [OF assms(1)] assms(3) by simp
  have "subscribed i xs \<noteq> []" using assms(2) subscribed_snoc_length [of i xs] by auto
  then have j: "length (joined (map lr_stream_name (subscribed i xs))) = ?m + (3 * length xs - 1)"
    by (simp add: joined_length names_length subscribed_snoc_length o_def [symmetric])
  have "add_symbol_sizes n xs = Some (n + ?m)"
    using m assms(4) by (intro add_symbol_sizes_exact) (simp add: size_max_def)
  moreover have "checked_size_add (n + ?m) (3 * length xs - 1) = Some (n + ?m + (3 * length xs - 1))"
    using m assms(3,4) by (intro checked_size_add_small) (simp add: size_max_def)
  ultimately show "checked_combined_target_size n (Some xs) (length xs) =
    \<lparr>cts_bytes = n + length (joined (map lr_stream_name (subscribed i xs))), cts_error = SUB_none\<rparr>"
    unfolding j using assms(2,3)
    by (simp add: checked_combined_target_size_def kMaxConfiguredSymbols_def kStreamsPerSymbol_def
        kMaxDerivedStreams_def size_max_def mult.commute)
  show "n + length (joined (map lr_stream_name (subscribed i xs))) \<le> kMaxCombinedTargetBytes"
    unfolding j using m assms(3,4) by (simp add: kMaxCombinedTargetBytes_def)
qed

lemma prefix_short: "length (ep_combined_target_prefix (production_endpoint venue)) \<le> 23"
  by (cases venue) simp_all

lemma endpoint_host: "ep_host (production_endpoint venue) \<noteq> []"
  by (cases venue) simp_all

lemma create_built:
  assumes v: "symset_has_value (validate_symbol_set (Some xs) (length xs))"
    and n: "list_all is_normalized_symbol xs" "distinct xs" "0 < length xs" "length xs \<le> 32"
  shows "\<exists>sub. create_subscription venue (Some xs) (length xs) True = Inr sub \<and> built venue xs (subscribed 0 xs) sub"
proof -
  let ?e = "(empty_subscription venue)\<lparr>ls_target := ep_combined_target_prefix (production_endpoint venue)\<rparr>"
  have "built venue [] [] ?e"
    using rt.table_inv_empty
    by (simp add: built_def empty_subscription_def table_ok_def slots_def [abs_def] kNoSymbolIndex_def)
  then obtain sub where sub: "add_symbols ?e 0 xs = Some sub" "built venue xs (subscribed 0 xs) sub"
    using add_symbols_built [of venue "[]" "[]" ?e 0 xs] stream_names_distinct [OF n(1,2)] n(4) by auto
  have "xs \<noteq> []" using n(3) by simp
  note size = target_size_exact [OF n(1) this n(4) prefix_short [of venue], of 0]
  have "length (ls_target sub) =
      length (ep_combined_target_prefix (production_endpoint venue)) +
      length (joined (map lr_stream_name (subscribed 0 xs)))"
    using sub(2) by (simp add: built_def)
  then show ?thesis
    using sub size v endpoint_host [of venue] by (simp add: create_subscription_def Let_def)
qed

text \<open>
  C24: for every list of names the subscription is built exactly when the set is valid (1 to 32
  different normalized symbols with different identifiers), and memory suffices,
  never failing for the size of the target or the route table.  Then the target is the venue's prefix followed by the three streams of each symbol
  joined by slashes, within 8192 bytes, and a lookup of any text returns the one route with that stream
  name, or the error for unknown or over-long names; otherwise the error carries
  the symbol error.
\<close>

theorem subscription_exact:
  "case create_subscription venue (Some xs) (length xs) allocated of
     Inl e \<Rightarrow>
       if symset_has_value (validate_symbol_set (Some xs) (length xs))
       then \<not> allocated \<and> sub_code e = SUB_allocation_failure
       else sub_code e = SUB_invalid_symbols \<and>
         sub_symbol_error e = symset_error (validate_symbol_set (Some xs) (length xs))
   | Inr sub \<Rightarrow> symset_has_value (validate_symbol_set (Some xs) (length xs)) \<and>
       ls_target sub = ep_combined_target_prefix (production_endpoint venue) @
         joined (map lr_stream_name (subscribed 0 xs)) \<and>
       length (ls_target sub) \<le> 8192 \<and> ls_symbols sub = xs \<and> ls_routes sub = subscribed 0 xs \<and>
       distinct (map lr_stream_name (subscribed 0 xs)) \<and>
       (\<forall>name. find_route sub name = lookup_among (subscribed 0 xs) name)"
proof (cases "symset_has_value (validate_symbol_set (Some xs) (length xs))")
  case True
  then have valid: "list_all is_normalized_symbol xs" "distinct xs" "0 < length xs" "length xs \<le> 32"
    by (simp_all add: symbol_set_valid_iff)
  obtain sub where sub: "create_subscription venue (Some xs) (length xs) True = Inr sub"
    "built venue xs (subscribed 0 xs) sub"
    using create_built [OF True] valid by blast
  have ok: "length (ls_target sub) \<le> 8192"
    using target_size_exact(2) [OF valid(1) _ valid(4) prefix_short [of venue], of 0] valid(3) sub(2)
    by (simp add: built_def kMaxCombinedTargetBytes_def)
  have tab: "table_ok (subscribed 0 xs) (ls_lookup sub)" using sub(2) by (simp add: built_def)
  show ?thesis
  proof (cases allocated)
    case True
    then show ?thesis
      using \<open>symset_has_value _\<close> ok tab sub find_route_among [of sub] by (simp add: built_def table_ok_def)
  next
    case False
    have "xs \<noteq> []" using valid(3) by simp
    note size = target_size_exact [OF valid(1) this valid(4) prefix_short [of venue], of 0]
    show ?thesis
      using False \<open>symset_has_value _\<close> size endpoint_host [of venue]
      by (simp add: create_subscription_def Let_def subscription_error_def)
  qed
next
  case False
  then show ?thesis using endpoint_host [of venue] by (simp add: create_subscription_def Let_def subscription_error_def)
qed

end
