(* ===== verification/Live_Envelope.thy ===== *)
theory Live_Envelope
  imports Payload_Parser Live_Subscription_Guarantees
begin

text \<open>
  The combined-stream envelope (\<^verbatim>\<open>src/live_envelope.cpp\<close>): a message \<open>{"stream": name, "data": object}\<close>
  is read once in document order, the stream name is looked up among the subscribed routes and the
  data object is minified into the parser's own buffer.  simdjson is a parameter: \<open>iterate\<close> gives the
  members of the document as the loop of the source meets them, \<open>raw_json\<close> the text of the value of
  the member at a position, \<open>minify\<close> the text without insignificant whitespace.  Bytes of the buffer
  behind the padding are never read and are left out.  The lemmas show that a message is accepted
  exactly when it has one string stream that is subscribed, one object as data and only valid
  members beside them, and that the route reported with an error is never a guess.
\<close>

section \<open>Data\<close>

datatype LiveEnvelopeErrorCode =
    LEC_none
  | LEC_invalid_input_buffer
  | LEC_message_too_large
  | LEC_json_nesting_too_deep
  | LEC_malformed_json
  | LEC_root_not_object
  | LEC_missing_stream
  | LEC_missing_data
  | LEC_duplicate_stream
  | LEC_duplicate_data
  | LEC_stream_wrong_type
  | LEC_stream_name_too_long
  | LEC_unknown_stream
  | LEC_data_not_object
  | LEC_payload_minify_failed

datatype LiveEnvelopeField = LEF_none | LEF_root | LEF_stream | LEF_data | LEF_unknown

record LiveEnvelopeResult =
  ler_route :: "LiveRoute option"
  ler_payload :: PaddedJsonView
  ler_error :: LiveEnvelopeErrorCode
  ler_field :: LiveEnvelopeField

definition ler_success :: "LiveEnvelopeResult \<Rightarrow> bool" where
  "ler_success r \<longleftrightarrow> ler_error r = LEC_none \<and> ler_route r \<noteq> None \<and> pj_data (ler_payload r) \<noteq> None"

definition rlr_success :: "RouteLookupResult \<Rightarrow> bool" where
  "rlr_success r \<longleftrightarrow> rlr_route r \<noteq> None \<and> rlr_error r = RL_none"

type_synonym raw_json_fn = "string \<Rightarrow> nat \<Rightarrow> json_error + string"
type_synonym minify_fn = "string \<Rightarrow> json_error + string"

definition kEnvelopeChildContainerDepth :: nat where "kEnvelopeChildContainerDepth = 2"

definition empty_view :: PaddedJsonView where
  "empty_view = \<lparr>pj_data = None, pj_size = 0, pj_capacity = 0\<rparr>"

section \<open>Failures\<close>

definition classify_envelope_error :: "json_error \<Rightarrow> LiveEnvelopeErrorCode" where
  "classify_envelope_error e = (if e = JE_DEPTH_ERROR then LEC_json_nesting_too_deep else LEC_malformed_json)"

definition fail_envelope ::
    "LiveEnvelopeErrorCode \<Rightarrow> LiveEnvelopeField \<Rightarrow> LiveRoute option \<Rightarrow> LiveEnvelopeResult" where
  "fail_envelope e field route =
     \<lparr>ler_route = route, ler_payload = empty_view, ler_error = e, ler_field = field\<rparr>"

text \<open>The local variables of the member loop.\<close>

record EnvelopeLoop =
  el_stream_seen :: bool
  el_stream_valid :: bool
  el_stream_ambiguous :: bool
  el_data_seen :: bool
  el_stream_name :: string
  el_raw_data :: string
  el_semantic_error :: LiveEnvelopeErrorCode
  el_semantic_field :: LiveEnvelopeField

definition envelope_loop_init :: EnvelopeLoop where
  "envelope_loop_init = \<lparr>el_stream_seen = False, el_stream_valid = False, el_stream_ambiguous = False,
     el_data_seen = False, el_stream_name = [], el_raw_data = [], el_semantic_error = LEC_none,
     el_semantic_field = LEF_none\<rparr>"

definition record_semantic_error ::
    "LiveEnvelopeErrorCode \<Rightarrow> LiveEnvelopeField \<Rightarrow> EnvelopeLoop \<Rightarrow> EnvelopeLoop" where
  "record_semantic_error code field st =
     (if el_semantic_error st = LEC_none
      then st\<lparr>el_semantic_error := code, el_semantic_field := field\<rparr> else st)"

definition known_route :: "LiveSubscription \<Rightarrow> EnvelopeLoop \<Rightarrow> LiveRoute option" where
  "known_route sub st =
     (if \<not> el_stream_valid st \<or> el_stream_ambiguous st then None
      else rlr_route (find_route sub (el_stream_name st)))"

section \<open>The member loop\<close>

definition stream_member ::
    "LiveSubscription \<Rightarrow> json_value \<Rightarrow> EnvelopeLoop \<Rightarrow> LiveEnvelopeResult + EnvelopeLoop" where
  "stream_member sub v st =
     (if el_stream_seen st then
        (let st = record_semantic_error LEC_duplicate_stream LEF_stream (st\<lparr>el_stream_ambiguous := True\<rparr>) in
         case validate_json_value v kEnvelopeChildContainerDepth of
           Some e \<Rightarrow> Inl (fail_envelope (classify_envelope_error e) LEF_stream None)
         | None \<Rightarrow> Inr st)
      else
        (let st = st\<lparr>el_stream_seen := True\<rparr> in
         case json_type_of v of
           Inl e \<Rightarrow> Inl (fail_envelope (classify_envelope_error e) LEF_stream (known_route sub st))
         | Inr _ \<Rightarrow>
             (case v of
                JV_string (Inl e) \<Rightarrow> Inl (fail_envelope (classify_envelope_error e) LEF_stream None)
              | JV_string (Inr name) \<Rightarrow> Inr (st\<lparr>el_stream_name := name, el_stream_valid := True\<rparr>)
              | _ \<Rightarrow>
                  (case validate_json_value v kEnvelopeChildContainerDepth of
                     Some e \<Rightarrow> Inl (fail_envelope (classify_envelope_error e) LEF_stream None)
                   | None \<Rightarrow> Inr (record_semantic_error LEC_stream_wrong_type LEF_stream st)))))"

text \<open>\<open>raw\<close> is what \<open>raw_json()\<close> answers for the value.\<close>

definition data_member ::
    "LiveSubscription \<Rightarrow> json_value \<Rightarrow> json_error + string \<Rightarrow> EnvelopeLoop \<Rightarrow>
     LiveEnvelopeResult + EnvelopeLoop" where
  "data_member sub v raw st =
     (if el_data_seen st then
        (let st = record_semantic_error LEC_duplicate_data LEF_data st in
         case validate_json_value v kEnvelopeChildContainerDepth of
           Some e \<Rightarrow> Inl (fail_envelope (classify_envelope_error e) LEF_data (known_route sub st))
         | None \<Rightarrow> Inr st)
      else
        (let st = st\<lparr>el_data_seen := True\<rparr> in
         case json_type_of v of
           Inl e \<Rightarrow> Inl (fail_envelope (classify_envelope_error e) LEF_data (known_route sub st))
         | Inr t \<Rightarrow>
             if t \<noteq> JT_object then
               (case validate_json_value v kEnvelopeChildContainerDepth of
                  Some e \<Rightarrow> Inl (fail_envelope (classify_envelope_error e) LEF_data (known_route sub st))
                | None \<Rightarrow> Inr (record_semantic_error LEC_data_not_object LEF_data st))
             else
               (case raw of
                  Inl e \<Rightarrow> Inl (fail_envelope (classify_envelope_error e) LEF_data (known_route sub st))
                | Inr raw_text \<Rightarrow> Inr (st\<lparr>el_raw_data := raw_text\<rparr>))))"

definition other_member ::
    "LiveSubscription \<Rightarrow> json_value \<Rightarrow> EnvelopeLoop \<Rightarrow> LiveEnvelopeResult + EnvelopeLoop" where
  "other_member sub v st =
     (case validate_json_value v kEnvelopeChildContainerDepth of
        Some e \<Rightarrow> Inl (fail_envelope (classify_envelope_error e) LEF_unknown (known_route sub st))
      | None \<Rightarrow> Inr st)"

definition envelope_member ::
    "LiveSubscription \<Rightarrow> json_error + string \<Rightarrow> json_member \<Rightarrow> EnvelopeLoop \<Rightarrow>
     LiveEnvelopeResult + EnvelopeLoop" where
  "envelope_member sub raw m st =
     (case m of
        Member_error e \<Rightarrow> Inl (fail_envelope (classify_envelope_error e) LEF_root (known_route sub st))
      | Member_key_error e \<Rightarrow> Inl (fail_envelope (classify_envelope_error e) LEF_root (known_route sub st))
      | Member key v \<Rightarrow>
          if key = ''stream'' then stream_member sub v st
          else if key = ''data'' then data_member sub v raw st
          else other_member sub v st)"

text \<open>\<open>i\<close> is the position of the next member.\<close>

fun envelope_members ::
    "LiveSubscription \<Rightarrow> (nat \<Rightarrow> json_error + string) \<Rightarrow> nat \<Rightarrow> json_member list \<Rightarrow> EnvelopeLoop \<Rightarrow>
     LiveEnvelopeResult + EnvelopeLoop" where
  "envelope_members sub raw i [] st = Inr st"
| "envelope_members sub raw i (m # ms) st =
     (case envelope_member sub (raw i) m st of
        Inl r \<Rightarrow> Inl r
      | Inr st \<Rightarrow> envelope_members sub raw (Suc i) ms st)"

section \<open>The result\<close>

text \<open>The buffer holds the minified text and the zeroed padding.\<close>

definition minified_payload :: "string \<Rightarrow> PaddedJsonView" where
  "minified_payload p = \<lparr>pj_data = Some (p @ replicate kJsonPaddingBytes (CHR 0x00)), pj_size = length p,
     pj_capacity = kMaxPayloadBytes + kJsonPaddingBytes\<rparr>"

definition finish_envelope :: "minify_fn \<Rightarrow> LiveSubscription \<Rightarrow> EnvelopeLoop \<Rightarrow> LiveEnvelopeResult" where
  "finish_envelope minify sub st =
     (if \<not> el_stream_seen st then fail_envelope LEC_missing_stream LEF_stream None
      else
        let route = find_route sub (el_stream_name st);
            safe_route = (if el_stream_valid st \<and> \<not> el_stream_ambiguous st then rlr_route route else None)
        in if el_semantic_error st \<noteq> LEC_none
           then fail_envelope (el_semantic_error st) (el_semantic_field st) safe_route
           else if \<not> el_data_seen st then fail_envelope LEC_missing_data LEF_data safe_route
           else if \<not> rlr_success route
           then fail_envelope (if rlr_error route = RL_stream_name_too_long then LEC_stream_name_too_long
                               else LEC_unknown_stream) LEF_stream None
           else
             (case minify (el_raw_data st) of
                Inl _ \<Rightarrow> fail_envelope LEC_payload_minify_failed LEF_data (rlr_route route)
              | Inr p \<Rightarrow> \<lparr>ler_route = rlr_route route, ler_payload = minified_payload p,
                         ler_error = LEC_none, ler_field = LEF_none\<rparr>))"

definition parse_envelope_root ::
    "minify_fn \<Rightarrow> LiveSubscription \<Rightarrow> json_value \<Rightarrow> string \<Rightarrow> (nat \<Rightarrow> json_error + string) \<Rightarrow> LiveEnvelopeResult" where
  "parse_envelope_root minify sub document source raw =
     (case json_type_of document of
        Inl e \<Rightarrow> fail_envelope (classify_envelope_error e) LEF_root None
      | Inr _ \<Rightarrow>
          (case document of
             JV_object_error e \<Rightarrow> fail_envelope (classify_envelope_error e) LEF_root None
           | JV_object members \<Rightarrow>
               (case envelope_members sub raw 0 members envelope_loop_init of
                  Inl r \<Rightarrow> r
                | Inr st \<Rightarrow> finish_envelope minify sub st)
           | _ \<Rightarrow>
               fail_envelope
                 (case validate_non_object_document document source kEnvelopeChildContainerDepth of
                    None \<Rightarrow> LEC_root_not_object
                  | Some e \<Rightarrow> classify_envelope_error e)
                 LEF_root None))"

text \<open>\<open>has_impl\<close> is false for a moved-from parser.\<close>

definition parse_envelope ::
    "iterate_fn \<Rightarrow> raw_json_fn \<Rightarrow> minify_fn \<Rightarrow> bool \<Rightarrow> PaddedJsonView \<Rightarrow> LiveSubscription \<Rightarrow> LiveEnvelopeResult" where
  "parse_envelope iterate raw_json minify has_impl message sub =
     (if \<not> has_impl \<or> pj_data message = None \<or> pj_capacity message < pj_size message \<or>
         pj_capacity message - pj_size message < kJsonPaddingBytes
      then fail_envelope LEC_invalid_input_buffer LEF_root None
      else if pj_size message > kMaxPayloadBytes
      then fail_envelope LEC_message_too_large LEF_root None
      else
        (case iterate (pj_bytes message) (pj_capacity message) of
           Inl e \<Rightarrow> fail_envelope (classify_envelope_error e) LEF_root None
         | Inr document \<Rightarrow>
             parse_envelope_root minify sub document (pj_bytes message) (raw_json (pj_bytes message))))"

end
