(* ===== verification/Live_Envelope_Guarantees.thy ===== *)
theory Live_Envelope_Guarantees
  imports Live_Envelope
begin

text \<open>
  What the envelope parser accepts and which route it reports.  The specification looks at the
  members of the document as a whole: the values under a key and their positions; the parser sees
  them once, in order, and records the first schema error.
\<close>

section \<open>The members of a document\<close>

fun streams :: "json_member list \<Rightarrow> json_value list" where
  "streams [] = []"
| "streams (Member key v # ms) = (if key = ''stream'' then v # streams ms else streams ms)"
| "streams (_ # ms) = streams ms"

fun datas :: "nat \<Rightarrow> json_member list \<Rightarrow> (nat \<times> json_value) list" where
  "datas i [] = []"
| "datas i (Member key v # ms) = (if key = ''data'' then (i, v) # datas (Suc i) ms else datas (Suc i) ms)"
| "datas i (_ # ms) = datas (Suc i) ms"

text \<open>No member is an error, and every value beside stream and data is valid JSON.\<close>

fun others_valid :: "json_member list \<Rightarrow> bool" where
  "others_valid [] = True"
| "others_valid (Member key v # ms) =
     ((key \<notin> {''stream'', ''data''} \<longrightarrow> validate_json_value v kEnvelopeChildContainerDepth = None) \<and> others_valid ms)"
| "others_valid (_ # ms) = False"

lemma streams_append [simp]: "streams (ms @ ms') = streams ms @ streams ms'"
  by (induction ms rule: streams.induct) auto

section \<open>Accepted members\<close>

definition absorb_stream :: "json_value list \<Rightarrow> EnvelopeLoop \<Rightarrow> EnvelopeLoop" where
  "absorb_stream vs st =
     (case vs of
        JV_string (Inr s) # _ \<Rightarrow> st\<lparr>el_stream_seen := True, el_stream_valid := True, el_stream_name := s\<rparr>
      | _ \<Rightarrow> st)"

definition absorb_data :: "(nat \<Rightarrow> json_error + string) \<Rightarrow> (nat \<times> json_value) list \<Rightarrow> EnvelopeLoop \<Rightarrow> EnvelopeLoop" where
  "absorb_data raw ds st =
     (case ds of
        (i, _) # _ \<Rightarrow> st\<lparr>el_data_seen := True, el_raw_data := projr (raw i)\<rparr>
      | _ \<Rightarrow> st)"

definition stream_fits :: "bool \<Rightarrow> json_value list \<Rightarrow> bool" where
  "stream_fits seen vs \<longleftrightarrow> vs = [] \<or> \<not> seen \<and> (\<exists>s. vs = [JV_string (Inr s)])"

definition data_fits :: "(nat \<Rightarrow> json_error + string) \<Rightarrow> bool \<Rightarrow> (nat \<times> json_value) list \<Rightarrow> bool" where
  "data_fits raw seen ds \<longleftrightarrow> ds = [] \<or>
     \<not> seen \<and> (\<exists>i v raw_text. ds = [(i, v)] \<and> json_type_of v = Inr JT_object \<and> raw i = Inr raw_text)"

lemmas absorb_defs = absorb_stream_def absorb_data_def stream_fits_def data_fits_def

lemma record_semantic_error_set [simp]:
  "code \<noteq> LEC_none \<Longrightarrow> el_semantic_error (record_semantic_error code field st) \<noteq> LEC_none"
  by (simp add: record_semantic_error_def)

lemma semantic_error_kept:
  "envelope_member sub raw m st = Inr st' \<Longrightarrow> el_semantic_error st \<noteq> LEC_none \<Longrightarrow>
   el_semantic_error st' = el_semantic_error st"
  by (auto simp: envelope_member_def stream_member_def data_member_def other_member_def Let_def
      record_semantic_error_def split: json_member.splits if_splits option.splits sum.splits json_value.splits)

lemma semantic_error_sticks:
  "envelope_members sub raw i ms st = Inr st' \<Longrightarrow> el_semantic_error st \<noteq> LEC_none \<Longrightarrow>
   el_semantic_error st' \<noteq> LEC_none"
proof (induction ms arbitrary: i st)
  case (Cons m ms)
  then show ?case using semantic_error_kept by (fastforce split: sum.splits)
qed simp

lemma stream_member_clean:
  "stream_member sub v st = Inr st' \<and> el_semantic_error st' = LEC_none \<longleftrightarrow>
   el_semantic_error st = LEC_none \<and> stream_fits (el_stream_seen st) [v] \<and> st' = absorb_stream [v] st"
  by (cases v; cases "el_stream_seen st"; cases "el_semantic_error st = LEC_none")
    (auto simp: stream_member_def absorb_defs record_semantic_error_def Let_def error_of_def
      split: option.splits sum.splits if_splits)

lemma data_member_clean:
  "data_member sub v (raw i) st = Inr st' \<and> el_semantic_error st' = LEC_none \<longleftrightarrow>
   el_semantic_error st = LEC_none \<and> data_fits raw (el_data_seen st) [(i, v)] \<and> st' = absorb_data raw [(i, v)] st"
  by (cases "el_data_seen st"; cases "el_semantic_error st = LEC_none")
    (auto simp: data_member_def absorb_defs record_semantic_error_def Let_def
      split: option.splits sum.splits if_splits)

text \<open>A run without a schema error: at most one stream, at most one data, in any order.\<close>

definition clean_run ::
    "(nat \<Rightarrow> json_error + string) \<Rightarrow> nat \<Rightarrow> json_member list \<Rightarrow> EnvelopeLoop \<Rightarrow> EnvelopeLoop \<Rightarrow> bool" where
  "clean_run raw i ms st st' \<longleftrightarrow> others_valid ms \<and> stream_fits (el_stream_seen st) (streams ms) \<and>
     data_fits raw (el_data_seen st) (datas i ms) \<and>
     st' = absorb_data raw (datas i ms) (absorb_stream (streams ms) st)"

lemma absorb_stream_then:
  "stream_fits (el_stream_seen st) [v] \<Longrightarrow>
   clean_run raw (Suc i) ms (absorb_stream [v] st) st' \<longleftrightarrow> clean_run raw i (Member ''stream'' v # ms) st st'"
  by (cases "streams ms") (auto simp: clean_run_def absorb_defs split: list.splits prod.splits)

lemma absorb_data_then:
  "data_fits raw (el_data_seen st) [(i, v)] \<Longrightarrow>
   clean_run raw (Suc i) ms (absorb_data raw [(i, v)] st) st' \<longleftrightarrow> clean_run raw i (Member ''data'' v # ms) st st'"
  by (cases "datas (Suc i) ms")
    (auto simp: clean_run_def absorb_defs split: list.splits prod.splits json_value.splits sum.splits)

lemma members_clean_iff:
  "envelope_members sub raw i ms st = Inr st' \<and> el_semantic_error st' = LEC_none \<longleftrightarrow>
   el_semantic_error st = LEC_none \<and> clean_run raw i ms st st'"
proof (induction ms arbitrary: i st)
  case Nil
  then show ?case by (auto simp: clean_run_def absorb_defs)
next
  case (Cons m ms)
  have step: "envelope_members sub raw i (m # ms) st = Inr st' \<and> el_semantic_error st' = LEC_none \<longleftrightarrow>
      (\<exists>st1. (envelope_member sub (raw i) m st = Inr st1 \<and> el_semantic_error st1 = LEC_none) \<and>
         clean_run raw (Suc i) ms st1 st')"
    using Cons.IH [of "Suc i"] semantic_error_sticks [of sub raw "Suc i" ms _ st']
    by (auto split: sum.splits)
  show ?case
  proof (cases m)
    case (Member key v)
    consider "key = ''stream''" | "key = ''data''" | "key \<notin> {''stream'', ''data''}" by blast
    then show ?thesis
    proof cases
      case 1
      then show ?thesis unfolding step unfolding Member
        using absorb_stream_then [of st v raw i ms st']
        by (simp add: envelope_member_def stream_member_clean) (auto simp: clean_run_def stream_fits_def)
    next
      case 2
      then show ?thesis unfolding step unfolding Member
        using absorb_data_then [of raw st i v ms st']
        by (simp add: envelope_member_def data_member_clean) (auto simp: clean_run_def data_fits_def)
    next
      case 3
      then show ?thesis unfolding step unfolding Member
        by (auto simp: envelope_member_def other_member_def clean_run_def split: option.splits)
    qed
  qed (unfold step, auto simp: envelope_member_def clean_run_def)
qed

section \<open>Reported routes\<close>

text \<open>While the stream is known it is the only stream among the members read so far.\<close>

definition stream_known :: "json_member list \<Rightarrow> EnvelopeLoop \<Rightarrow> bool" where
  "stream_known ms st \<longleftrightarrow> (el_stream_seen st \<longleftrightarrow> streams ms \<noteq> []) \<and>
     (el_stream_valid st \<and> \<not> el_stream_ambiguous st \<longrightarrow> streams ms = [JV_string (Inr (el_stream_name st))])"

definition attributed :: "LiveSubscription \<Rightarrow> json_member list \<Rightarrow> LiveRoute \<Rightarrow> bool" where
  "attributed sub ms route \<longleftrightarrow>
     (\<exists>s. streams ms = [JV_string (Inr s)] \<and> rlr_route (find_route sub s) = Some route)"

lemma known_route_attributed: "stream_known ms st \<Longrightarrow> known_route sub st = Some route \<Longrightarrow> attributed sub ms route"
  by (auto simp: stream_known_def known_route_def attributed_def split: if_splits)

lemma known_route_frame [simp]:
  "known_route sub (record_semantic_error code field st) = known_route sub st"
  "known_route sub (st\<lparr>el_data_seen := b\<rparr>) = known_route sub st"
  "known_route sub (st\<lparr>el_stream_seen := b\<rparr>) = known_route sub st"
  by (auto simp: known_route_def record_semantic_error_def)

lemma stream_known_frame [simp]:
  "stream_known ms (record_semantic_error code field st) = stream_known ms st"
  "stream_known ms (st\<lparr>el_data_seen := b\<rparr>) = stream_known ms st"
  "stream_known ms (st\<lparr>el_raw_data := r\<rparr>) = stream_known ms st"
  by (simp_all add: stream_known_def record_semantic_error_def)

lemma member_failure_route:
  "envelope_member sub raw m st = Inl r \<Longrightarrow> ler_route r = None \<or> ler_route r = known_route sub st"
  by (auto simp: envelope_member_def stream_member_def data_member_def other_member_def Let_def fail_envelope_def
      split: json_member.splits if_splits option.splits sum.splits json_value.splits)

lemma member_failure_code: "envelope_member sub raw m st = Inl r \<Longrightarrow> ler_error r \<noteq> LEC_none"
  by (auto simp: envelope_member_def stream_member_def data_member_def other_member_def Let_def fail_envelope_def
      classify_envelope_error_def
      split: json_member.splits if_splits option.splits sum.splits json_value.splits)

lemma member_stream_known:
  assumes "stream_known pre st" and "envelope_member sub raw m st = Inr st'"
    and "el_stream_valid st \<longrightarrow> el_stream_seen st"
  shows "stream_known (pre @ [m]) st' \<and> (el_stream_valid st' \<longrightarrow> el_stream_seen st')"
proof (cases m)
  case (Member key v)
  consider "key = ''stream''" | "key = ''data''" | "key \<notin> {''stream'', ''data''}" by blast
  then show ?thesis
  proof cases
    case 1
    with assms Member show ?thesis
      by (auto simp: envelope_member_def stream_member_def Let_def stream_known_def record_semantic_error_def
          split: if_splits option.splits sum.splits json_value.splits)
  next
    case 2
    with assms Member show ?thesis
      by (auto simp: envelope_member_def data_member_def Let_def stream_known_def record_semantic_error_def
          split: if_splits option.splits sum.splits)
  next
    case 3
    with assms Member show ?thesis
      by (auto simp: envelope_member_def other_member_def stream_known_def split: option.splits)
  qed
qed (use assms in \<open>auto simp: envelope_member_def\<close>)

lemma members_route:
  assumes "stream_known pre st" and "el_stream_valid st \<longrightarrow> el_stream_seen st"
  shows "case envelope_members sub raw i ms st of
      Inl r \<Rightarrow> ler_error r \<noteq> LEC_none \<and>
        (\<forall>route. ler_route r = Some route \<longrightarrow> (\<exists>k \<le> length ms. attributed sub (pre @ take k ms) route))
    | Inr st' \<Rightarrow> stream_known (pre @ ms) st'"
  using assms
proof (induction ms arbitrary: i st pre)
  case (Cons m ms)
  show ?case
  proof (cases "envelope_member sub (raw i) m st")
    case (Inl r)
    with member_failure_route [OF Inl] member_failure_code [OF Inl] known_route_attributed [OF Cons.prems(1)]
    show ?thesis by (auto intro: exI [of _ 0])
  next
    case (Inr st1)
    from member_stream_known [OF Cons.prems(1) Inr Cons.prems(2)]
    have IH: "case envelope_members sub raw (Suc i) ms st1 of
        Inl r \<Rightarrow> ler_error r \<noteq> LEC_none \<and>
          (\<forall>route. ler_route r = Some route \<longrightarrow> (\<exists>k \<le> length ms. attributed sub ((pre @ [m]) @ take k ms) route))
      | Inr st' \<Rightarrow> stream_known ((pre @ [m]) @ ms) st'"
      by (intro Cons.IH) auto
    have shift: "(\<exists>k \<le> length ms. attributed sub ((pre @ [m]) @ take k ms) route) \<Longrightarrow>
        (\<exists>k \<le> length (m # ms). attributed sub (pre @ take k (m # ms)) route)" for route
      by (metis Suc_le_mono append.assoc append_Cons append_Nil length_Cons take_Suc_Cons)
    show ?thesis using IH shift Inr by (auto split: sum.splits)
  qed
qed simp

lemma finish_route:
  "stream_known ms st \<Longrightarrow> ler_route (finish_envelope minify sub st) = Some route \<Longrightarrow> 
   el_semantic_error st = LEC_none \<longrightarrow> el_stream_seen st \<longrightarrow> el_stream_valid st \<and> \<not> el_stream_ambiguous st \<Longrightarrow>
   attributed sub ms route"
  by (auto simp: finish_envelope_def fail_envelope_def stream_known_def attributed_def Let_def
      split: if_splits sum.splits)

section \<open>Accepted envelopes\<close>

text \<open>The members of an accepted document, its route and the text handed on.\<close>

definition envelope_of ::
    "minify_fn \<Rightarrow> LiveSubscription \<Rightarrow> (nat \<Rightarrow> json_error + string) \<Rightarrow> json_member list \<Rightarrow> LiveRoute \<Rightarrow> string \<Rightarrow> bool" where
  "envelope_of minify sub raw ms route p \<longleftrightarrow>
     others_valid ms \<and>
     (\<exists>s. streams ms = [JV_string (Inr s)] \<and> find_route sub s = \<lparr>rlr_route = Some route, rlr_error = RL_none\<rparr>) \<and>
     (\<exists>i v raw_text. datas 0 ms = [(i, v)] \<and> json_type_of v = Inr JT_object \<and> raw i = Inr raw_text \<and>
        minify raw_text = Inr p)"

definition accepted_result :: "LiveRoute \<Rightarrow> string \<Rightarrow> LiveEnvelopeResult" where
  "accepted_result route p =
     \<lparr>ler_route = Some route, ler_payload = minified_payload p, ler_error = LEC_none, ler_field = LEF_none\<rparr>"

lemma fail_envelope_no_success [simp]: "\<not> ler_success (fail_envelope e field route)"
  by (simp add: ler_success_def fail_envelope_def empty_view_def)

lemma finish_success_iff:
  "ler_success (finish_envelope minify sub st) \<longleftrightarrow>
   el_stream_seen st \<and> el_semantic_error st = LEC_none \<and> el_data_seen st \<and>
   (\<exists>route p. find_route sub (el_stream_name st) = \<lparr>rlr_route = Some route, rlr_error = RL_none\<rparr> \<and>
      minify (el_raw_data st) = Inr p \<and> finish_envelope minify sub st = accepted_result route p)"
proof -
  have "ler_success (accepted_result route p)" for route p
    by (simp add: ler_success_def accepted_result_def minified_payload_def)
  then show ?thesis
    by (cases "find_route sub (el_stream_name st)")
      (auto simp: finish_envelope_def accepted_result_def rlr_success_def Let_def split: sum.splits)
qed

lemma clean_from_start:
  "clean_run raw 0 ms envelope_loop_init st \<and> el_stream_seen st \<and> el_data_seen st \<longleftrightarrow>
   others_valid ms \<and>
   (\<exists>s i v raw_text. streams ms = [JV_string (Inr s)] \<and> datas 0 ms = [(i, v)] \<and>
      json_type_of v = Inr JT_object \<and> raw i = Inr raw_text \<and>
      st = envelope_loop_init\<lparr>el_stream_seen := True, el_stream_valid := True, el_stream_name := s,
             el_data_seen := True, el_raw_data := raw_text\<rparr>)"
  by (auto simp: clean_run_def absorb_defs envelope_loop_init_def)

lemma clean_stream_valid:
  "clean_run raw 0 ms envelope_loop_init st \<Longrightarrow>
   el_stream_seen st \<longrightarrow> el_stream_valid st \<and> \<not> el_stream_ambiguous st"
  by (auto simp: clean_run_def absorb_defs envelope_loop_init_def)

lemma init_known: "stream_known [] envelope_loop_init" "\<not> el_stream_valid envelope_loop_init"
    "el_semantic_error envelope_loop_init = LEC_none"
  by (simp_all add: stream_known_def envelope_loop_init_def)

definition object_result ::
    "minify_fn \<Rightarrow> LiveSubscription \<Rightarrow> (nat \<Rightarrow> json_error + string) \<Rightarrow> json_member list \<Rightarrow> LiveEnvelopeResult" where
  "object_result minify sub raw ms =
     (case envelope_members sub raw 0 ms envelope_loop_init of Inl r \<Rightarrow> r | Inr st \<Rightarrow> finish_envelope minify sub st)"

lemma object_success_iff:
  "ler_success (object_result minify sub raw ms) \<longleftrightarrow>
   (\<exists>route p. envelope_of minify sub raw ms route p \<and> object_result minify sub raw ms = accepted_result route p)"
proof (cases "envelope_members sub raw 0 ms envelope_loop_init")
  case (Inl r)
  then have failed: "ler_error r \<noteq> LEC_none"
    using members_route [OF init_known(1), where sub = sub and raw = raw and i = 0 and ms = ms] init_known(2) by simp
  then have "\<not> ler_success r" "r \<noteq> accepted_result route p" for route p
    by (auto simp: ler_success_def accepted_result_def)
  with Inl show ?thesis by (simp add: object_result_def)
next
  case (Inr st)
  have clean: "el_semantic_error st = LEC_none \<longleftrightarrow> clean_run raw 0 ms envelope_loop_init st"
    using members_clean_iff [of sub raw 0 ms envelope_loop_init st] Inr init_known(3) by auto
  have result: "object_result minify sub raw ms = finish_envelope minify sub st"
    by (simp add: object_result_def Inr)
  have "ler_success (finish_envelope minify sub st) \<longleftrightarrow>
      (clean_run raw 0 ms envelope_loop_init st \<and> el_stream_seen st \<and> el_data_seen st) \<and>
      (\<exists>route p. find_route sub (el_stream_name st) = \<lparr>rlr_route = Some route, rlr_error = RL_none\<rparr> \<and>
        minify (el_raw_data st) = Inr p \<and> finish_envelope minify sub st = accepted_result route p)"
    unfolding finish_success_iff clean by blast
  also have "\<dots> \<longleftrightarrow> (\<exists>route p. envelope_of minify sub raw ms route p \<and>
      finish_envelope minify sub st = accepted_result route p)"
  proof
    assume "\<exists>route p. envelope_of minify sub raw ms route p \<and> finish_envelope minify sub st = accepted_result route p"
    moreover have "ler_success (accepted_result route p)" for route p
      by (simp add: ler_success_def accepted_result_def minified_payload_def)
    ultimately have "ler_success (finish_envelope minify sub st)" by auto
    then show "(clean_run raw 0 ms envelope_loop_init st \<and> el_stream_seen st \<and> el_data_seen st) \<and>
      (\<exists>route p. find_route sub (el_stream_name st) = \<lparr>rlr_route = Some route, rlr_error = RL_none\<rparr> \<and>
        minify (el_raw_data st) = Inr p \<and> finish_envelope minify sub st = accepted_result route p)"
      unfolding finish_success_iff clean by blast
  qed (unfold clean_from_start, auto simp: envelope_of_def)
  finally show ?thesis unfolding result .
qed

text \<open>The other direction: a document of this shape is accepted.\<close>

lemma object_accepts:
  assumes "envelope_of minify sub raw ms route p"
  shows "object_result minify sub raw ms = accepted_result route p"
proof -
  obtain s i v raw_text where e: "others_valid ms" "streams ms = [JV_string (Inr s)]"
      "find_route sub s = \<lparr>rlr_route = Some route, rlr_error = RL_none\<rparr>" "datas 0 ms = [(i, v)]"
      "json_type_of v = Inr JT_object" "raw i = Inr raw_text" "minify raw_text = Inr p"
    using assms by (auto simp: envelope_of_def)
  let ?st = "envelope_loop_init\<lparr>el_stream_seen := True, el_stream_valid := True, el_stream_name := s,
             el_data_seen := True, el_raw_data := raw_text\<rparr>"
  have "clean_run raw 0 ms envelope_loop_init ?st" using clean_from_start [of raw ms ?st] e by auto
  then have "envelope_members sub raw 0 ms envelope_loop_init = Inr ?st"
    using members_clean_iff [of sub raw 0 ms envelope_loop_init ?st] init_known(3) by simp
  with e(3,7) show ?thesis
    by (simp add: object_result_def finish_envelope_def accepted_result_def rlr_success_def envelope_loop_init_def)
qed

lemma accepted_iff:
  "object_result minify sub raw ms = accepted_result route p \<longleftrightarrow> envelope_of minify sub raw ms route p"
proof
  assume eq: "object_result minify sub raw ms = accepted_result route p"
  then have "ler_success (object_result minify sub raw ms)"
    by (simp add: ler_success_def accepted_result_def minified_payload_def)
  then obtain route' p' where e: "envelope_of minify sub raw ms route' p'" using object_success_iff by blast
  with object_accepts eq have "accepted_result route' p' = accepted_result route p" by metis
  then have "route' = route" "p' = p" by (simp_all add: accepted_result_def minified_payload_def)
  with e show "envelope_of minify sub raw ms route p" by simp
qed (rule object_accepts)

lemma object_route:
  assumes "ler_route (object_result minify sub raw ms) = Some route"
  shows "\<exists>k \<le> length ms. attributed sub (take k ms) route"
proof (cases "envelope_members sub raw 0 ms envelope_loop_init")
  case (Inl r)
  then show ?thesis using assms init_known(2)
      members_route [OF init_known(1), where sub = sub and raw = raw and i = 0 and ms = ms]
    by (simp add: object_result_def)
next
  case (Inr st)
  then have "stream_known ms st" using init_known(2)
      members_route [OF init_known(1), where sub = sub and raw = raw and i = 0 and ms = ms] by simp
  moreover have "el_semantic_error st = LEC_none \<longrightarrow> el_stream_seen st \<longrightarrow>
      el_stream_valid st \<and> \<not> el_stream_ambiguous st"
    using members_clean_iff [of sub raw 0 ms envelope_loop_init st] Inr clean_stream_valid by blast
  ultimately have "attributed sub ms route"
    using finish_route assms Inr by (simp add: object_result_def)
  then show ?thesis by (intro exI [of _ "length ms"]) simp
qed

definition readable :: "bool \<Rightarrow> PaddedJsonView \<Rightarrow> bool" where
  "readable has_impl m \<longleftrightarrow> has_impl \<and> pj_data m \<noteq> None \<and> pj_size m + 64 \<le> pj_capacity m \<and> pj_size m \<le> 1048576"

lemma parse_envelope_document:
  "parse_envelope iterate raw_json minify has_impl m sub =
     (if \<not> has_impl \<or> pj_data m = None \<or> pj_capacity m < pj_size m + 64
      then fail_envelope LEC_invalid_input_buffer LEF_root None
      else if pj_size m > 1048576 then fail_envelope LEC_message_too_large LEF_root None
      else case iterate (pj_bytes m) (pj_capacity m) of
        Inl e \<Rightarrow> fail_envelope (classify_envelope_error e) LEF_root None
      | Inr document \<Rightarrow> parse_envelope_root minify sub document (pj_bytes m) (raw_json (pj_bytes m)))"
proof -
  have "(pj_capacity m < pj_size m \<or> pj_capacity m - pj_size m < 64) \<longleftrightarrow> pj_capacity m < pj_size m + 64" by arith
  then show ?thesis
    unfolding parse_envelope_def kJsonPaddingBytes_def kMaxPayloadBytes_def by presburger
qed

lemma envelope_root_cases:
  "(\<exists>ms. document = JV_object ms \<and> parse_envelope_root minify sub document source raw = object_result minify sub raw ms) \<or>
   (\<forall>ms. document \<noteq> JV_object ms) \<and>
     (\<exists>e field. parse_envelope_root minify sub document source raw = fail_envelope e field None)"
  by (cases document) (auto simp: parse_envelope_root_def object_result_def)

lemma parse_envelope_cases:
  obtains ms where "readable has_impl m" "iterate (pj_bytes m) (pj_capacity m) = Inr (JV_object ms)"
    "parse_envelope iterate raw_json minify has_impl m sub = object_result minify sub (raw_json (pj_bytes m)) ms"
  | e field where "parse_envelope iterate raw_json minify has_impl m sub = fail_envelope e field None"
    "\<not> (readable has_impl m \<and> (\<exists>ms. iterate (pj_bytes m) (pj_capacity m) = Inr (JV_object ms)))"
proof (cases "readable has_impl m")
  case False
  then have "\<exists>e field. parse_envelope iterate raw_json minify has_impl m sub = fail_envelope e field None"
    unfolding parse_envelope_document by (auto simp: readable_def)
  with False that(2) show thesis by blast
next
  case True
  then have run: "parse_envelope iterate raw_json minify has_impl m sub =
      (case iterate (pj_bytes m) (pj_capacity m) of
        Inl e \<Rightarrow> fail_envelope (classify_envelope_error e) LEF_root None
      | Inr document \<Rightarrow> parse_envelope_root minify sub document (pj_bytes m) (raw_json (pj_bytes m)))"
    unfolding parse_envelope_document by (auto simp: readable_def)
  show thesis
  proof (cases "iterate (pj_bytes m) (pj_capacity m)")
    case (Inl e)
    with run that(2) show thesis by simp
  next
    case (Inr document)
    with run have "parse_envelope iterate raw_json minify has_impl m sub =
        parse_envelope_root minify sub document (pj_bytes m) (raw_json (pj_bytes m))" by simp
    with envelope_root_cases [of document minify sub "pj_bytes m" "raw_json (pj_bytes m)"] Inr True that
    show thesis by (metis sum.inject(2))
  qed
qed

section \<open>Property\<close>

text \<open>
  C30: the envelope parser accepts a message exactly when its buffer is padded and within 1 MiB, the
  document is an object without erroneous members, it has exactly one member stream, a string that is
  a subscribed stream name, exactly one member data, an object, and every other member is valid JSON
  within the nesting limit; the result then is the route of that stream and the minified data object.
  Whatever the outcome, a reported route belongs to the only stream member read until then.
\<close>

theorem envelope_exact:
  "let R = parse_envelope iterate raw_json minify has_impl m sub; bytes = pj_bytes m in
   (\<forall>route p. R = accepted_result route p \<longleftrightarrow>
      has_impl \<and> pj_data m \<noteq> None \<and> pj_size m + 64 \<le> pj_capacity m \<and> pj_size m \<le> 1048576 \<and>
      (\<exists>ms. iterate bytes (pj_capacity m) = Inr (JV_object ms) \<and> envelope_of minify sub (raw_json bytes) ms route p)) \<and>
   (ler_success R \<longleftrightarrow> (\<exists>route p. R = accepted_result route p)) \<and>
   (case ler_route R of
      None \<Rightarrow> True
    | Some route \<Rightarrow> \<exists>ms k. iterate bytes (pj_capacity m) = Inr (JV_object ms) \<and> k \<le> length ms \<and>
        attributed sub (take k ms) route)"
proof (cases rule: parse_envelope_cases [of has_impl m iterate raw_json minify sub])
  case (1 ms)
  let ?R = "object_result minify sub (raw_json (pj_bytes m)) ms"
  have "ler_success ?R \<longleftrightarrow> (\<exists>route p. ?R = accepted_result route p)"
    unfolding object_success_iff [of minify sub "raw_json (pj_bytes m)" ms] accepted_iff by blast
  then show ?thesis
    using 1 object_route [of minify sub "raw_json (pj_bytes m)" ms]
    by (auto simp: readable_def accepted_iff split: option.splits)
next
  case (2 e field)
  have "fail_envelope e field None \<noteq> accepted_result route p" for route p
    by (simp add: fail_envelope_def accepted_result_def)
  with 2 show ?thesis by (simp add: readable_def) (auto simp: fail_envelope_def)
qed

end
