(* ===== verification/Live_Event_Pipeline.thy ===== *)
theory Live_Event_Pipeline
  imports Live_Envelope_Guarantees Event_Guarantees
begin

text \<open>
  The live event pipeline (\<^verbatim>\<open>src/live_event_pipeline.cpp\<close>): a text message of the combined stream is
  checked against the connection coordinates seen so far, its envelope is parsed, and the data object
  is processed against the state of the symbol its stream belongs to.  The pipeline owns one symbol
  state per subscribed symbol, the envelope parser and the event processor.
\<close>

section \<open>Data\<close>

text \<open>What simdjson answers for the two parsers of the pipeline, which differ in their depth limit.\<close>

record Simdjson =
  sj_iterate_envelope :: iterate_fn
  sj_iterate_payload :: iterate_fn
  sj_raw_json :: raw_json_fn
  sj_minify :: minify_fn

text \<open>A text message: the view \<open>payload\<close> is a pointer, possibly null, and a size.\<close>

record WebSocketTextMessage =
  wm_receive_timestamp :: CsvTimestamp
  wm_connection_epoch :: u64
  wm_connection_sequence :: u64
  wm_payload_data :: "string option"
  wm_payload_size :: nat

datatype LivePipelineCreateError =
    LPC_none
  | LPC_invalid_subscription
  | LPC_state_initialization_failure
  | LPC_component_initialization_failure
  | LPC_allocation_failure

datatype LivePipelineDisposition = LPD_not_processed | LPD_batch_ready | LPD_pre_audit_rejected | LPD_fatal_error

datatype LivePipelineErrorCode =
    LPE_none
  | LPE_invalid_message_metadata
  | LPE_message_too_large
  | LPE_route_state_mismatch
  | LPE_event_processing_failed
  | LPE_invalid_batch_contract

record LivePipelineResult =
  lpr_disposition :: LivePipelineDisposition
  lpr_error :: LivePipelineErrorCode
  lpr_envelope_error :: LiveEnvelopeErrorCode
  lpr_envelope_field :: LiveEnvelopeField
  lpr_event :: EventProcessResult
  lpr_route :: "LiveRoute option"
  lpr_target_index :: nat

definition default_pipeline_result :: LivePipelineResult where
  "default_pipeline_result = \<lparr>lpr_disposition = LPD_not_processed, lpr_error = LPE_none,
     lpr_envelope_error = LEC_none, lpr_envelope_field = LEF_none, lpr_event = default_event_result,
     lpr_route = None, lpr_target_index = kNoSymbolIndex\<rparr>"

definition lpr_handled :: "LivePipelineResult \<Rightarrow> bool" where
  "lpr_handled r \<longleftrightarrow> lpr_disposition r = LPD_batch_ready \<or> lpr_disposition r = LPD_pre_audit_rejected"

definition lpr_has_batch :: "LivePipelineResult \<Rightarrow> bool" where
  "lpr_has_batch r \<longleftrightarrow> lpr_disposition r = LPD_batch_ready"

definition lpr_fatal :: "LivePipelineResult \<Rightarrow> bool" where
  "lpr_fatal r \<longleftrightarrow> lpr_disposition r = LPD_fatal_error"

definition fatal_result :: "LivePipelineErrorCode \<Rightarrow> LivePipelineResult" where
  "fatal_result e = default_pipeline_result\<lparr>lpr_disposition := LPD_fatal_error, lpr_error := e\<rparr>"

text \<open>The array of symbol states has \<open>kMaxConfiguredSymbols\<close> entries.\<close>

record PipelineImpl =
  lp_subscription :: LiveSubscription
  lp_states :: "SymbolState option list"
  lp_event_parser :: "ParserImpl option"
  lp_has_connection_metadata :: bool
  lp_connection_epoch :: u64
  lp_last_connection_sequence :: u64

definition symbol_count_of :: "LiveSubscription \<Rightarrow> nat" where
  "symbol_count_of sub = length (ls_symbols sub)"

section \<open>Messages\<close>

definition valid_message_metadata :: "PipelineImpl \<Rightarrow> WebSocketTextMessage \<Rightarrow> bool" where
  "valid_message_metadata pl m =
     (if ts_nanoseconds (wm_receive_timestamp m) < 0 \<or>
         ts_nanoseconds (wm_receive_timestamp m) \<ge> kNanosecondsPerSecond \<or> wm_connection_sequence m = 0
      then False
      else if \<not> lp_has_connection_metadata pl then True
      else if wm_connection_epoch m < lp_connection_epoch pl then False
      else wm_connection_epoch m \<noteq> lp_connection_epoch pl \<or>
           wm_connection_sequence m > lp_last_connection_sequence pl)"

text \<open>The loops over \<open>index < symbol_count\<close> of the source.\<close>

definition invalidate_all :: "PipelineImpl \<Rightarrow> PipelineImpl" where
  "invalidate_all pl = pl\<lparr>lp_states :=
     map (map_option state_invalidate) (take (symbol_count_of (lp_subscription pl)) (lp_states pl)) @
     drop (symbol_count_of (lp_subscription pl)) (lp_states pl)\<rparr>"

definition invalidate_symbol :: "nat \<Rightarrow> PipelineImpl \<Rightarrow> PipelineImpl" where
  "invalidate_symbol i pl = pl\<lparr>lp_states := (lp_states pl)[i := map_option state_invalidate (lp_states pl ! i)]\<rparr>"

definition observe_connection :: "WebSocketTextMessage \<Rightarrow> PipelineImpl \<Rightarrow> PipelineImpl" where
  "observe_connection m pl =
     (let pl = (if lp_has_connection_metadata pl \<and> wm_connection_epoch m > lp_connection_epoch pl
                then invalidate_all pl else pl)
      in pl\<lparr>lp_has_connection_metadata := True, lp_connection_epoch := wm_connection_epoch m,
            lp_last_connection_sequence := wm_connection_sequence m\<rparr>)"

text \<open>The message copied into the pipeline's padded buffer.\<close>

definition combined_message :: "WebSocketTextMessage \<Rightarrow> PaddedJsonView" where
  "combined_message m =
     \<lparr>pj_data = Some (take (wm_payload_size m) (case wm_payload_data m of None \<Rightarrow> [] | Some d \<Rightarrow> d) @
        replicate kJsonPaddingBytes (CHR 0x00)),
      pj_size = wm_payload_size m, pj_capacity = kMaxPayloadBytes + kJsonPaddingBytes\<rparr>"

definition reject_envelope ::
    "PipelineImpl \<Rightarrow> LiveEnvelopeResult \<Rightarrow> LivePipelineResult \<Rightarrow> LivePipelineResult \<times> PipelineImpl" where
  "reject_envelope pl envelope result =
     (let result = result\<lparr>lpr_disposition := LPD_pre_audit_rejected\<rparr> in
      case ler_route envelope of
        None \<Rightarrow> (result, pl)
      | Some route \<Rightarrow>
          (result\<lparr>lpr_target_index := lr_symbol_index route\<rparr>,
           if lr_stream_kind route = Depth_diff \<and>
              lr_symbol_index route < symbol_count_of (lp_subscription pl) \<and>
              lp_states pl ! lr_symbol_index route \<noteq> None
           then invalidate_symbol (lr_symbol_index route) pl else pl))"

definition message_context :: "PipelineImpl \<Rightarrow> WebSocketTextMessage \<Rightarrow> LiveRoute \<Rightarrow> EventContext" where
  "message_context pl m route =
     \<lparr>ctx_timestamp = wm_receive_timestamp m, ctx_venue = ls_venue (lp_subscription pl),
      ctx_stream_kind = lr_stream_kind route, ctx_shard_id = 0, ctx_connection_epoch = wm_connection_epoch m,
      ctx_connection_sequence = wm_connection_sequence m, ctx_symbol = lr_normalized_symbol route\<rparr>"

text \<open>The checks after the event processor has run.\<close>

definition finish_event ::
    "LivePipelineResult \<Rightarrow> EventProcessResult \<Rightarrow> EventRowBatch \<Rightarrow> LivePipelineResult \<times> EventRowBatch" where
  "finish_event result event out =
     (let result = result\<lparr>lpr_event := event\<rparr> in
      if \<not> epr_success event
      then (result\<lparr>lpr_disposition := LPD_fatal_error, lpr_error := LPE_event_processing_failed\<rparr>, batch_clear out)
      else if epr_status event = EPS_pre_audit_rejected
      then (result\<lparr>lpr_disposition := LPD_pre_audit_rejected\<rparr>, batch_clear out)
      else if \<not> has_audit_row out \<or> crb_view (audit_row out) = [] \<or>
              has_order_book_row out = (crb_view (order_book_row_buffer out) = [])
      then (result\<lparr>lpr_disposition := LPD_fatal_error, lpr_error := LPE_invalid_batch_contract\<rparr>, batch_clear out)
      else (result\<lparr>lpr_disposition := LPD_batch_ready\<rparr>, out))"

definition process_envelope ::
    "Simdjson \<Rightarrow> Allocator \<Rightarrow> Allocator \<Rightarrow> PipelineImpl \<Rightarrow> WebSocketTextMessage \<Rightarrow> LiveEnvelopeResult \<Rightarrow>
     EventRowBatch \<Rightarrow> LivePipelineResult \<times> PipelineImpl \<times> EventRowBatch" where
  "process_envelope sj al_audit al_book pl m envelope out =
     (let result = default_pipeline_result\<lparr>lpr_route := ler_route envelope, lpr_envelope_error := ler_error envelope,
            lpr_envelope_field := ler_field envelope\<rparr>
      in if \<not> ler_success envelope
         then (case reject_envelope pl envelope result of (result, pl) \<Rightarrow> (result, pl, out))
         else
           let route = the (ler_route envelope); i = lr_symbol_index route in
           if i \<ge> symbol_count_of (lp_subscription pl)
           then (fatal_result LPE_route_state_mismatch, pl, out)
           else case lp_states pl ! i of
             None \<Rightarrow> (fatal_result LPE_route_state_mismatch, pl, out)
           | Some st \<Rightarrow>
               (case process (sj_iterate_payload sj) al_audit al_book (lp_event_parser pl) st
                       (message_context pl m route) (ler_payload envelope) Live_capture out of
                  (event, st, parser, out) \<Rightarrow>
                    (case finish_event (result\<lparr>lpr_target_index := i\<rparr>) event out of
                       (result, out) \<Rightarrow>
                         (result, pl\<lparr>lp_states := (lp_states pl)[i := Some st], lp_event_parser := parser\<rparr>, out))))"

definition process_message ::
    "Simdjson \<Rightarrow> Allocator \<Rightarrow> Allocator \<Rightarrow> PipelineImpl \<Rightarrow> WebSocketTextMessage \<Rightarrow> EventRowBatch \<Rightarrow>
     LivePipelineResult \<times> PipelineImpl \<times> EventRowBatch" where
  "process_message sj al_audit al_book pl m out =
     (let out = batch_clear out in
      if \<not> valid_message_metadata pl m then (fatal_result LPE_invalid_message_metadata, pl, out)
      else if wm_payload_size m > kMaxPayloadBytes then (fatal_result LPE_message_too_large, pl, out)
      else if wm_payload_size m \<noteq> 0 \<and> wm_payload_data m = None
      then (fatal_result LPE_invalid_message_metadata, pl, out)
      else
        let pl = observe_connection m pl;
            envelope = parse_envelope (sj_iterate_envelope sj) (sj_raw_json sj) (sj_minify sj) True
              (combined_message m) (lp_subscription pl)
        in process_envelope sj al_audit al_book pl m envelope out)"

section \<open>Construction\<close>

text \<open>How the construction of the implementation object ends.\<close>

datatype Construction = Constructed | Bad_alloc | Other_exception

fun create_states :: "PayloadVenue \<Rightarrow> string list \<Rightarrow> SymbolState list option" where
  "create_states venue [] = Some []"
| "create_states venue (s # symbols) =
     (case create_symbol_state venue s of
        None \<Rightarrow> None
      | Some st \<Rightarrow> map_option (Cons st) (create_states venue symbols))"

definition create_pipeline :: "LiveSubscription \<Rightarrow> Construction \<Rightarrow> LivePipelineCreateError + PipelineImpl" where
  "create_pipeline sub construction =
     (if symbol_count_of sub = 0 \<or> symbol_count_of sub > kMaxConfiguredSymbols \<or>
         length (ls_routes sub) \<noteq> symbol_count_of sub * kStreamsPerSymbol
      then Inl LPC_invalid_subscription
      else case construction of
        Bad_alloc \<Rightarrow> Inl LPC_allocation_failure
      | Other_exception \<Rightarrow> Inl LPC_component_initialization_failure
      | Constructed \<Rightarrow>
          (case create_states (ls_venue sub) (ls_symbols sub) of
             None \<Rightarrow> Inl LPC_state_initialization_failure
           | Some sts \<Rightarrow>
               Inr \<lparr>lp_subscription = sub,
                    lp_states = map Some sts @ replicate (kMaxConfiguredSymbols - length sts) None,
                    lp_event_parser = Some parser_init, lp_has_connection_metadata = False,
                    lp_connection_epoch = 0, lp_last_connection_sequence = 0\<rparr>))"

section \<open>The public operations\<close>

text \<open>A pipeline without an implementation is \<open>None\<close>.\<close>

definition pipeline_process ::
    "Simdjson \<Rightarrow> Allocator \<Rightarrow> Allocator \<Rightarrow> PipelineImpl option \<Rightarrow> WebSocketTextMessage \<Rightarrow> EventRowBatch \<Rightarrow>
     LivePipelineResult \<times> PipelineImpl option \<times> EventRowBatch" where
  "pipeline_process sj al_audit al_book impl m out =
     (case impl of
        None \<Rightarrow> (fatal_result LPE_route_state_mismatch, None, batch_clear out)
      | Some pl \<Rightarrow>
          (case process_message sj al_audit al_book pl m out of (result, pl, out) \<Rightarrow> (result, Some pl, out)))"

definition pipeline_invalidate_all :: "PipelineImpl option \<Rightarrow> PipelineImpl option" where
  "pipeline_invalidate_all impl = map_option invalidate_all impl"

definition pipeline_symbol_count :: "PipelineImpl option \<Rightarrow> nat" where
  "pipeline_symbol_count impl = (case impl of None \<Rightarrow> 0 | Some pl \<Rightarrow> symbol_count_of (lp_subscription pl))"

definition pipeline_state :: "PipelineImpl option \<Rightarrow> nat \<Rightarrow> SymbolState option" where
  "pipeline_state impl i =
     (case impl of
        None \<Rightarrow> None
      | Some pl \<Rightarrow> if i \<ge> symbol_count_of (lp_subscription pl) then None else lp_states pl ! i)"

end
