(* ===== verification/Live_Pipeline_Guarantees.thy ===== *)
theory Live_Pipeline_Guarantees
  imports Live_Event_Pipeline
begin

text \<open>
  What the pipeline promises to the capture controller.  For a pipeline made from a created
  subscription, over any sequence of messages: the internal mismatches the code guards against do not
  occur, a batch handed on holds exactly the audit row of the message and at most one order-book row,
  accepted messages have increasing connection coordinates, and a book that may have missed an update
  is invalid.
\<close>

section \<open>Subscribed routes\<close>

definition subscription_ok :: "LiveSubscription \<Rightarrow> bool" where
  "subscription_ok sub \<longleftrightarrow> (\<exists>venue xs. symset_has_value (validate_symbol_set (Some xs) (length xs)) \<and>
     built venue xs (subscribed 0 xs) sub)"

lemma created_subscription_ok:
  assumes "create_subscription venue (Some xs) (length xs) allocated = Inr sub"
  shows "subscription_ok sub"
proof -
  have valid: "symset_has_value (validate_symbol_set (Some xs) (length xs))"
    and "create_subscription venue (Some xs) (length xs) True = Inr sub"
    using assms by (auto simp: create_subscription_def Let_def split: if_splits)
  moreover have "list_all is_normalized_symbol xs" "distinct xs" "0 < length xs" "length xs \<le> 32"
    using valid by (simp_all add: symbol_set_valid_iff)
  ultimately have "built venue xs (subscribed 0 xs) sub" using create_built [OF valid, of venue] by auto
  with valid show ?thesis by (auto simp: subscription_ok_def)
qed

lemma subscribed_index:
  "r \<in> set (subscribed i xs) \<Longrightarrow> i \<le> lr_symbol_index r \<and> lr_symbol_index r < i + length xs \<and>
     lr_normalized_symbol r = xs ! (lr_symbol_index r - i)"
proof (induction xs arbitrary: i)
  case (Cons s xs)
  then show ?case
  proof (cases "r \<in> set (routes_of i s)")
    case False
    with Cons have "r \<in> set (subscribed (Suc i) xs)" by simp
    from Cons.IH [OF this] show ?thesis by (auto simp: nth_Cons' Suc_diff_le)
  qed (auto simp: routes_of_def)
qed simp

lemma found_route:
  assumes "subscription_ok sub" and "rlr_route (find_route sub name) = Some r"
  shows "lr_symbol_index r < symbol_count_of sub" "lr_normalized_symbol r = ls_symbols sub ! lr_symbol_index r"
proof -
  obtain venue xs where sub: "built venue xs (subscribed 0 xs) sub" using assms(1) by (auto simp: subscription_ok_def)
  then have "find_route sub name = lookup_among (subscribed 0 xs) name"
    using find_route_among [of sub] by (simp add: built_def)
  then have "r \<in> set (subscribed 0 xs)"
    using assms(2) by (auto simp: lookup_among_def find_Some_iff split: if_splits option.splits)
  from subscribed_index [OF this] sub show "lr_symbol_index r < symbol_count_of sub"
    "lr_normalized_symbol r = ls_symbols sub ! lr_symbol_index r"
    by (simp_all add: built_def symbol_count_of_def)
qed

lemma envelope_route:
  assumes "subscription_ok sub" and "ler_route (parse_envelope iterate raw_json minify has_impl m sub) = Some r"
  shows "lr_symbol_index r < symbol_count_of sub" "lr_normalized_symbol r = ls_symbols sub ! lr_symbol_index r"
proof -
  obtain name where "rlr_route (find_route sub name) = Some r"
  proof (cases rule: parse_envelope_cases [of has_impl m iterate raw_json minify sub])
    case (1 ms)
    with assms(2) object_route [of minify sub "raw_json (pj_bytes m)" ms r] that show thesis
      by (auto simp: attributed_def)
  qed (use assms(2) in \<open>auto simp: fail_envelope_def\<close>)
  with found_route [OF assms(1)] show "lr_symbol_index r < symbol_count_of sub"
    "lr_normalized_symbol r = ls_symbols sub ! lr_symbol_index r" by blast+
qed

section \<open>Events in live capture\<close>

lemma process_audited_book_row:
  assumes "process_audited al st ctx parsed result out = (r, st', out')"
  shows "(epr_error r = EPE_none \<longrightarrow> epr_status r \<noteq> EPS_pre_audit_rejected) \<and>
     (\<not> has_order_book_row out' \<longrightarrow> crb_view (order_book_row_buffer out) = [] \<longrightarrow>
        crb_view (order_book_row_buffer out') = [])"
proof -
  have "event_status s \<noteq> EPS_pre_audit_rejected" for s by (cases s) simp_all
  moreover have "crb_view (order_book_row_buffer (batch_clear b)) = []" for b
    by (simp add: batch_clear_def crb_view_def crb_clear_def)
  ultimately show ?thesis using assms
    by (auto simp: process_audited_def process_depth_def Let_def split: if_splits prod.splits option.splits)
qed

lemma process_live_rows:
  assumes run: "process iterate al_audit al_book parser st ctx payload Live_capture out = (r, st', parser', out')"
    and ok: "epr_error r = EPE_none" and ts: "timestamp_in_range (ctx_timestamp ctx)"
  shows "has_audit_row out' \<longleftrightarrow> epr_status r \<noteq> EPS_pre_audit_rejected"
    and "\<not> has_order_book_row out' \<longrightarrow> crb_view (order_book_row_buffer out') = []"
proof -
  have valid: "context_is_valid st ctx" using process_commits [OF run ok] by blast
  obtain parsed p where "parse iterate parser (ctx_venue ctx) (ctx_stream_kind ctx) (st_symbol st) payload = (parsed, p)"
    by fastforce
  with run valid
  have pp: "process_parsed al_audit al_book st ctx payload Live_capture parsed (batch_clear out) = (r, st', out')"
    by (auto simp: process_def split: prod.splits)
  obtain e out1 where f: "format_audit_row al_audit ctx payload (batch_clear out) = (e, out1)" by fastforce
  have empty: "crb_view (order_book_row_buffer (batch_clear out)) = []"
    by (simp add: batch_clear_def crb_view_def crb_clear_def)
  let ?r = "default_event_result\<lparr>epr_parse_error := spr_error parsed, epr_parse_field := spr_field parsed\<rparr>"
  note keep = process_audited_keeps_audit [where result = ?r, OF _ ok]
  note frame = format_audit_row_frame [OF f]
  show "has_audit_row out' \<longleftrightarrow> epr_status r \<noteq> EPS_pre_audit_rejected"
    using pp f frame ok process_audited_book_row [of al_book st ctx parsed ?r out1 r st' out'] keep [of al_book st ctx parsed out1 st' out']
    by (auto simp: process_parsed_def Let_def default_event_result_def split: if_splits)
  show "\<not> has_order_book_row out' \<longrightarrow> crb_view (order_book_row_buffer out') = []"
    using pp f frame ok empty process_audited_book_row [of al_book st ctx parsed ?r out1 r st' out']
    by (auto simp: process_parsed_def Let_def default_event_result_def split: if_splits)
qed

section \<open>The invariant\<close>

text \<open>The state of symbol \<open>i\<close>: its identity, and connection coordinates not ahead of the pipeline's.\<close>

definition symbol_ok :: "PipelineImpl \<Rightarrow> nat \<Rightarrow> SymbolState \<Rightarrow> bool" where
  "symbol_ok pl i st \<longleftrightarrow> state_inv st \<and> st_symbol st = ls_symbols (lp_subscription pl) ! i \<and>
     st_venue st = ls_venue (lp_subscription pl) \<and>
     (st_has_observed_connection st \<longrightarrow> lp_has_connection_metadata pl \<and>
        \<not> coords_less (lp_connection_epoch pl, lp_last_connection_sequence pl)
           (st_current_connection_epoch st, st_last_connection_sequence st))"

definition pipeline_inv :: "PipelineImpl \<Rightarrow> bool" where
  "pipeline_inv pl \<longleftrightarrow> subscription_ok (lp_subscription pl) \<and> parser_ok (lp_event_parser pl) \<and>
     symbol_count_of (lp_subscription pl) \<le> length (lp_states pl) \<and>
     (\<forall>i < symbol_count_of (lp_subscription pl). \<exists>st. lp_states pl ! i = Some st \<and> symbol_ok pl i st)"

lemma symbol_ok_frame [simp]:
  "symbol_ok (pl\<lparr>lp_states := sts\<rparr>) = symbol_ok pl" "symbol_ok (pl\<lparr>lp_event_parser := parser\<rparr>) = symbol_ok pl"
  by (simp_all add: symbol_ok_def fun_eq_iff)

lemma create_states_nth:
  "create_states venue xs = Some sts \<Longrightarrow>
   length sts = length xs \<and> (\<forall>i < length xs. create_symbol_state venue (xs ! i) = Some (sts ! i))"
  by (induction venue xs arbitrary: sts rule: create_states.induct)
    (auto split: option.splits simp: nth_Cons split: nat.splits)

lemma created_symbol_state:
  "create_symbol_state venue s = Some st \<Longrightarrow>
   st_symbol st = s \<and> st_venue st = venue \<and> \<not> st_has_observed_connection st"
  by (auto simp: create_symbol_state_def Let_def split: if_splits)

lemma parser_init_ok: "parser_ok (Some parser_init)"
  using parser_init_stamps by (simp add: parser_ok_def parser_init_def)

lemma create_pipeline_inv:
  assumes "subscription_ok sub" and "create_pipeline sub construction = Inr pl"
  shows "pipeline_inv pl \<and> \<not> lp_has_connection_metadata pl \<and> lp_subscription pl = sub"
proof -
  obtain sts where sts: "create_states (ls_venue sub) (ls_symbols sub) = Some sts"
    and pl: "pl = \<lparr>lp_subscription = sub,
      lp_states = map Some sts @ replicate (kMaxConfiguredSymbols - length sts) None,
      lp_event_parser = Some parser_init, lp_has_connection_metadata = False,
      lp_connection_epoch = 0, lp_last_connection_sequence = 0\<rparr>"
    using assms(2) by (auto simp: create_pipeline_def split: if_splits Construction.splits option.splits)
  have "\<exists>st. lp_states pl ! i = Some st \<and> symbol_ok pl i st" if "i < length (ls_symbols sub)" for i
    using create_states_nth [OF sts] that created_symbol_state [of "ls_venue sub" "ls_symbols sub ! i"]
      create_symbol_state_inv [of "ls_venue sub" "ls_symbols sub ! i"]
    by (simp add: pl symbol_ok_def nth_append)
  then show ?thesis
    using assms(1) parser_init_ok create_states_nth [OF sts] by (simp add: pipeline_inv_def symbol_count_of_def pl)
qed

text \<open>Invalidating books keeps everything else of a state.\<close>

lemma state_invalidate_inv: "state_inv st \<Longrightarrow> state_inv (state_invalidate st)"
  using reject_event_effect [of st] by (auto simp: state_inv_def state_invalidate_def spot_invalidate_def usdm_invalidate_def
      core_invalidate_inv)

lemma invalidated_coordinates [simp]:
  "st_has_observed_connection (state_invalidate st) = st_has_observed_connection st"
  "st_current_connection_epoch (state_invalidate st) = st_current_connection_epoch st"
  "st_last_connection_sequence (state_invalidate st) = st_last_connection_sequence st"
  by (simp_all add: state_invalidate_def)

lemma invalidated_book [simp]: "\<not> book_valid (state_invalidate st)"
  by (simp add: book_valid_def book_core_def state_invalidate_def spot_invalidate_def usdm_invalidate_def
      core_invalidate_def)

lemma symbol_ok_invalidate: "symbol_ok pl i st \<Longrightarrow> symbol_ok pl i (state_invalidate st)"
  by (simp add: symbol_ok_def state_invalidate_inv)

lemma invalidate_all_nth:
  "i < symbol_count_of (lp_subscription pl) \<Longrightarrow> symbol_count_of (lp_subscription pl) \<le> length (lp_states pl) \<Longrightarrow>
   lp_states (invalidate_all pl) ! i = map_option state_invalidate (lp_states pl ! i)"
  by (simp add: invalidate_all_def nth_append)

lemma invalidate_all_frame [simp]:
  "lp_subscription (invalidate_all pl) = lp_subscription pl"
  "lp_event_parser (invalidate_all pl) = lp_event_parser pl"
  "lp_has_connection_metadata (invalidate_all pl) = lp_has_connection_metadata pl"
  "lp_connection_epoch (invalidate_all pl) = lp_connection_epoch pl"
  "lp_last_connection_sequence (invalidate_all pl) = lp_last_connection_sequence pl"
  "length (lp_states (invalidate_all pl)) = length (lp_states pl)"
  "symbol_ok (invalidate_all pl) = symbol_ok pl"
  by (auto simp: invalidate_all_def symbol_ok_def fun_eq_iff)

lemma invalidate_all_inv: "pipeline_inv pl \<Longrightarrow> pipeline_inv (invalidate_all pl)"
  by (auto simp: pipeline_inv_def invalidate_all_nth symbol_ok_invalidate)

lemma update_state_inv:
  assumes "pipeline_inv pl" and "symbol_ok pl i st" and "parser_ok parser"
  shows "pipeline_inv (pl\<lparr>lp_states := (lp_states pl)[i := Some st], lp_event_parser := parser\<rparr>)"
proof -
  have "\<exists>st'. (lp_states pl)[i := Some st] ! j = Some st' \<and> symbol_ok pl j st'"
    if "j < symbol_count_of (lp_subscription pl)" for j
    using assms(1,2) that by (cases "i = j") (auto simp: pipeline_inv_def)
  then show ?thesis using assms(1,3) by (simp add: pipeline_inv_def)
qed

lemma invalidate_symbol_inv:
  "pipeline_inv pl \<Longrightarrow> i < symbol_count_of (lp_subscription pl) \<Longrightarrow> pipeline_inv (invalidate_symbol i pl)"
proof -
  assume pl: "pipeline_inv pl" and i: "i < symbol_count_of (lp_subscription pl)"
  then obtain st where st: "lp_states pl ! i = Some st" "symbol_ok pl i st" by (auto simp: pipeline_inv_def)
  have "invalidate_symbol i pl =
      pl\<lparr>lp_states := (lp_states pl)[i := Some (state_invalidate st)], lp_event_parser := lp_event_parser pl\<rparr>"
    by (simp add: invalidate_symbol_def st)
  moreover have "parser_ok (lp_event_parser pl)" using pl by (simp add: pipeline_inv_def)
  ultimately show ?thesis using update_state_inv [OF pl symbol_ok_invalidate [OF st(2)]] by metis
qed

section \<open>One message\<close>

lemma metadata_coords:
  "valid_message_metadata pl m \<Longrightarrow> lp_has_connection_metadata pl \<Longrightarrow>
   coords_less (lp_connection_epoch pl, lp_last_connection_sequence pl) (wm_connection_epoch m, wm_connection_sequence m)"
  by (auto simp: valid_message_metadata_def coords_less_def split: if_splits)

text \<open>After the message's coordinates are stored, every state is strictly behind them.\<close>

definition states_behind :: "PipelineImpl \<Rightarrow> bool" where
  "states_behind pl \<longleftrightarrow> (\<forall>i < symbol_count_of (lp_subscription pl). \<forall>st. lp_states pl ! i = Some st \<longrightarrow>
     st_has_observed_connection st \<longrightarrow>
       coords_less (st_current_connection_epoch st, st_last_connection_sequence st)
         (lp_connection_epoch pl, lp_last_connection_sequence pl))"

lemma coords_not_less_trans:
  "\<not> coords_less b a \<Longrightarrow> coords_less b c \<Longrightarrow> coords_less a c"
  by (auto simp: coords_less_def)

lemma observe_connection_inv:
  assumes inv: "pipeline_inv pl" and m: "valid_message_metadata pl m"
  shows "pipeline_inv (observe_connection m pl) \<and> states_behind (observe_connection m pl)"
proof -
  define pl1 where "pl1 = (if lp_has_connection_metadata pl \<and> wm_connection_epoch m > lp_connection_epoch pl
      then invalidate_all pl else pl)"
  have pl1: "pipeline_inv pl1" "lp_has_connection_metadata pl1 = lp_has_connection_metadata pl"
    "lp_connection_epoch pl1 = lp_connection_epoch pl" "lp_last_connection_sequence pl1 = lp_last_connection_sequence pl"
    using inv invalidate_all_inv by (auto simp: pl1_def)
  have obs: "observe_connection m pl = pl1\<lparr>lp_has_connection_metadata := True,
      lp_connection_epoch := wm_connection_epoch m, lp_last_connection_sequence := wm_connection_sequence m\<rparr>"
    by (simp add: observe_connection_def pl1_def Let_def)
  have behind: "coords_less (st_current_connection_epoch st, st_last_connection_sequence st)
      (wm_connection_epoch m, wm_connection_sequence m)"
    if "symbol_ok pl1 i st" "st_has_observed_connection st" for i st
  proof -
    have "lp_has_connection_metadata pl" "\<not> coords_less (lp_connection_epoch pl, lp_last_connection_sequence pl)
        (st_current_connection_epoch st, st_last_connection_sequence st)"
      using that pl1(2-) by (simp_all add: symbol_ok_def)
    with metadata_coords [OF m] show ?thesis by (blast intro: coords_not_less_trans)
  qed
  have "\<not> coords_less b a" if "coords_less a b" for a b using that by (auto simp: coords_less_def)
  then have keep: "symbol_ok (observe_connection m pl) i st" if "symbol_ok pl1 i st" for i st
    using behind [OF that] that by (simp add: symbol_ok_def obs)
  show ?thesis
  proof
    show "pipeline_inv (observe_connection m pl)"
      using pl1(1) keep by (auto simp: pipeline_inv_def obs)
    show "states_behind (observe_connection m pl)"
      unfolding states_behind_def
    proof (intro allI impI)
      fix i st
      assume st: "i < symbol_count_of (lp_subscription (observe_connection m pl))"
        "lp_states (observe_connection m pl) ! i = Some st" "st_has_observed_connection st"
      then have "symbol_ok pl1 i st" using pl1(1) by (auto simp: pipeline_inv_def obs)
      from behind [OF this st(3)] show "coords_less (st_current_connection_epoch st, st_last_connection_sequence st)
          (lp_connection_epoch (observe_connection m pl), lp_last_connection_sequence (observe_connection m pl))"
        by (simp add: obs)
    qed
  qed
qed

text \<open>What a batch handed to the writer holds, and that nothing else is handed on.\<close>

definition message_row :: "LiveSubscription \<Rightarrow> WebSocketTextMessage \<Rightarrow> LiveRoute \<Rightarrow> string \<Rightarrow> MarketDataCsvRow" where
  "message_row sub m route p =
     \<lparr>md_timestamp = wm_receive_timestamp m, md_venue = ls_venue sub,
      md_stream_kind = lr_stream_kind route, md_shard_id = 0, md_connection_epoch = wm_connection_epoch m,
      md_connection_sequence = wm_connection_sequence m,
      md_symbol = ls_symbols sub ! lr_symbol_index route, md_payload_json = p\<rparr>"

definition envelope_accepted ::
    "Simdjson \<Rightarrow> LiveSubscription \<Rightarrow> WebSocketTextMessage \<Rightarrow> LiveRoute \<Rightarrow> string \<Rightarrow> bool" where
  "envelope_accepted sj sub m route p \<longleftrightarrow>
     (\<exists>ms. sj_iterate_envelope sj (pj_bytes (combined_message m)) (1048576 + 64) = Inr (JV_object ms) \<and>
        envelope_of (sj_minify sj) sub (sj_raw_json sj (pj_bytes (combined_message m))) ms route p)"

definition outcome_ok ::
    "Simdjson \<Rightarrow> LiveSubscription \<Rightarrow> WebSocketTextMessage \<Rightarrow> LivePipelineResult \<Rightarrow> EventRowBatch \<Rightarrow> bool" where
  "outcome_ok sj sub m r out \<longleftrightarrow>
     lpr_error r \<notin> {LPE_route_state_mismatch, LPE_invalid_batch_contract} \<and>
     epr_error (lpr_event r) \<noteq> EPE_invalid_context \<and>
     (if lpr_disposition r = LPD_batch_ready
      then \<exists>route p. envelope_accepted sj sub m route p \<and>
        lpr_target_index r = lr_symbol_index route \<and> lr_symbol_index route < symbol_count_of sub \<and>
        has_audit_row out \<and> crb_view (audit_row out) = csv_line (md_fields (message_row sub m route p)) \<and>
        (has_order_book_row out \<longleftrightarrow> crb_view (order_book_row_buffer out) \<noteq> [])
      else batch_empty out)"

lemma csv_line_not_empty [simp]: "csv_line fs \<noteq> []" by (simp add: csv_line_def)

lemma process_context_error:
  assumes "process iterate al_audit al_book parser st ctx payload mode out = (r, st', parser', out')"
    and "context_is_valid st ctx"
  shows "epr_error r \<noteq> EPE_invalid_context"
  using assms
  by (auto simp: process_def process_parsed_def process_audited_def process_depth_def Let_def default_event_result_def
      split: prod.splits if_splits option.splits)

lemma message_context_valid:
  assumes st: "symbol_ok pl i st" and "states_behind pl" and "i < symbol_count_of (lp_subscription pl)"
    and "lp_states pl ! i = Some st" and route: "lr_normalized_symbol route = ls_symbols (lp_subscription pl) ! i"
    and ns: "0 \<le> ts_nanoseconds (wm_receive_timestamp m)" "ts_nanoseconds (wm_receive_timestamp m) < kNanosecondsPerSecond"
    and seq: "wm_connection_sequence m \<noteq> 0"
    and pl: "lp_connection_epoch pl = wm_connection_epoch m" "lp_last_connection_sequence pl = wm_connection_sequence m"
  shows "context_is_valid st (message_context pl m route)"
proof -
  have "coords_less (st_current_connection_epoch st, st_last_connection_sequence st)
      (wm_connection_epoch m, wm_connection_sequence m)" if "st_has_observed_connection st"
    using assms(2-4) that pl by (simp add: states_behind_def)
  then show ?thesis
    using st ns seq by (auto simp: context_is_valid_def message_context_def symbol_ok_def route coords_less_def)
qed

lemma finish_event_outcome:
  assumes run: "process iterate al_audit al_book parser st ctx payload Live_capture out = (ev, st', parser', out1)"
    and ts: "timestamp_in_range (ctx_timestamp ctx)" and b: "state_inv st" "parser_ok parser" "batch_ok out"
    and fin: "finish_event result ev out1 = (r, out')" and result: "lpr_error result = LPE_none"
  shows "batch_ok out' \<and> lpr_error r \<in> {LPE_none, LPE_event_processing_failed} \<and> lpr_event r = ev \<and>
     (if lpr_disposition r = LPD_batch_ready
      then lpr_target_index r = lpr_target_index result \<and> has_audit_row out' \<and>
        crb_view (audit_row out') = csv_line (md_fields (audit_row_of ctx payload)) \<and>
        (has_order_book_row out' \<longleftrightarrow> crb_view (order_book_row_buffer out') \<noteq> [])
      else batch_empty out')"
proof (cases "epr_error ev = EPE_none")
  case False
  then show ?thesis
    using fin process_effect [OF run b ts] by (auto simp: finish_event_def Let_def epr_success_def)
next
  case True
  note rows = process_live_rows [OF run True ts] and audit = process_audit(2) [OF run True ts]
  have "has_order_book_row out1 \<longrightarrow> crb_view (order_book_row_buffer out1) \<noteq> []"
    using process_effect [OF run b ts] by (auto simp: row_effect_def csv_line_def)
  with rows have book: "has_order_book_row out1 \<longleftrightarrow> crb_view (order_book_row_buffer out1) \<noteq> []" by blast
  show ?thesis
  proof (cases "epr_status ev = EPS_pre_audit_rejected")
    case pre: True
    with True fin process_effect [OF run b ts] show ?thesis
      by (auto simp: finish_event_def Let_def epr_success_def result)
  next
    case False
    with rows(1) audit have "has_audit_row out1" "crb_view (audit_row out1) = csv_line (md_fields (audit_row_of ctx payload))"
      by auto
    with True False fin book process_effect [OF run b ts] result show ?thesis
      by (auto simp: finish_event_def Let_def epr_success_def)
  qed
qed

lemma accepted_envelope:
  assumes "ler_success (parse_envelope iterate raw_json minify has_impl m sub)"
  obtains ms route p where "iterate (pj_bytes m) (pj_capacity m) = Inr (JV_object ms)"
    "envelope_of minify sub (raw_json (pj_bytes m)) ms route p"
    "parse_envelope iterate raw_json minify has_impl m sub = accepted_result route p"
proof (cases rule: parse_envelope_cases [of has_impl m iterate raw_json minify sub])
  case (1 ms)
  with assms object_success_iff [of minify sub "raw_json (pj_bytes m)" ms] that show thesis by auto
qed (use assms in simp)

lemma minified_payload_bytes [simp]: "pj_bytes (minified_payload p) = p"
  by (simp add: pj_bytes_def minified_payload_def)

lemma combined_capacity [simp]: "pj_capacity (combined_message m) = 1048576 + 64"
  by (simp add: combined_message_def kMaxPayloadBytes_def kJsonPaddingBytes_def)

lemma audit_row_message:
  "lr_normalized_symbol route = ls_symbols (lp_subscription pl) ! lr_symbol_index route \<Longrightarrow>
   audit_row_of (message_context pl m route) (minified_payload p) = message_row (lp_subscription pl) m route p"
  by (simp add: audit_row_of_def message_context_def message_row_def)

text \<open>The message coordinates that \<open>process_envelope\<close> finds stored.\<close>

definition at_message :: "PipelineImpl \<Rightarrow> WebSocketTextMessage \<Rightarrow> bool" where
  "at_message pl m \<longleftrightarrow> lp_has_connection_metadata pl \<and> lp_connection_epoch pl = wm_connection_epoch m \<and>
     lp_last_connection_sequence pl = wm_connection_sequence m \<and> wm_connection_sequence m \<noteq> 0 \<and>
     0 \<le> ts_nanoseconds (wm_receive_timestamp m) \<and> ts_nanoseconds (wm_receive_timestamp m) < kNanosecondsPerSecond"

lemma processed_symbol_ok:
  assumes run: "process iterate al_audit al_book parser st (message_context pl m route) payload mode out = (ev, st', parser', out')"
    and pl: "at_message pl m" and st: "symbol_ok pl i st" "state_inv st'"
  shows "symbol_ok pl i st'"
proof (cases "epr_error ev = EPE_none")
  case True
  from process_commits [OF run this] process_identity [OF run] pl st show ?thesis
    by (auto simp: symbol_ok_def committed_to_def message_context_def at_message_def coords_less_def)
next
  case False
  with process_failure [OF run] st show ?thesis by simp
qed

lemma event_step:
  assumes inv: "pipeline_inv pl" "states_behind pl" "at_message pl m" and out: "batch_ok out"
    and ts: "timestamp_in_range (wm_receive_timestamp m)"
    and route: "lr_symbol_index route < symbol_count_of (lp_subscription pl)"
      "lr_normalized_symbol route = ls_symbols (lp_subscription pl) ! lr_symbol_index route"
    and env: "envelope_accepted sj (lp_subscription pl) m route p"
    and st: "lp_states pl ! lr_symbol_index route = Some st"
    and run: "process (sj_iterate_payload sj) al_audit al_book (lp_event_parser pl) st (message_context pl m route)
        (minified_payload p) Live_capture out = (ev, st', parser', out1)"
    and fin: "finish_event result ev out1 = (r, out')"
    and result: "lpr_error result = LPE_none" "lpr_target_index result = lr_symbol_index route"
  shows "pipeline_inv (pl\<lparr>lp_states := (lp_states pl)[lr_symbol_index route := Some st'], lp_event_parser := parser'\<rparr>) \<and>
     batch_ok out' \<and> outcome_ok sj (lp_subscription pl) m r out'"
proof -
  let ?i = "lr_symbol_index route"
  have ok: "symbol_ok pl ?i st" using inv(1) route(1) st by (auto simp: pipeline_inv_def)
  have p: "parser_ok (lp_event_parser pl)" using inv(1) by (simp add: pipeline_inv_def)
  have valid: "context_is_valid st (message_context pl m route)"
    using message_context_valid [OF ok inv(2) route(1) st route(2)] inv(3) by (simp add: at_message_def)
  have ts': "timestamp_in_range (ctx_timestamp (message_context pl m route))"
    using ts by (simp add: message_context_def)
  have sinv: "state_inv st" using ok by (simp add: symbol_ok_def)
  note eff = process_effect [OF run sinv p out ts']
  have "pipeline_inv (pl\<lparr>lp_states := (lp_states pl)[?i := Some st'], lp_event_parser := parser'\<rparr>)"
    using update_state_inv [OF inv(1) processed_symbol_ok [OF run inv(3) ok]] eff by blast
  moreover note out' = finish_event_outcome [OF run ts' sinv p out fin result(1)]
  moreover have "outcome_ok sj (lp_subscription pl) m r out'"
    using out' env route(1) result(2) process_context_error [OF run valid] audit_row_message [OF route(2), of m p]
    unfolding outcome_ok_def by auto
  ultimately show ?thesis by blast
qed

lemma process_envelope_step:
  assumes inv: "pipeline_inv pl" "states_behind pl" "at_message pl m" and out: "batch_ok out" "batch_empty out"
    and ts: "timestamp_in_range (wm_receive_timestamp m)"
    and env: "envelope = parse_envelope (sj_iterate_envelope sj) (sj_raw_json sj) (sj_minify sj) True
        (combined_message m) (lp_subscription pl)"
    and run: "process_envelope sj al_audit al_book pl m envelope out = (r, pl', out')"
  shows "pipeline_inv pl' \<and> at_message pl' m \<and> lp_subscription pl' = lp_subscription pl \<and> batch_ok out' \<and>
     outcome_ok sj (lp_subscription pl) m r out'"
proof -
  have sub: "subscription_ok (lp_subscription pl)" using inv(1) by (simp add: pipeline_inv_def)
  note route_ok = envelope_route [OF sub, of "sj_iterate_envelope sj" "sj_raw_json sj" "sj_minify sj" True
      "combined_message m", folded env]
  have no_event: "epr_error (lpr_event default_pipeline_result) = EPE_none" "lpr_error default_pipeline_result = LPE_none"
    by (simp_all add: default_pipeline_result_def default_event_result_def)
  show ?thesis
  proof (cases "ler_success envelope")
    case False
    have "pipeline_inv pl'" "at_message pl' m" "lp_subscription pl' = lp_subscription pl"
      using run False inv invalidate_symbol_inv [OF inv(1) route_ok(1)]
      by (auto simp: process_envelope_def reject_envelope_def Let_def at_message_def invalidate_symbol_def
          split: option.splits if_splits)
    moreover have "out' = out" "lpr_error r = LPE_none" "epr_error (lpr_event r) = EPE_none"
      "lpr_disposition r = LPD_pre_audit_rejected"
      using run False no_event
      by (auto simp: process_envelope_def reject_envelope_def Let_def split: option.splits)
    ultimately show ?thesis using out by (simp add: outcome_ok_def)
  next
    case True
    obtain ms route p where acc: "sj_iterate_envelope sj (pj_bytes (combined_message m)) (1048576 + 64) = Inr (JV_object ms)"
      "envelope_of (sj_minify sj) (lp_subscription pl) (sj_raw_json sj (pj_bytes (combined_message m))) ms route p"
      "envelope = accepted_result route p"
      using accepted_envelope True env by (metis combined_capacity)
    have route: "lr_symbol_index route < symbol_count_of (lp_subscription pl)"
      "lr_normalized_symbol route = ls_symbols (lp_subscription pl) ! lr_symbol_index route"
      using route_ok [of route] acc(3) by (simp_all add: accepted_result_def)
    obtain st where st: "lp_states pl ! lr_symbol_index route = Some st"
      using inv(1) route(1) by (auto simp: pipeline_inv_def)
    obtain ev st' parser' out1 where ev: "process (sj_iterate_payload sj) al_audit al_book (lp_event_parser pl) st
        (message_context pl m route) (minified_payload p) Live_capture out = (ev, st', parser', out1)"
      by (metis surj_pair)
    let ?result = "default_pipeline_result\<lparr>lpr_route := Some route, lpr_target_index := lr_symbol_index route\<rparr>"
    obtain r1 out2 where fin: "finish_event ?result ev out1 = (r1, out2)" by fastforce
    have fields: "ler_route envelope = Some route" "ler_payload envelope = minified_payload p"
      "ler_error envelope = LEC_none" "ler_field envelope = LEF_none"
      by (simp_all add: acc(3) accepted_result_def)
    have "(r, pl', out') = (r1, pl\<lparr>lp_states := (lp_states pl)[lr_symbol_index route := Some st'],
        lp_event_parser := parser'\<rparr>, out2)"
      using run True route st ev fin fields
      by (simp add: process_envelope_def Let_def default_pipeline_result_def)
    moreover have "envelope_accepted sj (lp_subscription pl) m route p"
      using acc by (auto simp: envelope_accepted_def)
    moreover note event_step [OF inv out(1) ts route this st ev fin] no_event
    ultimately show ?thesis using inv(3) by (simp add: at_message_def)
  qed
qed

definition message_seen :: "LivePipelineResult \<Rightarrow> bool" where
  "message_seen r \<longleftrightarrow> lpr_error r \<notin> {LPE_invalid_message_metadata, LPE_message_too_large}"

lemma fatal_outcome:
  "e \<in> {LPE_invalid_message_metadata, LPE_message_too_large} \<Longrightarrow>
   outcome_ok sj sub m (fatal_result e) (batch_clear out) \<and> \<not> message_seen (fatal_result e)"
  by (auto simp: outcome_ok_def fatal_result_def default_pipeline_result_def default_event_result_def message_seen_def)

lemma process_envelope_seen:
  "process_envelope sj al_audit al_book pl m envelope out = (r, pl', out') \<Longrightarrow> message_seen r"
  by (auto simp: process_envelope_def reject_envelope_def finish_event_def Let_def message_seen_def
      fatal_result_def default_pipeline_result_def split: if_splits option.splits prod.splits)

lemma observe_connection_at:
  "valid_message_metadata pl m \<Longrightarrow> at_message (observe_connection m pl) m \<and>
     lp_subscription (observe_connection m pl) = lp_subscription pl"
  by (auto simp: at_message_def observe_connection_def valid_message_metadata_def Let_def split: if_splits)

lemma process_message_cases:
  assumes "process_message sj al_audit al_book pl m out = (r, pl', out')"
  obtains e where "e \<in> {LPE_invalid_message_metadata, LPE_message_too_large}" "r = fatal_result e" "pl' = pl"
    "out' = batch_clear out"
  | "valid_message_metadata pl m" "process_envelope sj al_audit al_book (observe_connection m pl) m
      (parse_envelope (sj_iterate_envelope sj) (sj_raw_json sj) (sj_minify sj) True (combined_message m) (lp_subscription pl))
      (batch_clear out) = (r, pl', out')"
  using assms observe_connection_at [of pl m] by (auto simp: process_message_def Let_def split: if_splits)

lemma process_message_step:
  assumes inv: "pipeline_inv pl" and out: "batch_ok out" and ts: "timestamp_in_range (wm_receive_timestamp m)"
    and run: "process_message sj al_audit al_book pl m out = (r, pl', out')"
  shows "pipeline_inv pl' \<and> lp_subscription pl' = lp_subscription pl \<and> batch_ok out' \<and> outcome_ok sj (lp_subscription pl) m r out' \<and>
     (if message_seen r
      then at_message pl' m \<and>
        (lp_has_connection_metadata pl \<longrightarrow>
           coords_less (lp_connection_epoch pl, lp_last_connection_sequence pl)
             (wm_connection_epoch m, wm_connection_sequence m))
      else pl' = pl)"
  using run
proof (cases rule: process_message_cases)
  case (1 e)
  then show ?thesis using inv out fatal_outcome [OF 1(1)] by simp
next
  case 2
  note obs = observe_connection_inv [OF inv 2(1)] and at = observe_connection_at [OF 2(1)]
  have env: "parse_envelope (sj_iterate_envelope sj) (sj_raw_json sj) (sj_minify sj) True (combined_message m)
      (lp_subscription pl) = parse_envelope (sj_iterate_envelope sj) (sj_raw_json sj) (sj_minify sj) True
        (combined_message m) (lp_subscription (observe_connection m pl))" using at by simp
  have "outcome_ok sj (lp_subscription (observe_connection m pl)) m r out' = outcome_ok sj (lp_subscription pl) m r out'"
    using at by (simp add: outcome_ok_def message_row_def)
  then show ?thesis
    using process_envelope_step [OF conjunct1 [OF obs] conjunct2 [OF obs] conjunct1 [OF at] _ _ ts env 2(2)] out at
      process_envelope_seen [OF 2(2)] metadata_coords [OF 2(1)] by simp
qed

section \<open>Invalid books\<close>

lemma apply_candidate_invalid:
  assumes "apply_candidate st ctx ev = (r, core, st')" and "\<not> book_valid st"
    and "ctx_venue ctx = st_venue st" and "ctx_stream_kind ctx \<noteq> Depth5"
  shows "\<not> book_valid st' \<and> \<not> emits_snapshot r"
proof -
  have "\<not> core_valid (spot_core (spot_invalidate b))" "\<not> core_valid (usdm_core (usdm_invalidate c))" for b c
    by (simp_all add: spot_invalidate_def usdm_invalidate_def core_invalidate_def)
  with assms show ?thesis
    by (auto simp: apply_candidate_def spot_candidate_def usdm_candidate_def spot.diff_invalid usdm.diff_invalid
        book_core_def book_valid_def emits_snapshot_def split: if_splits)
qed

lemma committed_book [simp]: "book_valid (commit_context ctx st) = book_valid st"
  by (simp add: book_valid_def book_core_def commit_context_def)

lemma process_invalid_book:
  assumes run: "process iterate al_audit al_book parser st ctx payload mode out = (r, st', parser', out')"
    and st: "\<not> book_valid st" and k: "ctx_stream_kind ctx \<noteq> Depth5"
  shows "\<not> book_valid st'"
proof (cases "epr_error r = EPE_none")
  case True
  have valid: "context_is_valid st ctx" using process_commits [OF run True] by blast
  obtain parsed p where "parse iterate parser (ctx_venue ctx) (ctx_stream_kind ctx) (st_symbol st) payload = (parsed, p)"
    by fastforce
  with run valid
  have pp: "process_parsed al_audit al_book st ctx payload mode parsed (batch_clear out) = (r, st', out')"
    by (auto simp: process_def split: prod.splits)
  obtain br core c where a: "apply_candidate st ctx (se_depth (spr_event parsed)) = (br, core, c)"
    by (metis surj_pair)
  have "\<not> book_valid st'" if "process_audited al_book st ctx parsed result out1 = (r, st', out2)" for result out1 out2
    using that True st apply_candidate_invalid [OF a st context_valid_parts(1) [OF valid] k]
    by (auto simp: process_audited_def reject_event_def process_depth_def a Let_def split: if_splits)
  with pp st show ?thesis
    by (auto simp: process_parsed_def Let_def reject_event_def split: if_splits prod.splits)
next
  case False
  with process_failure [OF run] st show ?thesis by simp
qed

lemma process_rejected:
  assumes run: "process iterate al_audit al_book parser st ctx payload mode out = (r, st', parser', out')"
    and "epr_error r = EPE_none" and "epr_status r = EPS_pre_audit_rejected"
  shows "st' = reject_event st ctx"
proof -
  have valid: "context_is_valid st ctx" using process_commits [OF run assms(2)] by blast
  have "epr_status x \<noteq> EPS_pre_audit_rejected"
    if "process_audited al_book st ctx parsed result out1 = (x, st2, out2)" "epr_error x = EPE_none" for x st2 out2 parsed result out1
    using process_audited_book_row [OF that(1)] that(2) by blast
  with run valid assms(2-) show ?thesis
    by (fastforce simp: process_def process_parsed_def Let_def split: prod.splits if_splits)
qed

lemma reject_event_book:
  "book_valid (reject_event st ctx) \<Longrightarrow> book_valid st \<and> ctx_stream_kind ctx \<noteq> Depth_diff"
  by (auto simp: reject_event_def split: if_splits)

definition symbol_book_valid :: "PipelineImpl \<Rightarrow> nat \<Rightarrow> bool" where
  "symbol_book_valid pl i = (case pipeline_state (Some pl) i of None \<Rightarrow> False | Some st \<Rightarrow> book_valid st)"

text \<open>Only an accepted depth5 message makes a book valid, and a rejected differential leaves it invalid.\<close>

definition refreshed :: "LivePipelineResult \<Rightarrow> nat \<Rightarrow> bool" where
  "refreshed r i \<longleftrightarrow> lpr_disposition r = LPD_batch_ready \<and> lpr_target_index r = i \<and>
     (\<exists>route. lpr_route r = Some route \<and> lr_stream_kind route = Depth5)"

definition books_safe :: "PipelineImpl \<Rightarrow> LivePipelineResult \<Rightarrow> PipelineImpl \<Rightarrow> bool" where
  "books_safe pl r pl' \<longleftrightarrow>
     (\<forall>i. symbol_book_valid pl' i \<and> \<not> symbol_book_valid pl i \<longrightarrow> refreshed r i) \<and>
     (case lpr_route r of
        None \<Rightarrow> True
      | Some route \<Rightarrow> lpr_disposition r = LPD_pre_audit_rejected \<and> lr_stream_kind route = Depth_diff \<longrightarrow>
          \<not> symbol_book_valid pl' (lr_symbol_index route))"

lemma symbol_book_valid_update:
  "i < length (lp_states pl) \<Longrightarrow>
   symbol_book_valid (pl\<lparr>lp_states := (lp_states pl)[i := Some st], lp_event_parser := parser\<rparr>) j =
     (if j = i then i < symbol_count_of (lp_subscription pl) \<and> book_valid st else symbol_book_valid pl j)"
  by (auto simp: symbol_book_valid_def pipeline_state_def)

lemma symbol_book_valid_invalidate:
  "i < length (lp_states pl) \<Longrightarrow>
   symbol_book_valid (invalidate_symbol i pl) j = (j \<noteq> i \<and> symbol_book_valid pl j)"
  by (cases "j = i") (auto simp: symbol_book_valid_def pipeline_state_def invalidate_symbol_def split: option.splits)

lemma finish_event_disposition:
  assumes "finish_event result ev out = (r, out')"
  shows "lpr_route r = lpr_route result" "lpr_target_index r = lpr_target_index result" "lpr_event r = ev"
    "lpr_disposition r = LPD_pre_audit_rejected \<Longrightarrow> epr_error ev = EPE_none \<and> epr_status ev = EPS_pre_audit_rejected"
    "epr_error ev = EPE_none \<Longrightarrow> epr_status ev \<noteq> EPS_pre_audit_rejected \<Longrightarrow>
     lpr_disposition r = LPD_batch_ready \<or> lpr_error r = LPE_invalid_batch_contract"
  using assms by (auto simp: finish_event_def Let_def epr_success_def split: if_splits)

lemma rejected_envelope_books:
  assumes inv: "pipeline_inv pl" and fail: "\<not> ler_success envelope"
    and route: "\<And>route. ler_route envelope = Some route \<Longrightarrow> lr_symbol_index route < symbol_count_of (lp_subscription pl)"
    and run: "process_envelope sj al_audit al_book pl m envelope out = (r, pl', out')"
  shows "books_safe pl r pl'"
proof (cases "ler_route envelope")
  case None
  with run fail have "pl' = pl" "lpr_route r = None"
    by (auto simp: process_envelope_def reject_envelope_def Let_def)
  then show ?thesis by (simp add: books_safe_def)
next
  case (Some route)
  let ?i = "lr_symbol_index route"
  have i: "?i < symbol_count_of (lp_subscription pl)" "?i < length (lp_states pl)" "lp_states pl ! ?i \<noteq> None"
    using inv route [OF Some] by (auto simp: pipeline_inv_def)
  have "pl' = (if lr_stream_kind route = Depth_diff then invalidate_symbol ?i pl else pl)" "lpr_route r = Some route"
    using run fail i by (auto simp: process_envelope_def reject_envelope_def Let_def Some split: if_splits)
  with i show ?thesis by (auto simp: books_safe_def symbol_book_valid_invalidate split: if_splits)
qed

lemma accepted_envelope_books:
  assumes inv: "pipeline_inv pl" and ok: "ler_success envelope" and route: "ler_route envelope = Some route"
    "lr_symbol_index route < symbol_count_of (lp_subscription pl)"
    and run: "process_envelope sj al_audit al_book pl m envelope out = (r, pl', out')"
    and contract: "lpr_error r \<noteq> LPE_invalid_batch_contract"
  shows "books_safe pl r pl'"
proof -
  let ?i = "lr_symbol_index route"
  obtain st where st: "lp_states pl ! ?i = Some st" and len: "?i < length (lp_states pl)"
    using inv route(2) by (auto simp: pipeline_inv_def)
  obtain ev st' parser' out1 where ev: "process (sj_iterate_payload sj) al_audit al_book (lp_event_parser pl) st
      (message_context pl m route) (ler_payload envelope) Live_capture out = (ev, st', parser', out1)"
    by (metis surj_pair)
  let ?result = "default_pipeline_result\<lparr>lpr_route := Some route, lpr_envelope_error := ler_error envelope,
      lpr_envelope_field := ler_field envelope, lpr_target_index := ?i\<rparr>"
  obtain r1 out2 where fin: "finish_event ?result ev out1 = (r1, out2)" by fastforce
  have r: "r = r1" "pl' = pl\<lparr>lp_states := (lp_states pl)[?i := Some st'], lp_event_parser := parser'\<rparr>"
    using run ok route st ev fin by (simp_all add: process_envelope_def Let_def)
  note d = finish_event_disposition [OF fin]
  have kind: "ctx_stream_kind (message_context pl m route) = lr_stream_kind route" by (simp add: message_context_def)
  have old: "symbol_book_valid pl ?i = book_valid st"
    using st route(2) by (simp add: symbol_book_valid_def pipeline_state_def)
  have new: "symbol_book_valid pl' j = (if j = ?i then book_valid st' else symbol_book_valid pl j)" for j
    using len route(2) by (simp add: r(2) symbol_book_valid_update)
  have refresh: "lr_stream_kind route = Depth5 \<and> lpr_disposition r = LPD_batch_ready" if "book_valid st'" "\<not> book_valid st"
  proof
    show k: "lr_stream_kind route = Depth5" using process_invalid_book [OF ev that(2)] that(1) kind by auto
    have ok: "epr_error ev = EPE_none" using process_failure [OF ev] that by auto
    moreover have "epr_status ev \<noteq> EPS_pre_audit_rejected"
      using process_rejected [OF ev ok] reject_event_book [of st] that by auto
    ultimately show "lpr_disposition r = LPD_batch_ready" using d(5) contract r(1) by blast
  qed
  have rejected: "\<not> book_valid st'" if "lpr_disposition r = LPD_pre_audit_rejected" "lr_stream_kind route = Depth_diff"
    using process_rejected [OF ev] reject_event_book [of st "message_context pl m route"] d(4) r(1) that kind by auto
  have "lpr_route r = Some route" "lpr_target_index r = ?i" using d(1,2) r(1) by simp_all
  then show ?thesis using refresh rejected old by (auto simp: books_safe_def refreshed_def new split: if_splits)
qed

definition new_epoch :: "PipelineImpl \<Rightarrow> WebSocketTextMessage \<Rightarrow> bool" where
  "new_epoch pl m \<longleftrightarrow> lp_has_connection_metadata pl \<and> wm_connection_epoch m > lp_connection_epoch pl"

lemma observed_books:
  assumes "pipeline_inv pl"
  shows "symbol_book_valid (observe_connection m pl) i \<longleftrightarrow> symbol_book_valid pl i \<and> \<not> new_epoch pl m"
proof -
  have frame: "symbol_book_valid (pl1\<lparr>lp_has_connection_metadata := True, lp_connection_epoch := e,
      lp_last_connection_sequence := q\<rparr>) i = symbol_book_valid pl1 i" for pl1 e q
    by (simp add: symbol_book_valid_def pipeline_state_def)
  have "\<not> symbol_book_valid (invalidate_all pl) i"
    using assms by (auto simp: symbol_book_valid_def pipeline_state_def pipeline_inv_def invalidate_all_nth
        split: option.splits if_splits)
  then show ?thesis by (simp add: observe_connection_def Let_def new_epoch_def frame)
qed

lemma process_message_books:
  assumes inv: "pipeline_inv pl" and out: "batch_ok out" and ts: "timestamp_in_range (wm_receive_timestamp m)"
    and run: "process_message sj al_audit al_book pl m out = (r, pl', out')"
  shows "books_safe pl r pl' \<and> (message_seen r \<and> new_epoch pl m \<longrightarrow> (\<forall>i. symbol_book_valid pl' i \<longrightarrow> refreshed r i))"
  using run
proof (cases rule: process_message_cases)
  case (1 e)
  then show ?thesis using fatal_outcome [OF 1(1)] by (simp add: books_safe_def fatal_result_def default_pipeline_result_def)
next
  case 2
  let ?pl = "observe_connection m pl"
  let ?env = "parse_envelope (sj_iterate_envelope sj) (sj_raw_json sj) (sj_minify sj) True (combined_message m) (lp_subscription pl)"
  have inv': "pipeline_inv ?pl" using observe_connection_inv [OF inv 2(1)] by blast
  have sub: "lp_subscription ?pl = lp_subscription pl" "subscription_ok (lp_subscription pl)"
    using observe_connection_at [OF 2(1)] inv by (simp_all add: pipeline_inv_def)
  note route = envelope_route(1) [OF sub(2), of "sj_iterate_envelope sj" "sj_raw_json sj" "sj_minify sj" True "combined_message m"]
  have "books_safe ?pl r pl'"
  proof (cases "ler_success ?env")
    case False
    from rejected_envelope_books [OF inv' this _ 2(2)] route sub(1) show ?thesis by metis
  next
    case True
    then obtain rt where "ler_route ?env = Some rt" by (auto simp: ler_success_def)
    with accepted_envelope_books [OF inv' True this _ 2(2)] route sub(1)
      process_message_step [OF inv out ts run] show ?thesis by (simp add: outcome_ok_def)
  qed
  then show ?thesis using observed_books [OF inv, of m] by (auto simp: books_safe_def)
qed

section \<open>Runs\<close>

text \<open>
  A message with the batch it is given and the allocators behind that batch; the run records, for
  each message, the pipeline before it, the result, the pipeline after it and the batch.
\<close>

type_synonym pipeline_input = "Allocator \<times> Allocator \<times> EventRowBatch \<times> WebSocketTextMessage"
type_synonym pipeline_step =
  "PipelineImpl \<times> WebSocketTextMessage \<times> LivePipelineResult \<times> PipelineImpl \<times> EventRowBatch"

fun pipeline_run :: "Simdjson \<Rightarrow> PipelineImpl \<Rightarrow> pipeline_input list \<Rightarrow> pipeline_step list" where
  "pipeline_run sj pl [] = []"
| "pipeline_run sj pl ((al_audit, al_book, out, m) # inputs) =
     (case process_message sj al_audit al_book pl m out of
        (r, pl', out') \<Rightarrow> (pl, m, r, pl', out') # pipeline_run sj pl' inputs)"

definition input_ok :: "pipeline_input \<Rightarrow> bool" where
  "input_ok x = (case x of (_, _, out, m) \<Rightarrow> batch_ok out \<and> timestamp_in_range (wm_receive_timestamp m))"

definition step_ok :: "Simdjson \<Rightarrow> LiveSubscription \<Rightarrow> pipeline_step \<Rightarrow> bool" where
  "step_ok sj sub s = (case s of (pl, m, r, pl', out) \<Rightarrow>
     outcome_ok sj sub m r out \<and> books_safe pl r pl' \<and>
     (message_seen r \<and> new_epoch pl m \<longrightarrow> (\<forall>i. symbol_book_valid pl' i \<longrightarrow> refreshed r i)))"

definition seen_coords :: "pipeline_step list \<Rightarrow> (u64 \<times> u64) list" where
  "seen_coords steps = map (\<lambda>(_, m, _). (wm_connection_epoch m, wm_connection_sequence m))
     (filter (\<lambda>(_, _, r, _). message_seen r) steps)"

lemma pipeline_run_ok:
  "pipeline_inv pl \<Longrightarrow> list_all input_ok inputs \<Longrightarrow> list_all (step_ok sj (lp_subscription pl)) (pipeline_run sj pl inputs)"
proof (induction sj pl inputs rule: pipeline_run.induct)
  case (2 sj pl al_audit al_book out m inputs)
  obtain r pl' out' where run: "process_message sj al_audit al_book pl m out = (r, pl', out')" by (metis surj_pair)
  have i: "batch_ok out" "timestamp_in_range (wm_receive_timestamp m)" using 2(3) by (simp_all add: input_ok_def)
  note step = process_message_step [OF 2(2) i run] and books = process_message_books [OF 2(2) i run]
  have "list_all (step_ok sj (lp_subscription pl)) (pipeline_run sj pl' inputs)"
    using 2(1) [OF run [symmetric] refl] step 2(3) by simp
  moreover have "step_ok sj (lp_subscription pl) (pl, m, r, pl', out')"
    using step books unfolding step_ok_def prod.case by blast
  ultimately show ?case by (simp add: run)
qed simp

lemma seen_coords_sorted:
  "pipeline_inv pl \<Longrightarrow> list_all input_ok inputs \<Longrightarrow>
   sorted_wrt coords_less (seen_coords (pipeline_run sj pl inputs)) \<and>
   (lp_has_connection_metadata pl \<longrightarrow>
      (\<forall>c \<in> set (seen_coords (pipeline_run sj pl inputs)).
         coords_less (lp_connection_epoch pl, lp_last_connection_sequence pl) c))"
proof (induction sj pl inputs rule: pipeline_run.induct)
  case (2 sj pl al_audit al_book out m inputs)
  obtain r pl' out' where run: "process_message sj al_audit al_book pl m out = (r, pl', out')" by (metis surj_pair)
  have i: "batch_ok out" "timestamp_in_range (wm_receive_timestamp m)" using 2(3) by (simp_all add: input_ok_def)
  note step = process_message_step [OF 2(2) i run]
  have ih: "sorted_wrt coords_less (seen_coords (pipeline_run sj pl' inputs)) \<and>
   (lp_has_connection_metadata pl' \<longrightarrow>
      (\<forall>c \<in> set (seen_coords (pipeline_run sj pl' inputs)).
         coords_less (lp_connection_epoch pl', lp_last_connection_sequence pl') c))"
    using 2(1) [OF run [symmetric] refl] step 2(3) by simp
  show ?case
  proof (cases "message_seen r")
    case True
    then have "seen_coords (pipeline_run sj pl ((al_audit, al_book, out, m) # inputs)) =
        (wm_connection_epoch m, wm_connection_sequence m) # seen_coords (pipeline_run sj pl' inputs)"
      by (simp add: run seen_coords_def)
    with True step ih show ?thesis by (auto simp: at_message_def intro: coords_less_trans)
  next
    case False
    then have "seen_coords (pipeline_run sj pl ((al_audit, al_book, out, m) # inputs)) =
        seen_coords (pipeline_run sj pl' inputs)" by (simp add: run seen_coords_def)
    with False step ih show ?thesis by simp
  qed
qed (simp add: seen_coords_def)

lemma create_states_total:
  "list_all is_normalized_symbol xs \<Longrightarrow> \<exists>sts. create_states venue xs = Some sts"
proof (induction xs)
  case (Cons s xs)
  then obtain st where "create_symbol_state venue s = Some st"
    by (auto simp: create_symbol_state_def Let_def iid_has_value_iff)
  with Cons show ?case by auto
qed simp

lemma create_pipeline_total:
  assumes "subscription_ok sub"
  shows "\<exists>pl. create_pipeline sub Constructed = Inr pl"
proof -
  obtain venue xs where xs: "symset_has_value (validate_symbol_set (Some xs) (length xs))" and sub: "built venue xs (subscribed 0 xs) sub"
    using assms by (auto simp: subscription_ok_def)
  have "list_all is_normalized_symbol xs" "distinct xs" "0 < length xs" "length xs \<le> 32"
    using xs by (simp_all add: symbol_set_valid_iff)
  with sub create_states_total [of xs venue] show ?thesis
    by (auto simp: create_pipeline_def built_def symbol_count_of_def kStreamsPerSymbol_def subscribed_snoc_length
        kMaxConfiguredSymbols_def)
qed

section \<open>Properties\<close>

text \<open>
  C31: for every created subscription the pipeline can be built, and over any sequence of messages,
  whatever simdjson and the allocators do, it never runs into a route without a state, an invalid
  event context or an inconsistent batch.  A batch is handed on exactly with a subscribed route of an
  accepted envelope; its audit row is the exact CSV text of the message's coordinates, the route's
  symbol and stream kind and the minified data object, and its order-book flag agrees with its row.
  In every other case the batch is empty.
\<close>

theorem pipeline_batches_exact:
  assumes "create_subscription venue (Some xs) (length xs) allocated = Inr sub" and "list_all input_ok inputs"
  shows "\<exists>pl. create_pipeline sub Constructed = Inr pl \<and>
    list_all (\<lambda>(_, m, r, _, out). outcome_ok sj sub m r out) (pipeline_run sj pl inputs)"
proof -
  have sub: "subscription_ok sub" by (rule created_subscription_ok [OF assms(1)])
  then obtain pl where pl: "create_pipeline sub Constructed = Inr pl" using create_pipeline_total by blast
  note inv = create_pipeline_inv [OF sub pl]
  have "list_all (step_ok sj sub) (pipeline_run sj pl inputs)"
    using pipeline_run_ok [OF _ assms(2)] inv by metis
  then have "list_all (\<lambda>(_, m, r, _, out). outcome_ok sj sub m r out) (pipeline_run sj pl inputs)"
    by (rule list.pred_mono_strong) (auto simp: step_ok_def)
  with pl show ?thesis by blast
qed

text \<open>
  C32: over any sequence of messages of a created pipeline, the messages whose coordinates are taken
  have strictly increasing connection epoch and sequence; a message of a new epoch leaves every book
  invalid except one that this very message refreshes; only an accepted depth5 message makes a book
  valid; and a differential message that is rejected before the audit, by the envelope or by the
  payload parser, leaves the book of its symbol invalid.
\<close>

theorem pipeline_gap_safety:
  assumes "create_subscription venue (Some xs) (length xs) allocated = Inr sub" and "list_all input_ok inputs"
  shows "\<exists>pl. create_pipeline sub Constructed = Inr pl \<and>
    sorted_wrt coords_less (seen_coords (pipeline_run sj pl inputs)) \<and>
    list_all (\<lambda>(pl, m, r, pl', _). books_safe pl r pl' \<and>
      (message_seen r \<and> new_epoch pl m \<longrightarrow> (\<forall>i. symbol_book_valid pl' i \<longrightarrow> refreshed r i)))
      (pipeline_run sj pl inputs)"
proof -
  have sub: "subscription_ok sub" by (rule created_subscription_ok [OF assms(1)])
  then obtain pl where pl: "create_pipeline sub Constructed = Inr pl" using create_pipeline_total by blast
  note inv = create_pipeline_inv [OF sub pl]
  have "list_all (step_ok sj sub) (pipeline_run sj pl inputs)"
    using pipeline_run_ok [OF _ assms(2)] inv by metis
  then have "list_all (\<lambda>(pl, m, r, pl', _). books_safe pl r pl' \<and>
      (message_seen r \<and> new_epoch pl m \<longrightarrow> (\<forall>i. symbol_book_valid pl' i \<longrightarrow> refreshed r i)))
      (pipeline_run sj pl inputs)"
    by (rule list.pred_mono_strong) (auto simp: step_ok_def)
  with pl seen_coords_sorted [OF conjunct1 [OF inv] assms(2)] show ?thesis by blast
qed

section \<open>A concrete run\<close>

definition trade_envelope :: json_value where
  "trade_envelope = JV_object [Member ''stream'' (JV_string (Inr ''btcusdt@trade'')), Member ''data'' (JV_object [])]"

definition trade_simdjson :: Simdjson where
  "trade_simdjson = \<lparr>sj_iterate_envelope = (\<lambda>_ _. Inr trade_envelope), sj_iterate_payload = (\<lambda>_ _. Inr (JV_object [])),
     sj_raw_json = (\<lambda>_ _. Inr ''{}''), sj_minify = Inr\<rparr>"

definition trade_message :: "u64 \<Rightarrow> u64 \<Rightarrow> WebSocketTextMessage" where
  "trade_message epoch seq = \<lparr>wm_receive_timestamp = \<lparr>ts_seconds = 7, ts_nanoseconds = 1\<rparr>,
     wm_connection_epoch = epoch, wm_connection_sequence = seq, wm_payload_data = Some ''{}'', wm_payload_size = 2\<rparr>"

definition trade_inputs :: "pipeline_input list" where
  "trade_inputs = [(failing_allocator, failing_allocator, sample_batch, trade_message 0 1),
     (failing_allocator, failing_allocator, sample_batch, trade_message 0 1),
     (failing_allocator, failing_allocator, sample_batch, trade_message 2 1)]"

definition sample_subscription :: LiveSubscription where
  "sample_subscription = projr (create_subscription Venue_spot (Some [''BTCUSDT'']) (length [''BTCUSDT'']) True)"

definition sample_pipeline :: PipelineImpl where
  "sample_pipeline = projr (create_pipeline sample_subscription Constructed)"

lemma sample_created:
  "create_subscription Venue_spot (Some [''BTCUSDT'']) (length [''BTCUSDT'']) True = Inr sample_subscription"
proof -
  have "\<not> isl (create_subscription Venue_spot (Some [''BTCUSDT'']) (length [''BTCUSDT'']) True)" by code_simp
  then show ?thesis by (simp add: sample_subscription_def)
qed

lemma sample_inputs: "list_all input_ok trade_inputs" by code_simp

lemma sample_trades:
  "let run = pipeline_run trade_simdjson sample_pipeline trade_inputs in
     map (\<lambda>(_, _, r, _, _). lpr_disposition r) run = [LPD_batch_ready, LPD_fatal_error, LPD_batch_ready] \<and>
     seen_coords run = [(0, 1), (2, 1)]"
  by code_simp

theorem pipeline_batches_exact_witness:
  "list_all (\<lambda>(_, m, r, _, out). outcome_ok trade_simdjson sample_subscription m r out)
     (pipeline_run trade_simdjson sample_pipeline trade_inputs) \<and>
   map (\<lambda>(_, _, r, _, _). lpr_disposition r) (pipeline_run trade_simdjson sample_pipeline trade_inputs) =
     [LPD_batch_ready, LPD_fatal_error, LPD_batch_ready]"
proof
  show "list_all (\<lambda>(_, m, r, _, out). outcome_ok trade_simdjson sample_subscription m r out)
     (pipeline_run trade_simdjson sample_pipeline trade_inputs)"
    using pipeline_batches_exact [OF sample_created sample_inputs, of trade_simdjson]
    by (auto simp: sample_pipeline_def)
  show "map (\<lambda>(_, _, r, _, _). lpr_disposition r) (pipeline_run trade_simdjson sample_pipeline trade_inputs) =
     [LPD_batch_ready, LPD_fatal_error, LPD_batch_ready]" using sample_trades by (simp add: Let_def)
qed

theorem pipeline_gap_safety_witness:
  "sorted_wrt coords_less (seen_coords (pipeline_run trade_simdjson sample_pipeline trade_inputs)) \<and>
   seen_coords (pipeline_run trade_simdjson sample_pipeline trade_inputs) = [(0, 1), (2, 1)]"
proof
  show "sorted_wrt coords_less (seen_coords (pipeline_run trade_simdjson sample_pipeline trade_inputs))"
    using pipeline_gap_safety [OF sample_created sample_inputs, of trade_simdjson]
    by (auto simp: sample_pipeline_def)
  show "seen_coords (pipeline_run trade_simdjson sample_pipeline trade_inputs) = [(0, 1), (2, 1)]"
    using sample_trades by (simp add: Let_def)
qed

end
