(* ===== verification/File_Sink.thy ===== *)
theory File_Sink
  imports Csv_Rows "HOL-Library.Sublist"
begin

text \<open>
  The buffered file sink (\<^verbatim>\<open>include/hft/buffered_file_sink.h\<close>, \<^verbatim>\<open>src/buffered_file_sink.cpp\<close>): one CSV file
  that is created exclusively, starts with its header and is appended to through a 256 KiB buffer.

  The operating system is on the other side of \<open>FileOperations\<close>.  A descriptor is modelled by the
  bytes the kernel has taken for it and by the results of its coming \<open>write\<close> calls, which are
  arbitrary: a count, a short count, zero, an error, or a count that is too large.  The results form
  a finite list; calls after them take all bytes.  So a call is interrupted finitely often, and
  \<open>write_all\<close> terminates.
\<close>

section \<open>Data\<close>

definition kCsvAggregationBufferBytes :: nat where "kCsvAggregationBufferBytes = 262144"

text \<open>Error numbers of \<^verbatim>\<open>errno.h\<close>.\<close>

definition ENOENT :: int where "ENOENT = 2"
definition EINTR :: int where "EINTR = 4"
definition EIO :: int where "EIO = 5"
definition EBADF :: int where "EBADF = 9"

datatype CsvFileKind = Kind_market_data | Kind_order_book

datatype FileSinkErrorCode =
    FS_none
  | FS_invalid_path
  | FS_invalid_file_kind
  | FS_invalid_record
  | FS_allocation_failure
  | FS_open_failed
  | FS_write_failed
  | FS_close_failed

datatype FileSinkCleanupOperation = Cleanup_none | Cleanup_close | Cleanup_remove

record FileSinkError =
  fse_code :: FileSinkErrorCode
  fse_native_error :: int
  fse_cleanup_operation :: FileSinkCleanupOperation
  fse_cleanup_native_error :: int

definition sink_error :: "FileSinkErrorCode \<Rightarrow> int \<Rightarrow> FileSinkError" where
  "sink_error code native = \<lparr>fse_code = code, fse_native_error = native,
     fse_cleanup_operation = Cleanup_none, fse_cleanup_native_error = 0\<rparr>"

definition no_sink_error :: FileSinkError where "no_sink_error = sink_error FS_none 0"

definition is_sink_error :: "FileSinkError \<Rightarrow> bool" where
  "is_sink_error e \<longleftrightarrow> fse_code e \<noteq> FS_none"

record FileOpenResult =
  for_descriptor :: int
  for_native_error :: int

record FileWriteResult =
  fwr_bytes :: int
  fwr_native_error :: int

record FileCloseResult =
  fcr_success :: bool
  fcr_native_error :: int

record FileRemoveResult =
  frr_success :: bool
  frr_native_error :: int

record BufferedFileSinkMetrics =
  fm_native_write_calls :: u64
  fm_bytes_written :: u64
  fm_rows_written :: u64
  fm_buffer_flushes :: u64
  fm_direct_large_records :: u64

definition no_sink_metrics :: BufferedFileSinkMetrics where
  "no_sink_metrics = \<lparr>fm_native_write_calls = 0, fm_bytes_written = 0, fm_rows_written = 0,
     fm_buffer_flushes = 0, fm_direct_large_records = 0\<rparr>"

text \<open>The kernel's side of a descriptor.\<close>

record FileHandle =
  fh_content :: string
  fh_writes :: "FileWriteResult list"
  fh_close :: FileCloseResult

definition handle_write :: "string \<Rightarrow> FileHandle \<Rightarrow> FileWriteResult \<times> FileHandle" where
  "handle_write bytes h =
     (case fh_writes h of
        [] \<Rightarrow> (\<lparr>fwr_bytes = int (length bytes), fwr_native_error = 0\<rparr>, h\<lparr>fh_content := fh_content h @ bytes\<rparr>)
      | r # rs \<Rightarrow> (r, h\<lparr>fh_content := fh_content h @ take (nat (fwr_bytes r)) bytes, fh_writes := rs\<rparr>))"

text \<open>\<open>snk_buffer\<close> is the used part of the aggregation buffer.\<close>

record BufferedCsvFileSink =
  snk_path :: string
  snk_descriptor :: int
  snk_buffer :: string
  snk_buffered_rows :: u64
  snk_first_error :: FileSinkError
  snk_metrics :: BufferedFileSinkMetrics
  snk_handle :: FileHandle

fun header_for :: "CsvFileKind \<Rightarrow> string" where
  "header_for Kind_market_data = kMarketDataCsvHeader"
| "header_for Kind_order_book = kOrderBookCsvHeader"

section \<open>Writing\<close>

definition sink_latch_error ::
    "BufferedCsvFileSink \<Rightarrow> FileSinkErrorCode \<Rightarrow> int \<Rightarrow> FileSinkError \<times> BufferedCsvFileSink" where
  "sink_latch_error s code native =
     (let s = (if is_sink_error (snk_first_error s) then s else s\<lparr>snk_first_error := sink_error code native\<rparr>)
      in (snk_first_error s, s))"

lemma handle_write_progress:
  assumes "handle_write bytes h = (r, h')" and "bytes \<noteq> []"
  shows "length (fh_writes h') + length (if fwr_bytes r < 0 then bytes else drop (nat (fwr_bytes r)) bytes)
     < length (fh_writes h) + length bytes"
  using assms by (auto simp: handle_write_def split: list.splits)

function write_all :: "BufferedCsvFileSink \<Rightarrow> string \<Rightarrow> FileSinkError \<times> BufferedCsvFileSink" where
  "write_all s bytes =
     (if bytes = [] then (no_sink_error, s)
      else case handle_write bytes (snk_handle s) of (result, h) \<Rightarrow>
        let s = s\<lparr>snk_handle := h, snk_metrics := (snk_metrics s)
                  \<lparr>fm_native_write_calls := fm_native_write_calls (snk_metrics s) + 1\<rparr>\<rparr>
        in if fwr_bytes result < 0 then
             (if fwr_native_error result = EINTR then write_all s bytes
              else sink_latch_error s FS_write_failed (fwr_native_error result))
           else if fwr_bytes result = 0 then sink_latch_error s FS_write_failed EIO
           else if nat (fwr_bytes result) > length bytes then sink_latch_error s FS_write_failed EIO
           else write_all (s\<lparr>snk_metrics := (snk_metrics s)
                  \<lparr>fm_bytes_written := fm_bytes_written (snk_metrics s) + of_int (fwr_bytes result)\<rparr>\<rparr>)
                  (drop (nat (fwr_bytes result)) bytes))"
  by pat_completeness auto
termination
  by (relation "measure (\<lambda>(s, bytes). length (fh_writes (snk_handle s)) + length bytes)")
    (auto dest!: handle_write_progress [OF sym] split: if_splits)

declare write_all.simps [simp del]

definition flush_buffer :: "BufferedCsvFileSink \<Rightarrow> FileSinkError \<times> BufferedCsvFileSink" where
  "flush_buffer s =
     (if length (snk_buffer s) = 0 then (no_sink_error, s)
      else case write_all s (snk_buffer s) of (write_error, s) \<Rightarrow>
        if is_sink_error write_error then (write_error, s)
        else (no_sink_error,
              s\<lparr>snk_metrics := (snk_metrics s)
                  \<lparr>fm_rows_written := fm_rows_written (snk_metrics s) + snk_buffered_rows s,
                   fm_buffer_flushes := fm_buffer_flushes (snk_metrics s) + 1\<rparr>,
                snk_buffer := [], snk_buffered_rows := 0\<rparr>))"

definition buffer_record :: "BufferedCsvFileSink \<Rightarrow> string \<Rightarrow> FileSinkError \<times> BufferedCsvFileSink" where
  "buffer_record s rec =
     (no_sink_error, s\<lparr>snk_buffer := snk_buffer s @ rec, snk_buffered_rows := snk_buffered_rows s + 1\<rparr>)"

definition append_record :: "BufferedCsvFileSink \<Rightarrow> string \<Rightarrow> FileSinkError \<times> BufferedCsvFileSink" where
  "append_record s rec =
     (if is_sink_error (snk_first_error s) then (snk_first_error s, s)
      else if snk_descriptor s < 0 \<or> rec = [] \<or> length rec > kMaxCsvRecordBytes \<or> last rec \<noteq> newline
      then sink_latch_error s FS_invalid_record 0
      else if length rec > kCsvAggregationBufferBytes then
        (case flush_buffer s of (flush_error, s) \<Rightarrow>
           if is_sink_error flush_error then (flush_error, s)
           else case write_all s rec of (write_error, s) \<Rightarrow>
             if is_sink_error write_error then (write_error, s)
             else (no_sink_error,
                   s\<lparr>snk_metrics := (snk_metrics s)
                       \<lparr>fm_rows_written := fm_rows_written (snk_metrics s) + 1,
                        fm_direct_large_records := fm_direct_large_records (snk_metrics s) + 1\<rparr>\<rparr>))
      else if length rec > kCsvAggregationBufferBytes - length (snk_buffer s) then
        (case flush_buffer s of (flush_error, s) \<Rightarrow>
           if is_sink_error flush_error then (flush_error, s) else buffer_record s rec)
      else buffer_record s rec)"

definition sink_flush :: "BufferedCsvFileSink \<Rightarrow> FileSinkError \<times> BufferedCsvFileSink" where
  "sink_flush s =
     (if is_sink_error (snk_first_error s) then (snk_first_error s, s)
      else if snk_descriptor s < 0 then sink_latch_error s FS_write_failed EBADF
      else flush_buffer s)"

definition sink_close :: "BufferedCsvFileSink \<Rightarrow> FileSinkError \<times> BufferedCsvFileSink" where
  "sink_close s =
     (if snk_descriptor s < 0 then (snk_first_error s, s)
      else
        let s = (if is_sink_error (snk_first_error s) then s else snd (flush_buffer s));
            s = s\<lparr>snk_descriptor := - 1\<rparr>;
            close_result = fh_close (snk_handle s);
            s = (if \<not> fcr_success close_result \<and> \<not> is_sink_error (snk_first_error s)
                 then snd (sink_latch_error s FS_close_failed (fcr_native_error close_result)) else s)
        in (snk_first_error s, s))"

definition sink_is_open :: "BufferedCsvFileSink \<Rightarrow> bool" where
  "sink_is_open s \<longleftrightarrow> snk_descriptor s \<ge> 0"

definition sink_failed :: "BufferedCsvFileSink \<Rightarrow> bool" where
  "sink_failed s \<longleftrightarrow> is_sink_error (snk_first_error s)"

section \<open>Opening\<close>

text \<open>
  What one call of \<open>open_exclusive\<close> meets: whether operations were given, the result of the exclusive
  \<open>open\<close>, whether the sink could be allocated, the descriptor, and the result of \<open>remove\<close>.
\<close>

record OpenEnvironment =
  oe_operations :: bool
  oe_open :: FileOpenResult
  oe_allocated :: bool
  oe_handle :: FileHandle
  oe_remove :: FileRemoveResult

text \<open>The calls made to the operating system, in order; an \<open>open\<close> says whether it created the file.\<close>

datatype os_call =
    Call_open string bool | Call_close string | Call_remove string | Call_mkdir string | Call_rmdir string

definition cleanup_error :: "FileCloseResult \<Rightarrow> FileRemoveResult \<Rightarrow> FileSinkError \<Rightarrow> FileSinkError" where
  "cleanup_error closed removed e =
     (if \<not> fcr_success closed
      then e\<lparr>fse_cleanup_operation := Cleanup_close, fse_cleanup_native_error := fcr_native_error closed\<rparr>
      else if \<not> frr_success removed \<and> frr_native_error removed \<noteq> ENOENT
      then e\<lparr>fse_cleanup_operation := Cleanup_remove, fse_cleanup_native_error := frr_native_error removed\<rparr>
      else e)"

definition close_after_failed_open ::
    "FileRemoveResult \<Rightarrow> BufferedCsvFileSink \<Rightarrow> FileSinkError \<times> os_call list" where
  "close_after_failed_open removed s =
     (cleanup_error (fh_close (snk_handle s)) removed no_sink_error,
      [Call_close (snk_path s), Call_remove (snk_path s)])"

definition new_sink :: "string \<Rightarrow> int \<Rightarrow> FileHandle \<Rightarrow> BufferedCsvFileSink" where
  "new_sink path descriptor h = \<lparr>snk_path = path, snk_descriptor = descriptor, snk_buffer = [],
     snk_buffered_rows = 0, snk_first_error = no_sink_error, snk_metrics = no_sink_metrics, snk_handle = h\<rparr>"

definition open_exclusive ::
    "OpenEnvironment \<Rightarrow> string \<Rightarrow> CsvFileKind \<Rightarrow> FileSinkError \<times> BufferedCsvFileSink option \<times> os_call list" where
  "open_exclusive env path kind =
     (if path = [] then (sink_error FS_invalid_path 0, None, [])
      else if \<not> oe_operations env then (sink_error FS_allocation_failure 0, None, [])
      else
        let header = header_for kind in
        if header = [] then (sink_error FS_invalid_file_kind 0, None, [])
        else if for_descriptor (oe_open env) < 0
        then (sink_error FS_open_failed (for_native_error (oe_open env)), None, [Call_open path False])
        else if \<not> oe_allocated env
        then (cleanup_error (fh_close (oe_handle env)) (oe_remove env) (sink_error FS_allocation_failure 0),
              None, [Call_open path True, Call_close path, Call_remove path])
        else
          (case write_all (new_sink path (for_descriptor (oe_open env)) (oe_handle env)) header of
             (header_error, s) \<Rightarrow>
               if is_sink_error header_error then
                 (case close_after_failed_open (oe_remove env) s of (cleanup, calls) \<Rightarrow>
                    (header_error\<lparr>fse_cleanup_operation := fse_cleanup_operation cleanup,
                       fse_cleanup_native_error := fse_cleanup_native_error cleanup\<rparr>,
                     None, Call_open path True # calls))
               else (no_sink_error, Some s, [Call_open path True])))"

end
