(* ===== verification/Output_Set.thy ===== *)
theory Output_Set
  imports File_Sink Event_Processor
begin

text \<open>
  The set of output files (\<^verbatim>\<open>include/hft/csv_output_set.h\<close>, \<^verbatim>\<open>src/csv_output_set.cpp\<close>): per symbol an audit
  file and an order-book file in live mode, an order-book file in replay mode, opened together in an
  empty directory and rolled back together when one of them cannot be opened.
\<close>

section \<open>Data\<close>

datatype CsvOutputMode = Output_live_capture | Output_replay

record ReplayOutputSpec =
  ros_normalized_symbol :: string
  ros_input_file_stem :: string

datatype OutputRollbackOperation = Rollback_none | Rollback_close_file | Rollback_remove_file | Rollback_remove_directory

record OutputRollbackError =
  orb_operation :: OutputRollbackOperation
  orb_target_index :: nat
  orb_file_kind :: CsvFileKind
  orb_file_error :: FileSinkError
  orb_native_error :: int

datatype OutputSetOpenErrorCode =
    OO_none
  | OO_invalid_input
  | OO_invalid_venue
  | OO_invalid_utc_date
  | OO_invalid_replay_stem
  | OO_duplicate_output_path
  | OO_invalid_output_directory
  | OO_output_directory_not_empty
  | OO_file_system_failure
  | OO_allocation_failure
  | OO_file_sink_failure

record OutputSetOpenError =
  ose_code :: OutputSetOpenErrorCode
  ose_symbol_error :: SymbolValidationError
  ose_target_index :: nat
  ose_file_kind :: CsvFileKind
  ose_file_error :: FileSinkError
  ose_native_error :: int
  ose_path :: string
  ose_rollback_error :: OutputRollbackError

definition no_rollback_error :: OutputRollbackError where
  "no_rollback_error = \<lparr>orb_operation = Rollback_none, orb_target_index = kNoSymbolIndex,
     orb_file_kind = Kind_market_data, orb_file_error = no_sink_error, orb_native_error = 0\<rparr>"

definition no_open_error :: OutputSetOpenError where
  "no_open_error = \<lparr>ose_code = OO_none, ose_symbol_error = Sym_none, ose_target_index = kNoSymbolIndex,
     ose_file_kind = Kind_market_data, ose_file_error = no_sink_error, ose_native_error = 0, ose_path = [],
     ose_rollback_error = no_rollback_error\<rparr>"

datatype OutputSetWriteErrorCode = OW_none | OW_invalid_target | OW_invalid_batch | OW_closed | OW_file_failure

record OutputSetWriteError =
  osw_code :: OutputSetWriteErrorCode
  osw_target_index :: nat
  osw_file_kind :: CsvFileKind
  osw_file_error :: FileSinkError

definition no_write_error :: OutputSetWriteError where
  "no_write_error = \<lparr>osw_code = OW_none, osw_target_index = kNoSymbolIndex, osw_file_kind = Kind_market_data,
     osw_file_error = no_sink_error\<rparr>"

definition is_write_error :: "OutputSetWriteError \<Rightarrow> bool" where
  "is_write_error e \<longleftrightarrow> osw_code e \<noteq> OW_none"

record CsvOutputSetMetrics =
  osm_audit_rows_written :: u64
  osm_order_book_rows_written :: u64
  osm_audit_rows_buffered :: u64
  osm_order_book_rows_buffered :: u64

record TargetFiles =
  tf_symbol :: string
  tf_audit_path :: string
  tf_order_book_path :: string
  tf_audit :: "BufferedCsvFileSink option"
  tf_order_book :: "BufferedCsvFileSink option"
  tf_audit_created :: bool
  tf_order_book_created :: bool

text \<open>\<open>out_targets\<close> are the first \<open>target_count_\<close> entries of the array.\<close>

record CsvOutputSet =
  out_mode :: CsvOutputMode
  out_venue :: "PayloadVenue option"
  out_directory :: string
  out_targets :: "TargetFiles list"
  out_directory_created :: bool
  out_closed :: bool
  out_first_error :: OutputSetWriteError

section \<open>Names\<close>

definition parse_two_digits :: "string \<Rightarrow> nat \<Rightarrow> int" where
  "parse_two_digits s offset = digit_value (s ! offset) * 10 + digit_value (s ! (offset + 1))"

definition parse_four_digits :: "string \<Rightarrow> int" where
  "parse_four_digits s = digit_value (s ! 0) * 1000 + digit_value (s ! 1) * 100 +
     digit_value (s ! 2) * 10 + digit_value (s ! 3)"

definition is_leap_year :: "int \<Rightarrow> bool" where
  "is_leap_year year \<longleftrightarrow> year mod 4 = 0 \<and> (year mod 100 \<noteq> 0 \<or> year mod 400 = 0)"

definition days_in_month :: "int \<Rightarrow> int \<Rightarrow> int" where
  "days_in_month year month =
     (if month = 0 \<or> month > 12 then 0
      else if month = 2 \<and> is_leap_year year then 29
      else [31, 28, 31, 30, 31, 30, 31, 31, 30, 31, 30, 31] ! (nat month - 1))"

definition valid_utc_date :: "string \<Rightarrow> bool" where
  "valid_utc_date s =
     (if length s \<noteq> 10 \<or> s ! 4 \<noteq> CHR ''-'' \<or> s ! 7 \<noteq> CHR ''-'' then False
      else if \<not> list_all (\<lambda>offset. is_digit (s ! offset)) [0, 1, 2, 3, 5, 6, 8, 9] then False
      else let year = parse_four_digits s; month = parse_two_digits s 5; day = parse_two_digits s 8
           in year \<noteq> 0 \<and> day \<noteq> 0 \<and> day \<le> days_in_month year month)"

definition valid_replay_stem :: "string \<Rightarrow> bool" where
  "valid_replay_stem s =
     (if s = [] \<or> s = ''.'' \<or> s = ''..'' then False
      else list_all (\<lambda>byte. \<not> (byte = CHR ''/'' \<or> byte_of byte = 92 \<or> byte_of byte = 0 \<or>
             byte_of byte < 32 \<or> byte_of byte = 127)) s)"

fun venue_name :: "PayloadVenue \<Rightarrow> string" where
  "venue_name Venue_spot = ''spot''"
| "venue_name Venue_usdm = ''usdm''"

text \<open>\<open>base / name\<close> of \<open>std::filesystem::path\<close> with POSIX paths.\<close>

definition path_join :: "string \<Rightarrow> string \<Rightarrow> string" where
  "path_join base name =
     (if name \<noteq> [] \<and> hd name = CHR ''/'' then name
      else if base = [] \<or> last base = CHR ''/'' then base @ name
      else base @ ''/'' @ name)"

section \<open>Opening\<close>

text \<open>
  What opening a set meets: whether the set and its names could be allocated, the answers of the
  file system about the directory (\<open>Inl\<close> is an error number), the files, and whether the copies of
  path strings that the code makes on the way could be allocated.
\<close>

record OutputEnvironment =
  ove_operations :: bool
  ove_allocated :: bool
  ove_exists :: "int + bool"
  ove_is_directory :: "int + bool"
  ove_is_empty :: "int + bool"
  ove_create_directory :: "int + bool"
  ove_rmdir :: "int option"
  ove_path_copied :: "nat \<Rightarrow> CsvFileKind \<Rightarrow> bool"
  ove_error_path_copied :: bool
  ove_files :: "nat \<Rightarrow> CsvFileKind \<Rightarrow> OpenEnvironment"
  ove_removes :: "nat \<Rightarrow> CsvFileKind \<Rightarrow> FileRemoveResult"

datatype open_outcome = Opened | Open_failed | Open_threw

definition record_rollback_error ::
    "OutputRollbackOperation \<Rightarrow> nat \<Rightarrow> CsvFileKind \<Rightarrow> FileSinkError \<Rightarrow> int \<Rightarrow> OutputSetOpenError \<Rightarrow> OutputSetOpenError" where
  "record_rollback_error op index kind file_error native e =
     (if orb_operation (ose_rollback_error e) \<noteq> Rollback_none then e
      else e\<lparr>ose_rollback_error := \<lparr>orb_operation = op, orb_target_index = index, orb_file_kind = kind,
               orb_file_error = file_error, orb_native_error = native\<rparr>\<rparr>)"

text \<open>An assignment of the path to the error may throw; the fields before it are set.\<close>

definition fail_with_path ::
    "OutputEnvironment \<Rightarrow> string \<Rightarrow> OutputSetOpenError \<Rightarrow> open_outcome \<times> OutputSetOpenError" where
  "fail_with_path env path e =
     (if ove_error_path_copied env then (Open_failed, e\<lparr>ose_path := path\<rparr>) else (Open_threw, e))"

definition prepare_output_directory ::
    "OutputEnvironment \<Rightarrow> CsvOutputSet \<Rightarrow> OutputSetOpenError \<Rightarrow>
     open_outcome \<times> OutputSetOpenError \<times> CsvOutputSet \<times> os_call list" where
  "prepare_output_directory env out e =
     (let dir = out_directory out;
          fail = (\<lambda>code native. case fail_with_path env dir (e\<lparr>ose_code := code, ose_native_error := native\<rparr>) of
                    (r, e) \<Rightarrow> (r, e, out, []))
      in case ove_exists env of
           Inl native \<Rightarrow> fail OO_file_system_failure native
         | Inr True \<Rightarrow>
             (case ove_is_directory env of
                Inl native \<Rightarrow> fail OO_file_system_failure native
              | Inr False \<Rightarrow> fail OO_invalid_output_directory (ose_native_error e)
              | Inr True \<Rightarrow>
                  (case ove_is_empty env of
                     Inl native \<Rightarrow> fail OO_file_system_failure native
                   | Inr False \<Rightarrow> fail OO_output_directory_not_empty (ose_native_error e)
                   | Inr True \<Rightarrow> (Opened, e, out, [])))
         | Inr False \<Rightarrow>
             (case ove_create_directory env of
                Inl native \<Rightarrow> fail OO_file_system_failure native
              | Inr False \<Rightarrow> fail OO_invalid_output_directory 0
              | Inr True \<Rightarrow> (Opened, e, out\<lparr>out_directory_created := True\<rparr>, [Call_mkdir dir])))"

text \<open>One call of \<open>open_exclusive\<close> in \<open>open_files\<close> with its error path.\<close>

definition open_target_file ::
    "OutputEnvironment \<Rightarrow> nat \<Rightarrow> CsvFileKind \<Rightarrow> string \<Rightarrow> OutputSetOpenError \<Rightarrow>
     BufferedCsvFileSink option \<times> open_outcome \<times> OutputSetOpenError \<times> os_call list" where
  "open_target_file env index kind path e =
     (if \<not> ove_path_copied env index kind then (None, Open_threw, e, [])
      else case open_exclusive (ove_files env index kind) path kind of
        (file_error, Some s, calls) \<Rightarrow> (Some s, Opened, e, calls)
      | (file_error, None, calls) \<Rightarrow>
          (case fail_with_path env path (e\<lparr>ose_code := OO_file_sink_failure, ose_target_index := index,
                  ose_file_kind := kind, ose_file_error := file_error\<rparr>) of
             (Open_threw, e) \<Rightarrow> (None, Open_threw, e, calls)
           | (r, e) \<Rightarrow>
               if fse_code file_error \<noteq> FS_open_failed then
                 let removal = ove_removes env index kind in
                 (None, r,
                  (if \<not> frr_success removal \<and> frr_native_error removal \<noteq> ENOENT
                   then record_rollback_error Rollback_remove_file index kind no_sink_error
                          (frr_native_error removal) e
                   else e),
                  calls @ [Call_remove path])
               else (None, r, e, calls)))"

definition open_target ::
    "OutputEnvironment \<Rightarrow> CsvOutputMode \<Rightarrow> nat \<Rightarrow> TargetFiles \<Rightarrow> OutputSetOpenError \<Rightarrow>
     TargetFiles \<times> open_outcome \<times> OutputSetOpenError \<times> os_call list" where
  "open_target env mode index target e =
     (let audit = (if mode = Output_live_capture
                   then (case open_target_file env index Kind_market_data (tf_audit_path target) e of
                           (Some s, r, e, calls) \<Rightarrow> (target\<lparr>tf_audit := Some s, tf_audit_created := True\<rparr>, r, e, calls)
                         | (None, r, e, calls) \<Rightarrow> (target, r, e, calls))
                   else (target, Opened, e, []))
      in case audit of
           (target, Opened, e, calls) \<Rightarrow>
             (case open_target_file env index Kind_order_book (tf_order_book_path target) e of
                (Some s, r, e, calls') \<Rightarrow>
                  (target\<lparr>tf_order_book := Some s, tf_order_book_created := True\<rparr>, r, e, calls @ calls')
              | (None, r, e, calls') \<Rightarrow> (target, r, e, calls @ calls'))
         | failed \<Rightarrow> failed)"

fun open_files ::
    "OutputEnvironment \<Rightarrow> CsvOutputMode \<Rightarrow> nat \<Rightarrow> TargetFiles list \<Rightarrow> OutputSetOpenError \<Rightarrow>
     TargetFiles list \<times> open_outcome \<times> OutputSetOpenError \<times> os_call list" where
  "open_files env mode index [] e = ([], Opened, e, [])"
| "open_files env mode index (target # targets) e =
     (case open_target env mode index target e of
        (target, Opened, e, calls) \<Rightarrow>
          (case open_files env mode (Suc index) targets e of
             (targets, r, e, calls') \<Rightarrow> (target # targets, r, e, calls @ calls'))
      | (target, r, e, calls) \<Rightarrow> (target # targets, r, e, calls))"

text \<open>Undoing one target: close both files, then remove those that were created.\<close>

definition rollback_close ::
    "nat \<Rightarrow> CsvFileKind \<Rightarrow> BufferedCsvFileSink option \<Rightarrow> OutputSetOpenError \<Rightarrow> OutputSetOpenError \<times> os_call list" where
  "rollback_close index kind sink e =
     (case sink of
        None \<Rightarrow> (e, [])
      | Some s \<Rightarrow>
          (case sink_close s of (close_error, _) \<Rightarrow>
             (if is_sink_error close_error
              then record_rollback_error Rollback_close_file index kind close_error 0 e else e,
              [Call_close (snk_path s)])))"

definition rollback_remove ::
    "OutputEnvironment \<Rightarrow> nat \<Rightarrow> CsvFileKind \<Rightarrow> bool \<Rightarrow> string \<Rightarrow> OutputSetOpenError \<Rightarrow>
     OutputSetOpenError \<times> os_call list" where
  "rollback_remove env index kind created path e =
     (if \<not> created then (e, [])
      else let removal = ove_removes env index kind in
        (if \<not> frr_success removal \<and> frr_native_error removal \<noteq> ENOENT
         then record_rollback_error Rollback_remove_file index kind no_sink_error (frr_native_error removal) e
         else e, [Call_remove path]))"

definition rollback_target ::
    "OutputEnvironment \<Rightarrow> nat \<Rightarrow> TargetFiles \<Rightarrow> OutputSetOpenError \<Rightarrow> OutputSetOpenError \<times> os_call list" where
  "rollback_target env index target e =
     (case rollback_close index Kind_order_book (tf_order_book target) e of (e, c1) \<Rightarrow>
      case rollback_close index Kind_market_data (tf_audit target) e of (e, c2) \<Rightarrow>
      case rollback_remove env index Kind_order_book (tf_order_book_created target) (tf_order_book_path target) e of
        (e, c3) \<Rightarrow>
      case rollback_remove env index Kind_market_data (tf_audit_created target) (tf_audit_path target) e of
        (e, c4) \<Rightarrow> (e, c1 @ c2 @ c3 @ c4))"

text \<open>The targets are undone from the last to the first.\<close>

fun rollback_targets ::
    "OutputEnvironment \<Rightarrow> nat \<Rightarrow> TargetFiles list \<Rightarrow> OutputSetOpenError \<Rightarrow> OutputSetOpenError \<times> os_call list" where
  "rollback_targets env index [] e = (e, [])"
| "rollback_targets env index (target # targets) e =
     (case rollback_targets env (Suc index) targets e of (e, calls) \<Rightarrow>
      case rollback_target env index target e of (e, calls') \<Rightarrow> (e, calls @ calls'))"

definition rollback_initialization ::
    "OutputEnvironment \<Rightarrow> CsvOutputSet \<Rightarrow> OutputSetOpenError \<Rightarrow> OutputSetOpenError \<times> os_call list" where
  "rollback_initialization env out e =
     (case rollback_targets env 0 (out_targets out) e of (e, calls) \<Rightarrow>
        if out_directory_created out
        then ((case ove_rmdir env of
                 Some native \<Rightarrow> if native \<noteq> ENOENT
                   then record_rollback_error Rollback_remove_directory kNoSymbolIndex Kind_market_data
                          no_sink_error native e
                   else e
               | None \<Rightarrow> e),
              calls @ [Call_rmdir (out_directory out)])
        else (e, calls))"

definition allocation_error :: OutputSetOpenError where
  "allocation_error = no_open_error\<lparr>ose_code := OO_allocation_failure\<rparr>"

text \<open>The common end of \<open>open_live\<close> and \<open>open_replay\<close>.\<close>

definition open_prepared ::
    "OutputEnvironment \<Rightarrow> CsvOutputSet \<Rightarrow> OutputSetOpenError \<times> CsvOutputSet option \<times> os_call list" where
  "open_prepared env out =
     (case (case prepare_output_directory env out no_open_error of
              (Opened, e, out, calls) \<Rightarrow>
                (case open_files env (out_mode out) 0 (out_targets out) e of
                   (targets, r, e, calls') \<Rightarrow> (r, e, out\<lparr>out_targets := targets\<rparr>, calls @ calls'))
            | failed \<Rightarrow> failed) of
        (Opened, e, out, calls) \<Rightarrow> (e, Some out, calls)
      | (Open_failed, e, out, calls) \<Rightarrow>
          (case rollback_initialization env out e of (e, calls') \<Rightarrow> (e, None, calls @ calls'))
      | (Open_threw, e, out, calls) \<Rightarrow>
          (case rollback_initialization env out allocation_error of (e, calls') \<Rightarrow> (e, None, calls @ calls')))"

definition new_target :: "string \<Rightarrow> string \<Rightarrow> string \<Rightarrow> TargetFiles" where
  "new_target symb audit_path order_book_path =
     \<lparr>tf_symbol = symb, tf_audit_path = audit_path, tf_order_book_path = order_book_path, tf_audit = None,
      tf_order_book = None, tf_audit_created = False, tf_order_book_created = False\<rparr>"

definition live_target :: "string \<Rightarrow> PayloadVenue \<Rightarrow> string \<Rightarrow> string \<Rightarrow> TargetFiles" where
  "live_target dir venue utc_date symb =
     (let stem = ''market_data_'' @ venue_name venue @ ''_'' @ symb @ ''_'' @ utc_date
      in new_target symb (path_join dir (stem @ ''.csv'')) (path_join dir (stem @ ''_orderbook.csv'')))"

definition open_live ::
    "OutputEnvironment \<Rightarrow> string \<Rightarrow> PayloadVenue \<Rightarrow> string list option \<Rightarrow> nat \<Rightarrow> string \<Rightarrow>
     OutputSetOpenError \<times> CsvOutputSet option \<times> os_call list" where
  "open_live env dir venue normalized_symbols symbol_count utc_date =
     (let symbols = validate_symbol_set normalized_symbols symbol_count in
      if \<not> symset_has_value symbols
      then (no_open_error\<lparr>ose_code := OO_invalid_input, ose_symbol_error := symset_error symbols,
              ose_target_index := symset_first_index symbols\<rparr>, None, [])
      else if venue_name venue = [] then (no_open_error\<lparr>ose_code := OO_invalid_venue\<rparr>, None, [])
      else if \<not> valid_utc_date utc_date then (no_open_error\<lparr>ose_code := OO_invalid_utc_date\<rparr>, None, [])
      else if dir = [] \<or> \<not> ove_operations env then (no_open_error\<lparr>ose_code := OO_invalid_input\<rparr>, None, [])
      else if \<not> ove_allocated env then (allocation_error, None, [])
      else open_prepared env
        \<lparr>out_mode = Output_live_capture, out_venue = Some venue, out_directory = dir,
         out_targets = map (live_target dir venue utc_date) (take symbol_count (the normalized_symbols)),
         out_directory_created = False, out_closed = False, out_first_error = no_write_error\<rparr>)"

fun check_stems :: "string list \<Rightarrow> string list \<Rightarrow> (OutputSetOpenErrorCode \<times> nat) option" where
  "check_stems before [] = None"
| "check_stems before (stem # stems) =
     (if \<not> valid_replay_stem stem then Some (OO_invalid_replay_stem, length before)
      else if list_ex (\<lambda>p. stem = p) before then Some (OO_duplicate_output_path, length before)
      else check_stems (before @ [stem]) stems)"

definition replay_target :: "string \<Rightarrow> ReplayOutputSpec \<Rightarrow> TargetFiles" where
  "replay_target dir spec =
     new_target (ros_normalized_symbol spec) [] (path_join dir (ros_input_file_stem spec @ ''_orderbook.csv''))"

definition open_replay ::
    "OutputEnvironment \<Rightarrow> string \<Rightarrow> ReplayOutputSpec list option \<Rightarrow> nat \<Rightarrow>
     OutputSetOpenError \<times> CsvOutputSet option \<times> os_call list" where
  "open_replay env dir specifications specification_count =
     (case specifications of
        None \<Rightarrow> (no_open_error\<lparr>ose_code := OO_invalid_input\<rparr>, None, [])
      | Some all_specs \<Rightarrow>
          if specification_count = 0 \<or> specification_count > kMaxConfiguredSymbols \<or> dir = [] \<or> \<not> ove_operations env
          then (no_open_error\<lparr>ose_code := OO_invalid_input\<rparr>, None, [])
          else
            let specs = take specification_count all_specs;
                symbols = validate_symbol_set (Some (map ros_normalized_symbol specs)) specification_count
            in if \<not> symset_has_value symbols
               then (no_open_error\<lparr>ose_code := OO_invalid_input, ose_symbol_error := symset_error symbols,
                       ose_target_index := symset_first_index symbols\<rparr>, None, [])
               else (case check_stems [] (map ros_input_file_stem specs) of
                       Some (code, index) \<Rightarrow>
                         (no_open_error\<lparr>ose_code := code, ose_target_index := index\<rparr>, None, [])
                     | None \<Rightarrow>
                         if \<not> ove_allocated env then (allocation_error, None, [])
                         else open_prepared env
                           \<lparr>out_mode = Output_replay, out_venue = None, out_directory = dir,
                            out_targets = map (replay_target dir) specs, out_directory_created = False,
                            out_closed = False, out_first_error = no_write_error\<rparr>))"

section \<open>Using the set\<close>

definition out_target_count :: "CsvOutputSet \<Rightarrow> nat" where
  "out_target_count out = length (out_targets out)"

fun find_target_from :: "nat \<Rightarrow> TargetFiles list \<Rightarrow> string \<Rightarrow> nat option" where
  "find_target_from index [] symb = None"
| "find_target_from index (target # targets) symb =
     (if tf_symbol target = symb then Some index else find_target_from (Suc index) targets symb)"

definition find_target :: "CsvOutputSet \<Rightarrow> string \<Rightarrow> nat option" where
  "find_target out symb = find_target_from 0 (out_targets out) symb"

definition out_symbol :: "CsvOutputSet \<Rightarrow> nat \<Rightarrow> string" where
  "out_symbol out target_index =
     (if target_index \<ge> out_target_count out then [] else tf_symbol (out_targets out ! target_index))"

definition out_latch_error ::
    "OutputSetWriteErrorCode \<Rightarrow> nat \<Rightarrow> CsvFileKind \<Rightarrow> FileSinkError \<Rightarrow> OutputSetWriteError \<Rightarrow> OutputSetWriteError" where
  "out_latch_error code target_index kind file_error first =
     (if is_write_error first then first
      else \<lparr>osw_code = code, osw_target_index = target_index, osw_file_kind = kind, osw_file_error = file_error\<rparr>)"

definition out_fail ::
    "OutputSetWriteErrorCode \<Rightarrow> nat \<Rightarrow> CsvFileKind \<Rightarrow> FileSinkError \<Rightarrow> CsvOutputSet \<Rightarrow> OutputSetWriteError \<times> CsvOutputSet" where
  "out_fail code target_index kind file_error out =
     (let e = out_latch_error code target_index kind file_error (out_first_error out)
      in (e, out\<lparr>out_first_error := e\<rparr>))"

definition valid_batch_contract :: "CsvOutputMode \<Rightarrow> EventRowBatch \<Rightarrow> bool" where
  "valid_batch_contract mode batch =
     (if has_audit_row batch = (crb_view (audit_row batch) = []) \<or>
         has_order_book_row batch = (crb_view (order_book_row_buffer batch) = []) then False
      else if mode = Output_live_capture then \<not> has_order_book_row batch \<or> has_audit_row batch
      else \<not> has_audit_row batch)"

text \<open>A row appended to one of the files; a file that is not open would be a null pointer.\<close>

definition append_to :: "BufferedCsvFileSink option \<Rightarrow> string \<Rightarrow> FileSinkError \<times> BufferedCsvFileSink option" where
  "append_to sink row = (case sink of Some s \<Rightarrow> (case append_record s row of (e, s) \<Rightarrow> (e, Some s))
     | None \<Rightarrow> (no_sink_error, None))"

definition append_if :: "bool \<Rightarrow> BufferedCsvFileSink option \<Rightarrow> string \<Rightarrow> FileSinkError \<times> BufferedCsvFileSink option" where
  "append_if has_row sink row = (if has_row then append_to sink row else (no_sink_error, sink))"

definition write_batch ::
    "CsvOutputSet \<Rightarrow> nat \<Rightarrow> EventRowBatch \<Rightarrow> OutputSetWriteError \<times> CsvOutputSet" where
  "write_batch out target_index batch =
     (if is_write_error (out_first_error out) then (out_first_error out, out)
      else if out_closed out then out_fail OW_closed target_index Kind_market_data no_sink_error out
      else if target_index \<ge> out_target_count out
      then out_fail OW_invalid_target target_index Kind_market_data no_sink_error out
      else if \<not> valid_batch_contract (out_mode out) batch
      then out_fail OW_invalid_batch target_index Kind_market_data no_sink_error out
      else
        let target = out_targets out ! target_index;
            audit = append_if (has_audit_row batch) (tf_audit target) (crb_view (audit_row batch));
            target = target\<lparr>tf_audit := snd audit\<rparr>;
            out = out\<lparr>out_targets := (out_targets out)[target_index := target]\<rparr>
        in if is_sink_error (fst audit)
           then out_fail OW_file_failure target_index Kind_market_data (fst audit) out
           else
             let book = append_if (has_order_book_row batch) (tf_order_book target)
                   (crb_view (order_book_row_buffer batch));
                 out = out\<lparr>out_targets := (out_targets out)[target_index := target\<lparr>tf_order_book := snd book\<rparr>]\<rparr>
             in if is_sink_error (fst book)
                then out_fail OW_file_failure target_index Kind_order_book (fst book) out
                else (no_write_error, out))"

text \<open>The loops of \<open>flush_all\<close> and \<open>close_all\<close>: both files of every target, remembering the first error.\<close>

definition visit_sink ::
    "(BufferedCsvFileSink \<Rightarrow> FileSinkError \<times> BufferedCsvFileSink) \<Rightarrow> nat \<Rightarrow> CsvFileKind \<Rightarrow>
     BufferedCsvFileSink option \<Rightarrow> OutputSetWriteError \<Rightarrow> BufferedCsvFileSink option \<times> OutputSetWriteError" where
  "visit_sink op index kind sink first =
     (case sink of
        None \<Rightarrow> (None, first)
      | Some s \<Rightarrow>
          (case op s of (error, s) \<Rightarrow>
             (Some s,
              if is_sink_error error \<and> \<not> is_write_error first
              then out_latch_error OW_file_failure index kind error first else first)))"

fun visit_targets ::
    "(BufferedCsvFileSink \<Rightarrow> FileSinkError \<times> BufferedCsvFileSink) \<Rightarrow> nat \<Rightarrow> TargetFiles list \<Rightarrow>
     OutputSetWriteError \<Rightarrow> TargetFiles list \<times> OutputSetWriteError" where
  "visit_targets op index [] first = ([], first)"
| "visit_targets op index (target # targets) first =
     (case visit_sink op index Kind_market_data (tf_audit target) first of (audit, first) \<Rightarrow>
      case visit_sink op index Kind_order_book (tf_order_book target) first of (book, first) \<Rightarrow>
      case visit_targets op (Suc index) targets first of (targets, first) \<Rightarrow>
        (target\<lparr>tf_audit := audit, tf_order_book := book\<rparr> # targets, first))"

definition flush_all :: "CsvOutputSet \<Rightarrow> OutputSetWriteError \<times> CsvOutputSet" where
  "flush_all out =
     (if out_closed out then
        (if is_write_error (out_first_error out) then (out_first_error out, out)
         else out_fail OW_closed kNoSymbolIndex Kind_market_data no_sink_error out)
      else case visit_targets sink_flush 0 (out_targets out) (out_first_error out) of
        (targets, first) \<Rightarrow> (first, out\<lparr>out_targets := targets, out_first_error := first\<rparr>))"

definition close_all :: "CsvOutputSet \<Rightarrow> OutputSetWriteError \<times> CsvOutputSet" where
  "close_all out =
     (if out_closed out then (out_first_error out, out)
      else case visit_targets sink_close 0 (out_targets out) (out_first_error out) of
        (targets, first) \<Rightarrow>
          (first, out\<lparr>out_targets := targets, out_closed := True, out_first_error := first\<rparr>))"

definition out_failed :: "CsvOutputSet \<Rightarrow> bool" where
  "out_failed out \<longleftrightarrow> is_write_error (out_first_error out)"

definition add_target_metrics :: "CsvOutputSetMetrics \<Rightarrow> TargetFiles \<Rightarrow> CsvOutputSetMetrics" where
  "add_target_metrics m target =
     (let m = (case tf_audit target of None \<Rightarrow> m | Some s \<Rightarrow>
                 m\<lparr>osm_audit_rows_written := osm_audit_rows_written m + fm_rows_written (snk_metrics s),
                   osm_audit_rows_buffered := osm_audit_rows_buffered m + snk_buffered_rows s\<rparr>)
      in case tf_order_book target of None \<Rightarrow> m | Some s \<Rightarrow>
           m\<lparr>osm_order_book_rows_written := osm_order_book_rows_written m + fm_rows_written (snk_metrics s),
             osm_order_book_rows_buffered := osm_order_book_rows_buffered m + snk_buffered_rows s\<rparr>)"

definition out_metrics :: "CsvOutputSet \<Rightarrow> CsvOutputSetMetrics" where
  "out_metrics out = foldl add_target_metrics
     \<lparr>osm_audit_rows_written = 0, osm_order_book_rows_written = 0, osm_audit_rows_buffered = 0,
      osm_order_book_rows_buffered = 0\<rparr> (out_targets out)"

end
