(* ===== verification/File_Sink_Guarantees.thy ===== *)
theory File_Sink_Guarantees
  imports File_Sink
begin

text \<open>
  The sink as a stream: what the kernel has taken plus what is buffered.  While no error occurred the
  stream is the header followed by the records in the order they were appended; after an error the
  file still holds a prefix of it and is never written again.
\<close>

definition sink_stream :: "BufferedCsvFileSink \<Rightarrow> string" where
  "sink_stream s = fh_content (snk_handle s) @ snk_buffer s"

text \<open>What \<open>write_all\<close> changes: only the handle, the metrics and the first error.\<close>

definition same_sink :: "BufferedCsvFileSink \<Rightarrow> BufferedCsvFileSink \<Rightarrow> bool" where
  "same_sink s s' \<longleftrightarrow> snk_path s' = snk_path s \<and> snk_descriptor s' = snk_descriptor s \<and> snk_buffer s' = snk_buffer s \<and>
     snk_buffered_rows s' = snk_buffered_rows s \<and> fh_close (snk_handle s') = fh_close (snk_handle s) \<and>
     fm_rows_written (snk_metrics s') = fm_rows_written (snk_metrics s)"

lemma handle_write_content:
  assumes "handle_write bytes h = (r, h')"
  shows "fh_content h' = fh_content h @ take (nat (fwr_bytes r)) bytes \<and> fh_close h' = fh_close h"
  using assms by (auto simp: handle_write_def split: list.splits)

lemma sink_latch_error_simps:
  assumes "sink_latch_error s code native = (e, s')" and "code \<noteq> FS_none"
  shows "same_sink s s'" "snk_handle s' = snk_handle s" "is_sink_error e" "snk_first_error s' = e"
  using assms
  by (auto simp: sink_latch_error_def Let_def same_sink_def is_sink_error_def sink_error_def split: if_splits)

lemma write_all_effect:
  assumes "write_all s bytes = (e, s')" and "\<not> is_sink_error (snk_first_error s)"
  shows "same_sink s s' \<and> prefix (fh_content (snk_handle s')) (fh_content (snk_handle s) @ bytes) \<and>
     prefix (fh_content (snk_handle s)) (fh_content (snk_handle s')) \<and>
     (if is_sink_error e then snk_first_error s' = e
      else snk_first_error s' = snk_first_error s \<and> fh_content (snk_handle s') = fh_content (snk_handle s) @ bytes)"
  using assms
proof (induction s bytes rule: write_all.induct)
  case (1 s bytes)
  obtain r h where w: "handle_write bytes (snk_handle s) = (r, h)" by fastforce
  note c = handle_write_content [OF w]
  let ?s = "s\<lparr>snk_handle := h, snk_metrics := (snk_metrics s)
     \<lparr>fm_native_write_calls := fm_native_write_calls (snk_metrics s) + 1\<rparr>\<rparr>"
  have same: "same_sink s ?s" using c by (simp add: same_sink_def)
  consider (finished) "bytes = []" | (interrupted) "bytes \<noteq> []" "fwr_bytes r < 0" "fwr_native_error r = EINTR"
    | (failed) code native where "bytes \<noteq> []" "code \<noteq> FS_none" "sink_latch_error ?s code native = (e, s')"
    | (written) "bytes \<noteq> []" "0 < fwr_bytes r" "nat (fwr_bytes r) \<le> length bytes"
    using 1(3) by (subst (asm) write_all.simps) (auto simp: w Let_def split: if_splits)
  then show ?case
  proof cases
    case finished
    with 1(3) show ?thesis by (subst (asm) write_all.simps) (auto simp: same_sink_def no_sink_error_def sink_error_def is_sink_error_def)
  next
    case interrupted
    then have "write_all ?s bytes = (e, s')"
      using 1(3) by (subst (asm) write_all.simps) (simp add: w Let_def)
    from 1(1) [OF interrupted(1) w [symmetric] refl interrupted(2,3) this] c 1(4) show ?thesis
      using interrupted(2) by (auto simp: same_sink_def)
  next
    case failed
    note l = sink_latch_error_simps [OF failed(3,2)]
    have "prefix (fh_content h) (fh_content (snk_handle s) @ bytes)"
      using c by (metis append_assoc append_take_drop_id prefixI same_prefix_prefix)
    with l same c show ?thesis by (auto simp: same_sink_def)
  next
    case written
    let ?s2 = "?s\<lparr>snk_metrics := (snk_metrics ?s)\<lparr>fm_bytes_written := fm_bytes_written (snk_metrics ?s) + of_int (fwr_bytes r)\<rparr>\<rparr>"
    have "write_all ?s2 (drop (nat (fwr_bytes r)) bytes) = (e, s')"
      using 1(3) written by (subst (asm) write_all.simps) (simp add: w Let_def)
    from 1(2) [OF written(1) w [symmetric] refl _ _ _ this] written c 1(4) show ?thesis
      by (auto simp: same_sink_def prefix_def)
  qed
qed

section \<open>The invariant\<close>

text \<open>A sink with the given header to which the given records were appended.\<close>

definition sink_inv :: "string \<Rightarrow> string list \<Rightarrow> BufferedCsvFileSink \<Rightarrow> bool" where
  "sink_inv header recs s \<longleftrightarrow>
     length (snk_buffer s) \<le> kCsvAggregationBufferBytes \<and>
     (if sink_failed s then prefix (fh_content (snk_handle s)) (header @ concat recs)
      else sink_stream s = header @ concat recs \<and>
           fm_rows_written (snk_metrics s) + snk_buffered_rows s = of_nat (length recs) \<and>
           (\<not> sink_is_open s \<longrightarrow> snk_buffer s = []))"

lemma no_sink_error_simps [simp]: "\<not> is_sink_error no_sink_error"
  by (simp add: no_sink_error_def sink_error_def is_sink_error_def)

lemma sink_inv_prefix: "sink_inv header recs s \<Longrightarrow> prefix (fh_content (snk_handle s)) (header @ concat recs)"
  unfolding sink_inv_def sink_stream_def by (metis prefixI)

lemma sink_inv_failed:
  assumes "sink_failed s" and "prefix (fh_content (snk_handle s)) (header @ concat recs)"
    and "length (snk_buffer s) \<le> kCsvAggregationBufferBytes"
  shows "sink_inv header (recs @ later) s"
  using assms prefix_prefix [OF assms(2), of "concat later"] by (simp add: sink_inv_def)

lemma flush_buffer_inv:
  assumes "sink_inv header recs s" and "\<not> sink_failed s" and "sink_is_open s" and "flush_buffer s = (e, s')"
  shows "sink_inv header recs s' \<and> snk_descriptor s' = snk_descriptor s \<and> snk_path s' = snk_path s \<and>
     fh_close (snk_handle s') = fh_close (snk_handle s) \<and>
     (if is_sink_error e then sink_failed s' \<and> snk_first_error s' = e
      else \<not> sink_failed s' \<and> snk_buffer s' = [])"
proof (cases "snk_buffer s = []")
  case True
  with assms show ?thesis by (auto simp: flush_buffer_def)
next
  case False
  obtain e1 s1 where w: "write_all s (snk_buffer s) = (e1, s1)" by fastforce
  note we = write_all_effect [OF w] assms(2) [unfolded sink_failed_def]
  show ?thesis
  proof (cases "is_sink_error e1")
    case True
    then have "e = e1" "s' = s1" using assms(4) False w by (auto simp: flush_buffer_def)
    with True we assms(1,2) show ?thesis
      by (auto simp: sink_inv_def sink_failed_def same_sink_def sink_stream_def)
  next
    case no: False
    with we assms False w show ?thesis
      by (auto simp: flush_buffer_def sink_inv_def sink_failed_def same_sink_def sink_stream_def sink_is_open_def)
  qed
qed

lemma buffer_record_inv:
  assumes "sink_inv header recs s" and "\<not> sink_failed s" and "sink_is_open s"
    and "length (snk_buffer s) + length rec \<le> kCsvAggregationBufferBytes" and "buffer_record s rec = (e, s')"
  shows "sink_inv header (recs @ [rec]) s' \<and> \<not> is_sink_error e \<and> \<not> sink_failed s'"
  using assms
  by (auto simp: buffer_record_def sink_inv_def sink_failed_def sink_stream_def sink_is_open_def algebra_simps)

lemma sink_latch_error_inv:
  assumes "sink_inv header recs s" and "sink_latch_error s code native = (e, s')" and "code \<noteq> FS_none"
  shows "sink_inv header (recs @ later) s' \<and> is_sink_error e \<and> sink_failed s'"
  using sink_latch_error_simps [OF assms(2,3)] sink_inv_prefix [OF assms(1)] assms(1)
    sink_inv_failed [of s' header recs later]
  by (simp add: sink_failed_def same_sink_def sink_inv_def)

lemma append_record_inv:
  assumes inv: "sink_inv header recs s" and run: "append_record s rec = (e, s')"
  shows "sink_inv header (recs @ [rec]) s' \<and> (is_sink_error e \<longleftrightarrow> sink_failed s')"
proof -
  let ?fits = "snk_descriptor s \<ge> 0 \<and> rec \<noteq> [] \<and> length rec \<le> kMaxCsvRecordBytes \<and> last rec = newline"
  obtain e1 s1 where f: "flush_buffer s = (e1, s1)" by fastforce
  obtain e2 s2 where w: "write_all s1 rec = (e2, s2)" by fastforce
  consider (failed) "sink_failed s" | (rejected) "\<not> sink_failed s" "\<not> ?fits"
    | (flush) "\<not> sink_failed s" ?fits "is_sink_error e1"
        "length rec > kCsvAggregationBufferBytes - length (snk_buffer s)"
    | (large) "\<not> sink_failed s" ?fits "\<not> is_sink_error e1" "length rec > kCsvAggregationBufferBytes"
    | (flushed) "\<not> sink_failed s" ?fits "\<not> is_sink_error e1" "length rec \<le> kCsvAggregationBufferBytes"
        "length rec > kCsvAggregationBufferBytes - length (snk_buffer s)"
    | (fits) "\<not> sink_failed s" ?fits "length rec \<le> kCsvAggregationBufferBytes - length (snk_buffer s)"
    by linarith
  then show ?thesis
  proof cases
    case failed
    with run inv show ?thesis
      using sink_inv_failed [OF failed sink_inv_prefix [OF inv], of "[rec]"]
      by (auto simp: append_record_def sink_failed_def sink_inv_def)
  next
    case rejected
    then have "sink_latch_error s FS_invalid_record 0 = (e, s')"
      using run by (auto simp: append_record_def sink_failed_def split: if_splits)
    from sink_latch_error_inv [OF inv this] show ?thesis by simp
  next
    case flush
    then have "sink_is_open s" "e = e1" "s' = s1"
      using run f by (auto simp: append_record_def sink_failed_def sink_is_open_def split: if_splits)
    with flush_buffer_inv [OF inv flush(1) _ f] flush show ?thesis
      using sink_inv_failed [of s1 header recs "[rec]"] by (auto simp: sink_inv_def)
  next
    case large
    then have o: "sink_is_open s" by (simp add: sink_is_open_def)
    note fi = flush_buffer_inv [OF inv large(1) o f]
    then have s1: "sink_inv header recs s1" "\<not> sink_failed s1" "snk_buffer s1 = []" using large by auto
    note we = write_all_effect [OF w s1(2) [unfolded sink_failed_def]]
    have "(e, s') = (if is_sink_error e2 then (e2, s2)
             else (no_sink_error,
                   s2\<lparr>snk_metrics := (snk_metrics s2)
                       \<lparr>fm_rows_written := fm_rows_written (snk_metrics s2) + 1,
                        fm_direct_large_records := fm_direct_large_records (snk_metrics s2) + 1\<rparr>\<rparr>))"
      using run large f w by (simp add: append_record_def sink_failed_def)
    with we s1 show ?thesis
      by (auto simp: sink_inv_def sink_failed_def same_sink_def sink_stream_def sink_is_open_def algebra_simps
          split: if_splits)
  next
    case flushed
    then have o: "sink_is_open s" by (simp add: sink_is_open_def)
    note fi = flush_buffer_inv [OF inv flushed(1) o f]
    have "buffer_record s1 rec = (e, s')"
      using run flushed f by (simp add: append_record_def sink_failed_def)
    from buffer_record_inv [OF _ _ _ _ this] fi flushed o show ?thesis by (auto simp: sink_is_open_def)
  next
    case fits
    then have "length rec \<le> kCsvAggregationBufferBytes" by linarith
    with fits have "buffer_record s rec = (e, s')"
      using run by (simp add: append_record_def sink_failed_def)
    moreover have "length (snk_buffer s) + length rec \<le> kCsvAggregationBufferBytes" "sink_is_open s"
      using fits inv by (auto simp: sink_is_open_def sink_inv_def)
    ultimately show ?thesis using buffer_record_inv [OF inv fits(1)] by blast
  qed
qed

lemma sink_flush_inv:
  assumes inv: "sink_inv header recs s" and run: "sink_flush s = (e, s')"
  shows "sink_inv header recs s' \<and> (is_sink_error e \<longleftrightarrow> sink_failed s')"
proof -
  consider (failed) "sink_failed s" | (closed) "\<not> sink_failed s" "\<not> sink_is_open s"
    | (flush) "\<not> sink_failed s" "sink_is_open s" by blast
  then show ?thesis
  proof cases
    case closed
    then have "sink_latch_error s FS_write_failed EBADF = (e, s')"
      using run by (auto simp: sink_flush_def sink_failed_def sink_is_open_def)
    from sink_latch_error_inv [OF inv this, of "[]"] show ?thesis by simp
  next
    case flush
    then have "flush_buffer s = (e, s')"
      using run by (auto simp: sink_flush_def sink_failed_def sink_is_open_def)
    from flush_buffer_inv [OF inv flush this] show ?thesis by (auto split: if_splits)
  qed (use run inv in \<open>auto simp: sink_flush_def sink_failed_def\<close>)
qed

lemma sink_close_inv:
  assumes inv: "sink_inv header recs s" and run: "sink_close s = (e, s')"
  shows "sink_inv header recs s' \<and> (is_sink_error e \<longleftrightarrow> sink_failed s') \<and> \<not> sink_is_open s'"
proof (cases "sink_is_open s")
  case False
  with run inv show ?thesis by (auto simp: sink_close_def sink_failed_def sink_is_open_def)
next
  case True
  obtain e1 s1 where f: "flush_buffer s = (e1, s1)" by fastforce
  define s2 where "s2 = (if sink_failed s then s else s1)\<lparr>snk_descriptor := - 1\<rparr>"
  have s2: "sink_inv header recs s2"
    using flush_buffer_inv [OF inv _ True f] inv
    by (auto simp: s2_def sink_inv_def sink_failed_def sink_stream_def split: if_splits)
  have "(e, s') = (let s3 = (if \<not> fcr_success (fh_close (snk_handle s2)) \<and> \<not> sink_failed s2
       then snd (sink_latch_error s2 FS_close_failed (fcr_native_error (fh_close (snk_handle s2)))) else s2)
     in (snk_first_error s3, s3))"
    using run True f by (auto simp: sink_close_def s2_def sink_is_open_def sink_failed_def Let_def)
  with s2 show ?thesis
    by (auto simp: Let_def sink_latch_error_def sink_inv_def sink_failed_def sink_is_open_def is_sink_error_def
        sink_error_def s2_def sink_stream_def split: if_splits)
qed

text \<open>No operation but a close changes the descriptor.\<close>

lemma write_all_descriptor:
  assumes "write_all s bytes = (e, s')" and "\<not> sink_failed s"
  shows "snk_descriptor s' = snk_descriptor s" "\<not> is_sink_error e \<Longrightarrow> \<not> sink_failed s'"
  using write_all_effect [OF assms(1)] assms(2) by (auto simp: sink_failed_def same_sink_def)

lemma flush_buffer_descriptor:
  assumes "flush_buffer s = (e, s')" and "\<not> sink_failed s"
  shows "snk_descriptor s' = snk_descriptor s \<and> (\<not> is_sink_error e \<longrightarrow> \<not> sink_failed s')"
proof -
  obtain e1 s1 where w: "write_all s (snk_buffer s) = (e1, s1)" by fastforce
  show ?thesis
    using assms write_all_descriptor [OF w assms(2)] w
    by (auto simp: flush_buffer_def sink_failed_def split: if_splits)
qed

lemma append_record_descriptor:
  assumes "append_record s rec = (e, s')" and "\<not> sink_failed s"
  shows "snk_descriptor s' = snk_descriptor s"
proof -
  obtain e1 s1 where f: "flush_buffer s = (e1, s1)" by fastforce
  obtain e2 s2 where w: "write_all s1 rec = (e2, s2)" by fastforce
  note fd = flush_buffer_descriptor [OF f assms(2)]
  have "\<not> is_sink_error e1 \<Longrightarrow> snk_descriptor s2 = snk_descriptor s" using write_all_descriptor(1) [OF w] fd by simp
  then show ?thesis
    using assms fd f w
    by (auto simp: append_record_def buffer_record_def sink_latch_error_def Let_def sink_failed_def split: if_splits)
qed

section \<open>The contract of a record sink\<close>

text \<open>
  What the users of a sink rely on: \<open>holds recs s\<close> relates a sink to the records given to it, and a
  sink that reported an error stays as it is.
\<close>

datatype sink_op = Sink_append string | Sink_flush | Sink_close

fun run_sink :: "('s \<Rightarrow> string \<Rightarrow> 'e \<times> 's) \<Rightarrow> ('s \<Rightarrow> 'e \<times> 's) \<Rightarrow> ('s \<Rightarrow> 'e \<times> 's) \<Rightarrow> sink_op list \<Rightarrow> 's \<Rightarrow> 's" where
  "run_sink app fl cl [] s = s"
| "run_sink app fl cl (Sink_append rec # ops) s = run_sink app fl cl ops (snd (app s rec))"
| "run_sink app fl cl (Sink_flush # ops) s = run_sink app fl cl ops (snd (fl s))"
| "run_sink app fl cl (Sink_close # ops) s = run_sink app fl cl ops (snd (cl s))"

fun appended :: "sink_op list \<Rightarrow> string list" where
  "appended [] = []"
| "appended (Sink_append rec # ops) = rec # appended ops"
| "appended (_ # ops) = appended ops"

locale record_sink =
  fixes app :: "'s \<Rightarrow> string \<Rightarrow> 'e \<times> 's" and fl :: "'s \<Rightarrow> 'e \<times> 's" and cl :: "'s \<Rightarrow> 'e \<times> 's"
    and holds :: "string list \<Rightarrow> 's \<Rightarrow> bool" and failed :: "'s \<Rightarrow> bool" and stored :: "'s \<Rightarrow> string" and failure :: "'s \<Rightarrow> 'e"
  assumes app_holds: "holds recs s \<Longrightarrow> holds (recs @ [rec]) (snd (app s rec))"
    and fl_holds: "holds recs s \<Longrightarrow> holds recs (snd (fl s))"
    and cl_holds: "holds recs s \<Longrightarrow> holds recs (snd (cl s))"
    and app_failed: "failed s \<Longrightarrow> app s rec = (failure s, s)"
    and fl_failed: "failed s \<Longrightarrow> fl s = (failure s, s)"
    and cl_failed: "failed s \<Longrightarrow> fst (cl s) = failure s \<and> failed (snd (cl s)) \<and>
          stored (snd (cl s)) = stored s \<and> failure (snd (cl s)) = failure s"
begin

lemma run_holds: "holds recs s \<Longrightarrow> holds (recs @ appended ops) (run_sink app fl cl ops s)"
proof (induction ops arbitrary: recs s)
  case (Cons op ops)
  then show ?case
    using app_holds fl_holds cl_holds by (cases op) (auto, metis append_Cons append_Nil append_assoc)
qed simp

lemma run_failed:
  assumes "failed s"
  shows "stored (run_sink app fl cl ops s) = stored s \<and> failure (run_sink app fl cl ops s) = failure s \<and>
    failed (run_sink app fl cl ops s)"
  using assms
proof (induction ops arbitrary: s)
  case (Cons op ops)
  then show ?case using cl_failed [of s] by (cases op) (simp_all add: app_failed fl_failed)
qed simp

end

interpretation csv_sink: record_sink append_record sink_flush sink_close "sink_inv header" sink_failed
    "\<lambda>s. fh_content (snk_handle s)" snk_first_error for header
proof unfold_locales
  show "sink_failed s \<Longrightarrow> append_record s rec = (snk_first_error s, s)" for s rec
    by (simp add: append_record_def sink_failed_def)
  show "sink_failed s \<Longrightarrow> sink_flush s = (snk_first_error s, s)" for s
    by (simp add: sink_flush_def sink_failed_def)
  show "sink_failed s \<Longrightarrow> fst (sink_close s) = snk_first_error s \<and> sink_failed (snd (sink_close s)) \<and>
      fh_content (snk_handle (snd (sink_close s))) = fh_content (snk_handle s) \<and>
      snk_first_error (snd (sink_close s)) = snk_first_error s" for s
    by (simp add: sink_close_def sink_failed_def Let_def)
qed (metis append_record_inv sink_flush_inv sink_close_inv prod.collapse)+

lemma new_sink_inv: "fh_content h = [] \<Longrightarrow> sink_inv [] [] (new_sink path descriptor h)"
  by (simp add: sink_inv_def new_sink_def sink_stream_def sink_failed_def no_sink_metrics_def)

lemma open_exclusive_inv:
  assumes "open_exclusive env path kind = (e, Some s, calls)" and "fh_content (oe_handle env) = []"
  shows "sink_inv (header_for kind) [] s \<and> \<not> sink_failed s \<and> sink_is_open s \<and> snk_path s = path \<and> \<not> is_sink_error e"
proof -
  let ?s = "new_sink path (for_descriptor (oe_open env)) (oe_handle env)"
  obtain e1 s1 where w: "write_all ?s (header_for kind) = (e1, s1)" by fastforce
  have "\<not> is_sink_error e1 \<and> s = s1 \<and> e = no_sink_error \<and> for_descriptor (oe_open env) \<ge> 0"
    using assms(1) w by (auto simp: open_exclusive_def Let_def split: if_splits prod.splits)
  moreover have "\<not> is_sink_error (snk_first_error ?s)" by (simp add: new_sink_def)
  ultimately show ?thesis
    using write_all_effect [OF w] assms(2)
    by (auto simp: sink_inv_def sink_failed_def sink_is_open_def same_sink_def new_sink_def sink_stream_def
        no_sink_metrics_def)
qed

fun sink_call :: "sink_op \<Rightarrow> BufferedCsvFileSink \<Rightarrow> FileSinkError \<times> BufferedCsvFileSink" where
  "sink_call (Sink_append rec) s = append_record s rec"
| "sink_call Sink_flush s = sink_flush s"
| "sink_call Sink_close s = sink_close s"

lemma flush_buffer_error:
  assumes "flush_buffer s = (e, s')" and "\<not> sink_failed s" and "is_sink_error e"
  shows "snk_first_error s' = e"
  using assms write_all_effect [of s "snk_buffer s"]
  by (auto simp: flush_buffer_def sink_failed_def split: prod.splits if_splits)

text \<open>An error that is reported is the latched one.\<close>

lemma sink_call_error:
  assumes "sink_call op s = (e, s')" and "is_sink_error e"
  shows "snk_first_error s' = e"
proof -
  obtain e1 s1 where f: "flush_buffer s = (e1, s1)" by fastforce
  show ?thesis
  proof (cases "sink_failed s")
    case False
    note fe = flush_buffer_error [OF f False] and fd = flush_buffer_descriptor [OF f False]
    show ?thesis
      using assms False fe fd write_all_effect [of s1]
      by (cases op) (auto simp: append_record_def sink_flush_def sink_close_def buffer_record_def f sink_latch_error_def
          sink_failed_def Let_def split: prod.splits if_splits)
  qed (use assms in \<open>cases op; auto simp: append_record_def sink_flush_def sink_close_def sink_failed_def Let_def split: if_splits\<close>)
qed

lemma sink_call_inv:
  assumes "sink_inv header recs s" and "sink_call op s = (e, s')"
  shows "sink_inv header (recs @ appended [op]) s' \<and> (is_sink_error e \<longleftrightarrow> sink_failed s') \<and>
    (\<not> is_sink_error e \<and> (\<forall>rec. op \<noteq> Sink_append rec) \<longrightarrow> snk_buffer s' = [])"
proof (cases op)
  case (Sink_append rec)
  with assms append_record_inv [OF assms(1), of rec e s'] show ?thesis by simp
next
  case Sink_flush
  have "\<not> is_sink_error e \<Longrightarrow> snk_buffer s' = []"
    using assms Sink_flush flush_buffer_inv [OF assms(1)]
    by (auto simp: sink_flush_def sink_failed_def sink_is_open_def sink_latch_error_def sink_error_def is_sink_error_def
        Let_def split: if_splits)
  with assms Sink_flush sink_flush_inv [OF assms(1), of e s'] show ?thesis by simp
next
  case Sink_close
  with assms sink_close_inv [OF assms(1), of e s'] show ?thesis by (auto simp: sink_inv_def)
qed

lemma appended_append: "appended (ops @ ops') = appended ops @ appended ops'"
  by (induction ops rule: appended.induct) simp_all

section \<open>Properties\<close>

text \<open>
  C19: a CSV file holds its header and its records.  For every sequence of appends, flushes and closes
  on a freshly opened sink and every behaviour of the kernel's writes (short counts, interruptions,
  errors, impossible counts), the file is a prefix of the header followed by the records in order, and
  the buffer never exceeds 256 KiB; while no error was reported file and buffer together are all of it,
  and once the sink is closed without an error the file alone is.
\<close>

theorem sink_file_exact:
  fixes ops :: "sink_op list"
  assumes "open_exclusive env path kind = (e, Some s, calls)" and "fh_content (oe_handle env) = []"
  defines "s' \<equiv> run_sink append_record sink_flush sink_close ops s"
    and "whole \<equiv> header_for kind @ concat (appended ops)"
  shows "prefix (fh_content (snk_handle s')) whole \<and> length (snk_buffer s') \<le> kCsvAggregationBufferBytes \<and>
     (\<not> sink_failed s' \<longrightarrow> fh_content (snk_handle s') @ snk_buffer s' = whole \<and>
        fm_rows_written (snk_metrics s') + snk_buffered_rows s' = of_nat (length (appended ops)) \<and>
        (\<not> sink_is_open s' \<longrightarrow> fh_content (snk_handle s') = whole))"
proof -
  have "sink_inv (header_for kind) [] s" using open_exclusive_inv [OF assms(1,2)] by blast
  from csv_sink.run_holds [OF this, of ops] have inv: "sink_inv (header_for kind) (appended ops) s'"
    by (simp add: s'_def)
  then show ?thesis
    using sink_inv_prefix [OF inv] unfolding whole_def
    by (auto simp: sink_inv_def sink_stream_def)
qed

text \<open>A descriptor that takes three bytes, is interrupted, and then takes everything.\<close>

definition short_handle :: FileHandle where
  "short_handle = \<lparr>fh_content = [], fh_writes = [\<lparr>fwr_bytes = 3, fwr_native_error = 0\<rparr>,
     \<lparr>fwr_bytes = - 1, fwr_native_error = 4\<rparr>], fh_close = \<lparr>fcr_success = True, fcr_native_error = 0\<rparr>\<rparr>"

definition sample_open :: OpenEnvironment where
  "sample_open = \<lparr>oe_operations = True, oe_open = \<lparr>for_descriptor = 5, for_native_error = 0\<rparr>, oe_allocated = True,
     oe_handle = short_handle, oe_remove = \<lparr>frr_success = True, frr_native_error = 0\<rparr>\<rparr>"

definition opened_sink :: "FileSinkError \<times> BufferedCsvFileSink option \<times> os_call list \<Rightarrow> BufferedCsvFileSink" where
  "opened_sink r = the (fst (snd r))"

theorem sink_file_exact_witness:
  "fh_content (snk_handle (run_sink append_record sink_flush sink_close
     [Sink_append ''1\<newline>'', Sink_append ''2\<newline>'', Sink_close]
     (opened_sink (open_exclusive sample_open ''a.csv'' Kind_order_book)))) = kOrderBookCsvHeader @ ''1\<newline>2\<newline>''"
  (is "fh_content (snk_handle (run_sink _ _ _ ?ops _)) = _")
proof -
  obtain e so calls where o: "open_exclusive sample_open ''a.csv'' Kind_order_book = (e, so, calls)"
    by (metis surj_pair)
  have "fst (snd (open_exclusive sample_open ''a.csv'' Kind_order_book)) \<noteq> None" by code_simp
  with o obtain s where s: "so = Some s" by auto
  let ?s = "opened_sink (open_exclusive sample_open ''a.csv'' Kind_order_book)"
  have eq: "?s = s" by (simp add: opened_sink_def o s)
  have c: "fh_content (oe_handle sample_open) = []" by code_simp
  have "\<not> sink_failed (run_sink append_record sink_flush sink_close ?ops ?s)"
    "\<not> sink_is_open (run_sink append_record sink_flush sink_close ?ops ?s)" by code_simp+
  with sink_file_exact [OF o [unfolded s] c, of ?ops] show ?thesis by (simp add: eq)
qed

text \<open>
  C20: errors of a sink are reported, and the first one is final.  After any operations on a freshly
  opened sink, an operation that reports no error has taken everything handed over so far, a flush or
  close of it into the file; so neither a failed or short write nor a refused record can pass
  unnoticed.  After an operation that reports an error, every later operation reports that same error,
  and none adds a byte to the file.
\<close>

theorem sink_error_final:
  fixes before later :: "sink_op list"
  assumes "open_exclusive env path kind = (e\<^sub>0, Some s\<^sub>0, calls)" and "fh_content (oe_handle env) = []"
    and "sink_call op (run_sink append_record sink_flush sink_close before s\<^sub>0) = (e, s\<^sub>1)"
  defines "s' \<equiv> run_sink append_record sink_flush sink_close later s\<^sub>1"
    and "whole \<equiv> header_for kind @ concat (appended (before @ [op]))"
  shows "if is_sink_error e
     then fh_content (snk_handle s') = fh_content (snk_handle s\<^sub>1) \<and> fst (sink_call op' s') = e
     else fh_content (snk_handle s\<^sub>1) @ snk_buffer s\<^sub>1 = whole \<and>
       ((\<forall>rec. op \<noteq> Sink_append rec) \<longrightarrow> fh_content (snk_handle s\<^sub>1) = whole)"
proof -
  let ?s = "run_sink append_record sink_flush sink_close before s\<^sub>0"
  have "sink_inv (header_for kind) [] s\<^sub>0" using open_exclusive_inv [OF assms(1,2)] by blast
  from csv_sink.run_holds [OF this, of before] have inv: "sink_inv (header_for kind) (appended before) ?s" by simp
  note call = sink_call_inv [OF inv assms(3)]
  show ?thesis
  proof (cases "is_sink_error e")
    case True
    with sink_call_error [OF assms(3)] call have f: "snk_first_error s\<^sub>1 = e" "sink_failed s\<^sub>1" by auto
    note later = csv_sink.run_failed [OF f(2), of later, folded s'_def]
    then have "fst (sink_call op' s') = snk_first_error s'"
      using csv_sink.app_failed [of s'] csv_sink.fl_failed [of s'] csv_sink.cl_failed [of s'] by (cases op') simp_all
    with True later f(1) show ?thesis by simp
  next
    case False
    with call show ?thesis by (cases op) (auto simp: whole_def sink_inv_def sink_stream_def appended_append)
  qed
qed

text \<open>A descriptor that takes the header and then reports a full disk.\<close>

definition full_open :: OpenEnvironment where
  "full_open = sample_open\<lparr>oe_handle := short_handle\<lparr>fh_writes :=
     [\<lparr>fwr_bytes = int (length kOrderBookCsvHeader), fwr_native_error = 0\<rparr>, \<lparr>fwr_bytes = - 1, fwr_native_error = 28\<rparr>]\<rparr>\<rparr>"

definition full_sink :: BufferedCsvFileSink where
  "full_sink = opened_sink (open_exclusive full_open ''a.csv'' Kind_order_book)"

theorem sink_error_final_witness:
  "fst (sink_call Sink_flush (run_sink append_record sink_flush sink_close [Sink_append ''1\<newline>''] full_sink))
     = sink_error FS_write_failed 28 \<and>
   fst (sink_call (Sink_append ''2\<newline>'') (run_sink append_record sink_flush sink_close [Sink_flush, Sink_close]
     (snd (sink_call Sink_flush (run_sink append_record sink_flush sink_close [Sink_append ''1\<newline>''] full_sink)))))
     = sink_error FS_write_failed 28"
proof -
  let ?s = "run_sink append_record sink_flush sink_close [Sink_append ''1\<newline>''] full_sink"
  have e: "fst (sink_call Sink_flush ?s) = sink_error FS_write_failed 28" by code_simp
  obtain e0 so calls where o: "open_exclusive full_open ''a.csv'' Kind_order_book = (e0, so, calls)"
    by (metis surj_pair)
  have "fst (snd (open_exclusive full_open ''a.csv'' Kind_order_book)) \<noteq> None" by code_simp
  with o have s: "so = Some full_sink" by (auto simp: full_sink_def opened_sink_def)
  have c: "fh_content (oe_handle full_open) = []" by code_simp
  have "is_sink_error (sink_error FS_write_failed 28)" by (simp add: is_sink_error_def sink_error_def)
  with sink_error_final [OF o [unfolded s] c, of Sink_flush "[Sink_append ''1\<newline>'']" "sink_error FS_write_failed 28"
      "snd (sink_call Sink_flush ?s)" "[Sink_flush, Sink_close]" "Sink_append ''2\<newline>''"] e
  show ?thesis by (simp add: prod_eq_iff)
qed

text \<open>
  C21: a failed exclusive open leaves no file behind silently: whenever the file had been created, the
  last two calls close the descriptor and remove the file, and a failure of either (other than a file
  that is already gone) is reported in the error's clean-up fields.
\<close>

theorem failed_open_cleans_up:
  assumes "open_exclusive env path kind = (e, None, calls)" and "Call_open path True \<in> set calls"
  shows "is_sink_error e \<and> calls = [Call_open path True, Call_close path, Call_remove path] \<and>
     fse_cleanup_operation e =
       (if \<not> fcr_success (fh_close (oe_handle env)) then Cleanup_close
        else if \<not> frr_success (oe_remove env) \<and> frr_native_error (oe_remove env) \<noteq> ENOENT then Cleanup_remove
        else Cleanup_none)"
proof (cases "oe_allocated env")
  case False
  with assms show ?thesis
    by (auto simp: open_exclusive_def Let_def cleanup_error_def is_sink_error_def sink_error_def split: if_splits)
next
  case True
  let ?s = "new_sink path (for_descriptor (oe_open env)) (oe_handle env)"
  obtain e1 s1 where w: "write_all ?s (header_for kind) = (e1, s1)" by fastforce
  have "\<not> is_sink_error (snk_first_error ?s)" by (simp add: new_sink_def)
  from write_all_effect [OF w this] assms True w show ?thesis
    by (auto simp: open_exclusive_def Let_def cleanup_error_def close_after_failed_open_def is_sink_error_def
        sink_error_def no_sink_error_def same_sink_def new_sink_def split: if_splits)
qed

theorem failed_open_cleans_up_witness:
  "let env = sample_open\<lparr>oe_allocated := False, oe_remove := \<lparr>frr_success = False, frr_native_error = 13\<rparr>\<rparr>
   in fse_cleanup_operation (fst (open_exclusive env ''a.csv'' Kind_order_book)) = Cleanup_remove"
proof -
  let ?env = "sample_open\<lparr>oe_allocated := False, oe_remove := \<lparr>frr_success = False, frr_native_error = 13\<rparr>\<rparr>"
  obtain e so calls where o: "open_exclusive ?env ''a.csv'' Kind_order_book = (e, so, calls)" by (metis surj_pair)
  have "fst (snd (open_exclusive ?env ''a.csv'' Kind_order_book)) = None"
    "Call_open ''a.csv'' True \<in> set (snd (snd (open_exclusive ?env ''a.csv'' Kind_order_book)))" by code_simp+
  with o have "so = None" "Call_open ''a.csv'' True \<in> set calls" by simp_all
  with failed_open_cleans_up [of ?env "''a.csv''" Kind_order_book e calls] o show ?thesis
    by (simp add: sample_open_def short_handle_def ENOENT_def)
qed

end
