(* ===== verification/Output_Set_Guarantees.thy ===== *)
theory Output_Set_Guarantees
  imports Output_Set File_Sink_Guarantees Event_Guarantees
begin

text \<open>
  The output set as a group of record logs.  A log of the batches written determines, per target, the
  rows of its files; the contract of the sinks lifts to the set, operation by operation.
\<close>

section \<open>Rows of a target\<close>

type_synonym batch_log = "(nat \<times> EventRowBatch) list"

definition audit_rows :: "batch_log \<Rightarrow> nat \<Rightarrow> string list" where
  "audit_rows log i = map (\<lambda>(_, b). crb_view (audit_row b)) (filter (\<lambda>(j, b). j = i \<and> has_audit_row b) log)"

definition book_rows :: "batch_log \<Rightarrow> nat \<Rightarrow> string list" where
  "book_rows log i =
     map (\<lambda>(_, b). crb_view (order_book_row_buffer b)) (filter (\<lambda>(j, b). j = i \<and> has_order_book_row b) log)"

lemma audit_rows_append [simp]: "audit_rows (log @ log') i = audit_rows log i @ audit_rows log' i"
  by (simp add: audit_rows_def)

lemma book_rows_append [simp]: "book_rows (log @ log') i = book_rows log i @ book_rows log' i"
  by (simp add: book_rows_def)

lemma rows_single [simp]:
  "audit_rows [(j, b)] i = (if j = i \<and> has_audit_row b then [crb_view (audit_row b)] else [])"
  "book_rows [(j, b)] i = (if j = i \<and> has_order_book_row b then [crb_view (order_book_row_buffer b)] else [])"
  by (simp_all add: audit_rows_def book_rows_def)

section \<open>The invariant\<close>

text \<open>A file of a set: exact while the set has no error, a prefix after one.\<close>

definition file_inv :: "bool \<Rightarrow> bool \<Rightarrow> string \<Rightarrow> string list \<Rightarrow> BufferedCsvFileSink option \<Rightarrow> bool" where
  "file_inv set_failed set_closed header recs sink \<longleftrightarrow>
     (\<exists>s. sink = Some s \<and>
        (if set_failed then \<exists>n. sink_inv header (take n recs) s
         else sink_inv header recs s \<and> \<not> sink_failed s \<and> (sink_is_open s \<longleftrightarrow> \<not> set_closed)))"

definition target_inv :: "CsvOutputMode \<Rightarrow> bool \<Rightarrow> bool \<Rightarrow> string list \<Rightarrow> string list \<Rightarrow> TargetFiles \<Rightarrow> bool" where
  "target_inv mode set_failed set_closed audits books target \<longleftrightarrow>
     (if mode = Output_live_capture
      then file_inv set_failed set_closed kMarketDataCsvHeader audits (tf_audit target)
      else tf_audit target = None) \<and>
     file_inv set_failed set_closed kOrderBookCsvHeader books (tf_order_book target)"

definition out_inv :: "batch_log \<Rightarrow> CsvOutputSet \<Rightarrow> bool" where
  "out_inv log out \<longleftrightarrow> (\<forall>i < out_target_count out.
     target_inv (out_mode out) (out_failed out) (out_closed out) (audit_rows log i) (book_rows log i)
       (out_targets out ! i))"

lemma file_inv_take:
  assumes "file_inv f c header recs sink"
  shows "\<exists>s n. sink = Some s \<and> sink_inv header (take n recs) s"
proof (cases f)
  case False
  with assms obtain s where "sink = Some s" "sink_inv header (take (length recs) recs) s"
    by (auto simp: file_inv_def)
  then show ?thesis by blast
qed (use assms in \<open>auto simp: file_inv_def\<close>)

lemma file_inv_weaken:
  assumes "file_inv f c header recs sink"
  shows "file_inv True c' header (recs @ later) sink"
proof -
  from file_inv_take [OF assms] obtain s n where s: "sink = Some s" "sink_inv header (take n recs) s" by blast
  moreover have "take n recs = take (min n (length recs)) (recs @ later)" by (simp add: min_def)
  ultimately have "\<exists>n. sink_inv header (take n (recs @ later)) s" by metis
  with s(1) show ?thesis by (simp add: file_inv_def)
qed

lemma target_inv_weaken:
  assumes "target_inv mode f c audits books target"
  shows "target_inv mode True c' (audits @ audits') (books @ books') target"
  using assms file_inv_weaken by (auto simp: target_inv_def split: if_splits)

lemma out_inv_fail:
  assumes "out_inv log out" and "out_targets out' = out_targets out" and "out_mode out' = out_mode out"
    and "out_failed out'"
  shows "out_inv (log @ log') out'"
  using assms target_inv_weaken by (fastforce simp: out_inv_def out_target_count_def)

lemma out_fail_effect:
  assumes "out_fail code i kind fe out = (e, out')" and "code \<noteq> OW_none"
  shows "out_targets out' = out_targets out" "out_mode out' = out_mode out" "out_closed out' = out_closed out"
    "out_failed out'" "is_write_error e" "out_first_error out' = e"
  using assms by (auto simp: out_fail_def Let_def out_latch_error_def out_failed_def is_write_error_def split: if_splits)

section \<open>Visiting all files\<close>

definition visited ::
    "(BufferedCsvFileSink \<Rightarrow> FileSinkError \<times> BufferedCsvFileSink) \<Rightarrow> bool \<Rightarrow>
     BufferedCsvFileSink option \<Rightarrow> BufferedCsvFileSink option \<Rightarrow> bool" where
  "visited op set_failed a a' \<longleftrightarrow>
     (case a of None \<Rightarrow> a' = None
      | Some s \<Rightarrow> (\<exists>e s'. op s = (e, s') \<and> a' = Some s' \<and> (is_sink_error e \<longrightarrow> set_failed)))"

lemma visit_sink_visited:
  assumes "visit_sink op i kind a first = (a', first')"
  shows "visited op (is_write_error first') a a' \<and> (is_write_error first \<longrightarrow> first' = first) \<and>
    (is_write_error first \<longrightarrow> is_write_error first')"
  using assms
  by (auto simp: visit_sink_def visited_def out_latch_error_def is_write_error_def split: option.splits prod.splits if_splits)

lemma visited_mono: "visited op f a a' \<Longrightarrow> (f \<Longrightarrow> f') \<Longrightarrow> visited op f' a a'"
  by (auto simp: visited_def split: option.splits)

lemma visit_targets_visited:
  assumes "visit_targets op i ts first = (ts', first')"
  shows "length ts' = length ts \<and> (is_write_error first \<longrightarrow> first' = first) \<and>
    (\<forall>k < length ts. visited op (is_write_error first') (tf_audit (ts ! k)) (tf_audit (ts' ! k)) \<and>
       visited op (is_write_error first') (tf_order_book (ts ! k)) (tf_order_book (ts' ! k)) \<and>
       tf_symbol (ts' ! k) = tf_symbol (ts ! k))"
  using assms
proof (induction ts arbitrary: i first ts' first')
  case (Cons t ts)
  obtain a f1 where v1: "visit_sink op i Kind_market_data (tf_audit t) first = (a, f1)" by fastforce
  obtain b f2 where v2: "visit_sink op i Kind_order_book (tf_order_book t) f1 = (b, f2)" by fastforce
  obtain r f3 where v3: "visit_targets op (Suc i) ts f2 = (r, f3)" by fastforce
  have res: "ts' = t\<lparr>tf_audit := a, tf_order_book := b\<rparr> # r" "first' = f3"
    using Cons.prems by (simp_all add: v1 v2 v3)
  note ih = Cons.IH [OF v3]
  note va = visit_sink_visited [OF v1] and vb = visit_sink_visited [OF v2]
  have "visited op (is_write_error f3) (tf_audit t) a" "visited op (is_write_error f3) (tf_order_book t) b"
    using va vb ih visited_mono by metis+
  with ih va vb show ?case by (auto simp: res nth_Cons split: nat.splits)
qed simp

lemma file_inv_visited:
  assumes "file_inv f c header recs a" and "visited op f' a a'" and "f \<longrightarrow> f'"
    and op: "\<And>recs s e s'. sink_inv header recs s \<Longrightarrow> op s = (e, s') \<Longrightarrow>
        sink_inv header recs s' \<and> (is_sink_error e \<longleftrightarrow> sink_failed s')"
    and open': "\<And>s e s'. sink_inv header recs s \<Longrightarrow> \<not> sink_failed s \<Longrightarrow> sink_is_open s \<longleftrightarrow> \<not> c \<Longrightarrow> op s = (e, s') \<Longrightarrow>
        \<not> is_sink_error e \<Longrightarrow> sink_is_open s' \<longleftrightarrow> \<not> c'"
  shows "file_inv f' c' header recs a'"
proof -
  from assms(1,2) obtain s e s' where s: "a = Some s" "op s = (e, s')" "a' = Some s'" "is_sink_error e \<longrightarrow> f'"
    by (auto simp: file_inv_def visited_def)
  from file_inv_take [OF assms(1)] s(1) obtain n where "sink_inv header (take n recs) s" by blast
  from op [OF this s(2)] have weak: "sink_inv header (take n recs) s'" by blast
  show ?thesis
  proof (cases f')
    case True
    with weak s(3) show ?thesis by (auto simp: file_inv_def)
  next
    case False
    with assms(1,3) s(1) have "sink_inv header recs s" "\<not> sink_failed s" "sink_is_open s \<longleftrightarrow> \<not> c"
      by (auto simp: file_inv_def)
    with op [OF _ s(2)] open' [OF _ _ _ s(2)] False s(3,4) show ?thesis by (auto simp: file_inv_def)
  qed
qed

lemma target_inv_visited:
  assumes "target_inv mode f c audits books t"
    and "visited op f' (tf_audit t) (tf_audit t')" and "visited op f' (tf_order_book t) (tf_order_book t')"
    and "\<And>header recs a a'. file_inv f c header recs a \<Longrightarrow> visited op f' a a' \<Longrightarrow> file_inv f' c' header recs a'"
  shows "target_inv mode f' c' audits books t'"
  using assms(1,2,3) assms(4) [of kMarketDataCsvHeader audits "tf_audit t" "tf_audit t'"]
    assms(4) [of kOrderBookCsvHeader books "tf_order_book t" "tf_order_book t'"]
  by (cases "mode = Output_live_capture") (simp_all add: target_inv_def visited_def)

lemma sink_flush_open:
  assumes "sink_flush s = (e, s')" and "\<not> sink_failed s" and "\<not> is_sink_error e"
  shows "sink_is_open s' \<longleftrightarrow> sink_is_open s"
proof (cases "sink_is_open s")
  case True
  with assms have "flush_buffer s = (e, s')"
    by (simp add: sink_flush_def sink_failed_def sink_is_open_def)
  with flush_buffer_descriptor [OF this assms(2)] show ?thesis by (simp add: sink_is_open_def)
next
  case False
  with assms show ?thesis
    using sink_latch_error_simps [of s FS_write_failed EBADF e s']
    by (auto simp: sink_flush_def sink_failed_def sink_is_open_def)
qed

lemma file_inv_flush:
  assumes "file_inv f c header recs a" and "visited sink_flush f' a a'" and "f \<longrightarrow> f'"
  shows "file_inv f' c header recs a'"
  by (rule file_inv_visited [OF assms]) (use sink_flush_inv sink_flush_open in blast)+

lemma file_inv_close:
  assumes "file_inv f c header recs a" and "visited sink_close f' a a'" and "f \<longrightarrow> f'"
  shows "file_inv f' True header recs a'"
  by (rule file_inv_visited [OF assms]) (use sink_close_inv in blast)+

lemma flush_all_inv:
  assumes inv: "out_inv log out" and run: "flush_all out = (e, out')"
  shows "out_inv log out' \<and> out_mode out' = out_mode out \<and> out_target_count out' = out_target_count out \<and>
    (out_failed out \<longrightarrow> out_first_error out' = out_first_error out) \<and> e = out_first_error out' \<and>
    map tf_symbol (out_targets out') = map tf_symbol (out_targets out)"
proof (cases "out_closed out")
  case True
  then show ?thesis
  proof (cases "out_failed out")
    case True
    with \<open>out_closed out\<close> run inv show ?thesis by (auto simp: flush_all_def out_failed_def)
  next
    case False
    with True run have f: "out_fail OW_closed kNoSymbolIndex Kind_market_data no_sink_error out = (e, out')"
      by (simp add: flush_all_def out_failed_def)
    note fe = out_fail_effect [OF f]
    have "out_inv (log @ []) out'" by (rule out_inv_fail [OF inv]) (use fe in simp_all)
    with fe False show ?thesis by (simp add: out_target_count_def)
  qed
next
  case False
  obtain ts first where v: "visit_targets sink_flush 0 (out_targets out) (out_first_error out) = (ts, first)" by fastforce
  with False run have o: "out' = out\<lparr>out_targets := ts, out_first_error := first\<rparr>" "e = first"
    by (auto simp: flush_all_def)
  note vt = visit_targets_visited [OF v]
  have f: "out_failed out \<longrightarrow> is_write_error first" using vt by (simp add: out_failed_def)
  have "target_inv (out_mode out) (is_write_error first) (out_closed out) (audit_rows log i) (book_rows log i) (ts ! i)"
    if "i < length ts" for i
    by (rule target_inv_visited [where t = "out_targets out ! i" and c = "out_closed out", OF _ _ _ file_inv_flush [OF _ _ f]])
      (use inv vt that in \<open>simp_all add: out_inv_def out_target_count_def\<close>)
  moreover have "map tf_symbol ts = map tf_symbol (out_targets out)"
    using vt by (intro nth_equalityI) simp_all
  ultimately show ?thesis
    using vt by (simp add: o out_inv_def out_target_count_def out_failed_def)
qed

lemma close_all_inv:
  assumes inv: "out_inv log out" and run: "close_all out = (e, out')"
  shows "out_inv log out' \<and> out_mode out' = out_mode out \<and> out_target_count out' = out_target_count out \<and>
    (out_failed out \<longrightarrow> out_first_error out' = out_first_error out) \<and> e = out_first_error out' \<and> out_closed out' \<and>
    map tf_symbol (out_targets out') = map tf_symbol (out_targets out)"
proof (cases "out_closed out")
  case True
  with run inv show ?thesis by (auto simp: close_all_def)
next
  case False
  obtain ts first where v: "visit_targets sink_close 0 (out_targets out) (out_first_error out) = (ts, first)" by fastforce
  with False run have o: "out' = out\<lparr>out_targets := ts, out_closed := True, out_first_error := first\<rparr>" "e = first"
    by (auto simp: close_all_def)
  note vt = visit_targets_visited [OF v]
  have f: "out_failed out \<longrightarrow> is_write_error first" using vt by (simp add: out_failed_def)
  have "target_inv (out_mode out) (is_write_error first) True (audit_rows log i) (book_rows log i) (ts ! i)"
    if "i < length ts" for i
    by (rule target_inv_visited [where t = "out_targets out ! i" and c = "out_closed out", OF _ _ _ file_inv_close [OF _ _ f]])
      (use inv vt that in \<open>simp_all add: out_inv_def out_target_count_def\<close>)
  moreover have "map tf_symbol ts = map tf_symbol (out_targets out)"
    using vt by (intro nth_equalityI) simp_all
  ultimately show ?thesis
    using vt by (simp add: o out_inv_def out_target_count_def out_failed_def)
qed

section \<open>Writing\<close>

lemma append_if_inv:
  assumes "file_inv False False header recs sink" and "append_if has_row sink row = (e, sink')"
  shows "file_inv (is_sink_error e) False header (recs @ (if has_row then [row] else [])) sink'"
proof (cases has_row)
  case False
  with assms show ?thesis by (auto simp: append_if_def)
next
  case True
  obtain s where s: "sink = Some s" "sink_inv header recs s" "\<not> sink_failed s" "sink_is_open s"
    using assms(1) by (auto simp: file_inv_def)
  obtain s' where a: "append_record s row = (e, s')" "sink' = Some s'"
    using assms(2) s(1) True by (auto simp: append_if_def append_to_def split: prod.splits)
  show ?thesis
    using append_record_inv [OF s(2) a(1)] s(4) a(2) append_record_descriptor [OF a(1) s(3)] True
    by (auto simp: file_inv_def sink_is_open_def intro!: exI [of _ "Suc (length recs)"])
qed

text \<open>Replacing one target, with the rows of the others unchanged.\<close>

lemma out_inv_update:
  assumes inv: "out_inv log out" and i: "i < out_target_count out"
    and t: "target_inv (out_mode out) (out_failed out') (out_closed out)
      (audit_rows (log @ [(i, b)]) i) (book_rows (log @ [(i, b)]) i) t"
    and out': "out_targets out' = (out_targets out)[i := t]" "out_mode out' = out_mode out"
      "out_closed out' = out_closed out" and f: "\<not> out_failed out"
  shows "out_inv (log @ [(i, b)]) out'"
  unfolding out_inv_def
proof (intro allI impI)
  fix j assume j: "j < out_target_count out'"
  show "target_inv (out_mode out') (out_failed out') (out_closed out') (audit_rows (log @ [(i, b)]) j)
      (book_rows (log @ [(i, b)]) j) (out_targets out' ! j)"
  proof (cases "j = i")
    case True
    with t i out' show ?thesis by (simp add: out_target_count_def)
  next
    case False
    with inv j out' f have "target_inv (out_mode out) False (out_closed out) (audit_rows log j)
        (book_rows log j) (out_targets out' ! j)"
      by (simp add: out_inv_def out_target_count_def)
    with False out' target_inv_weaken [OF this, of "out_closed out" "[]" "[]"] show ?thesis
      by (cases "out_failed out'") simp_all
  qed
qed

lemma write_batch_inv:
  assumes inv: "out_inv log out" and run: "write_batch out i batch = (e, out')"
  shows "out_inv (log @ [(i, batch)]) out' \<and> out_mode out' = out_mode out \<and> out_closed out' = out_closed out \<and>
    (is_write_error e \<longleftrightarrow> out_failed out') \<and> (out_failed out \<longrightarrow> out' = out \<and> e = out_first_error out) \<and>
    map tf_symbol (out_targets out') = map tf_symbol (out_targets out)"
proof -
  let ?ready = "\<not> out_closed out \<and> i < out_target_count out \<and> valid_batch_contract (out_mode out) batch"
  consider (failed) "out_failed out"
    | (rejected) code where "\<not> out_failed out" "code \<noteq> OW_none"
        "out_fail code i Kind_market_data no_sink_error out = (e, out')"
    | (ready) "\<not> out_failed out" ?ready
    using run by (auto simp: write_batch_def out_failed_def split: if_splits)
  then show ?thesis
  proof cases
    case failed
    then have "out' = out" "e = out_first_error out" using run by (auto simp: write_batch_def out_failed_def)
    with failed inv out_inv_fail [OF inv, of out "[(i, batch)]"] show ?thesis by (simp add: out_failed_def)
  next
    case rejected
    note fe = out_fail_effect [OF rejected(3,2)]
    have "out_inv (log @ [(i, batch)]) out'" by (rule out_inv_fail [OF inv]) (use fe in simp_all)
    with fe rejected show ?thesis by (simp add: out_target_count_def)
  next
    case ready
    define t where "t = out_targets out ! i"
    have t: "target_inv (out_mode out) False False (audit_rows log i) (book_rows log i) t"
      using inv ready by (simp add: out_inv_def t_def)
    obtain ae asink where a: "append_if (has_audit_row batch) (tf_audit t) (crb_view (audit_row batch)) = (ae, asink)"
      by fastforce
    obtain be bsink where
      b: "append_if (has_order_book_row batch) (tf_order_book t) (crb_view (order_book_row_buffer batch)) = (be, bsink)"
      by fastforce
    have audit: "if out_mode out = Output_live_capture
        then file_inv (is_sink_error ae) False kMarketDataCsvHeader (audit_rows (log @ [(i, batch)]) i) asink
        else asink = None \<and> \<not> is_sink_error ae"
      using t append_if_inv [OF _ a, of kMarketDataCsvHeader "audit_rows log i"] a ready
      by (auto simp: target_inv_def valid_batch_contract_def append_if_def split: if_splits)
    have book: "file_inv (is_sink_error be) False kOrderBookCsvHeader (book_rows (log @ [(i, batch)]) i) bsink"
      using t append_if_inv [OF _ b, of kOrderBookCsvHeader "book_rows log i"]
      by (auto simp: target_inv_def)
    note files = audit book
    let ?t1 = "t\<lparr>tf_audit := asink\<rparr>"
    let ?o1 = "out\<lparr>out_targets := (out_targets out)[i := ?t1]\<rparr>"
    let ?o2 = "out\<lparr>out_targets := (out_targets out)[i := ?t1\<lparr>tf_order_book := bsink\<rparr>]\<rparr>"
    have syms: "map tf_symbol ((out_targets out)[i := u]) = map tf_symbol (out_targets out)" if "tf_symbol u = tf_symbol t" for u
      using that ready by (metis list_update_id map_update t_def out_target_count_def nth_map)
    have eq: "(e, out') = (if is_sink_error ae then out_fail OW_file_failure i Kind_market_data ae ?o1
        else if is_sink_error be then out_fail OW_file_failure i Kind_order_book be ?o2 else (no_write_error, ?o2))"
      using run ready a b unfolding t_def
      by (cases "is_sink_error ae"; cases "is_sink_error be") (simp_all add: write_batch_def out_failed_def Let_def)
    consider (audit) "is_sink_error ae" "out_fail OW_file_failure i Kind_market_data ae ?o1 = (e, out')"
      | (book) "\<not> is_sink_error ae" "is_sink_error be" "out_fail OW_file_failure i Kind_order_book be ?o2 = (e, out')"
      | (ok) "\<not> is_sink_error ae" "\<not> is_sink_error be" "e = no_write_error" "out' = ?o2"
      using eq by (auto split: if_splits)
    then show ?thesis
    proof cases
      case audit
      note fe = out_fail_effect [OF audit(2)]
      have "target_inv (out_mode out) True False (audit_rows (log @ [(i, batch)]) i) (book_rows (log @ [(i, batch)]) i) ?t1"
        using files(1) audit(1) t
          file_inv_weaken [of False False kOrderBookCsvHeader "book_rows log i" "tf_order_book t" False "book_rows [(i, batch)] i"]
        by (auto simp: target_inv_def split: if_splits)
      then show ?thesis
        using out_inv_update [OF inv, of i out' batch ?t1] fe ready syms [of ?t1] by simp
    next
      case book
      note fe = out_fail_effect [OF book(3)]
      have "target_inv (out_mode out) True False (audit_rows (log @ [(i, batch)]) i) (book_rows (log @ [(i, batch)]) i)
          (?t1\<lparr>tf_order_book := bsink\<rparr>)"
        using files book
          file_inv_weaken [of False False kMarketDataCsvHeader "audit_rows (log @ [(i, batch)]) i" asink False "[]"]
        by (auto simp: target_inv_def split: if_splits)
      then show ?thesis
        using out_inv_update [OF inv, of i out' batch "?t1\<lparr>tf_order_book := bsink\<rparr>"] fe ready
          syms [of "?t1\<lparr>tf_order_book := bsink\<rparr>"] by simp
    next
      case ok
      have "target_inv (out_mode out) False False (audit_rows (log @ [(i, batch)]) i) (book_rows (log @ [(i, batch)]) i)
          (?t1\<lparr>tf_order_book := bsink\<rparr>)"
        using files ok by (auto simp: target_inv_def split: if_splits)
      moreover have "\<not> out_failed out'" using ready ok by (simp add: out_failed_def)
      ultimately show ?thesis
        using out_inv_update [OF inv, of i out' batch "?t1\<lparr>tf_order_book := bsink\<rparr>"] ready ok
          syms [of "?t1\<lparr>tf_order_book := bsink\<rparr>"] by (simp add: no_write_error_def is_write_error_def)
    qed
  qed
qed

end
