(* ===== verification/Output_Set_Opening.thy ===== *)
theory Output_Set_Opening
  imports Output_Set_Guarantees
begin

text \<open>
  Opening a set of output files is all or nothing: a successful open starts every file with its
  header, a failed one closes and removes every file it created and removes a directory it made.
\<close>

section \<open>Traces of system calls\<close>

text \<open>The files created and not yet released, for a kind of release.\<close>

fun outstanding :: "(os_call \<Rightarrow> string option) \<Rightarrow> string list \<Rightarrow> os_call list \<Rightarrow> string list" where
  "outstanding rel fs [] = fs"
| "outstanding rel fs (Call_open path created # calls) = outstanding rel (if created then path # fs else fs) calls"
| "outstanding rel fs (c # calls) =
     outstanding rel (case rel c of Some path \<Rightarrow> removeAll path fs | None \<Rightarrow> fs) calls"

fun removal_of :: "os_call \<Rightarrow> string option" where
  "removal_of (Call_remove path) = Some path"
| "removal_of _ = None"

fun closing_of :: "os_call \<Rightarrow> string option" where
  "closing_of (Call_close path) = Some path"
| "closing_of _ = None"

lemma outstanding_append: "outstanding rel fs (a @ b) = outstanding rel (outstanding rel fs a) b"
  by (induction rel fs a rule: outstanding.induct) auto

definition release_kind :: "(os_call \<Rightarrow> string option) \<Rightarrow> bool" where
  "release_kind rel \<longleftrightarrow> rel = removal_of \<or> rel = closing_of"

lemma outstanding_open_exclusive:
  assumes "open_exclusive env path kind = (e, sink, calls)" and "release_kind rel"
  shows "set (outstanding rel fs calls) \<subseteq> set fs \<union> (if sink = None then {} else {path}) \<and>
     (\<forall>s. sink = Some s \<longrightarrow> snk_path s = path)"
proof -
  let ?s = "new_sink path (for_descriptor (oe_open env)) (oe_handle env)"
  obtain e1 s1 where w: "write_all ?s (header_for kind) = (e1, s1)" by fastforce
  have "\<not> is_sink_error (snk_first_error ?s)" by (simp add: new_sink_def)
  from write_all_effect [OF w this] have "snk_path s1 = path" by (simp add: same_sink_def new_sink_def)
  with assms w show ?thesis
    by (auto simp: open_exclusive_def Let_def release_kind_def close_after_failed_open_def split: if_splits)
qed

text \<open>The files a target owns.\<close>

definition owned :: "TargetFiles \<Rightarrow> string set" where
  "owned t = (if tf_audit_created t then {tf_audit_path t} else {}) \<union>
     (if tf_order_book_created t then {tf_order_book_path t} else {})"

definition consistent :: "TargetFiles \<Rightarrow> bool" where
  "consistent t \<longleftrightarrow> (tf_audit_created t \<longleftrightarrow> tf_audit t \<noteq> None) \<and> (tf_order_book_created t \<longleftrightarrow> tf_order_book t \<noteq> None) \<and>
     (\<forall>s. tf_audit t = Some s \<longrightarrow> snk_path s = tf_audit_path t) \<and>
     (\<forall>s. tf_order_book t = Some s \<longrightarrow> snk_path s = tf_order_book_path t)"

definition unopened :: "TargetFiles \<Rightarrow> bool" where
  "unopened t \<longleftrightarrow> tf_audit t = None \<and> tf_order_book t = None \<and> \<not> tf_audit_created t \<and> \<not> tf_order_book_created t"

lemma unopened_consistent: "unopened t \<Longrightarrow> consistent t \<and> owned t = {}"
  by (auto simp: unopened_def consistent_def owned_def)

lemma consistent_update:
  "consistent t \<Longrightarrow> snk_path s = tf_audit_path t \<Longrightarrow> consistent (t\<lparr>tf_audit := Some s, tf_audit_created := True\<rparr>)"
  "consistent t \<Longrightarrow> snk_path s = tf_order_book_path t \<Longrightarrow>
     consistent (t\<lparr>tf_order_book := Some s, tf_order_book_created := True\<rparr>)"
  by (simp_all add: consistent_def)

definition fresh_files :: "OutputEnvironment \<Rightarrow> bool" where
  "fresh_files env \<longleftrightarrow> (\<forall>i kind. fh_content (oe_handle (ove_files env i kind)) = [])"

lemma outstanding_remove:
  "release_kind rel \<Longrightarrow> set (outstanding rel fs (calls @ [Call_remove path])) \<subseteq> set (outstanding rel fs calls)"
  by (auto simp: outstanding_append release_kind_def)

lemma open_target_file_effect:
  assumes "open_target_file env i kind path e = (sink, r, e', calls)" and "release_kind rel"
  shows "set (outstanding rel fs calls) \<subseteq> set fs \<union> (if sink = None then {} else {path}) \<and>
     (\<forall>s. sink = Some s \<longrightarrow> snk_path s = path) \<and> (r = Opened \<longleftrightarrow> sink \<noteq> None) \<and>
     (fresh_files env \<longrightarrow> sink \<noteq> None \<longrightarrow> file_inv False False (header_for kind) [] sink) \<and>
     (r = Open_failed \<longrightarrow> ose_code e' = OO_file_sink_failure) \<and> (r = Opened \<longrightarrow> e' = e)"
proof (cases "ove_path_copied env i kind")
  case False
  with assms show ?thesis by (auto simp: open_target_file_def)
next
  case True
  obtain fe so c where o: "open_exclusive (ove_files env i kind) path kind = (fe, so, c)" by (metis surj_pair)
  note oo = outstanding_open_exclusive [OF o assms(2), of fs]
  show ?thesis
  proof (cases so)
    case (Some s)
    then have "open_target_file env i kind path e = (Some s, Opened, e, c)"
      using True o by (simp add: open_target_file_def)
    with assms(1) oo Some open_exclusive_inv [OF o [unfolded Some]] show ?thesis
      by (auto simp: file_inv_def fresh_files_def)
  next
    case None
    with oo assms True o outstanding_remove [OF assms(2), of fs c path] show ?thesis
      by (auto simp: open_target_file_def fail_with_path_def Let_def record_rollback_error_def split: if_splits)
  qed
qed

lemma open_target_effect:
  assumes "open_target env mode i t e = (t', r, e', calls)" and "unopened t" and "release_kind rel"
  shows "set (outstanding rel fs calls) \<subseteq> set fs \<union> owned t' \<and> consistent t' \<and>
     tf_symbol t' = tf_symbol t \<and>
     (fresh_files env \<longrightarrow> r = Opened \<longrightarrow> target_inv mode False False [] [] t') \<and>
     (r = Open_failed \<longrightarrow> ose_code e' = OO_file_sink_failure) \<and> (r = Opened \<longrightarrow> e' = e)"
proof -
  obtain a ar ae ac where a: "(if mode = Output_live_capture
      then open_target_file env i Kind_market_data (tf_audit_path t) e else (None, Opened, e, [])) = (a, ar, ae, ac)"
    by (metis surj_pair)
  obtain b br be bc where b: "open_target_file env i Kind_order_book (tf_order_book_path t) ae = (b, br, be, bc)"
    by (metis surj_pair)
  let ?t1 = "case a of Some s \<Rightarrow> t\<lparr>tf_audit := Some s, tf_audit_created := True\<rparr> | None \<Rightarrow> t"
  let ?t2 = "case b of Some s \<Rightarrow> ?t1\<lparr>tf_order_book := Some s, tf_order_book_created := True\<rparr> | None \<Rightarrow> ?t1"
  have eq: "(t', r, e', calls) = (if ar = Opened then (?t2, br, be, ac @ bc) else (?t1, ar, ae, ac))"
    using assms(1) a b
    by (cases "mode = Output_live_capture"; cases a; cases b; cases ar) (simp_all add: open_target_def)
  have A: "set (outstanding rel fs ac) \<subseteq> set fs \<union> (if a = None then {} else {tf_audit_path t}) \<and>
     (\<forall>s. a = Some s \<longrightarrow> snk_path s = tf_audit_path t) \<and>
     (fresh_files env \<longrightarrow> ar = Opened \<longrightarrow>
        (if mode = Output_live_capture then file_inv False False kMarketDataCsvHeader [] a else a = None)) \<and>
     (ar = Open_failed \<longrightarrow> ose_code ae = OO_file_sink_failure) \<and> (ar = Opened \<longrightarrow> ae = e)"
    using a open_target_file_effect [of env i Kind_market_data "tf_audit_path t" e a ar ae ac rel fs] assms(3)
    by (cases "mode = Output_live_capture") auto
  note B = open_target_file_effect [OF b assms(3), of "outstanding rel fs ac"]
  define t1 where "t1 = ?t1"
  define t2 where "t2 = (case b of Some s \<Rightarrow> t1\<lparr>tf_order_book := Some s, tf_order_book_created := True\<rparr> | None \<Rightarrow> t1)"
  have c: "consistent t" "owned t = {}" using unopened_consistent [OF assms(2)] by auto
  have o1: "owned t1 = (if a = None then {} else {tf_audit_path t})" "tf_order_book_path t1 = tf_order_book_path t"
    using assms(2) by (cases a; simp add: t1_def unopened_def owned_def)+
  have c1: "consistent t1" using A c(1) by (cases a) (auto simp: t1_def intro!: consistent_update)
  have b1: "snk_path s = tf_order_book_path t1" if "b = Some s" for s using B that o1(2) by simp
  have c2: "consistent t2" using c1 b1 by (cases b) (auto simp: t2_def intro!: consistent_update)
  have "\<not> tf_order_book_created t1" using assms(2) by (cases a) (simp_all add: t1_def unopened_def)
  then have o2: "owned t2 = owned t1 \<union> (if b = None then {} else {tf_order_book_path t})"
    using o1(2) by (cases b) (auto simp: t2_def owned_def)
  have s: "tf_symbol t1 = tf_symbol t" "tf_symbol t2 = tf_symbol t"
    by (cases a; cases b; simp add: t1_def t2_def)+
  have "tf_audit t2 = a" using assms(2) by (cases a; cases b) (simp_all add: t1_def t2_def unopened_def)
  moreover have "tf_order_book t2 = b" using assms(2) by (cases a; cases b) (simp_all add: t1_def t2_def unopened_def)
  ultimately have i: "target_inv mode False False [] [] t2" if "fresh_files env" "ar = Opened" "br = Opened"
    using A B that by (simp add: target_inv_def)
  have eq': "(t', r, e', calls) = (if ar = Opened then (t2, br, be, ac @ bc) else (t1, ar, ae, ac))"
    unfolding t1_def t2_def by (rule eq)
  show ?thesis
  proof (cases "ar = Opened")
    case True
    with eq' have "t' = t2" "r = br" "e' = be" "calls = ac @ bc" by simp_all
    with A B o1(1) o2 c2 s i True show ?thesis by (auto simp: outstanding_append split: if_splits)
  next
    case False
    with eq' have "t' = t1" "r = ar" "e' = ae" "calls = ac" by simp_all
    with A o1 c1 s False show ?thesis by auto
  qed
qed

lemma open_files_effect:
  assumes "open_files env mode i ts e = (ts', r, e', calls)" and "list_all unopened ts" and "release_kind rel"
  shows "set (outstanding rel fs calls) \<subseteq> set fs \<union> (\<Union>t \<in> set ts'. owned t) \<and> list_all consistent ts' \<and>
     map tf_symbol ts' = map tf_symbol ts \<and>
     (fresh_files env \<longrightarrow> r = Opened \<longrightarrow> list_all (target_inv mode False False [] []) ts') \<and>
     (r = Open_failed \<longrightarrow> ose_code e' = OO_file_sink_failure) \<and> (r = Opened \<longrightarrow> e' = e)"
  using assms(1,2)
proof (induction ts arbitrary: i e ts' r e' calls fs)
  case (Cons t ts)
  obtain t1 r1 e1 c1 where o: "open_target env mode i t e = (t1, r1, e1, c1)" by (metis surj_pair)
  obtain ts2 r2 e2 c2 where os: "open_files env mode (Suc i) ts e1 = (ts2, r2, e2, c2)" by (metis surj_pair)
  have u: "unopened t" "list_all unopened ts" using Cons.prems(2) by simp_all
  note O = open_target_effect [OF o u(1) assms(3)]
  show ?case
  proof (cases "r1 = Opened")
    case True
    then have eq: "ts' = t1 # ts2" "r = r2" "e' = e2" "calls = c1 @ c2" using Cons.prems(1) o os by simp_all
    have "set (outstanding rel fs calls) \<subseteq> set (outstanding rel fs c1) \<union> (\<Union>t \<in> set ts2. owned t)"
      using Cons.IH [OF os u(2), of "outstanding rel fs c1"] by (simp add: eq outstanding_append)
    then show ?thesis using O [of fs] Cons.IH [OF os u(2)] True by (auto simp: eq)
  next
    case False
    then have "ts' = t1 # ts" "r = r1" "e' = e1" "calls = c1"
      using Cons.prems(1) o by (cases r1; simp)+
    moreover have "list_all consistent ts" using u(2) unopened_consistent by (auto simp: list_all_iff)
    ultimately show ?thesis using O [of fs] False by auto
  qed
qed simp

section \<open>Rolling back\<close>

lemma rollback_close_trace:
  assumes "rollback_close i kind sink e = (e', calls)" and "release_kind rel"
  shows "set (outstanding rel fs calls) \<subseteq> set fs \<and> ose_code e' = ose_code e \<and>
     (\<forall>s. rel = closing_of \<longrightarrow> sink = Some s \<longrightarrow> snk_path s \<notin> set (outstanding rel fs calls))"
  using assms
  by (auto simp: rollback_close_def release_kind_def record_rollback_error_def split: option.splits prod.splits if_splits)

lemma rollback_remove_trace:
  assumes "rollback_remove env i kind created path e = (e', calls)" and "release_kind rel"
  shows "set (outstanding rel fs calls) \<subseteq> set fs \<and> ose_code e' = ose_code e \<and>
     (rel = removal_of \<longrightarrow> created \<longrightarrow> path \<notin> set (outstanding rel fs calls))"
  using assms
  by (auto simp: rollback_remove_def release_kind_def record_rollback_error_def Let_def split: if_splits)

lemma rollback_target_trace:
  assumes "rollback_target env i t e = (e', calls)" and "consistent t" and "release_kind rel"
  shows "set (outstanding rel fs calls) \<subseteq> set fs - owned t \<and> ose_code e' = ose_code e"
proof -
  obtain e1 c1 where 1: "rollback_close i Kind_order_book (tf_order_book t) e = (e1, c1)" by fastforce
  obtain e2 c2 where 2: "rollback_close i Kind_market_data (tf_audit t) e1 = (e2, c2)" by fastforce
  obtain e3 c3 where
    3: "rollback_remove env i Kind_order_book (tf_order_book_created t) (tf_order_book_path t) e2 = (e3, c3)" by fastforce
  obtain e4 c4 where
    4: "rollback_remove env i Kind_market_data (tf_audit_created t) (tf_audit_path t) e3 = (e4, c4)" by fastforce
  have eq: "e' = e4" "calls = c1 @ c2 @ c3 @ c4" using assms(1) by (auto simp: rollback_target_def 1 2 3 4)
  define f1 where "f1 = outstanding rel fs c1"
  define f2 where "f2 = outstanding rel f1 c2"
  define f3 where "f3 = outstanding rel f2 c3"
  define f4 where "f4 = outstanding rel f3 c4"
  have o: "outstanding rel fs calls = f4" by (simp add: eq outstanding_append f1_def f2_def f3_def f4_def)
  note t = rollback_close_trace [OF 1 assms(3), of fs, folded f1_def] rollback_close_trace [OF 2 assms(3), of f1, folded f2_def]
    rollback_remove_trace [OF 3 assms(3), of f2, folded f3_def] rollback_remove_trace [OF 4 assms(3), of f3, folded f4_def]
  have "set f4 \<subseteq> set f3" "set f3 \<subseteq> set f2" "set f2 \<subseteq> set f1" "set f1 \<subseteq> set fs" using t by simp_all
  moreover have "tf_order_book_path t \<notin> set f1 \<or> tf_order_book_path t \<notin> set f3" if "tf_order_book_created t"
    using that t(1,3) assms(2,3) unfolding consistent_def release_kind_def by (metis not_None_eq)
  moreover have "tf_audit_path t \<notin> set f2 \<or> tf_audit_path t \<notin> set f4" if "tf_audit_created t"
    using that t(2,4) assms(2,3) unfolding consistent_def release_kind_def by (metis not_None_eq)
  ultimately have "set f4 \<subseteq> set fs - owned t" unfolding owned_def by auto
  moreover have "ose_code e4 = ose_code e" using t by simp
  ultimately show ?thesis using o eq(1) by simp
qed

lemma rollback_targets_trace:
  assumes "rollback_targets env i ts e = (e', calls)" and "list_all consistent ts" and "release_kind rel"
  shows "set (outstanding rel fs calls) \<subseteq> set fs - (\<Union>t \<in> set ts. owned t) \<and> ose_code e' = ose_code e"
  using assms(1,2)
proof (induction ts arbitrary: i e e' calls fs)
  case (Cons t ts)
  obtain e1 c1 where 1: "rollback_targets env (Suc i) ts e = (e1, c1)" by fastforce
  obtain e2 c2 where 2: "rollback_target env i t e1 = (e2, c2)" by fastforce
  have "set (outstanding rel fs c1) \<subseteq> set fs - (\<Union>t \<in> set ts. owned t) \<and> ose_code e1 = ose_code e"
    using Cons.IH [OF 1] Cons.prems(2) by simp
  moreover have "set (outstanding rel (outstanding rel fs c1) c2) \<subseteq> set (outstanding rel fs c1) - owned t \<and>
      ose_code e2 = ose_code e1"
    using rollback_target_trace [OF 2 _ assms(3)] Cons.prems(2) by simp
  moreover have "e' = e2" "calls = c1 @ c2" using Cons.prems(1) 1 2 by simp_all
  ultimately show ?case by (auto simp: outstanding_append)
qed simp

section \<open>The whole set\<close>

lemma prepare_output_directory_effect:
  assumes "prepare_output_directory env out e = (r, e', out', calls)" and "\<not> out_directory_created out"
  shows "out_targets out' = out_targets out \<and> out_mode out' = out_mode out \<and> out_closed out' = out_closed out \<and>
     out_first_error out' = out_first_error out \<and> out_directory out' = out_directory out \<and>
     calls = (if out_directory_created out' then [Call_mkdir (out_directory out)] else []) \<and>
     (r = Open_failed \<longrightarrow> ose_code e' \<noteq> OO_none) \<and> (r = Opened \<longrightarrow> e' = e)"
  using assms
  by (auto simp: prepare_output_directory_def Let_def fail_with_path_def
      split: sum.splits bool.splits if_splits)

text \<open>Only the preparation makes a directory.\<close>

lemma no_mkdir_open_exclusive: "Call_mkdir d \<notin> set (snd (snd (open_exclusive env path kind)))"
  by (auto simp: open_exclusive_def Let_def close_after_failed_open_def split: prod.splits)

lemma no_mkdir_open_target_file: "Call_mkdir d \<notin> set (snd (snd (snd (open_target_file env i kind path e))))"
proof -
  obtain fe so c where o: "open_exclusive (ove_files env i kind) path kind = (fe, so, c)" by (metis surj_pair)
  then have "Call_mkdir d \<notin> set c" using no_mkdir_open_exclusive [of d "ove_files env i kind" path kind] by simp
  with o show ?thesis
    by (cases so) (auto simp: open_target_file_def fail_with_path_def Let_def)
qed

lemma no_mkdir_open_target: "Call_mkdir d \<notin> set (snd (snd (snd (open_target env mode i t e))))"
proof -
  have n: "Call_mkdir d \<notin> set c" if "open_target_file env i kind path e = (so, r, e', c)" for kind path e so r e' c
    using no_mkdir_open_target_file [of d env i kind path e] that by simp
  show ?thesis
    by (auto simp: open_target_def Let_def split: prod.splits option.splits open_outcome.splits dest: n)
qed

lemma no_mkdir_open_files: "Call_mkdir d \<notin> set (snd (snd (snd (open_files env mode i ts e))))"
proof (induction ts arbitrary: i e)
  case (Cons t ts)
  obtain t1 r1 e1 c1 where o: "open_target env mode i t e = (t1, r1, e1, c1)" by (metis surj_pair)
  with no_mkdir_open_target [of d env mode i t e] Cons show ?case
    by (cases r1) (auto split: prod.splits, metis snd_conv)
qed simp

lemma no_mkdir_rollback_targets: "Call_mkdir d \<notin> set (snd (rollback_targets env i ts e))"
proof (induction ts arbitrary: i e)
  case (Cons t ts)
  obtain e1 c1 where r: "rollback_targets env (Suc i) ts e = (e1, c1)" by fastforce
  have "Call_mkdir d \<notin> set (snd (rollback_target env i t e1))"
    by (auto simp: rollback_target_def rollback_close_def rollback_remove_def Let_def split: prod.splits option.splits if_splits)
  with Cons [of "Suc i" e] show ?case by (auto simp: r split: prod.splits)
qed simp

lemma rollback_initialization_trace:
  assumes "rollback_initialization env out e = (e', calls)" and "list_all consistent (out_targets out)"
    and "release_kind rel"
  shows "set (outstanding rel fs calls) \<subseteq> set fs - (\<Union>t \<in> set (out_targets out). owned t) \<and> ose_code e' = ose_code e \<and>
     (if out_directory_created out then last calls = Call_rmdir (out_directory out) \<and> calls \<noteq> []
      else Call_mkdir d \<notin> set calls)"
proof -
  obtain e1 c1 where r: "rollback_targets env 0 (out_targets out) e = (e1, c1)" by fastforce
  note t = rollback_targets_trace [OF r assms(2,3), of fs] no_mkdir_rollback_targets [of d env 0 "out_targets out" e, unfolded r]
  have "outstanding rel fs (c1 @ [Call_rmdir (out_directory out)]) = outstanding rel fs c1"
    using assms(3) by (auto simp: outstanding_append release_kind_def)
  with t r assms(1) show ?thesis
    by (auto simp: rollback_initialization_def record_rollback_error_def split: if_splits option.splits)
qed

lemma open_prepared_failed:
  assumes run: "open_prepared env out = (e, None, calls)" and u: "list_all unopened (out_targets out)"
    and d: "\<not> out_directory_created out" and rel: "release_kind rel"
  shows "outstanding rel [] calls = [] \<and> ose_code e \<noteq> OO_none \<and>
     (Call_mkdir (out_directory out) \<in> set calls \<longrightarrow> last calls = Call_rmdir (out_directory out))"
proof -
  obtain r1 e1 o1 c1 where p: "prepare_output_directory env out no_open_error = (r1, e1, o1, c1)" by (metis surj_pair)
  note P = prepare_output_directory_effect [OF p d]
  obtain ts r2 e2 c2 where f: "open_files env (out_mode o1) 0 (out_targets o1) e1 = (ts, r2, e2, c2)" by (metis surj_pair)
  have F: "set (outstanding rel [] c2) \<subseteq> (\<Union>t \<in> set ts. owned t)" "list_all consistent ts"
      "r2 = Open_failed \<longrightarrow> ose_code e2 \<noteq> OO_none" "Call_mkdir (out_directory out) \<notin> set c2"
    using open_files_effect [OF f _ rel, of "[]"] u P no_mkdir_open_files [of "out_directory out" env "out_mode o1" 0 "out_targets o1" e1] f
    by auto
  have C1: "outstanding rel [] c1 = []" using P rel by (auto simp: release_kind_def)
  define o2 where "o2 = (if r1 = Opened then o1\<lparr>out_targets := ts\<rparr> else o1)"
  define c where "c = (if r1 = Opened then c1 @ c2 else c1)"
  define r where "r = (if r1 = Opened then r2 else r1)"
  define e3 where "e3 = (if r = Open_failed then (if r1 = Opened then e2 else e1) else allocation_error)"
  have "r \<noteq> Opened" using run p f by (auto simp: open_prepared_def r_def split: open_outcome.splits)
  then obtain e4 c4 where b: "rollback_initialization env o2 e3 = (e4, c4)" "e = e4" "calls = c @ c4"
    using run p f
    by (cases r1; cases r2) (auto simp: open_prepared_def r_def o2_def c_def e3_def split: prod.splits)
  have con: "list_all consistent (out_targets o2)"
    using F(2) u P unopened_consistent by (auto simp: o2_def list_all_iff)
  note R = rollback_initialization_trace [OF b(1) con rel, of "outstanding rel [] c" "out_directory out"]
  have "set (outstanding rel [] c) \<subseteq> (\<Union>t \<in> set (out_targets o2). owned t)"
    using F(1) C1 by (auto simp: c_def o2_def outstanding_append)
  with R have "set (outstanding rel (outstanding rel [] c) c4) \<subseteq> {}" by blast
  then have "outstanding rel [] calls = []" by (simp add: b(3) outstanding_append)
  moreover have "ose_code e \<noteq> OO_none"
    using R P F(3) \<open>r \<noteq> Opened\<close> by (auto simp: b(2) e3_def r_def allocation_error_def split: if_splits)
  moreover have "last calls = Call_rmdir (out_directory out)" if "Call_mkdir (out_directory out) \<in> set calls"
    using that R P F(4) by (auto simp: b(3) c_def o2_def split: if_splits)
  ultimately show ?thesis by blast
qed

lemma open_prepared_opened:
  assumes run: "open_prepared env out = (e, Some out', calls)" and u: "list_all unopened (out_targets out)"
    and d: "\<not> out_directory_created out" and fresh: "fresh_files env" and out: "\<not> out_closed out" "\<not> out_failed out"
  shows "out_inv [] out' \<and> \<not> out_closed out' \<and> \<not> out_failed out' \<and> out_mode out' = out_mode out \<and>
     map tf_symbol (out_targets out') = map tf_symbol (out_targets out)"
proof -
  obtain r1 e1 o1 c1 where p: "prepare_output_directory env out no_open_error = (r1, e1, o1, c1)" by (metis surj_pair)
  note P = prepare_output_directory_effect [OF p d]
  obtain ts r2 e2 c2 where f: "open_files env (out_mode o1) 0 (out_targets o1) e1 = (ts, r2, e2, c2)" by (metis surj_pair)
  have "r1 = Opened" "r2 = Opened" "out' = o1\<lparr>out_targets := ts\<rparr>"
    using run p f by (cases r1; cases r2; auto simp: open_prepared_def split: prod.splits)+
  moreover have "release_kind removal_of" by (simp add: release_kind_def)
  ultimately show ?thesis
    using open_files_effect [OF f, of removal_of] u P fresh out
    by (auto simp: out_inv_def out_target_count_def out_failed_def audit_rows_def book_rows_def list_all_length)
qed

lemma new_targets_unopened:
  "list_all unopened (map (live_target dir venue utc_date) ss)" "list_all unopened (map (replay_target dir) specs)"
  by (simp_all add: list_all_iff unopened_def live_target_def replay_target_def new_target_def Let_def)

text \<open>Both ways of opening a set.\<close>

definition opens ::
    "OutputEnvironment \<Rightarrow> string \<Rightarrow> OutputSetOpenError \<times> CsvOutputSet option \<times> os_call list \<Rightarrow> bool" where
  "opens env dir result \<longleftrightarrow>
     (\<exists>venue symbols count utc_date. result = open_live env dir venue symbols count utc_date) \<or>
     (\<exists>specs count. result = open_replay env dir specs count)"

lemma opens_cases:
  assumes "opens env dir result"
  obtains e where "result = (e, None, [])" "ose_code e \<noteq> OO_none"
    | out where "result = open_prepared env out" "list_all unopened (out_targets out)" "out_directory out = dir"
        "\<not> out_directory_created out" "\<not> out_closed out" "\<not> out_failed out"
proof -
  have "(\<exists>e. result = (e, None, []) \<and> ose_code e \<noteq> OO_none) \<or>
     (\<exists>out. result = open_prepared env out \<and> list_all unopened (out_targets out) \<and> out_directory out = dir \<and>
        \<not> out_directory_created out \<and> \<not> out_closed out \<and> \<not> out_failed out)"
    using assms unfolding opens_def
  proof (elim disjE exE)
    fix venue symbols count utc_date
    assume "result = open_live env dir venue symbols count utc_date"
    then show ?thesis
      by (auto simp: open_live_def Let_def allocation_error_def new_targets_unopened out_failed_def no_write_error_def
          is_write_error_def)
  next
    fix specs count
    assume r: "result = open_replay env dir specs count"
    have c: "code \<noteq> OO_none" if "check_stems before stems = Some (code, i)" for before stems code i
      using that by (induction before stems rule: check_stems.induct) (auto split: if_splits)
    show ?thesis unfolding r
      by (cases specs)
        (auto simp: open_replay_def Let_def allocation_error_def new_targets_unopened out_failed_def no_write_error_def
          is_write_error_def dest: c split: option.splits)
  qed
  then show ?thesis using that by blast
qed

section \<open>Runs\<close>

datatype out_op = Out_write nat EventRowBatch | Out_flush | Out_close

fun perform :: "out_op list \<Rightarrow> CsvOutputSet \<Rightarrow> CsvOutputSet" where
  "perform [] out = out"
| "perform (Out_write i b # ops) out = perform ops (snd (write_batch out i b))"
| "perform (Out_flush # ops) out = perform ops (snd (flush_all out))"
| "perform (Out_close # ops) out = perform ops (snd (close_all out))"

fun batches :: "out_op list \<Rightarrow> batch_log" where
  "batches [] = []"
| "batches (Out_write i b # ops) = (i, b) # batches ops"
| "batches (_ # ops) = batches ops"

lemma perform_inv:
  assumes "out_inv log out"
  shows "out_inv (log @ batches ops) (perform ops out) \<and> out_mode (perform ops out) = out_mode out \<and>
     map tf_symbol (out_targets (perform ops out)) = map tf_symbol (out_targets out)"
  using assms
proof (induction ops arbitrary: log out)
  case (Cons op ops)
  show ?case
  proof (cases op)
    case (Out_write i b)
    have w: "write_batch out i b = (fst (write_batch out i b), snd (write_batch out i b))" by simp
    from Cons.IH [of "log @ [(i, b)]"] write_batch_inv [OF Cons.prems w] show ?thesis by (simp add: Out_write)
  next
    case Out_flush
    have w: "flush_all out = (fst (flush_all out), snd (flush_all out))" by simp
    from Cons.IH [of log] flush_all_inv [OF Cons.prems w] show ?thesis by (simp add: Out_flush)
  next
    case Out_close
    have w: "close_all out = (fst (close_all out), snd (close_all out))" by simp
    from Cons.IH [of log] close_all_inv [OF Cons.prems w] show ?thesis by (simp add: Out_close)
  qed
qed simp

text \<open>The content of a file of a target.\<close>

definition file_content :: "BufferedCsvFileSink option \<Rightarrow> string" where
  "file_content sink = (case sink of None \<Rightarrow> [] | Some s \<Rightarrow> fh_content (snk_handle s))"

lemma file_inv_content:
  assumes "file_inv f c header recs sink"
  shows "prefix (file_content sink) (header @ concat recs) \<and>
     (\<not> f \<longrightarrow> c \<longrightarrow> file_content sink = header @ concat recs)"
proof -
  from file_inv_take [OF assms] obtain s n where s: "sink = Some s" "sink_inv header (take n recs) s" by blast
  have "concat recs = concat (take n recs) @ concat (drop n recs)" by (metis append_take_drop_id concat_append)
  then have "prefix (header @ concat (take n recs)) (header @ concat recs)" by simp
  with sink_inv_prefix [OF s(2)] have "prefix (file_content sink) (header @ concat recs)"
    unfolding file_content_def s(1) by (simp add: prefix_order.trans)
  moreover have "file_content sink = header @ concat recs" if "\<not> f" "c"
    using assms that by (auto simp: file_inv_def file_content_def sink_inv_def sink_stream_def)
  ultimately show ?thesis by blast
qed

lemma out_inv_content:
  assumes "out_inv log out" and "i < out_target_count out"
  shows "prefix (file_content (tf_order_book (out_targets out ! i))) (kOrderBookCsvHeader @ concat (book_rows log i)) \<and>
     (out_mode out = Output_live_capture \<longrightarrow>
        prefix (file_content (tf_audit (out_targets out ! i))) (kMarketDataCsvHeader @ concat (audit_rows log i))) \<and>
     (\<not> out_failed out \<and> out_closed out \<longrightarrow>
        file_content (tf_order_book (out_targets out ! i)) = kOrderBookCsvHeader @ concat (book_rows log i) \<and>
        (out_mode out = Output_live_capture \<longrightarrow>
           file_content (tf_audit (out_targets out ! i)) = kMarketDataCsvHeader @ concat (audit_rows log i)))"
proof -
  have "target_inv (out_mode out) (out_failed out) (out_closed out) (audit_rows log i) (book_rows log i) (out_targets out ! i)"
    using assms by (simp add: out_inv_def)
  then show ?thesis
    using file_inv_content unfolding target_inv_def by (metis (no_types, lifting))
qed

section \<open>Properties\<close>

text \<open>
  C22: every file of an output set is its header followed by the rows of its own target.  After any
  sequence of writes, flushes and closes, under any kernel behaviour, the order-book file of each
  target is a prefix of the order-book header and the order-book rows of the batches written to that
  target, in order; it is exactly that once the set was closed without error.  In live mode the same
  holds of the audit files.
\<close>

theorem output_files_exact:
  fixes ops :: "out_op list"
  assumes "opens env dir (e, Some out, calls)" and "fresh_files env" and "i < out_target_count out"
  defines "out' \<equiv> perform ops out"
  shows "prefix (file_content (tf_order_book (out_targets out' ! i)))
       (kOrderBookCsvHeader @ concat (book_rows (batches ops) i)) \<and>
     (out_mode out = Output_live_capture \<longrightarrow> prefix (file_content (tf_audit (out_targets out' ! i)))
       (kMarketDataCsvHeader @ concat (audit_rows (batches ops) i))) \<and>
     (\<not> out_failed out' \<and> out_closed out' \<longrightarrow>
        file_content (tf_order_book (out_targets out' ! i)) = kOrderBookCsvHeader @ concat (book_rows (batches ops) i) \<and>
        (out_mode out = Output_live_capture \<longrightarrow>
           file_content (tf_audit (out_targets out' ! i)) = kMarketDataCsvHeader @ concat (audit_rows (batches ops) i)))"
proof -
  have "out_inv [] out"
    using assms(1)
  proof (cases rule: opens_cases)
    case (2 o0)
    from open_prepared_opened [OF 2(1) [symmetric] 2(2,4) assms(2) 2(5,6)] show ?thesis by blast
  qed simp
  from perform_inv [OF this, of ops] have run: "out_inv (batches ops) out'" "out_mode out' = out_mode out"
    "map tf_symbol (out_targets out') = map tf_symbol (out_targets out)"
    by (simp_all add: out'_def)
  have "i < out_target_count out'"
    using run(3) assms(3) unfolding out_target_count_def by (metis length_map)
  from out_inv_content [OF run(1) this, unfolded run(2)] show ?thesis .
qed

text \<open>
  C23: opening a set is all or nothing.  When \<open>open_live\<close> or \<open>open_replay\<close> fails, an error is
  reported, every file it created has been removed again, every descriptor it opened has been closed,
  and if it made the output directory the last call removes it.
\<close>

theorem failed_set_open_leaves_nothing:
  assumes "opens env dir (e, None, calls)"
  shows "ose_code e \<noteq> OO_none \<and> outstanding removal_of [] calls = [] \<and> outstanding closing_of [] calls = [] \<and>
     (Call_mkdir dir \<in> set calls \<longrightarrow> last calls = Call_rmdir dir)"
  using assms
proof (cases rule: opens_cases)
  case (2 out)
  have "release_kind removal_of" "release_kind closing_of" by (simp_all add: release_kind_def)
  then show ?thesis
    using open_prepared_failed [OF 2(1) [symmetric] 2(2,4)] 2(3) by blast
qed simp

section \<open>Witnesses\<close>

definition sample_files :: OutputEnvironment where
  "sample_files = \<lparr>ove_operations = True, ove_allocated = True, ove_exists = Inr False, ove_is_directory = Inr True,
     ove_is_empty = Inr True, ove_create_directory = Inr True, ove_rmdir = None, ove_path_copied = (\<lambda>_ _. True),
     ove_error_path_copied = True, ove_files = (\<lambda>_ _. sample_open),
     ove_removes = (\<lambda>_ _. \<lparr>frr_success = True, frr_native_error = 0\<rparr>)\<rparr>"

definition row_batch :: "string \<Rightarrow> string \<Rightarrow> EventRowBatch" where
  "row_batch audit book =
     sample_batch\<lparr>audit_row := sample_buffer\<lparr>crb_storage := (crb_storage sample_buffer)\<lparr>str_bytes := audit\<rparr>\<rparr>,
       order_book_row_buffer := sample_buffer\<lparr>crb_storage := (crb_storage sample_buffer)\<lparr>str_bytes := book\<rparr>\<rparr>,
       has_audit_row := audit \<noteq> [], has_order_book_row := book \<noteq> []\<rparr>"

definition sample_live :: "OutputSetOpenError \<times> CsvOutputSet option \<times> os_call list" where
  "sample_live = open_live sample_files ''out'' Venue_spot (Some [''BTCUSDT'', ''ETHUSDT'']) 2 ''2024-02-29''"

definition sample_ops :: "out_op list" where
  "sample_ops = [Out_write 1 (row_batch ''a\<newline>'' ''b\<newline>''), Out_write 0 (row_batch ''c\<newline>'' []), Out_flush,
     Out_write 1 (row_batch ''d\<newline>'' ''e\<newline>''), Out_close]"

theorem output_files_exact_witness:
  "file_content (tf_order_book (out_targets (perform sample_ops (the (fst (snd sample_live)))) ! 1))
     = kOrderBookCsvHeader @ ''b\<newline>e\<newline>''"
proof -
  obtain e so calls where l: "sample_live = (e, so, calls)" by (metis surj_pair)
  have "fst (snd sample_live) \<noteq> None" by code_simp
  then obtain out where so: "so = Some out" unfolding l by auto
  have o: "opens sample_files ''out'' (e, Some out, calls)"
    unfolding opens_def using l so sample_live_def by metis
  have f: "fresh_files sample_files" by (simp add: fresh_files_def sample_files_def sample_open_def short_handle_def)
  have out: "the (fst (snd sample_live)) = out" unfolding l so by simp
  have "out_target_count (the (fst (snd sample_live))) = 2" by code_simp
  then have c: "1 < out_target_count out" by (simp add: out)
  have "let s = perform sample_ops (the (fst (snd sample_live))) in \<not> out_failed s \<and> out_closed s" by code_simp
  moreover have "concat (book_rows (batches sample_ops) 1) = ''b\<newline>e\<newline>''" by code_simp
  ultimately show ?thesis
    using output_files_exact [OF o f c, of sample_ops] by (simp add: Let_def out)
qed

text \<open>The second file of the first target cannot be created.\<close>

definition failing_files :: OutputEnvironment where
  "failing_files = sample_files\<lparr>ove_files := (\<lambda>_ kind. if kind = Kind_order_book
     then sample_open\<lparr>oe_open := \<lparr>for_descriptor = - 1, for_native_error = 28\<rparr>\<rparr> else sample_open)\<rparr>"

definition failed_live :: "OutputSetOpenError \<times> CsvOutputSet option \<times> os_call list" where
  "failed_live = open_live failing_files ''out'' Venue_spot (Some [''BTCUSDT'']) 1 ''2024-02-29''"

theorem failed_set_open_leaves_nothing_witness:
  "fst (snd failed_live) = None \<and> last (snd (snd failed_live)) = Call_rmdir ''out'' \<and>
   outstanding removal_of [] (snd (snd failed_live)) = []"
proof -
  obtain e so calls where l: "failed_live = (e, so, calls)" by (metis surj_pair)
  have n: "fst (snd failed_live) = None" by code_simp
  then have so: "so = None" unfolding l by simp
  have o: "opens failing_files ''out'' (e, None, calls)"
    unfolding opens_def using l so failed_live_def by metis
  have "Call_mkdir ''out'' \<in> set (snd (snd failed_live))" by code_simp
  with failed_set_open_leaves_nothing [OF o] n show ?thesis unfolding l by simp
qed

end
