(* ===== verification/Csv_Writer.thy ===== *)
theory Csv_Writer
  imports Output_Set_Opening
begin

unbundle bit_operations_syntax

text \<open>
  The writer thread and its bounded queue (\<^verbatim>\<open>include/hft/csv_writer.h\<close>, \<^verbatim>\<open>src/csv_writer.cpp\<close>).  One producer
  thread acquires, fills and publishes slots of a ring of 4096; one consumer thread writes them to the
  output set and releases them.  The two threads share atomic counters and flags, so each operation is
  a sequence of steps with at most one access to a variable that the other thread writes; between steps the
  other thread may run.  Work on data that only one thread can touch at the time is part of the step it
  belongs to.  The interleaving is sequentially consistent.
\<close>

section \<open>Data\<close>

definition kCsvWriterSlotCount :: nat where "kCsvWriterSlotCount = 4096"
definition kCsvWriterByteCapacity :: u64 where "kCsvWriterByteCapacity = 64 * 1024 * 1024"
definition kSlotMask :: u64 where "kSlotMask = of_nat kCsvWriterSlotCount - 1"
definition kPauseSlots :: nat where "kPauseSlots = kCsvWriterSlotCount * 3 div 4"
definition kResumeSlots :: nat where "kResumeSlots = kCsvWriterSlotCount div 2"
definition kPauseBytes :: u64 where "kPauseBytes = kCsvWriterByteCapacity * 3 div 4"
definition kResumeBytes :: u64 where "kResumeBytes = kCsvWriterByteCapacity div 2"

datatype CsvWriterCreateError = WCE_none | WCE_invalid_output | WCE_allocation_failure | WCE_thread_start_failure

datatype CsvWriterAcquireError = WAE_none | WAE_closed | WAE_failed | WAE_already_acquired | WAE_slot_capacity

datatype CsvWriterPublishError =
    WPE_none
  | WPE_no_acquired_slot
  | WPE_closed
  | WPE_failed
  | WPE_invalid_target
  | WPE_invalid_batch
  | WPE_byte_capacity
  | WPE_counter_overflow

record CsvWriterOccupancy =
  occ_slots :: nat
  occ_logical_bytes :: u64
  occ_overflow_capacity_bytes :: u64

record CsvWriterMetrics =
  wm_batches_published :: u64
  wm_logical_bytes_published :: u64
  wm_audit_rows_published :: u64
  wm_order_book_rows_published :: u64
  wm_audit_rows_written :: u64
  wm_order_book_rows_written :: u64
  wm_audit_rows_unwritten :: u64
  wm_order_book_rows_unwritten :: u64
  wm_slot_high_water :: nat
  wm_byte_high_water :: u64
  wm_age_flushes :: u64
  wm_overflow_batches_published :: u64
  wm_overflow_capacity_bytes :: u64
  wm_overflow_capacity_high_water :: u64
  wm_overflow_release_failures :: u64

definition no_writer_metrics :: CsvWriterMetrics where
  "no_writer_metrics = \<lparr>wm_batches_published = 0, wm_logical_bytes_published = 0, wm_audit_rows_published = 0,
     wm_order_book_rows_published = 0, wm_audit_rows_written = 0, wm_order_book_rows_written = 0,
     wm_audit_rows_unwritten = 0, wm_order_book_rows_unwritten = 0, wm_slot_high_water = 0, wm_byte_high_water = 0,
     wm_age_flushes = 0, wm_overflow_batches_published = 0, wm_overflow_capacity_bytes = 0,
     wm_overflow_capacity_high_water = 0, wm_overflow_release_failures = 0\<rparr>"

record CsvWriterResult =
  wr_output_error :: OutputSetWriteError
  wr_metrics :: CsvWriterMetrics

definition writer_success :: "CsvWriterResult \<Rightarrow> bool" where
  "writer_success r \<longleftrightarrow> \<not> is_write_error (wr_output_error r) \<and> wm_audit_rows_unwritten (wr_metrics r) = 0 \<and>
     wm_order_book_rows_unwritten (wr_metrics r) = 0"

record WriterSlot =
  slot_batch :: EventRowBatch
  slot_target_index :: nat
  slot_logical_bytes :: u64
  slot_overflow_capacity_bytes :: u64

text \<open>
  Where a thread is.  An argument of type \<open>u64\<close> is a value loaded earlier; \<open>release_return\<close> and
  \<open>latch_return\<close> say where \<open>release_slot\<close> and \<open>latch_output_failure\<close> were called.
\<close>

datatype producer_pc =
    Prod_idle
  | Acquire_failed_load
  | Acquire_released_load
  | Publish_failed_load nat
  | Publish_bytes_load nat
  | Publish_reject CsvWriterPublishError
  | Publish_occupancy_slots
  | Publish_occupancy_bytes u64
  | Publish_occupancy_overflow u64 u64
  | Publish_bytes_store
  | Publish_sequence_store
  | Publish_active_clear
  | Arm_failed_load
  | Arm_store
  | Arm_occupancy_slots
  | Arm_occupancy_bytes u64
  | Arm_occupancy_overflow u64 u64
  | Arm_exchange

datatype release_return = After_write u64 OutputSetWriteError | After_discard u64

datatype latch_return = Latch_in_write u64 | Latch_in_flush | Latch_in_close

datatype consumer_pc =
    Run_load
  | Run_drain u64
  | Release_overflow_store release_return
  | Release_sequence_store release_return
  | Resume_sequence_load release_return
  | Resume_bytes_load release_return u64
  | Resume_exchange release_return
  | Latch_failed_store OutputSetWriteError latch_return
  | Latch_notify latch_return
  | Latch_wait latch_return
  | Discard_load
  | Discard_drain u64
  | Run_age
  | Run_close_load
  | Run_close_sequence_load
  | Run_sleep_store
  | Run_asleep
  | Run_close_all
  | Run_collect
  | Run_finished

text \<open>\<open>CsvWriter::Impl\<close> with the state of its two threads.\<close>

record WriterImpl =
  w_output :: CsvOutputSet
  w_slots :: "nat \<Rightarrow> WriterSlot"
  published_sequence :: u64
  released_sequence :: u64
  bytes_published :: u64
  bytes_released :: u64
  overflow_bytes_released :: u64
  close_requested :: bool
  writer_failed :: bool
  publish_active :: bool
  writer_sleeping :: bool
  resume_notification_armed :: bool
  failure_notification_sent :: bool
  has_resume :: bool
  has_failure :: bool
  producer_sequence :: u64
  producer_bytes :: u64
  producer_overflow_bytes :: u64
  slot_acquired :: bool
  consumer_sequence :: u64
  consumer_bytes :: u64
  consumer_overflow_bytes :: u64
  w_metrics :: CsvWriterMetrics
  final_result :: CsvWriterResult
  producer_at :: producer_pc
  consumer_at :: consumer_pc
  acquire_result :: CsvWriterAcquireError
  publish_result :: CsvWriterPublishError

text \<open>What a step does to the outside, and the publication of a batch.\<close>

datatype writer_event =
    Ev_none
  | Ev_commit nat EventRowBatch
  | Ev_output out_op
  | Ev_resume
  | Ev_failure

section \<open>Shared helpers\<close>

definition valid_batch :: "EventRowBatch \<Rightarrow> CsvOutputMode \<Rightarrow> bool" where
  "valid_batch batch mode =
     (if \<not> has_audit_row batch \<and> \<not> has_order_book_row batch then False
      else if has_audit_row batch = (crb_view (audit_row batch) = []) \<or>
              has_order_book_row batch = (crb_view (order_book_row_buffer batch) = []) then False
      else if mode = Output_live_capture then \<not> has_order_book_row batch \<or> has_audit_row batch
      else \<not> has_audit_row batch)"

text \<open>\<open>None\<close> is the return value false.\<close>

definition checked_add_u64 :: "u64 \<Rightarrow> u64 \<Rightarrow> u64 option" where
  "checked_add_u64 left right = (if right > - 1 - left then None else Some (left + right))"

definition slot_index :: "u64 \<Rightarrow> nat" where
  "slot_index sequence = unat (sequence AND kSlotMask)"

definition reset_slot :: "WriterSlot \<Rightarrow> EventRowBatch \<Rightarrow> WriterSlot" where
  "reset_slot slot batch = slot\<lparr>slot_batch := batch, slot_target_index := kNoSymbolIndex, slot_logical_bytes := 0,
     slot_overflow_capacity_bytes := 0\<rparr>"

definition occupancy_of :: "WriterImpl \<Rightarrow> u64 \<Rightarrow> u64 \<Rightarrow> u64 \<Rightarrow> CsvWriterOccupancy" where
  "occupancy_of w released released_bytes released_overflow =
     \<lparr>occ_slots = unat (if producer_sequence w \<ge> released then producer_sequence w - released else 0),
      occ_logical_bytes = (if producer_bytes w \<ge> released_bytes then producer_bytes w - released_bytes else 0),
      occ_overflow_capacity_bytes =
        (if producer_overflow_bytes w \<ge> released_overflow then producer_overflow_bytes w - released_overflow else 0)\<rparr>"

definition writer_occupancy :: "WriterImpl \<Rightarrow> CsvWriterOccupancy" where
  "writer_occupancy w = occupancy_of w (released_sequence w) (bytes_released w) (overflow_bytes_released w)"

definition occupancy_pauses :: "CsvWriterOccupancy \<Rightarrow> bool" where
  "occupancy_pauses occ \<longleftrightarrow> occ_slots occ \<ge> kPauseSlots \<or> occ_logical_bytes occ \<ge> kPauseBytes"

definition occupancy_resumes :: "CsvWriterOccupancy \<Rightarrow> bool" where
  "occupancy_resumes occ \<longleftrightarrow> occ_slots occ < kResumeSlots \<and> occ_logical_bytes occ < kResumeBytes"

definition should_pause :: "WriterImpl \<Rightarrow> bool" where
  "should_pause w = occupancy_pauses (writer_occupancy w)"

definition below_resume_watermark :: "WriterImpl \<Rightarrow> bool" where
  "below_resume_watermark w = occupancy_resumes (writer_occupancy w)"

section \<open>The producer\<close>

definition producer_slot :: "WriterImpl \<Rightarrow> WriterSlot" where
  "producer_slot w = w_slots w (slot_index (producer_sequence w))"

definition set_producer_slot :: "WriterSlot \<Rightarrow> WriterImpl \<Rightarrow> WriterImpl" where
  "set_producer_slot slot w = w\<lparr>w_slots := (w_slots w)(slot_index (producer_sequence w) := slot)\<rparr>"

definition acquire_returns :: "CsvWriterAcquireError \<Rightarrow> WriterImpl \<Rightarrow> WriterImpl" where
  "acquire_returns error w = w\<lparr>acquire_result := error, producer_at := Prod_idle\<rparr>"

definition publish_returns :: "CsvWriterPublishError \<Rightarrow> WriterImpl \<Rightarrow> WriterImpl" where
  "publish_returns error w = w\<lparr>publish_result := error, producer_at := Prod_idle\<rparr>"

text \<open>\<open>try_acquire\<close>: only the producer writes \<open>slot_acquired\<close> and \<open>close_requested\<close>.\<close>

definition try_acquire :: "WriterImpl \<Rightarrow> WriterImpl" where
  "try_acquire w =
     (if slot_acquired w then acquire_returns WAE_already_acquired w
      else if close_requested w then acquire_returns WAE_closed w
      else w\<lparr>producer_at := Acquire_failed_load\<rparr>)"

definition try_acquire_failed :: "WriterImpl \<Rightarrow> WriterImpl" where
  "try_acquire_failed w =
     (if writer_failed w then acquire_returns WAE_failed w else w\<lparr>producer_at := Acquire_released_load\<rparr>)"

definition try_acquire_released :: "WriterImpl \<Rightarrow> WriterImpl" where
  "try_acquire_released w =
     (if producer_sequence w - released_sequence w \<ge> of_nat kCsvWriterSlotCount
      then acquire_returns WAE_slot_capacity w
      else acquire_returns WAE_none
        ((set_producer_slot (reset_slot (producer_slot w) (batch_clear (slot_batch (producer_slot w)))) w)
           \<lparr>slot_acquired := True\<rparr>))"

text \<open>The owner of the acquired slot writes its batch.\<close>

definition fill_slot :: "EventRowBatch \<Rightarrow> WriterImpl \<Rightarrow> WriterImpl" where
  "fill_slot batch w = set_producer_slot ((producer_slot w)\<lparr>slot_batch := batch\<rparr>) w"

definition release_acquired :: "Allocator \<Rightarrow> Allocator \<Rightarrow> WriterImpl \<Rightarrow> WriterImpl" where
  "release_acquired al_audit al_book w =
     (set_producer_slot (reset_slot (producer_slot w)
        (snd (batch_release_excess_capacity al_audit al_book (slot_batch (producer_slot w))))) w)
       \<lparr>slot_acquired := False\<rparr>"

definition writer_cancel :: "Allocator \<Rightarrow> Allocator \<Rightarrow> WriterImpl \<Rightarrow> WriterImpl" where
  "writer_cancel al_audit al_book w =
     (if \<not> slot_acquired w then w else release_acquired al_audit al_book w)"

definition writer_close :: "Allocator \<Rightarrow> Allocator \<Rightarrow> WriterImpl \<Rightarrow> WriterImpl" where
  "writer_close al_audit al_book w = (writer_cancel al_audit al_book w)\<lparr>close_requested := True\<rparr>"

definition publish :: "nat \<Rightarrow> WriterImpl \<Rightarrow> WriterImpl" where
  "publish target_index w =
     (if \<not> slot_acquired w then publish_returns WPE_no_acquired_slot w
      else w\<lparr>publish_active := True,
             producer_at := (if close_requested w then Publish_reject WPE_closed else Publish_failed_load target_index)\<rparr>)"

definition publish_reject :: "Allocator \<Rightarrow> Allocator \<Rightarrow> CsvWriterPublishError \<Rightarrow> WriterImpl \<Rightarrow> WriterImpl" where
  "publish_reject al_audit al_book error w =
     publish_returns error ((release_acquired al_audit al_book w)\<lparr>publish_active := False\<rparr>)"

definition publish_failed :: "nat \<Rightarrow> WriterImpl \<Rightarrow> WriterImpl" where
  "publish_failed target_index w =
     w\<lparr>producer_at :=
         (if writer_failed w then Publish_reject WPE_failed
          else if target_index \<ge> out_target_count (w_output w) then Publish_reject WPE_invalid_target
          else if \<not> valid_batch (slot_batch (producer_slot w)) (out_mode (w_output w)) then Publish_reject WPE_invalid_batch
          else Publish_bytes_load target_index)\<rparr>"

definition batch_bytes :: "EventRowBatch \<Rightarrow> u64" where
  "batch_bytes batch = of_nat (length (crb_view (audit_row batch))) + of_nat (length (crb_view (order_book_row_buffer batch)))"

definition excess_capacity :: "CsvRecordBuffer \<Rightarrow> nat" where
  "excess_capacity b =
     (if str_capacity (crb_storage b) > crb_initial_capacity b
      then str_capacity (crb_storage b) - crb_initial_capacity b else 0)"

definition count_publication :: "EventRowBatch \<Rightarrow> u64 \<Rightarrow> u64 \<Rightarrow> CsvWriterMetrics \<Rightarrow> CsvWriterMetrics" where
  "count_publication batch logical_bytes next_overflow_bytes m =
     (let m = m\<lparr>wm_batches_published := wm_batches_published m + 1,
           wm_logical_bytes_published := wm_logical_bytes_published m + logical_bytes,
           wm_audit_rows_published := wm_audit_rows_published m + (if has_audit_row batch then 1 else 0),
           wm_order_book_rows_published := wm_order_book_rows_published m + (if has_order_book_row batch then 1 else 0)\<rparr>
      in if excess_capacity (audit_row batch) \<noteq> 0 \<or> excess_capacity (order_book_row_buffer batch) \<noteq> 0
         then m\<lparr>wm_overflow_batches_published := wm_overflow_batches_published m + 1,
                wm_overflow_capacity_bytes := next_overflow_bytes\<rparr>
         else m)"

text \<open>The load of \<open>bytes_released\<close>, the capacity and overflow checks, and the producer's own bookkeeping.\<close>

definition publish_commit :: "nat \<Rightarrow> WriterImpl \<Rightarrow> writer_event \<times> WriterImpl" where
  "publish_commit target_index w =
     (let batch = slot_batch (producer_slot w);
          logical_bytes = batch_bytes batch;
          occupied_bytes = producer_bytes w - bytes_released w;
          overflow_increment = of_nat (excess_capacity (audit_row batch)) + of_nat (excess_capacity (order_book_row_buffer batch));
          reject = (\<lambda>error. (Ev_none, w\<lparr>producer_at := Publish_reject error\<rparr>))
      in if logical_bytes > kCsvWriterByteCapacity \<or> occupied_bytes > kCsvWriterByteCapacity - logical_bytes
         then reject WPE_byte_capacity
         else case checked_add_u64 (producer_sequence w) 1 of None \<Rightarrow> reject WPE_counter_overflow | Some next_sequence \<Rightarrow>
         case checked_add_u64 (producer_bytes w) logical_bytes of None \<Rightarrow> reject WPE_counter_overflow | Some next_bytes \<Rightarrow>
         case checked_add_u64 (wm_overflow_capacity_bytes (w_metrics w)) overflow_increment of
           None \<Rightarrow> reject WPE_counter_overflow | Some next_overflow_bytes \<Rightarrow>
         case checked_add_u64 (producer_overflow_bytes w) overflow_increment of
           None \<Rightarrow> reject WPE_counter_overflow | Some next_active_overflow_bytes \<Rightarrow>
           (Ev_commit target_index batch,
            (set_producer_slot \<lparr>slot_batch = batch, slot_target_index = target_index, slot_logical_bytes = logical_bytes,
               slot_overflow_capacity_bytes = overflow_increment\<rparr> w)
              \<lparr>producer_sequence := next_sequence, producer_bytes := next_bytes,
               producer_overflow_bytes := next_active_overflow_bytes, slot_acquired := False,
               w_metrics := count_publication batch logical_bytes next_overflow_bytes (w_metrics w),
               producer_at := Publish_occupancy_slots\<rparr>))"

definition publish_high_water :: "u64 \<Rightarrow> u64 \<Rightarrow> WriterImpl \<Rightarrow> WriterImpl" where
  "publish_high_water released released_bytes w =
     (let current = occupancy_of w released released_bytes (overflow_bytes_released w); m = w_metrics w
      in w\<lparr>w_metrics := m\<lparr>wm_slot_high_water := max (wm_slot_high_water m) (occ_slots current),
                 wm_byte_high_water := max (wm_byte_high_water m) (occ_logical_bytes current),
                 wm_overflow_capacity_high_water :=
                   max (wm_overflow_capacity_high_water m) (occ_overflow_capacity_bytes current)\<rparr>,
           producer_at := Publish_bytes_store\<rparr>)"

definition arm_resume_notification :: "WriterImpl \<Rightarrow> WriterImpl" where
  "arm_resume_notification w =
     (if \<not> has_resume w \<or> close_requested w then w else w\<lparr>producer_at := Arm_failed_load\<rparr>)"

definition arm_exchange :: "WriterImpl \<Rightarrow> writer_event \<times> WriterImpl" where
  "arm_exchange w =
     (if resume_notification_armed w then Ev_resume else Ev_none,
      w\<lparr>resume_notification_armed := False, producer_at := Prod_idle\<rparr>)"

text \<open>One step of an operation that has begun.\<close>

fun producer_step :: "Allocator \<Rightarrow> Allocator \<Rightarrow> producer_pc \<Rightarrow> WriterImpl \<Rightarrow> writer_event \<times> WriterImpl" where
  "producer_step al_audit al_book Prod_idle w = (Ev_none, w)"
| "producer_step al_audit al_book Acquire_failed_load w = (Ev_none, try_acquire_failed w)"
| "producer_step al_audit al_book Acquire_released_load w = (Ev_none, try_acquire_released w)"
| "producer_step al_audit al_book (Publish_failed_load target_index) w = (Ev_none, publish_failed target_index w)"
| "producer_step al_audit al_book (Publish_bytes_load target_index) w = publish_commit target_index w"
| "producer_step al_audit al_book (Publish_reject error) w = (Ev_none, publish_reject al_audit al_book error w)"
| "producer_step al_audit al_book Publish_occupancy_slots w =
     (Ev_none, w\<lparr>producer_at := Publish_occupancy_bytes (released_sequence w)\<rparr>)"
| "producer_step al_audit al_book (Publish_occupancy_bytes released) w =
     (Ev_none, w\<lparr>producer_at := Publish_occupancy_overflow released (bytes_released w)\<rparr>)"
| "producer_step al_audit al_book (Publish_occupancy_overflow released released_bytes) w =
     (Ev_none, publish_high_water released released_bytes w)"
| "producer_step al_audit al_book Publish_bytes_store w =
     (Ev_none, w\<lparr>bytes_published := producer_bytes w, producer_at := Publish_sequence_store\<rparr>)"
| "producer_step al_audit al_book Publish_sequence_store w =
     (Ev_none, w\<lparr>published_sequence := producer_sequence w, producer_at := Publish_active_clear\<rparr>)"
| "producer_step al_audit al_book Publish_active_clear w =
     (Ev_none, publish_returns WPE_none (w\<lparr>publish_active := False\<rparr>))"
| "producer_step al_audit al_book Arm_failed_load w =
     (Ev_none, w\<lparr>producer_at := (if writer_failed w then Prod_idle else Arm_store)\<rparr>)"
| "producer_step al_audit al_book Arm_store w =
     (Ev_none, w\<lparr>resume_notification_armed := True, producer_at := Arm_occupancy_slots\<rparr>)"
| "producer_step al_audit al_book Arm_occupancy_slots w =
     (Ev_none, w\<lparr>producer_at := Arm_occupancy_bytes (released_sequence w)\<rparr>)"
| "producer_step al_audit al_book (Arm_occupancy_bytes released) w =
     (Ev_none, w\<lparr>producer_at := Arm_occupancy_overflow released (bytes_released w)\<rparr>)"
| "producer_step al_audit al_book (Arm_occupancy_overflow released released_bytes) w =
     (Ev_none, w\<lparr>producer_at :=
        (if occupancy_resumes (occupancy_of w released released_bytes (overflow_bytes_released w))
         then Arm_exchange else Prod_idle)\<rparr>)"
| "producer_step al_audit al_book Arm_exchange w = arm_exchange w"

datatype producer_call = Do_acquire | Do_fill EventRowBatch | Do_publish nat | Do_cancel | Do_close | Do_arm

text \<open>The rows of a record buffer never exceed the limit its formatter enforces.\<close>

definition record_sized :: "EventRowBatch \<Rightarrow> bool" where
  "record_sized batch \<longleftrightarrow> length (crb_view (audit_row batch)) \<le> kMaxCsvRecordBytes \<and>
     length (crb_view (order_book_row_buffer batch)) \<le> kMaxCsvRecordBytes"

fun call_allowed :: "producer_call \<Rightarrow> WriterImpl \<Rightarrow> bool" where
  "call_allowed (Do_fill batch) w \<longleftrightarrow> slot_acquired w \<and> record_sized batch"
| "call_allowed _ w \<longleftrightarrow> True"

fun start_call :: "Allocator \<Rightarrow> Allocator \<Rightarrow> producer_call \<Rightarrow> WriterImpl \<Rightarrow> WriterImpl" where
  "start_call al_audit al_book Do_acquire w = try_acquire w"
| "start_call al_audit al_book (Do_fill batch) w = fill_slot batch w"
| "start_call al_audit al_book (Do_publish target_index) w = publish target_index w"
| "start_call al_audit al_book Do_cancel w = writer_cancel al_audit al_book w"
| "start_call al_audit al_book Do_close w = writer_close al_audit al_book w"
| "start_call al_audit al_book Do_arm w = arm_resume_notification w"

section \<open>The consumer\<close>

definition consumer_below_resume_watermark :: "WriterImpl \<Rightarrow> u64 \<Rightarrow> u64 \<Rightarrow> bool" where
  "consumer_below_resume_watermark w published published_bytes \<longleftrightarrow>
     published - consumer_sequence w < of_nat kResumeSlots \<and> published_bytes - consumer_bytes w < kResumeBytes"

text \<open>\<open>release_slot\<close> up to its first store.\<close>

definition release_slot :: "Allocator \<Rightarrow> Allocator \<Rightarrow> release_return \<Rightarrow> WriterImpl \<Rightarrow> WriterImpl" where
  "release_slot al_audit al_book ret w =
     (let i = slot_index (consumer_sequence w); slot = w_slots w i; m = w_metrics w in
      case batch_release_excess_capacity al_audit al_book (slot_batch slot) of (released, batch) \<Rightarrow>
        w\<lparr>consumer_bytes := consumer_bytes w + slot_logical_bytes slot,
          consumer_overflow_bytes := consumer_overflow_bytes w + slot_overflow_capacity_bytes slot,
          w_metrics := (if released then m else m\<lparr>wm_overflow_release_failures := wm_overflow_release_failures m + 1\<rparr>),
          w_slots := (w_slots w)(i := reset_slot slot batch),
          consumer_sequence := consumer_sequence w + 1,
          bytes_released := consumer_bytes w + slot_logical_bytes slot,
          consumer_at := Release_overflow_store ret\<rparr>)"

fun after_release :: "release_return \<Rightarrow> consumer_pc" where
  "after_release (After_write published error) =
     (if is_write_error error then Latch_failed_store error (Latch_in_write published) else Run_drain published)"
| "after_release (After_discard published) = Discard_drain published"

fun after_latch :: "latch_return \<Rightarrow> consumer_pc" where
  "after_latch (Latch_in_write published) = Run_drain published"
| "after_latch Latch_in_flush = Discard_load"
| "after_latch Latch_in_close = Run_collect"

definition run_drain :: "Allocator \<Rightarrow> Allocator \<Rightarrow> u64 \<Rightarrow> WriterImpl \<Rightarrow> writer_event \<times> WriterImpl" where
  "run_drain al_audit al_book published w =
     (if consumer_sequence w < published \<and> \<not> writer_failed w then
        let slot = w_slots w (slot_index (consumer_sequence w)) in
        case write_batch (w_output w) (slot_target_index slot) (slot_batch slot) of (error, output) \<Rightarrow>
          (Ev_output (Out_write (slot_target_index slot) (slot_batch slot)),
           release_slot al_audit al_book (After_write published error) (w\<lparr>w_output := output\<rparr>))
      else (Ev_none, w\<lparr>consumer_at := (if writer_failed w then Discard_load else Run_age)\<rparr>))"

definition latch_failed :: "OutputSetWriteError \<Rightarrow> latch_return \<Rightarrow> WriterImpl \<Rightarrow> WriterImpl" where
  "latch_failed error ret w =
     w\<lparr>final_result := (if is_write_error (wr_output_error (final_result w)) then final_result w
          else (final_result w)\<lparr>wr_output_error := error\<rparr>),
       writer_failed := True, consumer_at := Latch_notify ret\<rparr>"

definition latch_notify :: "latch_return \<Rightarrow> WriterImpl \<Rightarrow> writer_event \<times> WriterImpl" where
  "latch_notify ret w =
     (if has_failure w \<and> \<not> failure_notification_sent w then Ev_failure else Ev_none,
      w\<lparr>failure_notification_sent := (has_failure w \<or> failure_notification_sent w), consumer_at := Latch_wait ret\<rparr>)"

text \<open>\<open>due\<close> says that the clock has reached the next flush.\<close>

definition run_age :: "bool \<Rightarrow> WriterImpl \<Rightarrow> writer_event \<times> WriterImpl" where
  "run_age due w =
     (let before = out_metrics (w_output w) in
      if due \<and> (osm_audit_rows_buffered before \<noteq> 0 \<or> osm_order_book_rows_buffered before \<noteq> 0) then
        case flush_all (w_output w) of (error, output) \<Rightarrow>
          (Ev_output Out_flush,
           if is_write_error error
           then w\<lparr>w_output := output, consumer_at := Latch_failed_store error Latch_in_flush\<rparr>
           else w\<lparr>w_output := output,
                  w_metrics := (w_metrics w)\<lparr>wm_age_flushes := wm_age_flushes (w_metrics w) + 1\<rparr>,
                  consumer_at := Run_close_load\<rparr>)
      else (Ev_none, w\<lparr>consumer_at := Run_close_load\<rparr>))"

definition run_close :: "WriterImpl \<Rightarrow> writer_event \<times> WriterImpl" where
  "run_close w =
     (case close_all (w_output w) of (error, output) \<Rightarrow>
        (Ev_output Out_close,
         w\<lparr>w_output := output,
           consumer_at := (if is_write_error error then Latch_failed_store error Latch_in_close else Run_collect)\<rparr>))"

definition run_collect :: "WriterImpl \<Rightarrow> WriterImpl" where
  "run_collect w =
     (let output_metrics = out_metrics (w_output w);
          m = w_metrics w;
          audit_written = osm_audit_rows_written output_metrics;
          book_written = osm_order_book_rows_written output_metrics;
          m = m\<lparr>wm_audit_rows_written := audit_written, wm_order_book_rows_written := book_written,
                wm_audit_rows_unwritten :=
                  (if wm_audit_rows_published m \<ge> audit_written then wm_audit_rows_published m - audit_written else 0),
                wm_order_book_rows_unwritten :=
                  (if wm_order_book_rows_published m \<ge> book_written
                   then wm_order_book_rows_published m - book_written else 0)\<rparr>
      in w\<lparr>w_metrics := m, final_result := (final_result w)\<lparr>wr_metrics := m\<rparr>, consumer_at := Run_finished\<rparr>)"

text \<open>One step of \<open>run\<close>; a sleeping consumer is woken by a notification, a time-out or spuriously.\<close>

fun consumer_step :: "Allocator \<Rightarrow> Allocator \<Rightarrow> bool \<Rightarrow> consumer_pc \<Rightarrow> WriterImpl \<Rightarrow> writer_event \<times> WriterImpl" where
  "consumer_step al_audit al_book due Run_load w = (Ev_none, w\<lparr>consumer_at := Run_drain (published_sequence w)\<rparr>)"
| "consumer_step al_audit al_book due (Run_drain published) w = run_drain al_audit al_book published w"
| "consumer_step al_audit al_book due (Release_overflow_store ret) w =
     (Ev_none, w\<lparr>overflow_bytes_released := consumer_overflow_bytes w, consumer_at := Release_sequence_store ret\<rparr>)"
| "consumer_step al_audit al_book due (Release_sequence_store ret) w =
     (Ev_none, w\<lparr>released_sequence := consumer_sequence w,
        consumer_at := (if has_resume w then Resume_sequence_load ret else after_release ret)\<rparr>)"
| "consumer_step al_audit al_book due (Resume_sequence_load ret) w =
     (Ev_none, w\<lparr>consumer_at := Resume_bytes_load ret (published_sequence w)\<rparr>)"
| "consumer_step al_audit al_book due (Resume_bytes_load ret published) w =
     (Ev_none, w\<lparr>consumer_at :=
        (if consumer_below_resume_watermark w published (bytes_published w)
         then Resume_exchange ret else after_release ret)\<rparr>)"
| "consumer_step al_audit al_book due (Resume_exchange ret) w =
     (if resume_notification_armed w then Ev_resume else Ev_none,
      w\<lparr>resume_notification_armed := False, consumer_at := after_release ret\<rparr>)"
| "consumer_step al_audit al_book due (Latch_failed_store error ret) w = (Ev_none, latch_failed error ret w)"
| "consumer_step al_audit al_book due (Latch_notify ret) w = latch_notify ret w"
| "consumer_step al_audit al_book due (Latch_wait ret) w =
     (Ev_none, if publish_active w then w else w\<lparr>consumer_at := after_latch ret\<rparr>)"
| "consumer_step al_audit al_book due Discard_load w =
     (Ev_none, w\<lparr>consumer_at := Discard_drain (published_sequence w)\<rparr>)"
| "consumer_step al_audit al_book due (Discard_drain published) w =
     (Ev_none, if consumer_sequence w < published then release_slot al_audit al_book (After_discard published) w
               else w\<lparr>consumer_at := Run_close_all\<rparr>)"
| "consumer_step al_audit al_book due Run_age w = run_age due w"
| "consumer_step al_audit al_book due Run_close_load w =
     (Ev_none, w\<lparr>consumer_at := (if close_requested w then Run_close_sequence_load else Run_sleep_store)\<rparr>)"
| "consumer_step al_audit al_book due Run_close_sequence_load w =
     (Ev_none, w\<lparr>consumer_at := (if consumer_sequence w = published_sequence w then Run_close_all else Run_sleep_store)\<rparr>)"
| "consumer_step al_audit al_book due Run_sleep_store w =
     (Ev_none, w\<lparr>writer_sleeping := True, consumer_at := Run_asleep\<rparr>)"
| "consumer_step al_audit al_book due Run_asleep w =
     (Ev_none, w\<lparr>writer_sleeping := False, consumer_at := Run_load\<rparr>)"
| "consumer_step al_audit al_book due Run_close_all w = run_close w"
| "consumer_step al_audit al_book due Run_collect w = (Ev_none, run_collect w)"
| "consumer_step al_audit al_book due Run_finished w = (Ev_none, w)"

section \<open>Starting and running\<close>

definition new_writer :: "CsvOutputSet \<Rightarrow> bool \<Rightarrow> bool \<Rightarrow> (nat \<Rightarrow> EventRowBatch) \<Rightarrow> WriterImpl" where
  "new_writer output resume failure initial = \<lparr>w_output = output,
     w_slots = (\<lambda>i. \<lparr>slot_batch = initial i, slot_target_index = kNoSymbolIndex, slot_logical_bytes = 0,
       slot_overflow_capacity_bytes = 0\<rparr>),
     published_sequence = 0, released_sequence = 0, bytes_published = 0, bytes_released = 0, overflow_bytes_released = 0,
     close_requested = False, writer_failed = False, publish_active = False, writer_sleeping = False,
     resume_notification_armed = False, failure_notification_sent = False, has_resume = resume, has_failure = failure,
     producer_sequence = 0, producer_bytes = 0, producer_overflow_bytes = 0, slot_acquired = False,
     consumer_sequence = 0, consumer_bytes = 0, consumer_overflow_bytes = 0, w_metrics = no_writer_metrics,
     final_result = \<lparr>wr_output_error = no_write_error, wr_metrics = no_writer_metrics\<rparr>,
     producer_at = Prod_idle, consumer_at = Run_load, acquire_result = WAE_none, publish_result = WPE_none\<rparr>"

text \<open>\<open>allocated\<close> and \<open>started\<close>: whether memory and the thread could be had; last, the set that is given
  up when no writer is returned.\<close>

definition writer_start ::
    "CsvOutputSet option \<Rightarrow> bool \<Rightarrow> bool \<Rightarrow> bool \<Rightarrow> bool \<Rightarrow> (nat \<Rightarrow> EventRowBatch) \<Rightarrow>
     CsvWriterCreateError \<times> WriterImpl option \<times> CsvOutputSet option" where
  "writer_start output allocated started resume failure initial =
     (case output of
        None \<Rightarrow> (WCE_invalid_output, None, None)
      | Some out \<Rightarrow>
          if out_closed out \<or> out_failed out \<or> out_target_count out = 0 then (WCE_invalid_output, None, Some out)
          else if \<not> allocated then (WCE_allocation_failure, None, Some out)
          else if \<not> started then (WCE_thread_start_failure, None, Some (snd (close_all out)))
          else (WCE_none, Some (new_writer out resume failure initial), None))"

inductive writer_step :: "WriterImpl \<Rightarrow> writer_event \<Rightarrow> WriterImpl \<Rightarrow> bool" where
  call: "producer_at w = Prod_idle \<Longrightarrow> call_allowed c w \<Longrightarrow> writer_step w Ev_none (start_call al_audit al_book c w)"
| producer: "producer_step al_audit al_book (producer_at w) w = (ev, w') \<Longrightarrow> writer_step w ev w'"
| consumer: "consumer_step al_audit al_book due (consumer_at w) w = (ev, w') \<Longrightarrow> writer_step w ev w'"

inductive writer_run :: "WriterImpl \<Rightarrow> writer_event list \<Rightarrow> WriterImpl \<Rightarrow> bool" where
  start: "writer_run w [] w"
| step: "writer_run w evs w' \<Longrightarrow> writer_step w' ev w'' \<Longrightarrow> writer_run w (evs @ [ev]) w''"

definition writer_join :: "WriterImpl \<Rightarrow> CsvWriterResult option" where
  "writer_join w = (if consumer_at w = Run_finished then Some (final_result w) else None)"

end
