(* ===== verification/Live_Capture.thy ===== *)
theory Live_Capture
  imports Live_Pipeline_Guarantees Csv_Writer
begin

text \<open>
  The capture controller (\<^verbatim>\<open>src/live_capture_controller.cpp\<close>): the callbacks of the current WebSocket
  session, of three timers and of the writer thread drive connection epochs, reconnects with
  exponential backoff, back-pressure and the orderly end of a run.  All handlers run on the I/O thread,
  one at a time; each is a function of the controller's state and of the answers the components it
  calls give during the handler (the session, the timers, the writer, simdjson).  Calls with an effect
  outside the controller are recorded in order in \<open>cc_trace\<close>.  The store of \<open>stop_requested\<close> by another
  thread may fall between two loads of one handler: \<open>an_stop_late\<close>.
\<close>

section \<open>The session's interface\<close>

datatype WebSocketSessionStage =
    WSS_none | WSS_configuration | WSS_resolve | WSS_connect | WSS_sni | WSS_tls_handshake
  | WSS_websocket_handshake | WSS_open | WSS_read | WSS_websocket_close

datatype WebSocketSessionErrorCode =
    WSE_none | WSE_invalid_configuration | WSE_allocation_failure | WSE_trust_store_failure
  | WSE_tls_policy_failure | WSE_resolve_failure | WSE_connect_failure | WSE_sni_failure
  | WSE_tls_verification_failure | WSE_tls_handshake_failure | WSE_websocket_handshake_failure
  | WSE_read_failure | WSE_incomplete_message | WSE_binary_message | WSE_message_too_big
  | WSE_remote_close | WSE_sequence_overflow | WSE_timestamp_failure | WSE_close_failure
  | WSE_callback_failure | WSE_timeout | WSE_cancelled

record WebSocketSessionResult =
  wsr_code :: WebSocketSessionErrorCode
  wsr_stage :: WebSocketSessionStage
  wsr_native_error :: int
  wsr_last_connection_sequence :: u64

definition wsr_success :: "WebSocketSessionResult \<Rightarrow> bool" where
  "wsr_success r \<longleftrightarrow> wsr_code r = WSE_none"

definition default_session_result :: WebSocketSessionResult where
  "default_session_result = \<lparr>wsr_code = WSE_none, wsr_stage = WSS_none, wsr_native_error = 0,
     wsr_last_connection_sequence = 0\<rparr>"

datatype WebSocketControlKind = Control_ping | Control_pong | Control_close

section \<open>Results and metrics\<close>

datatype LiveCaptureCreateErrorCode =
    LCC_none | LCC_invalid_subscription | LCC_invalid_output | LCC_pipeline_initialization_failure
  | LCC_writer_initialization_failure | LCC_session_initialization_failure
  | LCC_invalid_reconnect_policy | LCC_allocation_failure

record LiveCaptureCreateError =
  lce_code :: LiveCaptureCreateErrorCode
  lce_pipeline_error :: LivePipelineCreateError
  lce_writer_error :: CsvWriterCreateError
  lce_session_error :: WebSocketSessionResult

definition create_error :: "LiveCaptureCreateErrorCode \<Rightarrow> LiveCaptureCreateError" where
  "create_error code = \<lparr>lce_code = code, lce_pipeline_error = LPC_none, lce_writer_error = WCE_none,
     lce_session_error = default_session_result\<rparr>"

datatype LiveCaptureErrorCode =
    LCE_none | LCE_session_failure | LCE_pipeline_failure | LCE_writer_acquire_failure
  | LCE_writer_publish_failure | LCE_writer_failure | LCE_backpressure_timeout
  | LCE_resume_notification_failure | LCE_message_policy_breaker | LCE_connection_epoch_overflow
  | LCE_reconnect_scheduling_failure

text \<open>Durations are counts of milliseconds; the selector of the tests may be null.\<close>

record LiveReconnectOptions =
  initial_backoff :: int
  maximum_backoff :: int
  stable_connection_reset :: int
  select_inclusive :: "(u64 \<Rightarrow> u64 \<Rightarrow> u64) option"

definition default_reconnect_options :: LiveReconnectOptions where
  "default_reconnect_options = \<lparr>initial_backoff = 250, maximum_backoff = 30000, stable_connection_reset = 30000,
     select_inclusive = None\<rparr>"

record LiveCaptureMetrics =
  lcm_text_messages :: u64
  lcm_complete_messages :: u64
  lcm_batches_published :: u64
  lcm_audit_eligible_events :: u64
  lcm_processed_events :: u64
  lcm_pre_audit_rejections :: u64
  lcm_unknown_stream_rejections :: u64
  lcm_invalid_data_rejections :: u64
  lcm_malformed_envelope_rejections :: u64
  lcm_schema_rejections :: u64
  lcm_applied_refreshes :: u64
  lcm_applied_diffs :: u64
  lcm_stale_refreshes :: u64
  lcm_stale_diffs :: u64
  lcm_ignored_while_invalid :: u64
  lcm_sequence_gaps :: u64
  lcm_crossed_books :: u64
  lcm_trades_audited :: u64
  lcm_connection_invalidations :: u64
  lcm_connection_attempts :: u64
  lcm_successful_connections :: u64
  lcm_reconnects_scheduled :: u64
  lcm_recoverable_session_failures :: u64
  lcm_binary_messages :: u64
  lcm_oversized_messages :: u64
  lcm_message_policy_breaker_trips :: u64
  lcm_backoff_resets :: u64
  lcm_stale_session_callbacks :: u64
  lcm_last_reconnect_delay_ms :: u64
  lcm_producer_pauses :: u64
  lcm_producer_resumes :: u64
  lcm_ping_frames :: u64
  lcm_pong_frames :: u64
  lcm_close_frames :: u64

definition no_capture_metrics :: LiveCaptureMetrics where
  "no_capture_metrics = \<lparr>lcm_text_messages = 0, lcm_complete_messages = 0, lcm_batches_published = 0,
     lcm_audit_eligible_events = 0, lcm_processed_events = 0, lcm_pre_audit_rejections = 0,
     lcm_unknown_stream_rejections = 0, lcm_invalid_data_rejections = 0,
     lcm_malformed_envelope_rejections = 0, lcm_schema_rejections = 0, lcm_applied_refreshes = 0,
     lcm_applied_diffs = 0, lcm_stale_refreshes = 0, lcm_stale_diffs = 0, lcm_ignored_while_invalid = 0,
     lcm_sequence_gaps = 0, lcm_crossed_books = 0, lcm_trades_audited = 0,
     lcm_connection_invalidations = 0, lcm_connection_attempts = 0, lcm_successful_connections = 0,
     lcm_reconnects_scheduled = 0, lcm_recoverable_session_failures = 0, lcm_binary_messages = 0,
     lcm_oversized_messages = 0, lcm_message_policy_breaker_trips = 0, lcm_backoff_resets = 0,
     lcm_stale_session_callbacks = 0, lcm_last_reconnect_delay_ms = 0, lcm_producer_pauses = 0,
     lcm_producer_resumes = 0, lcm_ping_frames = 0, lcm_pong_frames = 0, lcm_close_frames = 0\<rparr>"

record LiveCaptureResult =
  lcr_error :: LiveCaptureErrorCode
  lcr_session :: WebSocketSessionResult
  lcr_pipeline :: LivePipelineResult
  lcr_writer_acquire_error :: CsvWriterAcquireError
  lcr_writer_publish_error :: CsvWriterPublishError
  lcr_writer :: CsvWriterResult
  lcr_metrics :: LiveCaptureMetrics
  lcr_stop_requested :: bool

definition default_capture_result :: LiveCaptureResult where
  "default_capture_result = \<lparr>lcr_error = LCE_none, lcr_session = default_session_result,
     lcr_pipeline = default_pipeline_result, lcr_writer_acquire_error = WAE_none,
     lcr_writer_publish_error = WPE_none,
     lcr_writer = \<lparr>wr_output_error = no_write_error, wr_metrics = no_writer_metrics\<rparr>,
     lcr_metrics = no_capture_metrics, lcr_stop_requested = False\<rparr>"

definition lcr_success :: "LiveCaptureResult \<Rightarrow> bool" where
  "lcr_success r \<longleftrightarrow> lcr_error r = LCE_none \<and> lcr_stop_requested r \<and> writer_success (lcr_writer r)"

definition reported_session_failure :: "LiveCaptureResult \<Rightarrow> WebSocketSessionErrorCode" where
  "reported_session_failure r =
     (if lcr_error r = LCE_session_failure \<or> lcr_error r = LCE_message_policy_breaker
      then wsr_code (lcr_session r) else WSE_none)"

definition kMessagePolicyBreakerLimit :: u64 where "kMessagePolicyBreakerLimit = 3"

type_synonym metrics_field = "(u64 \<Rightarrow> u64) \<Rightarrow> LiveCaptureMetrics \<Rightarrow> LiveCaptureMetrics"

text \<open>\<open>++metrics.field\<close>.\<close>

definition increment :: "metrics_field \<Rightarrow> LiveCaptureMetrics \<Rightarrow> LiveCaptureMetrics" where
  "increment field metrics = field (\<lambda>n. n + 1) metrics"

fun record_event_status :: "EventProcessStatus \<Rightarrow> LiveCaptureMetrics \<Rightarrow> LiveCaptureMetrics" where
  "record_event_status EPS_applied_refresh = increment lcm_applied_refreshes_update"
| "record_event_status EPS_applied_diff = increment lcm_applied_diffs_update"
| "record_event_status EPS_stale_refresh = increment lcm_stale_refreshes_update"
| "record_event_status EPS_stale_diff = increment lcm_stale_diffs_update"
| "record_event_status EPS_ignored_while_invalid = increment lcm_ignored_while_invalid_update"
| "record_event_status EPS_sequence_gap = increment lcm_sequence_gaps_update"
| "record_event_status EPS_crossed_book = increment lcm_crossed_books_update"
| "record_event_status EPS_trade_audited = increment lcm_trades_audited_update"
| "record_event_status EPS_schema_rejected = increment lcm_schema_rejections_update"
| "record_event_status EPS_not_processed = id"
| "record_event_status EPS_pre_audit_rejected = id"

fun record_envelope_rejection :: "LiveEnvelopeErrorCode \<Rightarrow> LiveCaptureMetrics \<Rightarrow> LiveCaptureMetrics" where
  "record_envelope_rejection LEC_unknown_stream = increment lcm_unknown_stream_rejections_update"
| "record_envelope_rejection LEC_missing_data = increment lcm_invalid_data_rejections_update"
| "record_envelope_rejection LEC_duplicate_data = increment lcm_invalid_data_rejections_update"
| "record_envelope_rejection LEC_data_not_object = increment lcm_invalid_data_rejections_update"
| "record_envelope_rejection LEC_payload_minify_failed = increment lcm_invalid_data_rejections_update"
| "record_envelope_rejection LEC_none = id"
| "record_envelope_rejection LEC_invalid_input_buffer = increment lcm_malformed_envelope_rejections_update"
| "record_envelope_rejection LEC_message_too_large = increment lcm_malformed_envelope_rejections_update"
| "record_envelope_rejection LEC_json_nesting_too_deep = increment lcm_malformed_envelope_rejections_update"
| "record_envelope_rejection LEC_malformed_json = increment lcm_malformed_envelope_rejections_update"
| "record_envelope_rejection LEC_root_not_object = increment lcm_malformed_envelope_rejections_update"
| "record_envelope_rejection LEC_missing_stream = increment lcm_malformed_envelope_rejections_update"
| "record_envelope_rejection LEC_duplicate_stream = increment lcm_malformed_envelope_rejections_update"
| "record_envelope_rejection LEC_stream_wrong_type = increment lcm_malformed_envelope_rejections_update"
| "record_envelope_rejection LEC_stream_name_too_long = increment lcm_malformed_envelope_rejections_update"

definition valid_reconnect_options :: "LiveReconnectOptions \<Rightarrow> bool" where
  "valid_reconnect_options options \<longleftrightarrow> initial_backoff options > 0 \<and>
     maximum_backoff options \<ge> initial_backoff options \<and> stable_connection_reset options > 0"

definition recoverable_session_error :: "WebSocketSessionErrorCode \<Rightarrow> bool" where
  "recoverable_session_error code \<longleftrightarrow>
     code \<in> {WSE_resolve_failure, WSE_connect_failure, WSE_websocket_handshake_failure,
       WSE_tls_handshake_failure, WSE_read_failure, WSE_incomplete_message, WSE_binary_message,
       WSE_message_too_big, WSE_remote_close, WSE_timeout}"

section \<open>State\<close>

text \<open>
  The session object as the controller uses it: the generation and epoch it was created with and the
  calls made on it.  \<open>sh_last_sequence\<close> is the sequence of the last message it has delivered.
\<close>

record SessionHandle =
  sh_generation :: u64
  sh_epoch :: u64
  sh_started :: bool
  sh_stopped :: bool
  sh_paused :: bool
  sh_last_sequence :: u64

datatype cc_action =
    Act_create_session u64 u64
  | Act_publish nat EventRowBatch
  | Act_cancel_batch
  | Act_arm_resume
  | Act_schedule_reconnect u64
  | Act_join
  | Act_terminal LiveCaptureResult
  | Act_stop_io_context

text \<open>\<open>cc_reconnect_waits\<close> counts outstanding waits of the reconnect timer, \<open>cc_reconnect_cancelled\<close>
  whether they have been cancelled.\<close>

record ControllerImpl =
  cc_subscription :: LiveSubscription
  cc_pipeline :: PipelineImpl
  cc_session :: "SessionHandle option"
  cc_has_callback :: bool
  cc_options :: LiveReconnectOptions
  cc_result :: LiveCaptureResult
  cc_stop_requested :: bool
  cc_terminal :: bool
  cc_resume_post_failed :: bool
  cc_generation :: u64
  cc_next_connection_epoch :: u64
  cc_reconnect_attempt :: u64
  cc_consecutive_message_policy_failures :: u64
  cc_started :: bool
  cc_session_open :: bool
  cc_epoch_exhausted :: bool
  cc_reads_paused :: bool
  cc_failure_latched :: bool
  cc_terminal_started :: bool
  cc_reconnect_waits :: nat
  cc_reconnect_cancelled :: bool
  cc_trace :: "cc_action list"

text \<open>What the called components answer during one handler.\<close>

record Answers =
  an_session_terminal :: bool
  an_start_throws :: bool
  an_stop_throws :: bool
  an_pause_throws :: bool
  an_resume_throws :: bool
  an_timer_throws :: bool
  an_random :: u64
  an_create_failure :: "WebSocketSessionResult option"
  an_acquire :: "CsvWriterAcquireError + EventRowBatch"
  an_publish :: CsvWriterPublishError
  an_writer_failed :: bool
  an_should_pause :: bool
  an_below_resume :: bool
  an_join :: CsvWriterResult
  an_stop_late :: bool
  an_simdjson :: Simdjson
  an_audit_allocator :: Allocator
  an_book_allocator :: Allocator

definition act :: "cc_action \<Rightarrow> ControllerImpl \<Rightarrow> ControllerImpl" where
  "act a st = st\<lparr>cc_trace := cc_trace st @ [a]\<rparr>"

definition count_up :: "metrics_field \<Rightarrow> ControllerImpl \<Rightarrow> ControllerImpl" where
  "count_up field st = st\<lparr>cc_result := (cc_result st)\<lparr>lcr_metrics := increment field (lcr_metrics (cc_result st))\<rparr>\<rparr>"

definition set_capture_error :: "LiveCaptureErrorCode \<Rightarrow> ControllerImpl \<Rightarrow> ControllerImpl" where
  "set_capture_error e st = st\<lparr>cc_result := (cc_result st)\<lparr>lcr_error := e\<rparr>\<rparr>"

definition latch_failure :: "LiveCaptureErrorCode \<Rightarrow> ControllerImpl \<Rightarrow> ControllerImpl" where
  "latch_failure e st = set_capture_error e (st\<lparr>cc_failure_latched := True\<rparr>)"

definition cancel_reconnect :: "ControllerImpl \<Rightarrow> ControllerImpl" where
  "cancel_reconnect st = st\<lparr>cc_reconnect_cancelled := True\<rparr>"

definition update_session :: "(SessionHandle \<Rightarrow> SessionHandle) \<Rightarrow> ControllerImpl \<Rightarrow> ControllerImpl" where
  "update_session f st = st\<lparr>cc_session := map_option f (cc_session st)\<rparr>"

definition session_running :: "Answers \<Rightarrow> ControllerImpl \<Rightarrow> bool" where
  "session_running an st \<longleftrightarrow> cc_session st \<noteq> None \<and> \<not> an_session_terminal an"

section \<open>Ending a run\<close>

definition finalize_run :: "Answers \<Rightarrow> ControllerImpl \<Rightarrow> ControllerImpl" where
  "finalize_run an st =
     (if cc_terminal_started st then st
      else
        let st = cancel_reconnect (st\<lparr>cc_terminal_started := True\<rparr>);
            st = st\<lparr>cc_stop_requested := cc_stop_requested st \<or> an_stop_late an\<rparr>;
            st = act Act_join (st\<lparr>cc_result := (cc_result st)\<lparr>lcr_stop_requested := cc_stop_requested st,
                   lcr_writer := an_join an\<rparr>\<rparr>);
            st = (if \<not> writer_success (lcr_writer (cc_result st)) \<and> lcr_error (cc_result st) = LCE_none
                  then set_capture_error LCE_writer_failure st else st);
            st = st\<lparr>cc_terminal := True\<rparr>
        in (if cc_has_callback st then act (Act_terminal (cc_result st)) else id) (st\<lparr>cc_has_callback := False\<rparr>))"

definition handle_session_stop_exception :: "Answers \<Rightarrow> ControllerImpl \<Rightarrow> ControllerImpl" where
  "handle_session_stop_exception an st =
     finalize_run an (if \<not> cc_failure_latched st then latch_failure LCE_session_failure st else st)"

text \<open>\<open>session->stop()\<close>, with its exception handler.\<close>

definition stop_session :: "Answers \<Rightarrow> ControllerImpl \<Rightarrow> ControllerImpl" where
  "stop_session an st =
     (if an_stop_throws an then handle_session_stop_exception an st
      else update_session (sh_stopped_update (\<lambda>_. True)) st)"

definition controller_fail :: "Answers \<Rightarrow> LiveCaptureErrorCode \<Rightarrow> ControllerImpl \<Rightarrow> ControllerImpl" where
  "controller_fail an e st =
     (if cc_failure_latched st \<or> cc_terminal st then st
      else
        let st = cancel_reconnect (latch_failure e st) in
        if session_running an st then
          (if an_pause_throws an then handle_session_stop_exception an st
           else stop_session an (update_session (sh_paused_update (\<lambda>_. True)) st))
        else finalize_run an st)"

definition request_stop_on_io :: "Answers \<Rightarrow> ControllerImpl \<Rightarrow> ControllerImpl" where
  "request_stop_on_io an st =
     (if cc_terminal st \<or> cc_terminal_started st then st
      else
        let st = cancel_reconnect st in
        if session_running an st then stop_session an st else finalize_run an st)"

section \<open>Starting sessions\<close>

definition create_session :: "Answers \<Rightarrow> u64 \<Rightarrow> u64 \<Rightarrow> ControllerImpl \<Rightarrow> WebSocketSessionResult option \<times> ControllerImpl" where
  "create_session an generation epoch st =
     (case an_create_failure an of
        Some e \<Rightarrow> (Some e, st\<lparr>cc_session := None\<rparr>)
      | None \<Rightarrow> (None, act (Act_create_session generation epoch) (st\<lparr>cc_session := Some
          \<lparr>sh_generation = generation, sh_epoch = epoch, sh_started = False, sh_stopped = False,
           sh_paused = False, sh_last_sequence = 0\<rparr>\<rparr>)))"

text \<open>The boolean says whether the call threw.\<close>

definition start_current_session :: "Answers \<Rightarrow> ControllerImpl \<Rightarrow> bool \<times> ControllerImpl" where
  "start_current_session an st =
     (if cc_session st = None then (False, controller_fail an LCE_reconnect_scheduling_failure st)
      else
        let st = count_up lcm_connection_attempts_update st in
        if an_start_throws an then (True, st)
        else (False, update_session (sh_started_update (\<lambda>_. True)) st))"

definition controller_start :: "Answers \<Rightarrow> ControllerImpl \<Rightarrow> bool \<times> ControllerImpl" where
  "controller_start an st =
     (if cc_started st \<or> cc_terminal st then (False, st)
      else
        (case start_current_session an (st\<lparr>cc_started := True\<rparr>) of
           (True, st) \<Rightarrow> (True, st\<lparr>cc_started := False\<rparr>)
         | (False, st) \<Rightarrow> (False, st)))"

text \<open>\<open>stop()\<close> up to the posting of \<open>request_stop_on_io\<close>.\<close>

definition controller_stop :: "ControllerImpl \<Rightarrow> ControllerImpl" where
  "controller_stop st = (if cc_terminal st then st else st\<lparr>cc_stop_requested := True\<rparr>)"

section \<open>Back-pressure\<close>

definition pause_for_backpressure :: "Answers \<Rightarrow> ControllerImpl \<Rightarrow> bool \<times> ControllerImpl" where
  "pause_for_backpressure an st =
     (if cc_reads_paused st \<or> cc_failure_latched st \<or> cc_session st = None then (False, st)
      else
        let st = count_up lcm_producer_pauses_update (st\<lparr>cc_reads_paused := True\<rparr>) in
        if an_pause_throws an then (True, st)
        else
          let st = update_session (sh_paused_update (\<lambda>_. True)) st in
          if an_timer_throws an then (True, st) else (False, act Act_arm_resume st))"

text \<open>\<open>post_resume_from_writer\<close> when the post throws; it runs on the writer thread.\<close>

definition resume_post_failure :: "Answers \<Rightarrow> ControllerImpl \<Rightarrow> ControllerImpl" where
  "resume_post_failure an st =
     (let st = st\<lparr>cc_resume_post_failed := True\<rparr> in
      if cc_session st = None then st
      else if an_stop_throws an then act Act_stop_io_context st
      else update_session (sh_stopped_update (\<lambda>_. True)) st)"

definition on_writer_resume :: "Answers \<Rightarrow> ControllerImpl \<Rightarrow> ControllerImpl" where
  "on_writer_resume an st =
     (if cc_terminal st then st
      else if cc_resume_post_failed st then controller_fail an LCE_resume_notification_failure st
      else if an_writer_failed an then controller_fail an LCE_writer_failure st
      else if \<not> cc_reads_paused st then st
      else if \<not> an_below_resume an then act Act_arm_resume st
      else
        let st = count_up lcm_producer_resumes_update (st\<lparr>cc_reads_paused := False\<rparr>) in
        if cc_session st = None then st
        else if an_resume_throws an then controller_fail an LCE_resume_notification_failure st
        else update_session (sh_paused_update (\<lambda>_. False)) st)"

text \<open>Whether a timer's wait ended because it was cancelled, without error, or with another error.\<close>

datatype timer_result = Timer_expired | Timer_aborted | Timer_error

definition on_backpressure_timeout :: "Answers \<Rightarrow> timer_result \<Rightarrow> ControllerImpl \<Rightarrow> ControllerImpl" where
  "on_backpressure_timeout an e st =
     (if e = Timer_aborted \<or> cc_terminal st \<or> \<not> cc_reads_paused st then st
      else controller_fail an (if an_writer_failed an then LCE_writer_failure else LCE_backpressure_timeout) st)"

section \<open>Session callbacks\<close>

definition on_open :: "Answers \<Rightarrow> u64 \<Rightarrow> ControllerImpl \<Rightarrow> bool \<times> ControllerImpl" where
  "on_open an generation st =
     (if generation \<noteq> cc_generation st then (False, count_up lcm_stale_session_callbacks_update st)
      else
        let st = count_up lcm_successful_connections_update (st\<lparr>cc_session_open := True\<rparr>);
            st = (if cc_next_connection_epoch st = u64_max then st\<lparr>cc_epoch_exhausted := True\<rparr>
                  else st\<lparr>cc_next_connection_epoch := cc_next_connection_epoch st + 1\<rparr>)
        in if an_timer_throws an then (True, st)
           else if cc_stop_requested st then (False, request_stop_on_io an st)
           else if an_should_pause an then pause_for_backpressure an st
           else (False, st))"

definition on_stable_connection :: "u64 \<Rightarrow> timer_result \<Rightarrow> ControllerImpl \<Rightarrow> ControllerImpl" where
  "on_stable_connection generation e st =
     (if e = Timer_aborted \<or> cc_terminal st then st
      else if generation \<noteq> cc_generation st \<or> \<not> cc_session_open st
      then count_up lcm_stale_session_callbacks_update st
      else count_up lcm_backoff_resets_update (st\<lparr>cc_reconnect_attempt := 0\<rparr>))"

definition update_metrics :: "(LiveCaptureMetrics \<Rightarrow> LiveCaptureMetrics) \<Rightarrow> ControllerImpl \<Rightarrow> ControllerImpl" where
  "update_metrics f st = st\<lparr>cc_result := (cc_result st)\<lparr>lcr_metrics := f (lcr_metrics (cc_result st))\<rparr>\<rparr>"

text \<open>The steps after the pipeline has produced a batch.\<close>

definition publish_batch :: "Answers \<Rightarrow> LivePipelineResult \<Rightarrow> EventRowBatch \<Rightarrow> ControllerImpl \<Rightarrow> bool \<times> ControllerImpl" where
  "publish_batch an result batch st =
     (let st = count_up lcm_processed_events_update (count_up lcm_audit_eligible_events_update st);
          st = update_metrics (record_event_status (epr_status (lpr_event result))) st
      in if an_publish an \<noteq> WPE_none
         then (False, controller_fail an (if an_writer_failed an then LCE_writer_failure else LCE_writer_publish_failure)
                (st\<lparr>cc_result := (cc_result st)\<lparr>lcr_writer_publish_error := an_publish an\<rparr>\<rparr>))
         else
           let st = act (Act_publish (lpr_target_index result) batch) st;
               st = (count_up lcm_batches_published_update st)\<lparr>cc_consecutive_message_policy_failures := 0\<rparr>
           in if an_should_pause an then pause_for_backpressure an st else (False, st))"

definition on_text_message :: "Answers \<Rightarrow> u64 \<Rightarrow> WebSocketTextMessage \<Rightarrow> ControllerImpl \<Rightarrow> bool \<times> ControllerImpl" where
  "on_text_message an generation m st =
     (if generation \<noteq> cc_generation st then (False, count_up lcm_stale_session_callbacks_update st)
      else if cc_terminal st \<or> cc_failure_latched st then (False, st)
      else
        let st = count_up lcm_complete_messages_update (count_up lcm_text_messages_update st) in
        case an_acquire an of
          Inl acquire_error \<Rightarrow>
            (False, controller_fail an (if an_writer_failed an then LCE_writer_failure else LCE_writer_acquire_failure)
               (st\<lparr>cc_result := (cc_result st)\<lparr>lcr_writer_acquire_error := acquire_error\<rparr>\<rparr>))
        | Inr batch \<Rightarrow>
            (case process_message (an_simdjson an) (an_audit_allocator an) (an_book_allocator an)
                    (cc_pipeline st) m batch of
               (result, pipeline, batch) \<Rightarrow>
                 let st = st\<lparr>cc_pipeline := pipeline, cc_result := (cc_result st)\<lparr>lcr_pipeline := result\<rparr>\<rparr> in
                 if lpr_fatal result then (False, controller_fail an LCE_pipeline_failure (act Act_cancel_batch st))
                 else if \<not> lpr_has_batch result then
                   let st = act Act_cancel_batch st in
                   if lpr_disposition result = LPD_pre_audit_rejected
                   then (False, update_metrics (record_envelope_rejection (lpr_envelope_error result))
                          (count_up lcm_pre_audit_rejections_update st))
                   else (False, controller_fail an LCE_pipeline_failure st)
                 else publish_batch an result batch st))"

definition on_control :: "u64 \<Rightarrow> WebSocketControlKind \<Rightarrow> ControllerImpl \<Rightarrow> ControllerImpl" where
  "on_control generation kind st =
     (if generation \<noteq> cc_generation st then count_up lcm_stale_session_callbacks_update st
      else case kind of
        Control_ping \<Rightarrow> count_up lcm_ping_frames_update st
      | Control_pong \<Rightarrow> count_up lcm_pong_frames_update st
      | Control_close \<Rightarrow> count_up lcm_close_frames_update st)"

section \<open>Reconnecting\<close>

text \<open>The cap doubles per attempt until it reaches the maximum; \<open>index\<close> is the loop counter.\<close>

function backoff_cap :: "u64 \<Rightarrow> u64 \<Rightarrow> u64 \<Rightarrow> u64 \<Rightarrow> u64" where
  "backoff_cap maximum attempt index cap =
     (if index < attempt \<and> cap < maximum
      then backoff_cap maximum attempt (index + 1) (if cap > maximum div 2 then maximum else cap * 2)
      else cap)"
  by pat_completeness auto
termination
proof (relation "measure (\<lambda>(_, attempt, index, _). unat attempt - unat index)")
  fix maximum attempt index cap :: u64
  assume "index < attempt \<and> cap < maximum"
  then have "unat (index + 1) = Suc (unat index)" "unat index < unat attempt"
    using unat_succ_below [of index attempt] by (simp_all add: word_less_nat_alt)
  then show "((maximum, attempt, index + 1, if maximum div 2 < cap then maximum else cap * 2),
      maximum, attempt, index, cap) \<in> measure (\<lambda>(_, attempt, index, _). unat attempt - unat index)"
    by simp
qed simp

declare backoff_cap.simps [simp del]

text \<open>\<open>std::uniform_int_distribution\<close> picks some value of the closed interval, here by \<open>random\<close>.\<close>

definition uniform_between :: "u64 \<Rightarrow> u64 \<Rightarrow> u64 \<Rightarrow> u64" where
  "uniform_between random lower upper = lower + random mod (upper - lower + 1)"

definition select_reconnect_delay :: "LiveReconnectOptions \<Rightarrow> u64 \<Rightarrow> u64 \<Rightarrow> u64 \<times> u64" where
  "select_reconnect_delay options random attempt =
     (let initial = word_of_int (initial_backoff options);
          maximum = word_of_int (maximum_backoff options);
          cap = min (backoff_cap maximum attempt 0 initial) maximum;
          lower = cap div 2;
          selected = (case select_inclusive options of
                        Some select \<Rightarrow> max lower (min (select lower cap) cap)
                      | None \<Rightarrow> uniform_between random lower cap)
      in (selected, if attempt \<noteq> u64_max then attempt + 1 else attempt))"

definition schedule_reconnect :: "Answers \<Rightarrow> ControllerImpl \<Rightarrow> ControllerImpl" where
  "schedule_reconnect an st =
     (case select_reconnect_delay (cc_options st) (an_random an) (cc_reconnect_attempt st) of
        (delay, attempt) \<Rightarrow>
          let st = count_up lcm_reconnects_scheduled_update (st\<lparr>cc_reconnect_attempt := attempt\<rparr>);
              st = update_metrics (lcm_last_reconnect_delay_ms_update (\<lambda>_. delay)) st
          in if an_timer_throws an
             then finalize_run an (latch_failure LCE_reconnect_scheduling_failure st)
             else act (Act_schedule_reconnect delay)
                    (st\<lparr>cc_reconnect_waits := cc_reconnect_waits st + 1, cc_reconnect_cancelled := False\<rparr>))"

definition on_reconnect_timer :: "Answers \<Rightarrow> timer_result \<Rightarrow> ControllerImpl \<Rightarrow> ControllerImpl" where
  "on_reconnect_timer an e st =
     (if e = Timer_aborted \<or> cc_terminal st then st
      else if e \<noteq> Timer_expired then finalize_run an (latch_failure LCE_reconnect_scheduling_failure st)
      else if cc_stop_requested st then finalize_run an st
      else if cc_generation st = u64_max then finalize_run an (latch_failure LCE_reconnect_scheduling_failure st)
      else
        let st = st\<lparr>cc_generation := cc_generation st + 1\<rparr> in
        case create_session an (cc_generation st) (cc_next_connection_epoch st) st of
          (Some e, st) \<Rightarrow>
            finalize_run an (latch_failure LCE_session_failure (st\<lparr>cc_result := (cc_result st)\<lparr>lcr_session := e\<rparr>\<rparr>))
        | (None, st) \<Rightarrow>
            (case start_current_session an st of
               (True, st) \<Rightarrow> finalize_run an (latch_failure LCE_reconnect_scheduling_failure st)
             | (False, st) \<Rightarrow> st))"

section \<open>The end of a session\<close>

text \<open>The first part of \<open>on_session_terminal\<close>: the session is gone and every book is invalid.\<close>

definition drop_session :: "WebSocketSessionResult \<Rightarrow> ControllerImpl \<Rightarrow> ControllerImpl" where
  "drop_session r st =
     update_metrics
       (lcm_connection_invalidations_update (\<lambda>n. n + of_nat (symbol_count_of (cc_subscription st))))
       (st\<lparr>cc_reads_paused := False, cc_session_open := False, cc_pipeline := invalidate_all (cc_pipeline st),
           cc_result := (cc_result st)\<lparr>lcr_session := r\<rparr>, cc_session := None\<rparr>)"

definition count_policy_failure :: "WebSocketSessionErrorCode \<Rightarrow> ControllerImpl \<Rightarrow> ControllerImpl" where
  "count_policy_failure code st =
     (let st = (if code = WSE_binary_message
                then (count_up lcm_binary_messages_update (count_up lcm_pre_audit_rejections_update
                       (count_up lcm_complete_messages_update st)))
                  \<lparr>cc_consecutive_message_policy_failures := cc_consecutive_message_policy_failures st + 1\<rparr>
                else if code = WSE_message_too_big
                then (count_up lcm_oversized_messages_update st)
                  \<lparr>cc_consecutive_message_policy_failures := cc_consecutive_message_policy_failures st + 1\<rparr>
                else st)
      in if cc_consecutive_message_policy_failures st \<ge> kMessagePolicyBreakerLimit
         then latch_failure LCE_message_policy_breaker (count_up lcm_message_policy_breaker_trips_update st)
         else st)"

definition end_stopped_session :: "Answers \<Rightarrow> WebSocketSessionResult \<Rightarrow> ControllerImpl \<Rightarrow> ControllerImpl" where
  "end_stopped_session an r st =
     (let close_handshake_ended = (wsr_stage r = WSS_websocket_close \<and>
            (wsr_code r = WSE_close_failure \<or> wsr_code r = WSE_timeout));
          recoverable_stop = (recoverable_session_error (wsr_code r) \<and> \<not> close_handshake_ended);
          st = (if recoverable_stop \<and> \<not> cc_failure_latched st
                then count_up lcm_recoverable_session_failures_update st else st);
          expected = (wsr_success r \<or> wsr_code r = WSE_cancelled \<or> recoverable_stop \<or> close_handshake_ended);
          st = (if \<not> expected \<and> \<not> cc_failure_latched st then latch_failure LCE_session_failure st else st)
      in finalize_run an st)"

definition on_session_terminal :: "Answers \<Rightarrow> u64 \<Rightarrow> WebSocketSessionResult \<Rightarrow> ControllerImpl \<Rightarrow> ControllerImpl" where
  "on_session_terminal an generation r st =
     (if generation \<noteq> cc_generation st then count_up lcm_stale_session_callbacks_update st
      else
        let st = count_policy_failure (wsr_code r) (drop_session r st);
            st = st\<lparr>cc_result := (cc_result st)\<lparr>lcr_stop_requested := cc_stop_requested st\<rparr>\<rparr>;
            st = (if cc_resume_post_failed st then latch_failure LCE_resume_notification_failure st else st)
        in if lcr_stop_requested (cc_result st) then end_stopped_session an r st
           else if cc_failure_latched st then finalize_run an st
           else if \<not> recoverable_session_error (wsr_code r)
           then finalize_run an (latch_failure LCE_session_failure st)
           else if cc_epoch_exhausted st
           then finalize_run an (latch_failure LCE_connection_epoch_overflow st)
           else schedule_reconnect an (count_up lcm_recoverable_session_failures_update st))"

section \<open>Construction\<close>

fun symbols_match :: "nat \<Rightarrow> nat \<Rightarrow> CsvOutputSet \<Rightarrow> LiveSubscription \<Rightarrow> bool" where
  "symbols_match 0 index out sub = True"
| "symbols_match (Suc n) index out sub =
     (out_symbol out index = subscription_symbol sub index \<and> symbols_match n (Suc index) out sub)"

definition output_matches_subscription :: "CsvOutputSet \<Rightarrow> LiveSubscription \<Rightarrow> bool" where
  "output_matches_subscription out sub =
     (if out_mode out \<noteq> Output_live_capture \<or> out_venue out \<noteq> Some (ls_venue sub) \<or> out_closed out \<or>
         is_write_error (out_first_error out) \<or> out_target_count out \<noteq> symbol_count_of sub
      then False
      else symbols_match (out_target_count out) 0 out sub)"

text \<open>
  \<open>allocated\<close>: no exception leaves the construction; \<open>pipeline_construction\<close> and \<open>writer_started\<close> are
  how the pipeline's construction and \<open>CsvWriter::start\<close> end.
\<close>

definition create_controller ::
    "Answers \<Rightarrow> LiveSubscription option \<Rightarrow> CsvOutputSet option \<Rightarrow> bool \<Rightarrow> LiveReconnectOptions \<Rightarrow> bool \<Rightarrow>
     Construction \<Rightarrow> CsvWriterCreateError \<Rightarrow> LiveCaptureCreateError + ControllerImpl" where
  "create_controller an subscription output has_callback options allocated pipeline_construction writer_started =
     (case subscription of
        None \<Rightarrow> Inl (create_error LCC_invalid_subscription)
      | Some sub \<Rightarrow>
          if symbol_count_of sub = 0 then Inl (create_error LCC_invalid_subscription)
          else if \<not> valid_reconnect_options options then Inl (create_error LCC_invalid_reconnect_policy)
          else if \<not> allocated then Inl (create_error LCC_allocation_failure)
          else case output of
            None \<Rightarrow> Inl (create_error LCC_invalid_output)
          | Some out \<Rightarrow>
              if \<not> output_matches_subscription out sub then Inl (create_error LCC_invalid_output)
              else case create_pipeline sub pipeline_construction of
                Inl e \<Rightarrow> Inl ((create_error LCC_pipeline_initialization_failure)\<lparr>lce_pipeline_error := e\<rparr>)
              | Inr pipeline \<Rightarrow>
                  if writer_started \<noteq> WCE_none
                  then Inl ((create_error LCC_writer_initialization_failure)\<lparr>lce_writer_error := writer_started\<rparr>)
                  else
                    let st = \<lparr>cc_subscription = sub, cc_pipeline = pipeline, cc_session = None,
                          cc_has_callback = has_callback, cc_options = options,
                          cc_result = default_capture_result, cc_stop_requested = False, cc_terminal = False,
                          cc_resume_post_failed = False, cc_generation = 1, cc_next_connection_epoch = 0,
                          cc_reconnect_attempt = 0, cc_consecutive_message_policy_failures = 0,
                          cc_started = False, cc_session_open = False, cc_epoch_exhausted = False,
                          cc_reads_paused = False, cc_failure_latched = False, cc_terminal_started = False,
                          cc_reconnect_waits = 0, cc_reconnect_cancelled = False, cc_trace = []\<rparr>
                    in case create_session an (cc_generation st) (cc_next_connection_epoch st) st of
                         (Some e, st) \<Rightarrow>
                           Inl ((create_error LCC_session_initialization_failure)\<lparr>lce_session_error := e\<rparr>)
                       | (None, st) \<Rightarrow> Inr st)"

end
