(* ===== verification/Live_Capture_Life.thy ===== *)
theory Live_Capture_Life
  imports Live_Capture
begin

text \<open>
  Runs of the capture controller.  A run is any sequence of callbacks that the session's contract and
  the timers allow, with arbitrary answers of the called components in every handler.
\<close>

section \<open>Runs\<close>

datatype cc_event =
    Cc_start
  | Cc_stop
  | Cc_request_stop
  | Cc_open u64
  | Cc_text u64 WebSocketTextMessage
  | Cc_control u64 WebSocketControlKind
  | Cc_session_terminal u64 WebSocketSessionResult
  | Cc_reconnect_timer timer_result
  | Cc_stability_timer u64 timer_result
  | Cc_backpressure_timer timer_result
  | Cc_writer_resume
  | Cc_resume_post_failure

text \<open>
  When an event may occur.  Callbacks of earlier sessions may come at any time.  The current session
  reports its opening at most once, delivers messages only while open, with its own epoch and
  increasing one-based sequences, and ends at most once.  A wait on the reconnect timer ends once, and
  as aborted only after a cancellation.  A posted stop request implies a requested stop.
\<close>

definition message_from :: "SessionHandle \<Rightarrow> WebSocketTextMessage \<Rightarrow> bool" where
  "message_from h m \<longleftrightarrow> wm_connection_epoch m = sh_epoch h \<and> wm_connection_sequence m > sh_last_sequence h \<and>
     0 \<le> ts_nanoseconds (wm_receive_timestamp m) \<and> ts_nanoseconds (wm_receive_timestamp m) < kNanosecondsPerSecond"

fun event_enabled :: "ControllerImpl \<Rightarrow> cc_event \<Rightarrow> bool" where
  "event_enabled st Cc_request_stop = cc_stop_requested st"
| "event_enabled st (Cc_open g) = (g = cc_generation st \<longrightarrow> cc_session st \<noteq> None \<and> \<not> cc_session_open st)"
| "event_enabled st (Cc_text g m) =
     (g = cc_generation st \<longrightarrow> cc_session_open st \<and> (case cc_session st of None \<Rightarrow> False | Some h \<Rightarrow> message_from h m))"
| "event_enabled st (Cc_session_terminal g r) = (g = cc_generation st \<longrightarrow> cc_session st \<noteq> None)"
| "event_enabled st (Cc_reconnect_timer e) =
     (cc_reconnect_waits st > 0 \<and> (e = Timer_aborted \<longrightarrow> cc_reconnect_cancelled st))"
| "event_enabled st _ = True"

fun controller_step :: "Answers \<Rightarrow> cc_event \<Rightarrow> ControllerImpl \<Rightarrow> ControllerImpl" where
  "controller_step an Cc_start st = snd (controller_start an st)"
| "controller_step an Cc_stop st = controller_stop st"
| "controller_step an Cc_request_stop st = request_stop_on_io an st"
| "controller_step an (Cc_open g) st = snd (on_open an g st)"
| "controller_step an (Cc_text g m) st =
     snd (on_text_message an g m
       (if g = cc_generation st then update_session (sh_last_sequence_update (\<lambda>_. wm_connection_sequence m)) st else st))"
| "controller_step an (Cc_control g k) st = on_control g k st"
| "controller_step an (Cc_session_terminal g r) st = on_session_terminal an g r st"
| "controller_step an (Cc_reconnect_timer e) st =
     on_reconnect_timer an e (st\<lparr>cc_reconnect_waits := cc_reconnect_waits st - 1\<rparr>)"
| "controller_step an (Cc_stability_timer g e) st = on_stable_connection g e st"
| "controller_step an (Cc_backpressure_timer e) st = on_backpressure_timeout an e st"
| "controller_step an Cc_writer_resume st = on_writer_resume an st"
| "controller_step an Cc_resume_post_failure st = resume_post_failure an st"

inductive controller_runs :: "ControllerImpl \<Rightarrow> (Answers \<times> cc_event) list \<Rightarrow> ControllerImpl \<Rightarrow> bool" where
  run_empty: "controller_runs st [] st"
| run_step: "controller_runs st steps st' \<Longrightarrow> event_enabled st' ev \<Longrightarrow>
    controller_runs st (steps @ [(an, ev)]) (controller_step an ev st')"

section \<open>The life of a run\<close>

fun is_final :: "cc_action \<Rightarrow> bool" where
  "is_final Act_join = True"
| "is_final (Act_terminal _) = True"
| "is_final _ = False"

text \<open>A report without an error comes from a requested stop and a writer that wrote everything.\<close>

definition report_ok :: "LiveCaptureResult \<Rightarrow> bool" where
  "report_ok r \<longleftrightarrow> (lcr_error r = LCE_none \<longrightarrow> lcr_stop_requested r \<and> writer_success (lcr_writer r))"

text \<open>Actions that may still occur when the run has ended.\<close>

fun is_late :: "cc_action \<Rightarrow> bool" where
  "is_late Act_arm_resume = True"
| "is_late Act_stop_io_context = True"
| "is_late _ = False"

definition ended_trace :: "bool \<Rightarrow> cc_action list \<Rightarrow> bool" where
  "ended_trace has_callback tr \<longleftrightarrow>
     (\<exists>before report late. tr = before @ Act_join # report @ late \<and> list_all (\<lambda>a. \<not> is_final a) before \<and>
        (if has_callback then \<exists>r. report = [Act_terminal r] \<and> report_ok r else report = []) \<and> list_all is_late late)"

definition life_inv :: "bool \<Rightarrow> ControllerImpl \<Rightarrow> bool" where
  "life_inv has_callback st \<longleftrightarrow>
     (cc_terminal st \<longleftrightarrow> cc_terminal_started st) \<and>
     (if cc_terminal st
      then (cc_failure_latched st \<or> cc_stop_requested st) \<and> ended_trace has_callback (cc_trace st)
      else (cc_failure_latched st \<longleftrightarrow> lcr_error (cc_result st) \<noteq> LCE_none) \<and>
        cc_has_callback st = has_callback \<and> list_all (\<lambda>a. \<not> is_final a) (cc_trace st) \<and>
        (cc_failure_latched st \<longrightarrow> (\<exists>h. cc_session st = Some h \<and> sh_stopped h)) \<and>
        (cc_session st = None \<longrightarrow> cc_reconnect_waits st = 1 \<and> \<not> cc_reconnect_cancelled st \<and> \<not> cc_epoch_exhausted st) \<and>
        (cc_session st \<noteq> None \<longrightarrow> cc_reconnect_waits st = 0))"

lemma ended_late: "ended_trace c tr \<Longrightarrow> is_late a \<Longrightarrow> ended_trace c (tr @ [a])"
proof -
  assume "ended_trace c tr" "is_late a"
  then obtain before report late where "tr = before @ Act_join # report @ late" "list_all (\<lambda>a. \<not> is_final a) before"
    "if c then \<exists>r. report = [Act_terminal r] \<and> report_ok r else report = []" "list_all is_late (late @ [a])"
    by (auto simp: ended_trace_def)
  then show ?thesis unfolding ended_trace_def
    by (intro exI [of _ before] exI [of _ report] exI [of _ "late @ [a]"]) simp
qed

text \<open>The field updates of the handlers.\<close>

lemmas cc_helpers = act_def count_up_def set_capture_error_def latch_failure_def cancel_reconnect_def
  update_session_def update_metrics_def increment_def

lemma finalize_life:
  assumes "\<not> cc_terminal_started st" and "cc_failure_latched st \<longleftrightarrow> lcr_error (cc_result st) \<noteq> LCE_none"
    and "cc_failure_latched st \<or> cc_stop_requested st" and "cc_has_callback st = c"
    and "list_all (\<lambda>a. \<not> is_final a) (cc_trace st)"
  shows "life_inv c (finalize_run an st)"
proof -
  let ?st = "finalize_run an st"
  have fields: "cc_terminal ?st" "cc_terminal_started ?st" "cc_failure_latched ?st \<or> cc_stop_requested ?st"
    using assms(1,3) by (auto simp: finalize_run_def Let_def cc_helpers)
  have "cc_trace ?st = cc_trace st @ Act_join # (if c then [Act_terminal (cc_result ?st)] else [])"
    using assms(1,4) by (simp add: finalize_run_def Let_def cc_helpers)
  moreover have "report_ok (cc_result ?st)"
    using assms(1-3) by (simp add: finalize_run_def Let_def cc_helpers report_ok_def)
  ultimately have "ended_trace c (cc_trace ?st)"
    unfolding ended_trace_def using assms(5)
    by (intro exI [of _ "cc_trace st"] exI [of _ "if c then [Act_terminal (cc_result ?st)] else []"] exI [of _ "[]"]) simp
  with fields show ?thesis by (simp add: life_inv_def)
qed

lemma finalize_ended: "cc_terminal_started st \<Longrightarrow> finalize_run an st = st"
  by (simp add: finalize_run_def)

section \<open>Handlers\<close>

text \<open>
  A state in which a handler may end the run, fail or continue: not ended, with the error latched
  consistently.
\<close>

definition may_end :: "bool \<Rightarrow> ControllerImpl \<Rightarrow> bool" where
  "may_end c st \<longleftrightarrow> \<not> cc_terminal st \<and> \<not> cc_terminal_started st \<and>
     (cc_failure_latched st \<longleftrightarrow> lcr_error (cc_result st) \<noteq> LCE_none) \<and>
     cc_has_callback st = c \<and> list_all (\<lambda>a. \<not> is_final a) (cc_trace st)"

lemma life_may_end: "life_inv c st \<Longrightarrow> \<not> cc_terminal st \<Longrightarrow> may_end c st"
  by (simp add: life_inv_def may_end_def)

lemma may_end_finalize:
  "may_end c st \<Longrightarrow> cc_failure_latched st \<or> cc_stop_requested st \<Longrightarrow> life_inv c (finalize_run an st)"
  by (rule finalize_life) (simp_all add: may_end_def)

lemma may_end_frame [simp]:
  "may_end c (count_up field st) = may_end c st"
  "may_end c (update_metrics f st) = may_end c st"
  "may_end c (update_session g st) = may_end c st"
  "may_end c (cancel_reconnect st) = may_end c st"
  by (simp_all add: may_end_def cc_helpers)

lemma may_end_latch: "may_end c st \<Longrightarrow> e \<noteq> LCE_none \<Longrightarrow> may_end c (latch_failure e st)"
  by (simp add: may_end_def cc_helpers)

lemma latched [simp]: "cc_failure_latched (latch_failure e st)" by (simp add: cc_helpers)

lemma cancelled_frame [simp]:
  "cc_failure_latched (cancel_reconnect st) = cc_failure_latched st"
  "cc_stop_requested (cancel_reconnect st) = cc_stop_requested st"
  "cc_session (cancel_reconnect st) = cc_session st"
  "cc_reconnect_waits (cancel_reconnect st) = cc_reconnect_waits st"
  by (simp_all add: cancel_reconnect_def)

lemma stop_exception_life: "may_end c st \<Longrightarrow> life_inv c (handle_session_stop_exception an st)"
  unfolding handle_session_stop_exception_def
  by (rule may_end_finalize) (auto simp: may_end_latch)

text \<open>Failing and stopping a run that has not ended.\<close>

lemma stopped_life:
  "may_end c st \<Longrightarrow> cc_session st = Some h \<Longrightarrow> cc_reconnect_waits st = 0 \<Longrightarrow> life_inv c (stop_session an st)"
proof (cases "an_stop_throws an")
  case True
  assume "may_end c st"
  with True show ?thesis by (simp add: stop_session_def stop_exception_life)
next
  case False
  assume "may_end c st" "cc_session st = Some h" "cc_reconnect_waits st = 0"
  with False show ?thesis by (simp add: stop_session_def life_inv_def may_end_def cc_helpers)
qed

lemma fail_life:
  assumes st: "may_end c st" "e \<noteq> LCE_none" "\<not> cc_failure_latched st"
    and waits: "cc_session st \<noteq> None \<longrightarrow> cc_reconnect_waits st = 0"
  shows "life_inv c (controller_fail an e st)"
proof -
  let ?st = "cancel_reconnect (latch_failure e st)"
  have pre: "may_end c ?st" "cc_failure_latched ?st" using st may_end_latch by simp_all
  have run: "controller_fail an e st =
      (if session_running an ?st then
         (if an_pause_throws an then handle_session_stop_exception an ?st
          else stop_session an (update_session (sh_paused_update (\<lambda>_. True)) ?st))
       else finalize_run an ?st)"
    using st by (simp add: controller_fail_def may_end_def Let_def)
  show ?thesis
  proof (cases "session_running an ?st")
    case True
    then obtain h where h: "cc_session st = Some h" by (auto simp: session_running_def cc_helpers)
    have "life_inv c (stop_session an (update_session (sh_paused_update (\<lambda>_. True)) ?st))"
      by (rule stopped_life) (use pre(1) h waits in \<open>simp_all, simp_all add: cc_helpers\<close>)
    with True pre(1) show ?thesis unfolding run by (simp add: stop_exception_life)
  next
    case False
    with pre show ?thesis unfolding run by (simp add: may_end_finalize)
  qed
qed

lemma fail_any_life: "life_inv c st \<Longrightarrow> e \<noteq> LCE_none \<Longrightarrow> life_inv c (controller_fail an e st)"
proof (cases "cc_failure_latched st \<or> cc_terminal st")
  case True
  assume "life_inv c st"
  with True show ?thesis by (auto simp: controller_fail_def)
next
  case False
  assume inv: "life_inv c st" and e: "e \<noteq> LCE_none"
  have "cc_session st \<noteq> None \<longrightarrow> cc_reconnect_waits st = 0"
    using inv False by (auto simp: life_inv_def)
  then show ?thesis using fail_life [OF life_may_end [OF inv] e] False by simp
qed

lemma request_stop_life: "life_inv c st \<Longrightarrow> cc_stop_requested st \<Longrightarrow> life_inv c (request_stop_on_io an st)"
proof (cases "cc_terminal st \<or> cc_terminal_started st")
  case True
  assume "life_inv c st"
  with True show ?thesis by (simp add: request_stop_on_io_def)
next
  case False
  assume inv: "life_inv c st" and stop: "cc_stop_requested st"
  have pre: "may_end c (cancel_reconnect st)" "cc_stop_requested (cancel_reconnect st)"
    using life_may_end [OF inv] False stop by simp_all
  show ?thesis
  proof (cases "session_running an (cancel_reconnect st)")
    case True
    then obtain h where h: "cc_session st = Some h" by (auto simp: session_running_def cc_helpers)
    then have "cc_reconnect_waits st = 0" using inv False by (auto simp: life_inv_def)
    then have "life_inv c (stop_session an (cancel_reconnect st))"
      using pre(1) h by (intro stopped_life) simp_all
    with True False show ?thesis by (simp add: request_stop_on_io_def)
  next
    case no: False
    with False pre show ?thesis by (simp add: request_stop_on_io_def may_end_finalize)
  qed
qed

text \<open>Updates that do not touch the life of the run.\<close>

lemma life_frame [simp]:
  "life_inv c (count_up field st) = life_inv c st"
  "life_inv c (update_metrics f st) = life_inv c st"
  "life_inv c (st\<lparr>cc_reads_paused := b\<rparr>) = life_inv c st"
  "life_inv c (st\<lparr>cc_started := b\<rparr>) = life_inv c st"
  "life_inv c (st\<lparr>cc_session_open := b\<rparr>) = life_inv c st"
  "life_inv c (st\<lparr>cc_resume_post_failed := b\<rparr>) = life_inv c st"
  "life_inv c (st\<lparr>cc_reconnect_attempt := n\<rparr>) = life_inv c st"
  "life_inv c (st\<lparr>cc_next_connection_epoch := n\<rparr>) = life_inv c st"
  "life_inv c (st\<lparr>cc_consecutive_message_policy_failures := n\<rparr>) = life_inv c st"
  "life_inv c (st\<lparr>cc_pipeline := pl, cc_result := (cc_result st)\<lparr>lcr_pipeline := r\<rparr>\<rparr>) = life_inv c st"
  "life_inv c (st\<lparr>cc_result := (cc_result st)\<lparr>lcr_writer_acquire_error := ae\<rparr>\<rparr>) = life_inv c st"
  "life_inv c (st\<lparr>cc_result := (cc_result st)\<lparr>lcr_writer_publish_error := pe\<rparr>\<rparr>) = life_inv c st"
  by (simp_all add: life_inv_def cc_helpers)

lemma counted_frame [simp]:
  "cc_stop_requested (count_up field st) = cc_stop_requested st"
  "cc_next_connection_epoch (count_up field st) = cc_next_connection_epoch st"
  "cc_session (count_up field st) = cc_session st"
  "cc_terminal (count_up field st) = cc_terminal st"
  "cc_failure_latched (count_up field st) = cc_failure_latched st"
  "cc_pipeline (count_up field st) = cc_pipeline st"
  "cc_generation (count_up field st) = cc_generation st"
  "cc_terminal (update_metrics f st) = cc_terminal st"
  "cc_session (update_metrics f st) = cc_session st"
  by (simp_all add: cc_helpers)

lemma life_stop: "life_inv c st \<Longrightarrow> life_inv c (st\<lparr>cc_stop_requested := True\<rparr>)"
  by (auto simp: life_inv_def)

lemma life_exhausted: "life_inv c st \<Longrightarrow> cc_session st \<noteq> None \<Longrightarrow> life_inv c (st\<lparr>cc_epoch_exhausted := True\<rparr>)"
  by (auto simp: life_inv_def)

lemma life_update_session:
  "life_inv c st \<Longrightarrow> (\<And>h. sh_stopped h \<Longrightarrow> sh_stopped (g h)) \<Longrightarrow> life_inv c (update_session g st)"
  by (auto simp: life_inv_def update_session_def split: option.splits)

lemma life_act:
  "life_inv c st \<Longrightarrow> \<not> is_final a \<Longrightarrow> cc_terminal st \<longrightarrow> is_late a \<Longrightarrow> life_inv c (act a st)"
  by (auto simp: life_inv_def act_def ended_late)

lemma life_late: "life_inv c st \<Longrightarrow> is_late a \<Longrightarrow> life_inv c (act a st)"
  by (rule life_act) (auto elim: is_late.elims)

lemma pause_life: "life_inv c st \<Longrightarrow> life_inv c (snd (pause_for_backpressure an st))"
  unfolding pause_for_backpressure_def Let_def
  by (simp add: life_late life_update_session)

lemma resume_life: "life_inv c st \<Longrightarrow> life_inv c (on_writer_resume an st)"
  unfolding on_writer_resume_def Let_def
  by (simp add: fail_any_life life_late life_update_session)

lemma post_failure_life: "life_inv c st \<Longrightarrow> life_inv c (resume_post_failure an st)"
  unfolding resume_post_failure_def Let_def
  by (simp add: life_late life_update_session)

lemma timeout_life: "life_inv c st \<Longrightarrow> life_inv c (on_backpressure_timeout an e st)"
  unfolding on_backpressure_timeout_def by (simp add: fail_any_life)

lemma stable_life: "life_inv c st \<Longrightarrow> life_inv c (on_stable_connection g e st)"
  unfolding on_stable_connection_def by simp

lemma control_life: "life_inv c st \<Longrightarrow> life_inv c (on_control g k st)"
  unfolding on_control_def by (simp split: WebSocketControlKind.split)

lemma start_session_life:
  "life_inv c st \<Longrightarrow> life_inv c (snd (start_current_session an st))"
  unfolding start_current_session_def Let_def
  by (simp add: fail_any_life life_update_session)

lemma start_life: "life_inv c st \<Longrightarrow> life_inv c (snd (controller_start an st))"
proof -
  assume inv: "life_inv c st"
  obtain threw st' where run: "start_current_session an (st\<lparr>cc_started := True\<rparr>) = (threw, st')" by fastforce
  with start_session_life [of c "st\<lparr>cc_started := True\<rparr>" an] inv have "life_inv c st'" by simp
  with run inv show ?thesis by (cases threw) (simp_all add: controller_start_def)
qed

lemma stop_life: "life_inv c st \<Longrightarrow> life_inv c (controller_stop st)"
  by (simp add: controller_stop_def life_stop)

lemma open_life: "life_inv c st \<Longrightarrow> event_enabled st (Cc_open g) \<Longrightarrow> life_inv c (snd (on_open an g st))"
  unfolding on_open_def Let_def
  by (simp add: pause_life request_stop_life life_exhausted)

lemma publish_life:
  "life_inv c st \<Longrightarrow> \<not> cc_terminal st \<Longrightarrow> life_inv c (snd (publish_batch an result batch st))"
  unfolding publish_batch_def Let_def
  by (simp add: fail_any_life pause_life life_act)

lemma text_life: "life_inv c st \<Longrightarrow> life_inv c (snd (on_text_message an g m st))"
  unfolding on_text_message_def Let_def
  by (simp add: fail_any_life publish_life life_act split: sum.split prod.split)

text \<open>Reconnecting: the only session is gone, and a wait is outstanding afterwards.\<close>

lemma schedule_life:
  assumes "may_end c st" and "\<not> cc_failure_latched st" and "cc_session st = None" and "cc_reconnect_waits st = 0"
    and "\<not> cc_epoch_exhausted st"
  shows "life_inv c (schedule_reconnect an st)"
proof -
  obtain delay attempt where d: "select_reconnect_delay (cc_options st) (an_random an) (cc_reconnect_attempt st) = (delay, attempt)"
    by fastforce
  let ?st = "update_metrics (lcm_last_reconnect_delay_ms_update (\<lambda>_. delay))
      (count_up lcm_reconnects_scheduled_update (st\<lparr>cc_reconnect_attempt := attempt\<rparr>))"
  have pre: "may_end c ?st" using assms(1) by simp (simp add: may_end_def)
  show ?thesis
  proof (cases "an_timer_throws an")
    case True
    with pre d show ?thesis by (simp add: schedule_reconnect_def Let_def may_end_finalize may_end_latch)
  next
    case False
    with assms d show ?thesis
      by (simp add: schedule_reconnect_def Let_def life_inv_def may_end_def cc_helpers)
  qed
qed

lemma created_life:
  assumes "may_end c st" and "\<not> cc_failure_latched st" and "cc_reconnect_waits st = 0"
    and "create_session an g e st = (None, st')"
  shows "life_inv c st'" and "cc_session st' \<noteq> None"
  using assms by (auto simp: create_session_def life_inv_def may_end_def act_def split: option.splits)

lemma reconnect_life:
  assumes inv: "life_inv c st" and en: "event_enabled st (Cc_reconnect_timer e)"
  shows "life_inv c (on_reconnect_timer an e (st\<lparr>cc_reconnect_waits := cc_reconnect_waits st - 1\<rparr>))"
proof (cases "cc_terminal st")
  case True
  with inv show ?thesis by (simp add: on_reconnect_timer_def life_inv_def)
next
  case False
  let ?st = "st\<lparr>cc_reconnect_waits := cc_reconnect_waits st - 1\<rparr>"
  have none: "cc_session st = None" "cc_reconnect_waits st = 1" "\<not> cc_reconnect_cancelled st"
    "\<not> cc_failure_latched st" using inv en False by (auto simp: life_inv_def)
  have e: "e \<noteq> Timer_aborted" using en none by auto
  have pre: "may_end c ?st" using life_may_end [OF inv False] by (simp add: may_end_def)
  let ?next = "?st\<lparr>cc_generation := cc_generation st + 1\<rparr>"
  have pre': "may_end c ?next" using pre by (simp add: may_end_def)
  obtain failed st1 where create: "create_session an (cc_generation st + 1) (cc_next_connection_epoch st) ?next = (failed, st1)"
    by fastforce
  have created: "life_inv c (case start_current_session an st1 of
      (True, st) \<Rightarrow> finalize_run an (latch_failure LCE_reconnect_scheduling_failure st) | (False, st) \<Rightarrow> st)"
    if "failed = None"
  proof -
    have st1: "life_inv c st1" "cc_session st1 \<noteq> None"
      using created_life [OF pre' _ _ create [unfolded that]] none by simp_all
    obtain threw st2 where run: "start_current_session an st1 = (threw, st2)" by fastforce
    have "life_inv c st2" using start_session_life [OF st1(1), of an] run by simp
    moreover have "may_end c st2" if "threw"
      using run that st1 created_life [OF pre' _ _ create [unfolded \<open>failed = None\<close>]] pre' create none
      by (auto simp: start_current_session_def Let_def may_end_def create_session_def act_def split: if_splits option.splits)
        (simp_all add: cc_helpers)
    ultimately show ?thesis using run by (cases threw) (simp_all add: may_end_finalize may_end_latch)
  qed
  have failed: "life_inv c (finalize_run an (latch_failure LCE_session_failure (st1\<lparr>cc_result := (cc_result st1)\<lparr>lcr_session := r\<rparr>\<rparr>)))"
    if "failed = Some r" for r
  proof (rule may_end_finalize)
    show "may_end c (latch_failure LCE_session_failure (st1\<lparr>cc_result := (cc_result st1)\<lparr>lcr_session := r\<rparr>\<rparr>))"
      using that create pre' by (intro may_end_latch) (auto simp: may_end_def create_session_def split: option.splits)
  qed simp
  show ?thesis
  proof (cases "e = Timer_expired \<and> \<not> cc_stop_requested st \<and> cc_generation st \<noteq> u64_max")
    case True
    then show ?thesis using False create created failed
      by (cases failed) (simp_all add: on_reconnect_timer_def Let_def)
  next
    case stop: False
    then show ?thesis using False e pre
      by (auto simp: on_reconnect_timer_def may_end_finalize may_end_latch)
  qed
qed

text \<open>The end of a session.\<close>

definition ended_session :: "WebSocketSessionResult \<Rightarrow> ControllerImpl \<Rightarrow> ControllerImpl" where
  "ended_session r st =
     (let st = count_policy_failure (wsr_code r) (drop_session r st);
          st = st\<lparr>cc_result := (cc_result st)\<lparr>lcr_stop_requested := cc_stop_requested st\<rparr>\<rparr>
      in if cc_resume_post_failed st then latch_failure LCE_resume_notification_failure st else st)"

lemma ended_session_flags:
  "lcr_stop_requested (cc_result (ended_session r st)) = cc_stop_requested st"
  "cc_epoch_exhausted (ended_session r st) = cc_epoch_exhausted st"
  by (simp_all add: ended_session_def count_policy_failure_def drop_session_def Let_def cc_helpers)

lemma on_session_terminal_ended:
  "on_session_terminal an g r st =
     (if g \<noteq> cc_generation st then count_up lcm_stale_session_callbacks_update st
      else
        let st' = ended_session r st in
        if cc_stop_requested st then end_stopped_session an r st'
        else if cc_failure_latched st' then finalize_run an st'
        else if \<not> recoverable_session_error (wsr_code r) then finalize_run an (latch_failure LCE_session_failure st')
        else if cc_epoch_exhausted st then finalize_run an (latch_failure LCE_connection_epoch_overflow st')
        else schedule_reconnect an (count_up lcm_recoverable_session_failures_update st'))"
  unfolding ended_session_flags [of r st, symmetric]
  by (simp only: on_session_terminal_def ended_session_def Let_def)

lemma ended_session_fields:
  "cc_session (ended_session r st) = None" "cc_reconnect_waits (ended_session r st) = cc_reconnect_waits st"
  "cc_epoch_exhausted (ended_session r st) = cc_epoch_exhausted st"
  "cc_terminal (ended_session r st) = cc_terminal st"
  "cc_terminal_started (ended_session r st) = cc_terminal_started st"
  "cc_trace (ended_session r st) = cc_trace st"
  "cc_stop_requested (ended_session r st) = cc_stop_requested st"
  "cc_failure_latched st \<Longrightarrow> cc_failure_latched (ended_session r st)"
  by (simp_all add: ended_session_def count_policy_failure_def drop_session_def Let_def cc_helpers)

lemma may_end_drop: "may_end c (drop_session r st) = may_end c st"
  unfolding drop_session_def may_end_frame by (simp add: may_end_def)

lemma may_end_policy: "may_end c st \<Longrightarrow> may_end c (count_policy_failure code st)"
proof -
  have frame: "may_end c (st\<lparr>cc_consecutive_message_policy_failures := n\<rparr>) = may_end c st" for st n
    by (simp add: may_end_def)
  assume st: "may_end c st"
  define st1 where "st1 = (if code = WSE_binary_message
      then (count_up lcm_binary_messages_update (count_up lcm_pre_audit_rejections_update
             (count_up lcm_complete_messages_update st)))
        \<lparr>cc_consecutive_message_policy_failures := cc_consecutive_message_policy_failures st + 1\<rparr>
      else if code = WSE_message_too_big
      then (count_up lcm_oversized_messages_update st)
        \<lparr>cc_consecutive_message_policy_failures := cc_consecutive_message_policy_failures st + 1\<rparr>
      else st)"
  have st1: "may_end c st1" using st by (simp add: st1_def frame)
  show ?thesis
    unfolding count_policy_failure_def Let_def st1_def [symmetric] using st1 by (simp add: may_end_latch)
qed

lemma ended_session_may_end: "may_end c st \<Longrightarrow> may_end c (ended_session r st)"
proof -
  have frame: "may_end c (st\<lparr>cc_result := (cc_result st)\<lparr>lcr_stop_requested := b\<rparr>\<rparr>) = may_end c st" for st b
    by (simp add: may_end_def)
  assume "may_end c st"
  then show ?thesis by (simp add: ended_session_def Let_def frame may_end_latch may_end_policy may_end_drop)
qed

lemma finalize_stopped:
  assumes "may_end c st" and "cc_stop_requested st"
  shows "life_inv c (finalize_run an (if b then latch_failure LCE_session_failure st else st))"
  by (rule may_end_finalize) (use assms in \<open>simp_all add: may_end_latch\<close>)

lemma end_stopped_life:
  assumes "may_end c st" and "cc_stop_requested st"
  shows "life_inv c (end_stopped_session an r st)"
  unfolding end_stopped_session_def Let_def
  by (rule finalize_stopped) (use assms in \<open>simp_all split: if_split\<close>)

lemma life_terminal:
  assumes "life_inv c st" and "cc_terminal st" and "cc_terminal st'" "cc_terminal_started st'" "cc_trace st' = cc_trace st"
    and "cc_failure_latched st' \<or> cc_stop_requested st'"
  shows "life_inv c st'"
  using assms by (simp add: life_inv_def)

lemma session_terminal_life:
  assumes inv: "life_inv c st" and en: "event_enabled st (Cc_session_terminal g r)"
  shows "life_inv c (on_session_terminal an g r st)"
proof (cases "g = cc_generation st")
  case False
  with inv show ?thesis by (simp add: on_session_terminal_def)
next
  case g: True
  let ?st = "ended_session r st"
  show ?thesis
  proof (cases "cc_terminal st")
    case True
    then have t: "cc_terminal_started ?st" "cc_terminal ?st" "cc_failure_latched st \<or> cc_stop_requested st"
      using inv by (auto simp: life_inv_def ended_session_fields)
    have fin: "finalize_run an st' = st'" if "cc_terminal_started st'" for st' using that by (rule finalize_ended)
    have "cc_terminal (on_session_terminal an g r st)" "cc_terminal_started (on_session_terminal an g r st)"
      "cc_trace (on_session_terminal an g r st) = cc_trace st"
      "cc_failure_latched (on_session_terminal an g r st) \<or> cc_stop_requested (on_session_terminal an g r st)"
      using t ended_session_fields [where r = r and st = st] True
      by (simp_all add: on_session_terminal_ended g Let_def end_stopped_session_def)
        (auto simp: finalize_run_def cc_helpers)
    from life_terminal [OF inv True this] show ?thesis .
  next
    case False
    then have pre: "may_end c ?st" "cc_reconnect_waits st = 0"
      using life_may_end [OF inv False] ended_session_may_end en g inv by (auto simp: life_inv_def)
    have stop: "cc_stop_requested st \<Longrightarrow> life_inv c (end_stopped_session an r ?st)"
      using pre(1) by (intro end_stopped_life) (simp_all add: ended_session_fields)
    have latch: "life_inv c (finalize_run an (latch_failure e ?st))" if "e \<noteq> LCE_none" for e
      using pre(1) that by (simp add: may_end_finalize may_end_latch)
    have "life_inv c (schedule_reconnect an (count_up lcm_recoverable_session_failures_update ?st))"
      if "\<not> cc_failure_latched ?st" "\<not> cc_epoch_exhausted st"
      by (rule schedule_life) (use that pre in \<open>simp_all add: ended_session_fields\<close>, simp_all add: cc_helpers ended_session_fields)
    with pre(1) stop latch show ?thesis
      by (simp add: on_session_terminal_ended g Let_def may_end_finalize)
  qed
qed

section \<open>Every run\<close>

lemma step_life:
  assumes "life_inv c st" and "event_enabled st ev"
  shows "life_inv c (controller_step an ev st)"
proof (cases ev)
  case (Cc_text g m)
  have "life_inv c (if g = cc_generation st
      then update_session (sh_last_sequence_update (\<lambda>_. wm_connection_sequence m)) st else st)"
    using assms(1) by (simp add: life_update_session)
  with Cc_text show ?thesis by (simp add: text_life)
next
  case (Cc_reconnect_timer e)
  then show ?thesis using reconnect_life [OF assms(1), of e an] assms(2) by simp
qed (use assms in \<open>simp_all add: start_life stop_life request_stop_life open_life control_life session_terminal_life
      stable_life timeout_life resume_life post_failure_life\<close>)

lemma runs_life: "controller_runs st steps st' \<Longrightarrow> life_inv c st \<Longrightarrow> life_inv c st'"
  by (induction rule: controller_runs.induct) (simp_all add: step_life)

lemma created_controller:
  assumes "create_controller an subscription output has_callback options allocated construction started = Inr st"
  shows "life_inv has_callback st" and "valid_reconnect_options options" and "cc_options st = options"
  using assms
  by (auto simp: create_controller_def create_session_def life_inv_def default_capture_result_def act_def Let_def
      split: option.splits if_splits sum.splits)

end
