(* ===== verification/Command_Line.thy ===== *)
theory Command_Line
  imports Symbol_Identity Payload_Types
begin

text \<open>
  The command line (\<open>include/hft/command_line.h\<close>, \<open>src/command_line.cpp\<close>).  \<open>argv\<close> is the array the
  program receives, \<^term>\<open>None\<close> standing for a null pointer; the first \<open>argc\<close> entries may be read.
  \<open>throws i\<close> says whether storing the value of the option at index \<open>i\<close> ends in \<open>std::bad_alloc\<close>.
\<close>

section \<open>Data\<close>

datatype ApplicationMode = Mode_help | Mode_live_capture | Mode_replay

datatype CommandLineErrorCode =
    CLE_none | CLE_allocation_failure | CLE_unknown_argument | CLE_missing_value | CLE_duplicate_option
  | CLE_invalid_venue | CLE_invalid_symbols | CLE_invalid_duration | CLE_invalid_output_directory
  | CLE_missing_replay_output | CLE_missing_mode | CLE_missing_live_option | CLE_mixed_modes
  | CLE_too_many_replay_inputs | CLE_duplicate_replay_input | CLE_help_with_other_options

record CommandLineOptions =
  clo_mode :: ApplicationMode
  clo_venue :: PayloadVenue
  clo_symbols :: "string list"
  clo_replay_inputs :: "string list"
  clo_output_directory :: string
  clo_duration_seconds :: "int option"

definition default_options :: CommandLineOptions where
  "default_options = \<lparr>clo_mode = Mode_help, clo_venue = Venue_spot, clo_symbols = [], clo_replay_inputs = [],
     clo_output_directory = ''./output'', clo_duration_seconds = None\<rparr>"

record CommandLineParseResult =
  clr_options :: CommandLineOptions
  clr_error :: CommandLineErrorCode
  clr_argument_index :: nat

definition clr_success :: "CommandLineParseResult \<Rightarrow> bool" where
  "clr_success r \<longleftrightarrow> clr_error r = CLE_none"

type_synonym argument_vector = "string option list"

section \<open>Values\<close>

text \<open>Whether a value was read, the index after reading and the value.\<close>

definition option_value :: "int \<Rightarrow> argument_vector \<Rightarrow> nat \<Rightarrow> bool \<times> nat \<times> string" where
  "option_value argc argv index =
     (if int index + 1 \<ge> argc then (False, index, [])
      else case argv ! (index + 1) of
        None \<Rightarrow> (False, index, [])
      | Some value \<Rightarrow> (value \<noteq> [], index + 1, value))"

text \<open>The loop of \<open>normalize_symbol\<close>; \<open>output\<close> is what has been appended.\<close>

fun normalize_bytes :: "string \<Rightarrow> string \<Rightarrow> string option" where
  "normalize_bytes [] output = Some output"
| "normalize_bytes (byte # input) output =
     (if is_lower byte then normalize_bytes input (output @ [char_of (byte_of byte - 97 + 65)])
      else if is_upper byte \<or> is_digit byte then normalize_bytes input (output @ [byte])
      else None)"

definition normalize_symbol :: "string \<Rightarrow> string option" where
  "normalize_symbol input =
     (if input = [] \<or> length input > kMaxNormalizedSymbolBytes then None else normalize_bytes input [])"

text \<open>\<open>value.find(',', begin)\<close>.\<close>

definition find_comma :: "string \<Rightarrow> nat \<Rightarrow> nat option" where
  "find_comma value begin =
     (let skipped = length (takeWhile (\<lambda>c. c \<noteq> CHR '','') (drop begin value))
      in if begin + skipped < length value then Some (begin + skipped) else None)"

text \<open>Whether the loop ended without an early return, and the symbols collected so far.\<close>

function collect_symbols :: "string \<Rightarrow> nat \<Rightarrow> string list \<Rightarrow> bool \<times> string list" where
  "collect_symbols value begin symbols =
     (if \<not> begin \<le> length value then (True, symbols)
      else
        let comma = find_comma value begin;
            stop = (case comma of None \<Rightarrow> length value | Some c \<Rightarrow> c)
        in if length symbols = kMaxConfiguredSymbols then (False, symbols)
           else case normalize_symbol (take (stop - begin) (drop begin value)) of
             None \<Rightarrow> (False, symbols)
           | Some normalized \<Rightarrow>
               (case comma of
                  None \<Rightarrow> (True, symbols @ [normalized])
                | Some c \<Rightarrow> collect_symbols value (c + 1) (symbols @ [normalized])))"
  by pat_completeness auto
termination
  by (relation "measure (\<lambda>(value, begin, _). length value + 1 - begin)")
     (auto simp: find_comma_def Let_def split: if_splits)

declare collect_symbols.simps [simp del]

definition parse_symbols :: "string \<Rightarrow> bool \<times> string list" where
  "parse_symbols value =
     (case collect_symbols value 0 [] of
        (False, symbols) \<Rightarrow> (False, symbols)
      | (True, symbols) \<Rightarrow> (symset_has_value (validate_symbol_set (Some symbols) (length symbols)), symbols))"

definition parse_positive_integer :: "string \<Rightarrow> int option" where
  "parse_positive_integer value =
     (if value = [] \<or> hd value = CHR ''+'' \<or> hd value = CHR ''-'' then None
      else case from_chars False 0 18446744073709551615 value of
        FC_ok output rest \<Rightarrow> if rest = [] \<and> output \<noteq> 0 then Some output else None
      | _ \<Rightarrow> None)"

text \<open>\<open>std::chrono::steady_clock::duration\<close> counts nanoseconds in a signed 64-bit integer.\<close>

definition maximum_duration_seconds :: int where
  "maximum_duration_seconds = i64_max div 1000000000"

definition valid_live_duration :: "int \<Rightarrow> bool" where
  "valid_live_duration seconds \<longleftrightarrow> maximum_duration_seconds > 0 \<and> seconds \<le> maximum_duration_seconds"

section \<open>Arguments\<close>

record ParseState =
  ps_options :: CommandLineOptions
  help_seen :: bool
  venue_seen :: bool
  symbols_seen :: bool
  output_seen :: bool
  duration_seen :: bool

definition initial_parse_state :: ParseState where
  "initial_parse_state = \<lparr>ps_options = default_options, help_seen = False, venue_seen = False,
     symbols_seen = False, output_seen = False, duration_seen = False\<rparr>"

text \<open>How one pass through the loop body ends.\<close>

datatype argument_step =
    Arg_error CommandLineErrorCode nat ParseState
  | Arg_thrown
  | Arg_next nat ParseState

text \<open>
  An option that takes a value and may be given once: the duplicate check, the flag, and the reading of
  the value, as the four branches of the loop have them; \<open>use\<close> is the rest of the branch.
\<close>

definition single_value ::
    "int \<Rightarrow> argument_vector \<Rightarrow> nat \<Rightarrow> (ParseState \<Rightarrow> bool) \<Rightarrow> (ParseState \<Rightarrow> ParseState) \<Rightarrow> ParseState \<Rightarrow>
     (nat \<Rightarrow> string \<Rightarrow> ParseState \<Rightarrow> argument_step) \<Rightarrow> argument_step" where
  "single_value argc argv index seen mark st use =
     (if seen st then Arg_error CLE_duplicate_option index st
      else case option_value argc argv index of
        (False, index, _) \<Rightarrow> Arg_error CLE_missing_value index (mark st)
      | (True, index, value) \<Rightarrow> use index value (mark st))"

definition update_options :: "(CommandLineOptions \<Rightarrow> CommandLineOptions) \<Rightarrow> ParseState \<Rightarrow> ParseState" where
  "update_options f st = st\<lparr>ps_options := f (ps_options st)\<rparr>"

definition use_venue :: "nat \<Rightarrow> string \<Rightarrow> ParseState \<Rightarrow> argument_step" where
  "use_venue index value st =
     (if value = ''spot'' then Arg_next (index + 1) (update_options (clo_venue_update (\<lambda>_. Venue_spot)) st)
      else if value = ''usdm'' then Arg_next (index + 1) (update_options (clo_venue_update (\<lambda>_. Venue_usdm)) st)
      else Arg_error CLE_invalid_venue index st)"

definition use_symbols :: "(nat \<Rightarrow> bool) \<Rightarrow> nat \<Rightarrow> string \<Rightarrow> ParseState \<Rightarrow> argument_step" where
  "use_symbols throws index value st =
     (if throws index then Arg_thrown
      else case parse_symbols value of (ok, symbols) \<Rightarrow>
        let st = update_options (clo_symbols_update (\<lambda>_. symbols)) st
        in if ok then Arg_next (index + 1) st else Arg_error CLE_invalid_symbols index st)"

definition use_duration :: "nat \<Rightarrow> string \<Rightarrow> ParseState \<Rightarrow> argument_step" where
  "use_duration index value st =
     (case parse_positive_integer value of
        None \<Rightarrow> Arg_error CLE_invalid_duration index st
      | Some duration \<Rightarrow>
          if \<not> valid_live_duration duration then Arg_error CLE_invalid_duration index st
          else Arg_next (index + 1) (update_options (clo_duration_seconds_update (\<lambda>_. Some duration)) st))"

definition use_output :: "(nat \<Rightarrow> bool) \<Rightarrow> nat \<Rightarrow> string \<Rightarrow> ParseState \<Rightarrow> argument_step" where
  "use_output throws index value st =
     (if throws index then Arg_thrown
      else Arg_next (index + 1) (update_options (clo_output_directory_update (\<lambda>_. value)) st))"

definition use_replay :: "(nat \<Rightarrow> bool) \<Rightarrow> nat \<Rightarrow> string \<Rightarrow> ParseState \<Rightarrow> argument_step" where
  "use_replay throws index value st =
     (let inputs = clo_replay_inputs (ps_options st) in
      if length inputs = kMaxConfiguredSymbols then Arg_error CLE_too_many_replay_inputs index st
      else if list_ex (\<lambda>existing. existing = value) inputs then Arg_error CLE_duplicate_replay_input index st
      else if throws index then Arg_thrown
      else Arg_next (index + 1) (update_options (clo_replay_inputs_update (\<lambda>_. inputs @ [value])) st))"

text \<open>The body of the loop at \<open>index\<close>.\<close>

definition parse_argument :: "(nat \<Rightarrow> bool) \<Rightarrow> int \<Rightarrow> argument_vector \<Rightarrow> nat \<Rightarrow> ParseState \<Rightarrow> argument_step" where
  "parse_argument throws argc argv index st =
     (case argv ! index of
        None \<Rightarrow> Arg_error CLE_unknown_argument index st
      | Some argument \<Rightarrow>
          if argument = ''--help'' then
            (if help_seen st then Arg_error CLE_duplicate_option index st
             else Arg_next (index + 1) (st\<lparr>help_seen := True\<rparr>))
          else if argument = ''--venue'' then
            single_value argc argv index venue_seen (venue_seen_update (\<lambda>_. True)) st use_venue
          else if argument = ''--symbols'' then
            single_value argc argv index symbols_seen (symbols_seen_update (\<lambda>_. True)) st (use_symbols throws)
          else if argument = ''--duration'' then
            single_value argc argv index duration_seen (duration_seen_update (\<lambda>_. True)) st use_duration
          else if argument = ''--output-dir'' then
            single_value argc argv index output_seen (output_seen_update (\<lambda>_. True)) st (use_output throws)
          else if argument = ''--replay'' then
            single_value argc argv index (\<lambda>_. False) id st (use_replay throws)
          else Arg_error CLE_unknown_argument index st)"

text \<open>Every pass moves the index forward, so that the loop ends.\<close>

lemma single_value_advances:
  assumes "\<And>i v s. use i v s = Arg_next index' st' \<Longrightarrow> index' = i + 1"
    and "single_value argc argv index seen mark st use = Arg_next index' st'"
  shows "index < index'"
  using assms(2) by (auto simp: single_value_def option_value_def split: if_splits bool.splits option.splits dest: assms(1))

lemma parse_argument_advances: "parse_argument throws argc argv index st = Arg_next index' st' \<Longrightarrow> index < index'"
  by (auto simp: parse_argument_def use_venue_def use_symbols_def use_duration_def use_output_def use_replay_def Let_def
      split: option.splits if_splits prod.splits elim!: single_value_advances [rotated])

function parse_arguments :: "(nat \<Rightarrow> bool) \<Rightarrow> int \<Rightarrow> argument_vector \<Rightarrow> nat \<Rightarrow> ParseState \<Rightarrow> argument_step" where
  "parse_arguments throws argc argv index st =
     (if int index < argc then
        (case parse_argument throws argc argv index st of
           Arg_next index st \<Rightarrow> parse_arguments throws argc argv index st
         | failed \<Rightarrow> failed)
      else Arg_next index st)"
  by pat_completeness auto
termination
  by (relation "measure (\<lambda>(_, argc, _, index, _). nat (argc - int index))") (auto dest: parse_argument_advances)

declare parse_arguments.simps [simp del]

section \<open>Modes\<close>

definition command_line_error :: "CommandLineErrorCode \<Rightarrow> nat \<Rightarrow> CommandLineOptions \<Rightarrow> CommandLineParseResult" where
  "command_line_error e index options = \<lparr>clr_options = options, clr_error = e, clr_argument_index = index\<rparr>"

definition command_line_mode :: "ApplicationMode \<Rightarrow> CommandLineOptions \<Rightarrow> CommandLineParseResult" where
  "command_line_mode mode options =
     \<lparr>clr_options = options\<lparr>clo_mode := mode\<rparr>, clr_error = CLE_none, clr_argument_index = 0\<rparr>"

definition resolve_mode :: "int \<Rightarrow> ParseState \<Rightarrow> CommandLineParseResult" where
  "resolve_mode argc st =
     (let options = ps_options st in
      if help_seen st then
        (if argc \<noteq> 2 then command_line_error CLE_help_with_other_options 0 options
         else command_line_mode Mode_help options)
      else if clo_replay_inputs options \<noteq> [] then
        (if venue_seen st \<or> symbols_seen st \<or> duration_seen st then command_line_error CLE_mixed_modes 0 options
         else if \<not> output_seen st then command_line_error CLE_missing_replay_output 0 options
         else command_line_mode Mode_replay options)
      else if \<not> venue_seen st \<and> \<not> symbols_seen st \<and> \<not> duration_seen st
      then command_line_error CLE_missing_mode 0 options
      else if \<not> venue_seen st \<or> \<not> symbols_seen st then command_line_error CLE_missing_live_option 0 options
      else command_line_mode Mode_live_capture options)"

text \<open>\<^term>\<open>None\<close>: \<open>std::bad_alloc\<close> was thrown.\<close>

definition parse_command_line_impl ::
    "(nat \<Rightarrow> bool) \<Rightarrow> int \<Rightarrow> argument_vector option \<Rightarrow> CommandLineParseResult option" where
  "parse_command_line_impl throws argc argv =
     (case argv of
        None \<Rightarrow> Some (command_line_error CLE_missing_mode 0 default_options)
      | Some argv \<Rightarrow>
          if argc \<le> 1 then Some (command_line_error CLE_missing_mode 0 default_options)
          else case parse_arguments throws argc argv 1 initial_parse_state of
            Arg_thrown \<Rightarrow> None
          | Arg_error e index st \<Rightarrow> Some (command_line_error e index (ps_options st))
          | Arg_next _ st \<Rightarrow> Some (resolve_mode argc st))"

definition parse_command_line ::
    "(nat \<Rightarrow> bool) \<Rightarrow> int \<Rightarrow> argument_vector option \<Rightarrow> CommandLineParseResult" where
  "parse_command_line throws argc argv =
     (case parse_command_line_impl throws argc argv of
        Some result \<Rightarrow> result
      | None \<Rightarrow> command_line_error CLE_allocation_failure 0 default_options)"

end
