(* ===== verification/Live_Run_Loop.thy ===== *)
theory Live_Run_Loop
  imports Live_Capture_Life Command_Line
begin

text \<open>
  The run loop (\<open>include/hft/live_run_loop.h\<close>, \<open>src/live_run_loop.cpp\<close>): signals and the duration timer
  stop the capture controller, whose report ends the loop.  The state of the loop and of its controller
  are kept side by side; a handler of the loop calls the controller's operations, and a report of the
  controller is delivered to the loop.
\<close>

section \<open>Data\<close>

datatype LiveRunLoopCreateError = LRC_none | LRC_invalid_duration | LRC_initialization_failure

datatype LiveRunLoopErrorCode =
    LRE_none | LRE_signal_wait_failure | LRE_duration_wait_failure | LRE_no_successful_connection
  | LRE_stop_request_failure

record LiveRunLoopResult =
  lrr_capture :: LiveCaptureResult
  lrr_error :: LiveRunLoopErrorCode
  lrr_signals_received :: u64
  lrr_repeated_signals :: u64
  lrr_duration_expired :: bool
  lrr_terminal :: bool

definition default_run_result :: LiveRunLoopResult where
  "default_run_result = \<lparr>lrr_capture = default_capture_result, lrr_error = LRE_none, lrr_signals_received = 0,
     lrr_repeated_signals = 0, lrr_duration_expired = False, lrr_terminal = False\<rparr>"

text \<open>\<open>rl_controller\<close>: the pointer to the controller is set; \<open>rl_io_stopped\<close>: \<open>io_context.stop()\<close> was called.\<close>

record RunLoopImpl =
  rl_duration_seconds :: "int option"
  rl_controller :: bool
  rl_result :: LiveRunLoopResult
  rl_terminal :: bool
  rl_started :: bool
  rl_stop_started :: bool
  rl_terminal_started :: bool
  rl_io_stopped :: bool

text \<open>What is outside during one handler: which calls throw, and what the controller's components answer.\<close>

record LoopAnswers =
  la_arm_throws :: bool
  la_timer_throws :: bool
  la_stop_throws :: bool
  la_controller :: Answers

record LiveRun =
  run_loop :: RunLoopImpl
  run_controller :: ControllerImpl

section \<open>Operations\<close>

definition valid_duration :: "int option \<Rightarrow> bool" where
  "valid_duration seconds =
     (case seconds of
        None \<Rightarrow> True
      | Some s \<Rightarrow> if s = 0 then False else maximum_duration_seconds > 0 \<and> s \<le> maximum_duration_seconds)"

definition latch_control_error :: "LiveRunLoopErrorCode \<Rightarrow> RunLoopImpl \<Rightarrow> RunLoopImpl" where
  "latch_control_error e rl =
     (if lrr_error (rl_result rl) = LRE_none then rl\<lparr>rl_result := (rl_result rl)\<lparr>lrr_error := e\<rparr>\<rparr> else rl)"

definition create_loop :: "int option \<Rightarrow> bool \<Rightarrow> LiveRunLoopCreateError + RunLoopImpl" where
  "create_loop duration_seconds constructed =
     (if \<not> valid_duration duration_seconds then Inl LRC_invalid_duration
      else if \<not> constructed then Inl LRC_initialization_failure
      else Inr \<lparr>rl_duration_seconds = duration_seconds, rl_controller = False, rl_result = default_run_result,
                rl_terminal = False, rl_started = False, rl_stop_started = False, rl_terminal_started = False,
                rl_io_stopped = False\<rparr>)"

text \<open>\<open>present\<close>: the argument is not a null pointer.\<close>

definition attach_controller :: "bool \<Rightarrow> RunLoopImpl \<Rightarrow> bool \<times> RunLoopImpl" where
  "attach_controller present rl =
     (if \<not> present \<or> rl_controller rl \<or> rl_started rl \<or> rl_terminal rl then (False, rl)
      else (True, rl\<lparr>rl_controller := True\<rparr>))"

definition on_capture_terminal :: "LiveCaptureResult \<Rightarrow> RunLoopImpl \<Rightarrow> RunLoopImpl" where
  "on_capture_terminal result rl =
     (if rl_terminal_started rl then rl
      else
        let rl = rl\<lparr>rl_terminal_started := True, rl_result := (rl_result rl)\<lparr>lrr_capture := result\<rparr>\<rparr>;
            rl = (if lrr_error (rl_result rl) = LRE_none \<and> lrr_duration_expired (rl_result rl) \<and> lcr_success result \<and>
                     lcm_successful_connections (lcr_metrics result) = 0
                  then rl\<lparr>rl_result := (rl_result rl)\<lparr>lrr_error := LRE_no_successful_connection\<rparr>\<rparr> else rl)
        in rl\<lparr>rl_result := (rl_result rl)\<lparr>lrr_terminal := True\<rparr>, rl_controller := False, rl_terminal := True\<rparr>)"

text \<open>\<open>controller->stop()\<close> requests the stop before its post can throw.\<close>

definition loop_request_stop :: "LoopAnswers \<Rightarrow> LiveRun \<Rightarrow> LiveRun" where
  "loop_request_stop la r =
     (let rl = (run_loop r)\<lparr>rl_stop_started := True\<rparr>;
          ctl = controller_stop (run_controller r)
      in if la_stop_throws la \<and> \<not> cc_terminal (run_controller r)
         then \<lparr>run_loop = (latch_control_error LRE_stop_request_failure rl)\<lparr>rl_io_stopped := True\<rparr>, run_controller = ctl\<rparr>
         else \<lparr>run_loop = rl, run_controller = ctl\<rparr>)"

definition on_signal :: "LoopAnswers \<Rightarrow> timer_result \<Rightarrow> LiveRun \<Rightarrow> LiveRun" where
  "on_signal la e r =
     (if e = Timer_aborted \<or> rl_terminal (run_loop r) then r
      else if e \<noteq> Timer_expired
      then loop_request_stop la (r\<lparr>run_loop := latch_control_error LRE_signal_wait_failure (run_loop r)\<rparr>)
      else
        let result = rl_result (run_loop r);
            result = result\<lparr>lrr_signals_received := lrr_signals_received result + 1\<rparr>;
            result = (if rl_stop_started (run_loop r)
                      then result\<lparr>lrr_repeated_signals := lrr_repeated_signals result + 1\<rparr> else result);
            rl = (run_loop r)\<lparr>rl_result := result\<rparr>
        in loop_request_stop la (r\<lparr>run_loop :=
             (if la_arm_throws la then latch_control_error LRE_signal_wait_failure rl else rl)\<rparr>))"

definition on_duration :: "LoopAnswers \<Rightarrow> timer_result \<Rightarrow> LiveRun \<Rightarrow> LiveRun" where
  "on_duration la e r =
     (if e = Timer_aborted \<or> rl_terminal (run_loop r) then r
      else
        let rl = run_loop r;
            rl = (if e \<noteq> Timer_expired then latch_control_error LRE_duration_wait_failure rl
                  else rl\<lparr>rl_result := (rl_result rl)\<lparr>lrr_duration_expired := True\<rparr>\<rparr>)
        in loop_request_stop la (r\<lparr>run_loop := rl\<rparr>))"

section \<open>Loop and controller together\<close>

fun action_reports :: "cc_action \<Rightarrow> LiveCaptureResult list" where
  "action_reports (Act_terminal r) = [r]"
| "action_reports _ = []"

definition trace_reports :: "cc_action list \<Rightarrow> LiveCaptureResult list" where
  "trace_reports tr = concat (map action_reports tr)"

text \<open>The capture callback for every report the controller has made in the step to \<open>ctl\<close>.\<close>

definition deliver_reports :: "ControllerImpl \<Rightarrow> LiveRun \<Rightarrow> LiveRun" where
  "deliver_reports ctl r =
     \<lparr>run_loop = fold on_capture_terminal
        (trace_reports (drop (length (cc_trace (run_controller r))) (cc_trace ctl))) (run_loop r),
      run_controller = ctl\<rparr>"

text \<open>The boolean says whether the call threw.\<close>

definition loop_start :: "LoopAnswers \<Rightarrow> LiveRun \<Rightarrow> bool \<times> LiveRun" where
  "loop_start la r =
     (if rl_started (run_loop r) \<or> \<not> rl_controller (run_loop r) \<or> rl_terminal (run_loop r) then (False, r)
      else
        let r = r\<lparr>run_loop := (run_loop r)\<lparr>rl_started := True\<rparr>\<rparr> in
        if la_arm_throws la then (True, r)
        else if rl_duration_seconds (run_loop r) \<noteq> None \<and> la_timer_throws la then (True, r)
        else case controller_start (la_controller la) (run_controller r) of
          (threw, ctl) \<Rightarrow> (threw, deliver_reports ctl r))"

datatype run_event =
    Run_start
  | Run_signal timer_result
  | Run_duration timer_result
  | Run_controller cc_event

fun run_step :: "LoopAnswers \<Rightarrow> run_event \<Rightarrow> LiveRun \<Rightarrow> LiveRun" where
  "run_step la Run_start r = snd (loop_start la r)"
| "run_step la (Run_signal e) r = on_signal la e r"
| "run_step la (Run_duration e) r = on_duration la e r"
| "run_step la (Run_controller ev) r = deliver_reports (controller_step (la_controller la) ev (run_controller r)) r"

text \<open>
  Signals and the timer are awaited once the loop has started.  Only the loop starts and stops the
  controller, on the thread that runs the handlers, so that no stop comes during a handler.
\<close>

fun run_enabled :: "LoopAnswers \<Rightarrow> run_event \<Rightarrow> LiveRun \<Rightarrow> bool" where
  "run_enabled la Run_start r = (\<not> an_stop_late (la_controller la))"
| "run_enabled la (Run_signal e) r = rl_started (run_loop r)"
| "run_enabled la (Run_duration e) r = (rl_started (run_loop r) \<and> rl_duration_seconds (run_loop r) \<noteq> None)"
| "run_enabled la (Run_controller ev) r =
     (ev \<noteq> Cc_start \<and> ev \<noteq> Cc_stop \<and> event_enabled (run_controller r) ev \<and> \<not> an_stop_late (la_controller la))"

inductive live_runs :: "LiveRun \<Rightarrow> (LoopAnswers \<times> run_event) list \<Rightarrow> LiveRun \<Rightarrow> bool" where
  live_empty: "live_runs r [] r"
| live_step: "live_runs r steps r' \<Longrightarrow> run_enabled la ev r' \<Longrightarrow> live_runs r (steps @ [(la, ev)]) (run_step la ev r')"

end
