(* ===== verification/Replay_Reader.thy ===== *)
theory Replay_Reader
  imports Event_Processor
begin

text \<open>
  The replay reader (\<^verbatim>\<open>src/market_data_replay.cpp\<close>).  The file descriptor is the finite sequence of
  results its \<open>read\<close> calls will give, end of file for ever after; \<open>read_byte\<close> refills the buffer from
  it, \<open>read_logical_record\<close> frames one CSV record with a four-state machine, \<open>decode_record\<close> turns it
  into a record, and \<open>next\<close> checks the file's identity and the order of its connection coordinates
  and latches the first error.
\<close>

section \<open>Data\<close>

definition kReplayReadBufferBytes :: nat where "kReplayReadBufferBytes = 65536"

datatype ReplayColumn =
    Col_none | Col_header | Col_recv_tsec | Col_recv_tnsec | Col_venue | Col_stream_kind | Col_shard_id
  | Col_conn_epoch | Col_conn_seq | Col_symbol | Col_payload_json

datatype ReplayReadErrorCode =
    RR_none
  | RR_invalid_path
  | RR_open_failed
  | RR_allocation_failure
  | RR_read_failed
  | RR_invalid_header
  | RR_record_too_large
  | RR_truncated_record
  | RR_invalid_csv
  | RR_wrong_column_count
  | RR_invalid_integer
  | RR_invalid_range
  | RR_invalid_enum
  | RR_invalid_symbol
  | RR_payload_too_large
  | RR_changing_symbol
  | RR_changing_venue
  | RR_decreasing_epoch
  | RR_non_increasing_connection_sequence

record ReplayReadError =
  rre_code :: ReplayReadErrorCode
  rre_column :: ReplayColumn
  rre_logical_record_number :: u64
  rre_native_error :: int

definition no_read_error :: ReplayReadError where
  "no_read_error = \<lparr>rre_code = RR_none, rre_column = Col_none, rre_logical_record_number = 0, rre_native_error = 0\<rparr>"

definition is_read_error :: "ReplayReadError \<Rightarrow> bool" where
  "is_read_error e \<longleftrightarrow> rre_code e \<noteq> RR_none"

datatype ReplayReadStatus = Read_record | Read_end_of_file | Read_error

text \<open>The payload buffer has room for the largest payload and the padding; it is zero at first.\<close>

record ReplayRecord =
  rec_timestamp :: CsvTimestamp
  rec_venue :: PayloadVenue
  rec_stream_kind :: SpotStreamKind
  rec_shard_id :: u32
  rec_connection_epoch :: u64
  rec_connection_sequence :: u64
  rec_symbol :: string
  rec_payload_bytes :: "nat \<Rightarrow> char"
  rec_payload_size :: nat

definition record_init :: ReplayRecord where
  "record_init = \<lparr>rec_timestamp = \<lparr>ts_seconds = 0, ts_nanoseconds = 0\<rparr>, rec_venue = Venue_spot,
     rec_stream_kind = Depth_diff, rec_shard_id = 0, rec_connection_epoch = 0, rec_connection_sequence = 0,
     rec_symbol = [], rec_payload_bytes = (\<lambda>_. CHR 0x00), rec_payload_size = 0\<rparr>"

definition rec_context :: "ReplayRecord \<Rightarrow> EventContext" where
  "rec_context r = \<lparr>ctx_timestamp = rec_timestamp r, ctx_venue = rec_venue r,
     ctx_stream_kind = rec_stream_kind r, ctx_shard_id = rec_shard_id r,
     ctx_connection_epoch = rec_connection_epoch r, ctx_connection_sequence = rec_connection_sequence r,
     ctx_symbol = rec_symbol r\<rparr>"

definition rec_payload :: "ReplayRecord \<Rightarrow> PaddedJsonView" where
  "rec_payload r = \<lparr>pj_data = Some (map (rec_payload_bytes r) [0 ..< rec_payload_size r]),
     pj_size = rec_payload_size r, pj_capacity = kMaxPayloadBytes + kJsonPaddingBytes\<rparr>"

section \<open>Bytes\<close>

text \<open>What a \<open>read\<close> call returns: bytes, end of file, \<open>EINTR\<close>, or another error number.\<close>

datatype os_read = OS_bytes string | OS_eof | OS_eintr | OS_errno int

record ReplayInput =
  ri_unread :: string
  ri_reads :: "os_read list"

datatype byte_read = Byte char | Byte_end_of_file | Byte_error int

text \<open>The refill loop; an empty answer is the end of file.\<close>

fun refill :: "os_read list \<Rightarrow> byte_read + (char \<times> string) \<times> os_read list" where
  "refill [] = Inl Byte_end_of_file"
| "refill (OS_bytes [] # rest) = Inl Byte_end_of_file"
| "refill (OS_bytes (c # cs) # rest) = Inr ((c, cs), rest)"
| "refill (OS_eof # rest) = Inl Byte_end_of_file"
| "refill (OS_eintr # rest) = refill rest"
| "refill (OS_errno e # rest) = Inl (Byte_error e)"

text \<open>What remains after the calls of a refill that found no byte.\<close>

fun after_refill :: "os_read list \<Rightarrow> os_read list" where
  "after_refill [] = []"
| "after_refill (OS_eintr # rest) = after_refill rest"
| "after_refill (x # rest) = rest"

definition read_byte :: "ReplayInput \<Rightarrow> byte_read \<times> ReplayInput" where
  "read_byte input =
     (case ri_unread input of
        c # cs \<Rightarrow> (Byte c, input\<lparr>ri_unread := cs\<rparr>)
      | [] \<Rightarrow>
          (case refill (ri_reads input) of
             Inl status \<Rightarrow> (status, input\<lparr>ri_reads := after_refill (ri_reads input)\<rparr>)
           | Inr ((c, cs), rest) \<Rightarrow> (Byte c, \<lparr>ri_unread = cs, ri_reads = rest\<rparr>)))"

section \<open>Framing\<close>

datatype CsvFrameState = Field_start | Unquoted | Quoted | Quote_closed

datatype frame_step = Frame_continue CsvFrameState | Frame_complete | Frame_invalid

fun frame_byte :: "CsvFrameState \<Rightarrow> char \<Rightarrow> frame_step" where
  "frame_byte Field_start byte =
     (if byte = quote_char then Frame_continue Quoted
      else if byte = CHR '','' then Frame_continue Field_start
      else if byte = newline then Frame_complete
      else Frame_continue Unquoted)"
| "frame_byte Unquoted byte =
     (if byte = quote_char then Frame_invalid
      else if byte = CHR '','' then Frame_continue Field_start
      else if byte = newline then Frame_complete
      else Frame_continue Unquoted)"
| "frame_byte Quoted byte = (if byte = quote_char then Frame_continue Quote_closed else Frame_continue Quoted)"
| "frame_byte Quote_closed byte =
     (if byte = quote_char then Frame_continue Quoted
      else if byte = CHR '','' then Frame_continue Field_start
      else if byte = newline then Frame_complete
      else Frame_invalid)"

datatype logical_read =
    Logical_record string
  | Logical_end_of_file
  | Logical_error ReplayReadErrorCode int

definition pending_bytes :: "ReplayInput \<Rightarrow> nat" where
  "pending_bytes input = length (ri_unread input) +
     sum_list (map (\<lambda>r. case r of OS_bytes cs \<Rightarrow> length cs | _ \<Rightarrow> 0) (ri_reads input))"

lemma refill_pending:
  "refill rs = Inr ((c, cs), rest) \<Longrightarrow>
     Suc (length cs) + sum_list (map (\<lambda>r. case r of OS_bytes cs \<Rightarrow> length cs | _ \<Rightarrow> 0) rest)
       = sum_list (map (\<lambda>r. case r of OS_bytes cs \<Rightarrow> length cs | _ \<Rightarrow> 0) rs)"
  by (induction rs rule: refill.induct) auto

lemma refill_no_byte [simp]: "refill rs \<noteq> Inl (Byte c)"
  by (induction rs rule: refill.induct) auto

lemma read_byte_pending:
  "read_byte input = (Byte c, input') \<Longrightarrow> pending_bytes input = Suc (pending_bytes input')"
  by (auto simp: read_byte_def pending_bytes_def split: list.splits sum.splits dest: refill_pending)

text \<open>\<open>taken\<close> is the content of the record buffer.\<close>

function read_record_loop :: "ReplayInput \<Rightarrow> string \<Rightarrow> CsvFrameState \<Rightarrow> logical_read \<times> ReplayInput" where
  "read_record_loop input taken state =
     (case read_byte input of
        (Byte_error e, input) \<Rightarrow> (Logical_error RR_read_failed e, input)
      | (Byte_end_of_file, input) \<Rightarrow>
          (if length taken = 0 then Logical_end_of_file else Logical_error RR_truncated_record 0, input)
      | (Byte byte, input) \<Rightarrow>
          if length taken = kMaxCsvRecordBytes then (Logical_error RR_record_too_large 0, input)
          else
            (case frame_byte state byte of
               Frame_continue state \<Rightarrow> read_record_loop input (taken @ [byte]) state
             | Frame_complete \<Rightarrow> (Logical_record (taken @ [byte]), input)
             | Frame_invalid \<Rightarrow> (Logical_error RR_invalid_csv 0, input)))"
  by pat_completeness auto
termination
  by (relation "measure (\<lambda>(input, _, _). pending_bytes input)") (auto simp: read_byte_pending [OF sym])

declare read_record_loop.simps [simp del]

definition read_logical_record :: "ReplayInput \<Rightarrow> logical_read \<times> ReplayInput" where
  "read_logical_record input = read_record_loop input [] Field_start"

section \<open>Decoding\<close>

definition kUnquotedColumns :: "ReplayColumn list" where
  "kUnquotedColumns = [Col_recv_tsec, Col_recv_tnsec, Col_venue, Col_stream_kind, Col_shard_id,
     Col_conn_epoch, Col_conn_seq, Col_symbol]"

text \<open>\<open>std::from_chars\<close> on the whole field, for the type with the given range.\<close>

definition parse_integer :: "bool \<Rightarrow> int \<Rightarrow> int \<Rightarrow> string \<Rightarrow> int option" where
  "parse_integer is_signed lo hi field =
     (if field = [] then None
      else case from_chars is_signed lo hi field of
        FC_ok v rest \<Rightarrow> if rest = [] then Some v else None
      | _ \<Rightarrow> None)"

definition parse_venue :: "string \<Rightarrow> PayloadVenue option" where
  "parse_venue field =
     (if field = ''spot'' then Some Venue_spot else if field = ''usdm'' then Some Venue_usdm else None)"

definition parse_stream_kind :: "string \<Rightarrow> SpotStreamKind option" where
  "parse_stream_kind field =
     (if field = ''depth_diff'' then Some Depth_diff else if field = ''depth5'' then Some Depth5
      else if field = ''trade'' then Some Trade else None)"

definition forbidden_unquoted_byte :: "char \<Rightarrow> bool" where
  "forbidden_unquoted_byte byte \<longleftrightarrow> byte = quote_char \<or> byte_of byte = 13 \<or> byte = newline"

text \<open>The scan for the comma that ends a field.\<close>

fun scan_field :: "string \<Rightarrow> ReplayReadErrorCode + string \<times> string" where
  "scan_field [] = Inl RR_wrong_column_count"
| "scan_field (c # cs) =
     (if c = CHR '','' then Inr ([], cs)
      else if forbidden_unquoted_byte c then Inl RR_invalid_csv
      else case scan_field cs of Inl e \<Rightarrow> Inl e | Inr (f, rest) \<Rightarrow> Inr (c # f, rest))"

fun scan_fields :: "ReplayColumn list \<Rightarrow> string \<Rightarrow> (ReplayReadErrorCode \<times> ReplayColumn) + string list \<times> string" where
  "scan_fields [] row = Inr ([], row)"
| "scan_fields (column # columns) row =
     (case scan_field row of
        Inl e \<Rightarrow> Inl (e, column)
      | Inr (f, rest) \<Rightarrow>
          (case scan_fields columns rest of
             Inl e \<Rightarrow> Inl e
           | Inr (fs, rest) \<Rightarrow> Inr (f # fs, rest)))"

text \<open>
  The payload between its quotes.  Bytes are stored as they are decoded, also when an error follows:
  the result is the bytes stored and the error, if any.
\<close>

fun decode_quoted :: "string \<Rightarrow> string \<Rightarrow> string \<times> ReplayReadErrorCode option" where
  "decode_quoted [] decoded = (decoded, None)"
| "decode_quoted (c # cs) decoded =
     (if c = quote_char then
        (case cs of
           [] \<Rightarrow> (decoded, Some RR_invalid_csv)
         | d # ds \<Rightarrow>
             if d \<noteq> quote_char then (decoded, Some RR_invalid_csv)
             else if length decoded = kMaxPayloadBytes then (decoded, Some RR_payload_too_large)
             else decode_quoted ds (decoded @ [quote_char]))
      else if length decoded = kMaxPayloadBytes then (decoded, Some RR_payload_too_large)
      else decode_quoted cs (decoded @ [c]))"

definition store_bytes :: "(nat \<Rightarrow> char) \<Rightarrow> string \<Rightarrow> nat \<Rightarrow> char" where
  "store_bytes bytes s i = (if i < length s then s ! i else bytes i)"

definition clear_padding :: "(nat \<Rightarrow> char) \<Rightarrow> nat \<Rightarrow> nat \<Rightarrow> char" where
  "clear_padding bytes from_index i =
     (if from_index \<le> i \<and> i < from_index + kJsonPaddingBytes then CHR 0x00 else bytes i)"

text \<open>The checks of the eight plain fields, in the order of the source.\<close>

definition decode_fields ::
    "string list \<Rightarrow> (ReplayReadErrorCode \<times> ReplayColumn) +
       CsvTimestamp \<times> PayloadVenue \<times> SpotStreamKind \<times> u32 \<times> u64 \<times> u64 \<times> string" where
  "decode_fields fs =
     (case parse_integer True i64_min i64_max (fs ! 0) of
        None \<Rightarrow> Inl (RR_invalid_integer, Col_recv_tsec)
      | Some seconds \<Rightarrow>
     (case parse_integer True (- 2147483648) 2147483647 (fs ! 1) of
        None \<Rightarrow> Inl (RR_invalid_integer, Col_recv_tnsec)
      | Some nanoseconds \<Rightarrow>
      if nanoseconds < 0 \<or> nanoseconds \<ge> 1000000000 then Inl (RR_invalid_range, Col_recv_tnsec) else
     (case parse_venue (fs ! 2) of
        None \<Rightarrow> Inl (RR_invalid_enum, Col_venue)
      | Some venue \<Rightarrow>
     (case parse_stream_kind (fs ! 3) of
        None \<Rightarrow> Inl (RR_invalid_enum, Col_stream_kind)
      | Some stream_kind \<Rightarrow>
     (case parse_integer False 0 4294967295 (fs ! 4) of
        None \<Rightarrow> Inl (RR_invalid_integer, Col_shard_id)
      | Some shard_id \<Rightarrow>
      if shard_id \<noteq> 0 then Inl (RR_invalid_range, Col_shard_id) else
     (case parse_integer False 0 18446744073709551615 (fs ! 5) of
        None \<Rightarrow> Inl (RR_invalid_integer, Col_conn_epoch)
      | Some connection_epoch \<Rightarrow>
     (case parse_integer False 0 18446744073709551615 (fs ! 6) of
        None \<Rightarrow> Inl (RR_invalid_integer, Col_conn_seq)
      | Some connection_sequence \<Rightarrow>
      if connection_sequence = 0 then Inl (RR_invalid_range, Col_conn_seq) else
      if \<not> is_normalized_symbol (fs ! 7) then Inl (RR_invalid_symbol, Col_symbol) else
      Inr (\<lparr>ts_seconds = seconds, ts_nanoseconds = nanoseconds\<rparr>, venue, stream_kind,
           word_of_int shard_id, word_of_int connection_epoch, word_of_int connection_sequence, fs ! 7))))))))"

definition decode_record :: "string \<Rightarrow> ReplayRecord \<Rightarrow> (ReplayReadErrorCode \<times> ReplayColumn) option \<times> ReplayRecord" where
  "decode_record logical_record rec =
     (if logical_record = [] \<or> last logical_record \<noteq> newline then (Some (RR_truncated_record, Col_none), rec)
      else case scan_fields kUnquotedColumns (butlast logical_record) of
        Inl e \<Rightarrow> (Some e, rec)
      | Inr (fs, encoded_payload) \<Rightarrow>
          if length encoded_payload < 2 \<or> hd encoded_payload \<noteq> quote_char \<or> last encoded_payload \<noteq> quote_char
          then (Some (RR_invalid_csv, Col_payload_json), rec)
          else
            (case decode_fields fs of
               Inl e \<Rightarrow> (Some e, rec)
             | Inr (timestamp, venue, stream_kind, shard_id, connection_epoch, connection_sequence, symb) \<Rightarrow>
                 (case decode_quoted (butlast (tl encoded_payload)) [] of
                    (decoded, Some e) \<Rightarrow>
                      (Some (e, Col_payload_json),
                       rec\<lparr>rec_payload_bytes := store_bytes (rec_payload_bytes rec) decoded\<rparr>)
                  | (decoded, None) \<Rightarrow>
                      (None, \<lparr>rec_timestamp = timestamp, rec_venue = venue, rec_stream_kind = stream_kind,
                        rec_shard_id = shard_id, rec_connection_epoch = connection_epoch,
                        rec_connection_sequence = connection_sequence, rec_symbol = symb,
                        rec_payload_bytes = clear_padding (store_bytes (rec_payload_bytes rec) decoded) (length decoded),
                        rec_payload_size = length decoded\<rparr>))))"

section \<open>The reader\<close>

record ReplayReader =
  rr_input :: ReplayInput
  rr_record :: ReplayRecord
  rr_logical_record_number :: u64
  rr_end_of_file :: bool
  rr_has_file_identity :: bool
  rr_file_venue :: PayloadVenue
  rr_file_symbol :: string
  rr_last_connection_epoch :: u64
  rr_last_connection_sequence :: u64
  rr_first_error :: ReplayReadError

definition make_read_error :: "ReplayReader \<Rightarrow> ReplayReadErrorCode \<Rightarrow> ReplayColumn \<Rightarrow> int \<Rightarrow> ReplayReadError" where
  "make_read_error rd code column native =
     \<lparr>rre_code = code, rre_column = column, rre_logical_record_number = rr_logical_record_number rd + 1,
      rre_native_error = native\<rparr>"

definition latch :: "ReplayReader \<Rightarrow> ReplayReadError \<Rightarrow> (ReplayReadStatus \<times> ReplayReadError) \<times> ReplayReader" where
  "latch rd e =
     (let rd = (if is_read_error (rr_first_error rd) then rd else rd\<lparr>rr_first_error := e\<rparr>)
      in ((Read_error, rr_first_error rd), rd))"

definition validate_file_sequence ::
    "ReplayReader \<Rightarrow> (ReplayReadErrorCode \<times> ReplayColumn) option \<times> ReplayReader" where
  "validate_file_sequence rd =
     (let r = rr_record rd in
      if \<not> rr_has_file_identity rd
      then (None, rd\<lparr>rr_file_venue := rec_venue r, rr_file_symbol := rec_symbol r,
              rr_last_connection_epoch := rec_connection_epoch r,
              rr_last_connection_sequence := rec_connection_sequence r, rr_has_file_identity := True\<rparr>)
      else if rec_venue r \<noteq> rr_file_venue rd then (Some (RR_changing_venue, Col_venue), rd)
      else if rec_symbol r \<noteq> rr_file_symbol rd then (Some (RR_changing_symbol, Col_symbol), rd)
      else if rec_connection_epoch r < rr_last_connection_epoch rd
      then (Some (RR_decreasing_epoch, Col_conn_epoch), rd)
      else if rec_connection_epoch r = rr_last_connection_epoch rd \<and>
              rec_connection_sequence r \<le> rr_last_connection_sequence rd
      then (Some (RR_non_increasing_connection_sequence, Col_conn_seq), rd)
      else (None, rd\<lparr>rr_last_connection_epoch := rec_connection_epoch r,
              rr_last_connection_sequence := rec_connection_sequence r\<rparr>))"

definition next_record :: "ReplayReader \<Rightarrow> (ReplayReadStatus \<times> ReplayReadError) \<times> ReplayReader" where
  "next_record rd =
     (if is_read_error (rr_first_error rd) then ((Read_error, rr_first_error rd), rd)
      else if rr_end_of_file rd then ((Read_end_of_file, no_read_error), rd)
      else case read_logical_record (rr_input rd) of
        (Logical_end_of_file, input) \<Rightarrow>
          ((Read_end_of_file, no_read_error), rd\<lparr>rr_input := input, rr_end_of_file := True\<rparr>)
      | (Logical_error code native, input) \<Rightarrow>
          latch (rd\<lparr>rr_input := input\<rparr>) (make_read_error rd code Col_none native)
      | (Logical_record text, input) \<Rightarrow>
          (case decode_record text (rr_record rd) of
             (Some (code, column), rec) \<Rightarrow>
               latch (rd\<lparr>rr_input := input, rr_record := rec\<rparr>) (make_read_error rd code column 0)
           | (None, rec) \<Rightarrow>
               (case validate_file_sequence (rd\<lparr>rr_input := input, rr_record := rec\<rparr>) of
                  (Some (code, column), rd) \<Rightarrow> latch rd (make_read_error rd code column 0)
                | (None, rd) \<Rightarrow>
                    ((Read_record, no_read_error),
                     rd\<lparr>rr_logical_record_number := rr_logical_record_number rd + 1\<rparr>))))"

definition reader_init :: "os_read list \<Rightarrow> ReplayReader" where
  "reader_init reads = \<lparr>rr_input = \<lparr>ri_unread = [], ri_reads = reads\<rparr>, rr_record = record_init,
     rr_logical_record_number = 0, rr_end_of_file = False, rr_has_file_identity = False,
     rr_file_venue = Venue_spot, rr_file_symbol = [], rr_last_connection_epoch = 0,
     rr_last_connection_sequence = 0, rr_first_error = no_read_error\<rparr>"

text \<open>
  Opening a file.  What \<open>open\<close> finds: an error number, or the reads of a descriptor; the third
  argument says whether the reader's buffers could be allocated.
\<close>

definition header_error :: "ReplayReadErrorCode \<Rightarrow> int \<Rightarrow> ReplayReadError" where
  "header_error code native =
     \<lparr>rre_code = code, rre_column = Col_header, rre_logical_record_number = 1, rre_native_error = native\<rparr>"

definition open_reader :: "string \<Rightarrow> int + os_read list \<Rightarrow> bool \<Rightarrow> ReplayReadError + ReplayReader" where
  "open_reader path descriptor allocated =
     (if path = [] then Inl (header_error RR_invalid_path 0)
      else case descriptor of
        Inl native \<Rightarrow> Inl (header_error RR_open_failed native)
      | Inr reads \<Rightarrow>
          if \<not> allocated then Inl (header_error RR_allocation_failure 0)
          else
            let rd = reader_init reads in
            (case read_logical_record (rr_input rd) of
               (Logical_error code native, _) \<Rightarrow>
                 Inl ((make_read_error rd code Col_none native)\<lparr>rre_column := Col_header\<rparr>)
             | (Logical_end_of_file, _) \<Rightarrow> Inl (header_error RR_invalid_header 0)
             | (Logical_record header, input) \<Rightarrow>
                 if header \<noteq> kMarketDataCsvHeader then Inl (header_error RR_invalid_header 0)
                 else Inr (rd\<lparr>rr_input := input, rr_logical_record_number := 1\<rparr>)))"

end
