(* ===== verification/Replay_File.thy ===== *)
theory Replay_File
  imports Replay_Reader
begin

text \<open>
  Replaying one file (\<open>replay_market_data_file\<close> of \<^verbatim>\<open>src/market_data_replay.cpp\<close>): open the reader, then
  read a record, process it in replay mode and hand the rows to the output, until the end of the
  file or the first error.  The output set is used through two operations only, the symbol of a
  target and \<open>write_batch\<close>; they are arguments here, over an arbitrary output state.
\<close>

datatype ReplayFileErrorCode =
    RF_none
  | RF_allocation_failure
  | RF_input_error
  | RF_empty_input
  | RF_output_target_mismatch
  | RF_state_creation_failed
  | RF_event_process_failed
  | RF_payload_rejected
  | RF_output_write_failed

record 'e ReplayFileResult =
  rf_error :: ReplayFileErrorCode
  rf_input_error :: ReplayReadError
  rf_process_error :: EventProcessResult
  rf_output_error :: "'e option"
  rf_logical_record_number :: u64
  rf_rows_read :: u64
  rf_rows_processed :: u64
  rf_order_book_rows :: u64

definition default_file_result :: "'e ReplayFileResult" where
  "default_file_result = \<lparr>rf_error = RF_none, rf_input_error = no_read_error,
     rf_process_error = default_event_result, rf_output_error = None, rf_logical_record_number = 0,
     rf_rows_read = 0, rf_rows_processed = 0, rf_order_book_rows = 0\<rparr>"

text \<open>The two operations of the output set.\<close>

record ('o, 'e) OutputOps =
  op_symbol :: "'o \<Rightarrow> nat \<Rightarrow> string"
  op_write_batch :: "'o \<Rightarrow> nat \<Rightarrow> EventRowBatch \<Rightarrow> 'e option \<times> 'o"

record 'o ReplayRun =
  run_reader :: ReplayReader
  run_state :: "SymbolState option"
  run_parser :: "ParserImpl option"
  run_batch :: EventRowBatch
  run_output :: 'o

text \<open>One iteration after a record was read: \<open>Inl\<close> is a return.\<close>

definition process_record ::
    "iterate_fn \<Rightarrow> Allocator \<Rightarrow> ('o, 'e) OutputOps \<Rightarrow> nat \<Rightarrow> SymbolState \<Rightarrow> 'o ReplayRun \<Rightarrow> 'e ReplayFileResult \<Rightarrow>
     'e ReplayFileResult \<times> 'o + 'e ReplayFileResult \<times> 'o ReplayRun" where
  "process_record iterate al ops target st run result =
     (let rec = rr_record (run_reader run) in
      case process iterate al al (run_parser run) st (rec_context rec) (rec_payload rec) Replay_output
             (run_batch run) of
        (processed, st, parser, batch) \<Rightarrow>
          let result = result\<lparr>rf_process_error := processed\<rparr> in
          if \<not> epr_success processed then Inl (result\<lparr>rf_error := RF_event_process_failed\<rparr>, run_output run)
          else if epr_status processed = EPS_pre_audit_rejected
          then Inl (result\<lparr>rf_error := RF_payload_rejected\<rparr>, run_output run)
          else
            let result = result\<lparr>rf_rows_processed := rf_rows_processed result + 1\<rparr>;
                result = (if has_order_book_row batch
                          then result\<lparr>rf_order_book_rows := rf_order_book_rows result + 1\<rparr> else result)
            in (case op_write_batch ops (run_output run) target batch of
                  (Some e, out) \<Rightarrow> Inl (result\<lparr>rf_error := RF_output_write_failed, rf_output_error := Some e\<rparr>, out)
                | (None, out) \<Rightarrow>
                    Inr (result, run\<lparr>run_state := Some st, run_parser := parser, run_batch := batch,
                           run_output := out\<rparr>)))"

definition accept_record ::
    "iterate_fn \<Rightarrow> Allocator \<Rightarrow> ('o, 'e) OutputOps \<Rightarrow> nat \<Rightarrow> 'o ReplayRun \<Rightarrow> 'e ReplayFileResult \<Rightarrow>
     'e ReplayFileResult \<times> 'o + 'e ReplayFileResult \<times> 'o ReplayRun" where
  "accept_record iterate al ops target run result =
     (let rec = rr_record (run_reader run);
          result = result\<lparr>rf_rows_read := rf_rows_read result + 1,
            rf_logical_record_number := rr_logical_record_number (run_reader run)\<rparr>
      in case run_state run of
           Some st \<Rightarrow> process_record iterate al ops target st run result
         | None \<Rightarrow>
             if op_symbol ops (run_output run) target \<noteq> rec_symbol rec
             then Inl (result\<lparr>rf_error := RF_output_target_mismatch\<rparr>, run_output run)
             else
               (case create_symbol_state (rec_venue rec) (rec_symbol rec) of
                  None \<Rightarrow> Inl (result\<lparr>rf_error := RF_state_creation_failed\<rparr>, run_output run)
                | Some st \<Rightarrow> process_record iterate al ops target st run result))"

lemma accept_record_reader:
  assumes "accept_record iterate al ops target run result = Inr (result', run')"
  shows "run_reader run' = run_reader run"
  using assms
  by (auto simp: accept_record_def process_record_def Let_def split: option.splits if_splits prod.splits)

lemma read_byte_le: "read_byte input = (b, input') \<Longrightarrow> pending_bytes input' \<le> pending_bytes input"
proof -
  have "sum_list (map (\<lambda>r. case r of OS_bytes cs \<Rightarrow> length cs | _ \<Rightarrow> 0) (after_refill rs))
      \<le> sum_list (map (\<lambda>r. case r of OS_bytes cs \<Rightarrow> length cs | _ \<Rightarrow> 0) rs)" for rs
    by (induction rs rule: after_refill.induct) auto
  moreover assume "read_byte input = (b, input')"
  ultimately show ?thesis
    by (auto simp: read_byte_def pending_bytes_def split: list.splits sum.splits dest: refill_pending)
qed

lemma read_record_loop_pending:
  "read_record_loop input taken state = (Logical_record s, input') \<Longrightarrow> pending_bytes input' < pending_bytes input"
proof (induction input taken state rule: read_record_loop.induct)
  case (1 input taken state)
  obtain b i where rb: "read_byte input = (b, i)" by fastforce
  show ?case
  proof (cases b)
    case (Byte c)
    then have "pending_bytes i < pending_bytes input" using read_byte_pending [of input c i] rb by simp
    then show ?thesis
      using 1(2) 1(1) [OF rb [unfolded Byte, symmetric] refl] rb Byte
      by (subst (asm) read_record_loop.simps) (auto split: if_splits frame_step.splits intro: less_trans)
  qed (use 1(2) rb in \<open>auto simp: read_record_loop.simps [of input] split: if_splits\<close>)
qed

lemma latch_status: "fst (fst (latch rd e)) = Read_error"
  by (simp add: latch_def Let_def)

lemma validate_file_sequence_input:
  "validate_file_sequence rd = (r, rd') \<Longrightarrow> rr_input rd' = rr_input rd"
  by (auto simp: validate_file_sequence_def Let_def split: if_splits)

lemma next_record_pending:
  assumes "next_record rd = ((Read_record, e), rd')"
  shows "pending_bytes (rr_input rd') < pending_bytes (rr_input rd)"
proof -
  have no: "latch a b \<noteq> ((Read_record, e), rd')" for a b using latch_status [of a b] by (metis fst_conv ReplayReadStatus.distinct(4))
  obtain l input where r: "read_logical_record (rr_input rd) = (l, input)" by fastforce
  from assms no r obtain line where l: "l = Logical_record line"
    by (auto simp: next_record_def split: if_splits logical_read.splits)
  from assms no r l have "rr_input rd' = input"
    by (auto simp: next_record_def split: if_splits prod.splits option.splits dest: validate_file_sequence_input)
  then show ?thesis using read_record_loop_pending r l by (simp add: read_logical_record_def)
qed

text \<open>The loop of \<open>replay_market_data_file_impl\<close>; \<open>als\<close> gives the allocator of each row.\<close>

function replay_loop ::
    "iterate_fn \<Rightarrow> (nat \<Rightarrow> Allocator) \<Rightarrow> ('o, 'e) OutputOps \<Rightarrow> nat \<Rightarrow> nat \<Rightarrow> 'o ReplayRun \<Rightarrow> 'e ReplayFileResult \<Rightarrow>
     'e ReplayFileResult \<times> 'o" where
  "replay_loop iterate als ops target row run result =
     (case next_record (run_reader run) of
        ((Read_end_of_file, _), _) \<Rightarrow>
          (if run_state run = None then result\<lparr>rf_error := RF_empty_input, rf_logical_record_number := 2\<rparr>
           else result, run_output run)
      | ((Read_error, e), _) \<Rightarrow>
          (result\<lparr>rf_error := RF_input_error, rf_input_error := e,
             rf_logical_record_number := rre_logical_record_number e\<rparr>, run_output run)
      | ((Read_record, _), rd) \<Rightarrow>
          (case accept_record iterate (als row) ops target (run\<lparr>run_reader := rd\<rparr>) result of
             Inl r \<Rightarrow> r
           | Inr (result, run) \<Rightarrow> replay_loop iterate als ops target (Suc row) run result))"
  by pat_completeness auto
termination
  by (relation "measure (\<lambda>(_, _, _, _, _, run, _). pending_bytes (rr_input (run_reader run)))")
    (auto dest!: accept_record_reader next_record_pending [OF sym])

declare replay_loop.simps [simp del]

text \<open>
  \<open>replay_market_data_file\<close>: a \<open>bad_alloc\<close> of the row batch is reported; the parser's construction is
  assumed to succeed.
\<close>

definition replay_market_data_file ::
    "iterate_fn \<Rightarrow> Allocator \<Rightarrow> (nat \<Rightarrow> Allocator) \<Rightarrow> ('o, 'e) OutputOps \<Rightarrow> nat \<Rightarrow> string \<Rightarrow> int + os_read list \<Rightarrow> bool \<Rightarrow>
     'o \<Rightarrow> 'e ReplayFileResult \<times> 'o" where
  "replay_market_data_file iterate batch_allocator als ops target path descriptor allocated out =
     (case open_reader path descriptor allocated of
        Inl e \<Rightarrow> (default_file_result\<lparr>rf_error := RF_input_error, rf_input_error := e,
                   rf_logical_record_number := rre_logical_record_number e\<rparr>, out)
      | Inr rd \<Rightarrow>
          (case batch_create batch_allocator batch_allocator of
             None \<Rightarrow> (default_file_result\<lparr>rf_error := RF_allocation_failure\<rparr>, out)
           | Some batch \<Rightarrow>
               replay_loop iterate als ops target 0
                 \<lparr>run_reader = rd, run_state = None, run_parser = Some parser_init, run_batch = batch,
                  run_output = out\<rparr> default_file_result))"

end
