(* ===== verification/Replay_Roundtrip.thy ===== *)
theory Replay_Roundtrip
  imports Replay_File Event_Guarantees
begin

text \<open>
  Reading back what the audit formatter wrote.  A descriptor that returns its bytes in pieces of any
  size, with any interruptions in between, delivers the same bytes to the framing loop; the loop and
  the decoder then undo \<open>csv_line\<close> and the quoting of \<open>md_fields\<close>.
\<close>

section \<open>Bytes of a descriptor\<close>

fun good_read :: "os_read \<Rightarrow> bool" where
  "good_read (OS_bytes cs) \<longleftrightarrow> cs \<noteq> []"
| "good_read OS_eintr \<longleftrightarrow> True"
| "good_read _ \<longleftrightarrow> False"

fun read_bytes :: "os_read \<Rightarrow> string" where
  "read_bytes (OS_bytes cs) = cs"
| "read_bytes _ = []"

definition input_bytes :: "ReplayInput \<Rightarrow> string" where
  "input_bytes input = ri_unread input @ concat (map read_bytes (ri_reads input))"

definition good_input :: "ReplayInput \<Rightarrow> bool" where
  "good_input input \<longleftrightarrow> list_all good_read (ri_reads input)"

lemma refill_good:
  assumes "list_all good_read rs"
  shows "case concat (map read_bytes rs) of
      [] \<Rightarrow> refill rs = Inl Byte_end_of_file \<and> after_refill rs = []
    | c # cs \<Rightarrow> \<exists>chunk rest. refill rs = Inr ((c, chunk), rest) \<and> cs = chunk @ concat (map read_bytes rest) \<and>
        list_all good_read rest"
  using assms by (induction rs rule: refill.induct) (auto split: list.splits simp del: concat_eq_Nil_conv)

lemma read_byte_good:
  assumes "good_input input"
  shows "case input_bytes input of
      [] \<Rightarrow> \<exists>input'. read_byte input = (Byte_end_of_file, input') \<and> good_input input' \<and> input_bytes input' = []
    | c # cs \<Rightarrow> \<exists>input'. read_byte input = (Byte c, input') \<and> good_input input' \<and> input_bytes input' = cs"
  using assms refill_good [of "ri_reads input"]
  by (cases "ri_unread input")
    (auto simp: read_byte_def input_bytes_def good_input_def split: list.splits simp del: concat_eq_Nil_conv)

section \<open>Separators\<close>

lemma separator_bytes [simp]:
  "byte_of quote_char = 34" "byte_of newline = 10" "byte_of CHR '','' = 44"
  by code_simp+

lemma separators_distinct [simp]:
  "quote_char \<noteq> newline" "newline \<noteq> quote_char" "CHR '','' \<noteq> quote_char" "quote_char \<noteq> CHR '',''"
  "CHR '','' \<noteq> newline" "newline \<noteq> CHR '',''"
  by code_simp+

lemma forbidden_unquoted_byte_iff:
  "forbidden_unquoted_byte c \<longleftrightarrow> byte_of c = 34 \<or> byte_of c = 13 \<or> byte_of c = 10"
  by (metis byte_of_inj forbidden_unquoted_byte_def separator_bytes(1,2))

section \<open>Framing\<close>

fun frames :: "CsvFrameState \<Rightarrow> string \<Rightarrow> CsvFrameState option" where
  "frames st [] = Some st"
| "frames st (c # cs) = (case frame_byte st c of Frame_continue st' \<Rightarrow> frames st' cs | _ \<Rightarrow> None)"

lemma frames_append: "frames st (s @ t) = (case frames st s of None \<Rightarrow> None | Some st' \<Rightarrow> frames st' t)"
  by (induction s arbitrary: st) (auto split: frame_step.splits)

lemma read_record_loop_good:
  assumes "good_input input" and "input_bytes input = s @ newline # rest"
    and "frames st s = Some st'" and "frame_byte st' newline = Frame_complete"
    and "length taken + length s < kMaxCsvRecordBytes"
  shows "\<exists>input'. read_record_loop input taken st = (Logical_record (taken @ s @ [newline]), input') \<and>
      good_input input' \<and> input_bytes input' = rest"
  using assms
proof (induction s arbitrary: input taken st)
  case Nil
  with read_byte_good [of input] show ?case by (auto simp: read_record_loop.simps [of input])
next
  case (Cons c s)
  from Cons.prems(1,2) read_byte_good [of input] obtain input1 where
    rb: "read_byte input = (Byte c, input1)" "good_input input1" "input_bytes input1 = s @ newline # rest"
    by auto
  from Cons.prems(3) obtain st1 where fb: "frame_byte st c = Frame_continue st1" "frames st1 s = Some st'"
    by (auto split: frame_step.splits)
  from Cons.IH [OF rb(2,3) fb(2) Cons.prems(4), of "taken @ [c]"] Cons.prems(5) rb fb show ?case
    by (simp add: read_record_loop.simps [of input])
qed

lemma read_logical_record_end:
  assumes "good_input input" and "input_bytes input = []"
  shows "\<exists>input'. read_logical_record input = (Logical_end_of_file, input')"
  using assms read_byte_good [of input] by (auto simp: read_logical_record_def read_record_loop.simps [of input])

text \<open>A field that needs no quoting.\<close>

definition plain_field :: "string \<Rightarrow> bool" where
  "plain_field f \<longleftrightarrow> (\<forall>c \<in> set f. c \<noteq> CHR '','' \<and> \<not> forbidden_unquoted_byte c)"

lemma plain_field_Cons:
  "plain_field (c # f) \<longleftrightarrow> c \<noteq> CHR '','' \<and> \<not> forbidden_unquoted_byte c \<and> plain_field f"
  by (auto simp: plain_field_def)

lemma frames_plain_unquoted: "plain_field f \<Longrightarrow> frames Unquoted (f @ '','') = Some Field_start"
  by (induction f) (auto simp: plain_field_Cons forbidden_unquoted_byte_def)

lemma frames_plain: "plain_field f \<Longrightarrow> frames Field_start (f @ '','') = Some Field_start"
  using frames_plain_unquoted
  by (cases f) (auto simp: plain_field_Cons forbidden_unquoted_byte_def)

lemma frames_quoted: "frames Quoted (quote_field p) = Some Quoted"
  by (induction p) (auto simp: quote_field_def)

lemma frames_plain_list:
  "list_all plain_field fs \<Longrightarrow> frames Field_start (concat (map (\<lambda>f. f @ '','') fs)) = Some Field_start"
proof (induction fs)
  case (Cons f fs)
  then show ?case
    using frames_plain [of f] frames_append [of Field_start "f @ '',''" "concat (map (\<lambda>f. f @ '','') fs)"] by simp
qed simp

section \<open>Decoding\<close>

lemma scan_field_plain: "plain_field f \<Longrightarrow> scan_field (f @ CHR '','' # rest) = Inr (f, rest)"
  by (induction f) (auto simp: plain_field_Cons)

lemma scan_fields_plain:
  assumes "list_all plain_field fs" and "length columns = length fs"
  shows "scan_fields columns (concat (map (\<lambda>f. f @ '','') fs) @ rest) = Inr (fs, rest)"
  using assms
proof (induction fs arbitrary: columns)
  case (Cons f fs)
  then show ?case by (cases columns) (auto simp: scan_field_plain)
qed simp

lemma quote_field_simps [simp]:
  "quote_field [] = []"
  "quote_field (c # p) = (if c = quote_char then [quote_char, quote_char] else [c]) @ quote_field p"
  by (simp_all add: quote_field_def)

lemma decode_quoted_quote_field:
  "length acc + length p \<le> kMaxPayloadBytes \<Longrightarrow> decode_quoted (quote_field p) acc = (acc @ p, None)"
  by (induction p arbitrary: acc) auto

lemma parse_integer_to_chars:
  assumes "lo \<le> x" and "x \<le> hi" and "is_signed \<or> 0 \<le> x"
  shows "parse_integer is_signed lo hi (to_chars x) = Some x"
  using from_chars_to_chars [OF assms, of "[]"] by (simp add: parse_integer_def)

lemma parse_venue_text [simp]: "parse_venue (venue_text v) = Some v"
  by (cases v) (simp_all add: parse_venue_def)

lemma parse_stream_kind_text [simp]: "parse_stream_kind (stream_kind_text k) = Some k"
  by (cases k) (simp_all add: parse_stream_kind_def)

text \<open>The rows the event processor writes to the audit file.\<close>

definition record_ok :: "MarketDataCsvRow \<Rightarrow> bool" where
  "record_ok row \<longleftrightarrow>
     timestamp_in_range (md_timestamp row) \<and> valid_timestamp (md_timestamp row) \<and> md_shard_id row = 0 \<and>
     md_connection_sequence row \<noteq> 0 \<and> is_normalized_symbol (md_symbol row) \<and>
     length (md_payload_json row) \<le> kMaxPayloadBytes"

definition audit_row_ok :: "MarketDataCsvRow \<Rightarrow> bool" where
  "audit_row_ok row \<longleftrightarrow> record_ok row \<and> length (csv_line (md_fields row)) \<le> kMaxCsvRecordBytes"

definition plain_fields :: "MarketDataCsvRow \<Rightarrow> string list" where
  "plain_fields row = butlast (md_fields row)"

lemma uint_u64_max: "uint (w :: u64) \<le> 18446744073709551615"
  using unsigned_less [where 'a = int, of w] by simp

lemma decode_plain_fields:
  assumes "audit_row_ok row"
  shows "decode_fields (plain_fields row) = Inr (md_timestamp row, md_venue row, md_stream_kind row,
     md_shard_id row, md_connection_epoch row, md_connection_sequence row, md_symbol row)"
  using assms uint_u64_max
  by (simp add: decode_fields_def plain_fields_def md_fields_def audit_row_ok_def record_ok_def timestamp_in_range_def
      valid_timestamp_def kNanosecondsPerSecond_def parse_integer_to_chars uint_0_iff)

lemma plain_to_chars: "plain_field (to_chars x)"
  unfolding plain_field_def forbidden_unquoted_byte_iff
  using to_chars_chars [of _ x] by (fastforce simp: is_digit_def byte_of_def)

lemma plain_names: "plain_field (venue_text v)" "plain_field (stream_kind_text k)"
  by (cases v; simp add: plain_field_def forbidden_unquoted_byte_iff byte_of_def)
    (cases k; simp add: plain_field_def forbidden_unquoted_byte_iff byte_of_def)

lemma plain_symbol: "is_normalized_symbol s \<Longrightarrow> plain_field s"
  unfolding plain_field_def forbidden_unquoted_byte_iff
  by (fastforce simp: is_digit_def is_upper_def byte_of_def is_normalized_symbol_def list_all_iff split: if_splits)

lemma plain_fields_plain: "audit_row_ok row \<Longrightarrow> list_all plain_field (plain_fields row)"
  by (simp add: plain_fields_def md_fields_def audit_row_ok_def record_ok_def plain_to_chars plain_names plain_symbol)

lemma csv_line_md_fields:
  "csv_line (md_fields row) =
     (concat (map (\<lambda>f. f @ '','') (plain_fields row)) @ quote_char # quote_field (md_payload_json row) @ [quote_char])
       @ [newline]"
  by (simp add: csv_line_def md_fields_def plain_fields_def)

text \<open>The row a record holds.\<close>

definition record_row :: "ReplayRecord \<Rightarrow> MarketDataCsvRow" where
  "record_row rec = \<lparr>md_timestamp = rec_timestamp rec, md_venue = rec_venue rec, md_stream_kind = rec_stream_kind rec,
     md_shard_id = rec_shard_id rec, md_connection_epoch = rec_connection_epoch rec,
     md_connection_sequence = rec_connection_sequence rec, md_symbol = rec_symbol rec,
     md_payload_json = pj_bytes (rec_payload rec)\<rparr>"

lemma stored_payload:
  "map (clear_padding (store_bytes bytes s) (length s)) [0 ..< length s] = s"
  by (rule nth_equalityI) (auto simp: clear_padding_def store_bytes_def)

lemma decode_record_md_fields:
  assumes "audit_row_ok row"
  shows "\<exists>rec'. decode_record (csv_line (md_fields row)) rec = (None, rec') \<and> record_row rec' = row"
proof -
  have "length kUnquotedColumns = length (plain_fields row)"
    by (simp add: kUnquotedColumns_def plain_fields_def md_fields_def)
  from scan_fields_plain [OF plain_fields_plain [OF assms] this]
  have "scan_fields kUnquotedColumns (butlast (csv_line (md_fields row))) =
      Inr (plain_fields row, quote_char # quote_field (md_payload_json row) @ [quote_char])"
    by (simp add: csv_line_md_fields butlast_append)
  moreover have "last (csv_line (md_fields row)) = newline" "csv_line (md_fields row) \<noteq> []"
    by (simp_all add: csv_line_md_fields)
  moreover have "decode_quoted (quote_field (md_payload_json row)) [] = (md_payload_json row, None)"
    using assms decode_quoted_quote_field [of "[]"] by (simp add: audit_row_ok_def record_ok_def)
  ultimately show ?thesis
    by (simp add: decode_record_def decode_plain_fields [OF assms] record_row_def rec_payload_def
        pj_bytes_def stored_payload)
qed

lemma read_logical_record_md_fields:
  assumes "audit_row_ok row" and "good_input input" and "input_bytes input = csv_line (md_fields row) @ rest"
  shows "\<exists>input'. read_logical_record input = (Logical_record (csv_line (md_fields row)), input') \<and>
      good_input input' \<and> input_bytes input' = rest"
proof -
  let ?s = "concat (map (\<lambda>f. f @ '','') (plain_fields row)) @ quote_char # quote_field (md_payload_json row) @ [quote_char]"
  have "frames Field_start ?s = Some Quote_closed"
    using frames_plain_list [OF plain_fields_plain [OF assms(1)]] frames_quoted by (simp add: frames_append)
  moreover have "frame_byte Quote_closed newline = Frame_complete" by simp
  moreover have "length ?s < kMaxCsvRecordBytes"
    using assms(1) by (simp add: audit_row_ok_def csv_line_md_fields)
  ultimately show ?thesis
    using read_record_loop_good [OF assms(2), of ?s rest Field_start Quote_closed "[]"] assms(3)
    by (simp add: read_logical_record_def csv_line_md_fields)
qed

section \<open>Whole files\<close>

text \<open>All records a reader delivers, and how it ended.\<close>

function read_all :: "ReplayReader \<Rightarrow> MarketDataCsvRow list \<times> ReplayReadStatus \<times> ReplayReadError" where
  "read_all rd =
     (case next_record rd of
        ((Read_record, _), rd) \<Rightarrow> (case read_all rd of (rows, ended) \<Rightarrow> (record_row (rr_record rd) # rows, ended))
      | (ended, _) \<Rightarrow> ([], ended))"
  by pat_completeness auto
termination
  by (relation "measure (\<lambda>rd. pending_bytes (rr_input rd))") (auto dest: next_record_pending [OF sym])

declare read_all.simps [simp del]

definition row_coords :: "MarketDataCsvRow \<Rightarrow> u64 \<times> u64" where
  "row_coords row = (md_connection_epoch row, md_connection_sequence row)"

definition row_identity :: "MarketDataCsvRow \<Rightarrow> PayloadVenue \<times> string" where
  "row_identity row = (md_venue row, md_symbol row)"

text \<open>The rows of one symbol's audit file.\<close>

definition audit_file_ok :: "PayloadVenue \<Rightarrow> string \<Rightarrow> MarketDataCsvRow list \<Rightarrow> bool" where
  "audit_file_ok venue symb rows \<longleftrightarrow>
     list_all (\<lambda>row. audit_row_ok row \<and> row_identity row = (venue, symb)) rows \<and>
     sorted_wrt (\<lambda>a b. coords_less (row_coords a) (row_coords b)) rows"

definition audit_file :: "MarketDataCsvRow list \<Rightarrow> string" where
  "audit_file rows = kMarketDataCsvHeader @ concat (map (\<lambda>row. csv_line (md_fields row)) rows)"

text \<open>A reader that has delivered some rows and has the bytes of others in front of it.\<close>

definition reader_follows :: "ReplayReader \<Rightarrow> MarketDataCsvRow \<Rightarrow> bool" where
  "reader_follows rd row \<longleftrightarrow> rr_has_file_identity rd \<longrightarrow>
     (rr_file_venue rd, rr_file_symbol rd) = row_identity row \<and>
     coords_less (rr_last_connection_epoch rd, rr_last_connection_sequence rd) (row_coords row)"

definition reader_live :: "ReplayReader \<Rightarrow> bool" where
  "reader_live rd \<longleftrightarrow> \<not> is_read_error (rr_first_error rd) \<and> \<not> rr_end_of_file rd"

lemma validate_file_sequence_follows:
  assumes "reader_follows rd (record_row (rr_record rd))"
  shows "\<exists>rd'. validate_file_sequence rd = (None, rd') \<and> rr_record rd' = rr_record rd \<and> rr_input rd' = rr_input rd \<and>
     rr_first_error rd' = rr_first_error rd \<and> rr_end_of_file rd' = rr_end_of_file rd \<and> rr_has_file_identity rd' \<and>
     (rr_file_venue rd', rr_file_symbol rd') = row_identity (record_row (rr_record rd)) \<and>
     (rr_last_connection_epoch rd', rr_last_connection_sequence rd') = row_coords (record_row (rr_record rd))"
  using assms
  by (auto simp: reader_follows_def validate_file_sequence_def Let_def record_row_def row_identity_def
      row_coords_def coords_less_def)

lemma next_record_reads:
  assumes "audit_row_ok row" and "reader_live rd" and "reader_follows rd row"
    and "good_input (rr_input rd)" and "input_bytes (rr_input rd) = csv_line (md_fields row) @ rest"
  shows "\<exists>rd'. next_record rd = ((Read_record, no_read_error), rd') \<and> record_row (rr_record rd') = row \<and>
     reader_live rd' \<and> good_input (rr_input rd') \<and> input_bytes (rr_input rd') = rest \<and> rr_has_file_identity rd' \<and>
     (rr_file_venue rd', rr_file_symbol rd') = row_identity row \<and>
     (rr_last_connection_epoch rd', rr_last_connection_sequence rd') = row_coords row"
proof -
  obtain input' where r: "read_logical_record (rr_input rd) = (Logical_record (csv_line (md_fields row)), input')"
    "good_input input'" "input_bytes input' = rest"
    using read_logical_record_md_fields [OF assms(1,4,5)] by blast
  obtain rec' where d: "decode_record (csv_line (md_fields row)) (rr_record rd) = (None, rec')" "record_row rec' = row"
    using decode_record_md_fields [OF assms(1)] by blast
  let ?rd = "rd\<lparr>rr_input := input', rr_record := rec'\<rparr>"
  have "reader_follows ?rd (record_row (rr_record ?rd))"
    using assms(3) d(2) by (simp add: reader_follows_def)
  from validate_file_sequence_follows [OF this] obtain rd1 where
    v: "validate_file_sequence ?rd = (None, rd1)" and
    p: "rr_record rd1 = rec'" "rr_input rd1 = input'" "rr_first_error rd1 = rr_first_error rd"
       "rr_end_of_file rd1 = rr_end_of_file rd" "rr_has_file_identity rd1"
       "(rr_file_venue rd1, rr_file_symbol rd1) = row_identity row"
       "(rr_last_connection_epoch rd1, rr_last_connection_sequence rd1) = row_coords row"
    using d(2) by auto
  show ?thesis
    using assms(2) r d v p by (simp add: next_record_def reader_live_def)
qed

lemma read_all_rows:
  assumes "audit_file_ok venue symb rows" and "reader_live rd" and "list_all (reader_follows rd) rows"
    and "good_input (rr_input rd)" and "input_bytes (rr_input rd) = concat (map (\<lambda>row. csv_line (md_fields row)) rows)"
  shows "read_all rd = (rows, Read_end_of_file, no_read_error)"
  using assms
proof (induction rows arbitrary: rd)
  case Nil
  then obtain input' where "read_logical_record (rr_input rd) = (Logical_end_of_file, input')"
    using read_logical_record_end [of "rr_input rd"] by auto
  with Nil have "\<exists>rd'. next_record rd = ((Read_end_of_file, no_read_error), rd')"
    by (simp add: next_record_def reader_live_def)
  then show ?case by (subst read_all.simps) auto
next
  case (Cons row rows)
  have ok: "audit_row_ok row" "audit_file_ok venue symb rows" "reader_follows rd row"
    using Cons.prems by (simp_all add: audit_file_ok_def)
  have "input_bytes (rr_input rd) = csv_line (md_fields row) @ concat (map (\<lambda>row. csv_line (md_fields row)) rows)"
    using Cons.prems(5) by simp
  from next_record_reads [OF ok(1) Cons.prems(2) ok(3) Cons.prems(4) this]
  obtain rd' where n: "next_record rd = ((Read_record, no_read_error), rd')" "record_row (rr_record rd') = row"
      "reader_live rd'" "good_input (rr_input rd')"
      "input_bytes (rr_input rd') = concat (map (\<lambda>row. csv_line (md_fields row)) rows)"
    and f: "(rr_file_venue rd', rr_file_symbol rd') = row_identity row"
      "(rr_last_connection_epoch rd', rr_last_connection_sequence rd') = row_coords row"
    by blast
  have "list_all (reader_follows rd') rows"
    unfolding list_all_iff reader_follows_def f using Cons.prems(1) by (simp add: audit_file_ok_def list_all_iff)
  from Cons.IH [OF ok(2) n(3) this n(4,5)] show ?case by (subst read_all.simps) (simp add: n(1,2))
qed

lemma open_reader_header:
  assumes "path \<noteq> []" and "list_all good_read reads"
    and "concat (map read_bytes reads) = kMarketDataCsvHeader @ rest"
  shows "\<exists>rd. open_reader path (Inr reads) True = Inr rd \<and> reader_live rd \<and> \<not> rr_has_file_identity rd \<and>
     good_input (rr_input rd) \<and> input_bytes (rr_input rd) = rest"
proof -
  let ?input = "\<lparr>ri_unread = [], ri_reads = reads\<rparr>"
  have g: "good_input ?input" "input_bytes ?input = butlast kMarketDataCsvHeader @ newline # rest"
    using assms by (simp_all add: good_input_def input_bytes_def kMarketDataCsvHeader_def butlast_append)
  have h: "frames Field_start (butlast kMarketDataCsvHeader) = Some Unquoted" by code_simp
  have f: "frame_byte Unquoted newline = Frame_complete" by simp
  have l: "length ([] :: string) + length (butlast kMarketDataCsvHeader) < kMaxCsvRecordBytes" by code_simp
  from read_record_loop_good [OF g h f l] obtain input' where
    "read_logical_record ?input = (Logical_record (butlast kMarketDataCsvHeader @ [newline]), input')"
    "good_input input'" "input_bytes input' = rest"
    by (auto simp: read_logical_record_def)
  moreover have "butlast kMarketDataCsvHeader @ [newline] = kMarketDataCsvHeader"
    by (simp add: kMarketDataCsvHeader_def butlast_append)
  ultimately show ?thesis
    using assms(1)
    by (simp add: open_reader_def reader_init_def Let_def reader_live_def is_read_error_def no_read_error_def)
qed

end
