(* ===== verification/Replay_Guarantees.thy ===== *)
theory Replay_Guarantees
  imports Replay_Roundtrip
begin

text \<open>
  The guarantees of the replay reader: what it delivers from any bytes, what it reports on errors, and
  that it reads back an audit file exactly.
\<close>

section \<open>What the decoder accepts\<close>

lemma scan_field_code [simp]: "scan_field s \<noteq> Inl RR_none"
  by (induction s) (auto split: sum.splits)

lemma scan_fields_code [simp]: "scan_fields columns s \<noteq> Inl (RR_none, column)"
  by (induction columns arbitrary: s) (auto split: sum.splits)

lemma decode_fields_code [simp]: "decode_fields fs \<noteq> Inl (RR_none, column)"
  by (auto simp: decode_fields_def split: option.splits)

lemma decode_quoted_code [simp]: "decode_quoted s acc \<noteq> (decoded, Some RR_none)"
  by (induction s acc rule: decode_quoted.induct) (auto split: list.splits)

lemma decode_record_code: "decode_record s rec = (Some (code, column), rec') \<Longrightarrow> code \<noteq> RR_none"
  by (auto simp: decode_record_def split: if_splits sum.splits option.splits prod.splits)

lemma read_record_loop_code:
  "read_record_loop input taken st = (Logical_error code native, input') \<Longrightarrow> code \<noteq> RR_none"
proof (induction input taken st rule: read_record_loop.induct)
  case (1 input taken st)
  from 1(2) show ?case
    unfolding read_record_loop.simps [of input taken st]
    using 1(1) by (auto split: if_splits frame_step.splits byte_read.splits prod.splits)
qed

lemma decode_quoted_length:
  "decode_quoted s acc = (decoded, None) \<Longrightarrow> length acc \<le> kMaxPayloadBytes \<Longrightarrow> length decoded \<le> kMaxPayloadBytes"
  by (induction s acc rule: decode_quoted.induct) (auto split: if_splits list.splits)

lemma parse_integer_range: "parse_integer is_signed lo hi s = Some v \<Longrightarrow> lo \<le> v \<and> v \<le> hi"
  by (auto simp: parse_integer_def from_chars_def Let_def split: if_splits from_chars_result.splits)

lemma decode_fields_ok:
  assumes "decode_fields fs = Inr (t, v, k, shard, epoch, sequence, symb)"
  shows "timestamp_in_range t \<and> valid_timestamp t \<and> shard = 0 \<and> sequence \<noteq> 0 \<and> is_normalized_symbol symb"
  using assms
  by (auto simp: decode_fields_def timestamp_in_range_def valid_timestamp_def kNanosecondsPerSecond_def
      word_of_int_eq_0_iff zdvd_not_zless split: option.splits if_splits dest!: parse_integer_range
      dest: zdvd_imp_le)

lemma decode_record_ok:
  assumes "decode_record s rec = (None, rec')"
  shows "record_ok (record_row rec')"
  using assms
  by (auto simp: decode_record_def record_ok_def record_row_def rec_payload_def pj_bytes_def stored_payload
      split: if_splits sum.splits option.splits prod.splits dest!: decode_fields_ok decode_quoted_length)

section \<open>What the reader delivers\<close>

lemma validate_file_sequence_ok:
  assumes "validate_file_sequence rd = (None, rd')"
  shows "reader_follows rd (record_row (rr_record rd)) \<and> rr_record rd' = rr_record rd \<and>
     rr_first_error rd' = rr_first_error rd \<and> rr_logical_record_number rd' = rr_logical_record_number rd \<and>
     rr_has_file_identity rd' \<and>
     (rr_file_venue rd', rr_file_symbol rd') = row_identity (record_row (rr_record rd)) \<and>
     (rr_last_connection_epoch rd', rr_last_connection_sequence rd') = row_coords (record_row (rr_record rd))"
  using assms
  by (auto simp: validate_file_sequence_def Let_def record_row_def row_identity_def row_coords_def
      coords_less_def reader_follows_def split: if_splits)

lemma validate_file_sequence_error:
  "validate_file_sequence rd = (Some (code, column), rd') \<Longrightarrow> code \<noteq> RR_none \<and> rd' = rd"
  by (auto simp: validate_file_sequence_def Let_def split: if_splits)

lemma next_record_delivers:
  assumes "next_record rd = ((Read_record, e), rd')"
  shows "record_ok (record_row (rr_record rd')) \<and> reader_follows rd (record_row (rr_record rd')) \<and>
     rr_first_error rd' = rr_first_error rd \<and> rr_logical_record_number rd' = rr_logical_record_number rd + 1 \<and>
     rr_has_file_identity rd' \<and>
     (rr_file_venue rd', rr_file_symbol rd') = row_identity (record_row (rr_record rd')) \<and>
     (rr_last_connection_epoch rd', rr_last_connection_sequence rd') = row_coords (record_row (rr_record rd'))"
proof -
  have no: "latch a b \<noteq> ((Read_record, e), rd')" for a b by (simp add: latch_def Let_def)
  from assms no obtain s input rec rd1 where
    d: "decode_record s (rr_record rd) = (None, rec)" and
    v: "validate_file_sequence (rd\<lparr>rr_input := input, rr_record := rec\<rparr>) = (None, rd1)" and
    rd': "rd' = rd1\<lparr>rr_logical_record_number := rr_logical_record_number rd1 + 1\<rparr>"
    by (auto simp: next_record_def split: if_splits prod.splits option.splits logical_read.splits)
  from validate_file_sequence_ok [OF v] decode_record_ok [OF d] show ?thesis
    by (simp add: rd' reader_follows_def)
qed

lemma next_record_fails:
  assumes "next_record rd = ((Read_error, e), rd')" and "\<not> is_read_error (rr_first_error rd)"
  shows "is_read_error e \<and> rre_logical_record_number e = rr_logical_record_number rd + 1 \<and> rr_first_error rd' = e"
  using assms validate_file_sequence_error decode_record_code read_record_loop_code
  by (fastforce simp: next_record_def latch_def Let_def make_read_error_def is_read_error_def read_logical_record_def
      split: if_splits prod.splits option.splits logical_read.splits)

lemma next_record_ends_at:
  assumes "next_record rd = ((Read_end_of_file, e), rd')" and "\<not> is_read_error (rr_first_error rd)"
  shows "e = no_read_error \<and> rr_end_of_file rd' \<and> \<not> is_read_error (rr_first_error rd')"
  using assms
  by (auto simp: next_record_def latch_def Let_def split: if_splits prod.splits option.splits logical_read.splits)

lemma open_reader_fresh:
  assumes "open_reader path descriptor allocated = Inr rd"
  shows "\<not> is_read_error (rr_first_error rd) \<and> rr_logical_record_number rd = 1 \<and> \<not> rr_has_file_identity rd"
  using assms
  by (auto simp: open_reader_def Let_def reader_init_def is_read_error_def no_read_error_def
      split: if_splits sum.splits prod.splits logical_read.splits)

lemma read_all_delivers:
  assumes "read_all rd = (rows, status, e)" and "\<not> is_read_error (rr_first_error rd)"
  shows "list_all record_ok rows \<and> list_all (reader_follows rd) rows \<and>
     sorted_wrt (\<lambda>a b. coords_less (row_coords a) (row_coords b) \<and> row_identity a = row_identity b) rows \<and>
     (status = Read_end_of_file \<and> e = no_read_error \<or>
      status = Read_error \<and> is_read_error e \<and>
      rre_logical_record_number e = rr_logical_record_number rd + of_nat (length rows) + 1)"
  using assms
proof (induction rd arbitrary: rows rule: read_all.induct)
  case (1 rd)
  obtain st e1 rd' where n: "next_record rd = ((st, e1), rd')" by (metis surj_pair)
  show ?case
  proof (cases st)
    case Read_record
    obtain rows' where r: "read_all rd' = (rows', status, e)" "rows = record_row (rr_record rd') # rows'"
      using 1(2) n Read_record by (subst (asm) read_all.simps) (auto split: prod.splits)
    note d = next_record_delivers [OF n [unfolded Read_record]]
    have ih: "list_all record_ok rows'" "list_all (reader_follows rd') rows'"
      "sorted_wrt (\<lambda>a b. coords_less (row_coords a) (row_coords b) \<and> row_identity a = row_identity b) rows'"
      "status = Read_end_of_file \<and> e = no_read_error \<or>
       status = Read_error \<and> is_read_error e \<and>
       rre_logical_record_number e = rr_logical_record_number rd' + of_nat (length rows') + 1"
      using 1(1) [OF n [symmetric] refl _ r(1)] Read_record d 1(3) by auto
    have f: "coords_less (row_coords (record_row (rr_record rd'))) (row_coords b) \<and>
        row_identity (record_row (rr_record rd')) = row_identity b" if "b \<in> set rows'" for b
      using ih(2) d that by (auto simp: list_all_iff reader_follows_def)
    have "reader_follows rd b" if "b \<in> set rows'" for b
      using f [OF that] d coords_less_trans unfolding reader_follows_def by metis
    then have "list_all (reader_follows rd) rows'" by (simp add: list_all_iff)
    with ih d f show ?thesis by (auto simp: r(2))
  next
    case Read_end_of_file
    with 1(2) n next_record_ends_at [of rd e1 rd'] 1(3) show ?thesis by (subst (asm) read_all.simps) simp
  next
    case Read_error
    with 1(2) n next_record_fails [of rd e1 rd'] 1(3) show ?thesis by (subst (asm) read_all.simps) simp
  qed
qed

section \<open>Properties\<close>

text \<open>
  C17: reading back.  For every audit file the formatter can have written for one symbol, and for every
  way the descriptor may cut its bytes into pieces and interrupt the reads, the reader opens it and
  delivers exactly the rows that were formatted, then the end of the file.
\<close>

theorem replay_reads_back:
  assumes "path \<noteq> []" and "audit_file_ok venue symb rows" and "list_all good_read reads"
    and "concat (map read_bytes reads) = audit_file rows"
  shows "\<exists>rd. open_reader path (Inr reads) True = Inr rd \<and> read_all rd = (rows, Read_end_of_file, no_read_error)"
proof -
  obtain rd where "open_reader path (Inr reads) True = Inr rd" "reader_live rd" "\<not> rr_has_file_identity rd"
    "good_input (rr_input rd)" "input_bytes (rr_input rd) = concat (map (\<lambda>row. csv_line (md_fields row)) rows)"
    using open_reader_header [OF assms(1,3)] assms(4) by (auto simp: audit_file_def)
  then show ?thesis
    using read_all_rows [OF assms(2), of rd] by (simp add: reader_follows_def list_all_iff)
qed

definition sample_rows :: "MarketDataCsvRow list" where
  "sample_rows = [sample_md_row, sample_md_row\<lparr>md_connection_sequence := 4, md_payload_json := ''[1,2]''\<rparr>]"

definition sample_reads :: "os_read list" where
  "sample_reads = [OS_eintr, OS_bytes (take 100 (audit_file sample_rows)), OS_eintr,
     OS_bytes (drop 100 (audit_file sample_rows))]"

theorem replay_reads_back_witness:
  "\<exists>rd. open_reader ''a'' (Inr sample_reads) True = Inr rd \<and> read_all rd = (sample_rows, Read_end_of_file, no_read_error)"
proof (rule replay_reads_back)
  show "audit_file_ok Venue_usdm ''BTCUSDT'' sample_rows" by code_simp
  show "list_all good_read sample_reads" by code_simp
  show "concat (map read_bytes sample_reads) = audit_file sample_rows" by (simp add: sample_reads_def)
qed simp

text \<open>
  C18: whatever bytes and read errors the descriptor gives, the records delivered are well formed (valid
  time stamp, shard zero, non-zero sequence, normalized symbol, at most one MiB of payload), belong to
  one venue and symbol, and have strictly increasing connection coordinates; reading ends with the end
  of the file or with an error that names the record after the last one delivered, the header being
  record one.
\<close>

theorem replay_delivers_valid_records:
  assumes "open_reader path descriptor allocated = Inr rd" and "read_all rd = (rows, status, e)"
  shows "list_all record_ok rows \<and>
     sorted_wrt (\<lambda>a b. coords_less (row_coords a) (row_coords b) \<and> row_identity a = row_identity b) rows \<and>
     (status = Read_end_of_file \<and> e = no_read_error \<or>
      status = Read_error \<and> is_read_error e \<and> rre_logical_record_number e = of_nat (length rows) + 2)"
proof -
  note o = open_reader_fresh [OF assms(1)]
  have "(1 :: u64) + of_nat (length rows) + 1 = of_nat (length rows) + 2" by simp
  with read_all_delivers [OF assms(2)] o show ?thesis by simp
qed

text \<open>A file whose second record repeats the coordinates of the first.\<close>

definition repeated_reads :: "os_read list" where
  "repeated_reads = [OS_bytes (audit_file [sample_md_row, sample_md_row])]"

definition outcome_of :: "ReplayReadError + ReplayReader \<Rightarrow> MarketDataCsvRow list \<times> ReplayReadStatus \<times> ReplayReadError" where
  "outcome_of opened = (case opened of Inl e \<Rightarrow> ([], Read_error, e) | Inr rd \<Rightarrow> read_all rd)"

theorem replay_delivers_valid_records_witness:
  "\<exists>rd e. open_reader ''a'' (Inr repeated_reads) True = Inr rd \<and> read_all rd = ([sample_md_row], Read_error, e) \<and>
     rre_code e = RR_non_increasing_connection_sequence \<and> rre_logical_record_number e = 3 \<and>
     list_all record_ok [sample_md_row]"
proof -
  have "list_all good_read repeated_reads" by code_simp
  from open_reader_header [OF _ this, of "''a''"] obtain rd where
    o: "open_reader ''a'' (Inr repeated_reads) True = Inr rd"
    by (auto simp: repeated_reads_def audit_file_def)
  have "case outcome_of (open_reader ''a'' (Inr repeated_reads) True) of (rows, status, e) \<Rightarrow>
      rows = [sample_md_row] \<and> status = Read_error \<and> rre_code e = RR_non_increasing_connection_sequence"
    by code_simp
  with o obtain e where
    r: "read_all rd = ([sample_md_row], Read_error, e)" "rre_code e = RR_non_increasing_connection_sequence"
    by (auto simp: outcome_of_def)
  from replay_delivers_valid_records [OF o r(1)] o r show ?thesis by auto
qed

text \<open>
  The first error is final: every later call returns the same error and leaves the reader as it
  is; so does every call after the end of the file.
\<close>

theorem replay_outcome_latched:
  assumes "next_record rd = ((status, e), rd')" and "status \<noteq> Read_record"
  shows "next_record rd' = ((status, e), rd')"
proof (cases "is_read_error (rr_first_error rd)")
  case True
  then have "next_record rd = ((Read_error, rr_first_error rd), rd)" by (simp add: next_record_def)
  with assms show ?thesis by auto
next
  case False
  show ?thesis
  proof (cases status)
    case Read_error
    then have "is_read_error (rr_first_error rd')" "rr_first_error rd' = e"
      using next_record_fails [of rd e rd'] assms(1) False by simp_all
    with Read_error show ?thesis by (simp add: next_record_def)
  next
    case Read_end_of_file
    then show ?thesis using next_record_ends_at [of rd e rd'] assms(1) False by (simp add: next_record_def)
  qed (use assms(2) in simp)
qed

theorem replay_outcome_latched_witness:
  "next_record (snd (next_record (reader_init [OS_bytes ''a'']))) = next_record (reader_init [OS_bytes ''a''])"
proof -
  let ?rd = "reader_init [OS_bytes ''a'']"
  obtain status e rd' where n: "next_record ?rd = ((status, e), rd')" by (metis surj_pair)
  have "fst (fst (next_record ?rd)) = Read_error" by code_simp
  with n have "status \<noteq> Read_record" by simp
  from replay_outcome_latched [OF n this] n show ?thesis by simp
qed

end
