(* ===== verification/Replay_Step.thy ===== *)
theory Replay_Step
  imports Replay_Guarantees Output_Set_Opening
begin

text \<open>
  One event processed live and processed again from its audit row has the same result, the same effect
  on the symbol state and the same order-book row.  The batches of the processor satisfy the contract
  of the output set, and the replay loop meets its output through an interface of two laws.
\<close>

section \<open>One event\<close>

definition book_output :: "EventRowBatch \<Rightarrow> string option" where
  "book_output out = (if has_order_book_row out then Some (crb_view (order_book_row_buffer out)) else None)"

lemma process_depth_same:
  assumes run: "process_depth al st ctx ev result out = (r, st', out')"
    and inv: "state_inv st" and ev: "event_ok ctx ev" and b: "batch_ok out" "batch_ok out2"
    and h: "\<not> has_order_book_row out" "\<not> has_order_book_row out2"
    and ts: "valid_timestamp (ctx_timestamp ctx)" "timestamp_in_range (ctx_timestamp ctx)"
  shows "\<exists>out2'. process_depth al2 st ctx ev result out2 = (r, st', out2') \<and> book_output out2' = book_output out'"
proof -
  obtain br core c where a: "apply_candidate st ctx ev = (br, core, c)" by (cases "apply_candidate st ctx ev")
  show ?thesis
  proof (cases "emits_snapshot br \<and> st_sequence_number st \<noteq> u64_max")
    case False
    with run h show ?thesis
      by (auto simp: process_depth_def a Let_def checked_next_sequence_def book_output_def split: if_splits)
  next
    case True
    with process_depth_emits [OF a _ _ inv ev b(1) ts, of al result]
      process_depth_emits [OF a _ _ inv ev b(2) ts, of al2 result] run show ?thesis
      by (auto simp: book_output_def crb_view_def)
  qed
qed

lemma process_audited_same:
  assumes run: "process_audited al st ctx parsed result out = (r, st', out')"
    and inv: "state_inv st" and b: "batch_ok out" "batch_ok out2"
    and ev: "spr_has_value parsed \<and> ctx_stream_kind ctx \<noteq> Trade \<longrightarrow> event_ok ctx (se_depth (spr_event parsed))"
    and h: "\<not> has_order_book_row out" "\<not> has_order_book_row out2"
    and ts: "valid_timestamp (ctx_timestamp ctx)" "timestamp_in_range (ctx_timestamp ctx)"
  shows "\<exists>out2'. process_audited al2 st ctx parsed result out2 = (r, st', out2') \<and> book_output out2' = book_output out'"
proof (cases "spr_has_value parsed \<and> ctx_stream_kind ctx \<noteq> Trade")
  case True
  with run have "process_depth al st ctx (se_depth (spr_event parsed)) result out = (r, st', out')"
    by (simp add: process_audited_def)
  from process_depth_same [OF this inv _ b h ts, of al2] ev True show ?thesis by (simp add: process_audited_def)
next
  case False
  with run h show ?thesis by (auto simp: process_audited_def book_output_def)
qed

text \<open>A payload view with the given bytes that the parser accepts.\<close>

definition readable :: "PaddedJsonView \<Rightarrow> bool" where
  "readable v \<longleftrightarrow> pj_data v \<noteq> None \<and> pj_capacity v \<ge> pj_size v + kJsonPaddingBytes \<and> pj_size v \<le> kMaxPayloadBytes"

text \<open>The JSON reader does not look at memory beyond the padding.\<close>

definition capacity_independent :: "iterate_fn \<Rightarrow> bool" where
  "capacity_independent iterate \<longleftrightarrow> (\<forall>bytes c c2. length bytes + kJsonPaddingBytes \<le> c \<longrightarrow>
     length bytes + kJsonPaddingBytes \<le> c2 \<longrightarrow> iterate bytes c = iterate bytes c2)"

lemma length_pj_bytes: "length (pj_bytes v) \<le> pj_size v"
  by (simp add: pj_bytes_def split: option.splits)

lemma parse_same:
  assumes "readable v" and "readable v2" and "pj_bytes v2 = pj_bytes v" and "capacity_independent iterate"
  shows "parse iterate parser venue kind symb v2 = parse iterate parser venue kind symb v"
proof -
  have "length (pj_bytes v) + kJsonPaddingBytes \<le> pj_capacity v" "length (pj_bytes v2) + kJsonPaddingBytes \<le> pj_capacity v2"
    using assms(1,2) length_pj_bytes [of v] length_pj_bytes [of v2] by (simp_all add: readable_def)
  then have "iterate (pj_bytes v2) (pj_capacity v2) = iterate (pj_bytes v) (pj_capacity v)"
    using assms(3,4) unfolding capacity_independent_def by metis
  moreover have "pj_bytes v2 = pj_bytes v" by (rule assms(3))
  ultimately show ?thesis
    using assms(1,2) by (cases parser) (auto simp: parse_def readable_def Let_def split: sum.splits)
qed

lemma parse_unreadable:
  assumes "\<not> readable v"
  shows "\<not> audit_eligible (spr_error (fst (parse iterate parser venue kind symb v)))"
  using assms
  by (cases parser; cases kind) (auto simp: parse_def readable_def set_error_def result_of_kind_def)

lemma process_same:
  assumes run: "process iterate al_audit al_book parser st ctx payload Live_capture out = (r, st', parser', out')"
    and ok: "epr_error r = EPE_none" "epr_status r \<noteq> EPS_pre_audit_rejected"
    and inv: "state_inv st" and p: "parser_ok parser" and b: "batch_ok out" "batch_ok out2"
    and ts: "timestamp_in_range (ctx_timestamp ctx)"
    and v2: "readable v2" "pj_bytes v2 = pj_bytes payload" and it: "capacity_independent iterate"
  shows "\<exists>out2'. process iterate al_audit2 al_book2 parser st ctx v2 Replay_output out2 = (r, st', parser', out2') \<and>
     book_output out2' = book_output out' \<and> readable payload"
proof -
  have valid: "context_is_valid st ctx" using process_commits [OF run ok(1)] by blast
  note ctx = context_valid_parts [OF valid]
  obtain i where i: "parser = Some i" "stamps_ok i" "pi_update_count i \<le> kMaxDepthUpdates"
    using p by (auto simp: parser_ok_def)
  obtain parsed parser1 where parse:
    "parse iterate parser (ctx_venue ctx) (ctx_stream_kind ctx) (st_symbol st) payload = (parsed, parser1)" by fastforce
  have ev: "spr_has_value parsed \<and> ctx_stream_kind ctx \<noteq> Trade \<longrightarrow> event_ok ctx (se_depth (spr_event parsed))"
    using parse_guarantees [where iterate = iterate and venue = "ctx_venue ctx" and kind = "ctx_stream_kind ctx"
        and symb = "st_symbol st" and payload = payload, OF i(2,3)] parse i(1)
    by (auto simp: event_ok_def depth_result_ok_def spr_has_value_def)
  have pp: "process_parsed al_audit al_book st ctx payload Live_capture parsed (batch_clear out) = (r, st', out')"
    and par: "parser' = parser1"
    using run valid parse by (auto simp: process_def split: prod.splits)
  obtain e out1 where f: "format_audit_row al_audit ctx payload (batch_clear out) = (e, out1)" by fastforce
  let ?r = "default_event_result\<lparr>epr_parse_error := spr_error parsed, epr_parse_field := spr_field parsed\<rparr>"
  have el: "audit_eligible (spr_error parsed)" and aud: "process_audited al_book st ctx parsed ?r out1 = (r, st', out')"
    using pp ok f by (auto simp: process_parsed_def Let_def split: if_splits)
  have rd: "readable payload" using el parse parse_unreadable by (metis fst_conv)
  have bb: "batch_ok out1" "batch_ok (batch_clear out2)" "\<not> has_order_book_row out1" "\<not> has_order_book_row (batch_clear out2)"
    using format_audit_row_frame [OF f] b by (auto simp: batch_ok_def batch_clear_def crb_clear_def)
  from process_audited_same [OF aud inv bb(1,2) ev bb(3,4) ctx(4) ts] obtain out2' where
    "process_audited al_book2 st ctx parsed ?r (batch_clear out2) = (r, st', out2')" "book_output out2' = book_output out'"
    by blast
  then show ?thesis
    using valid parse_same [OF rd v2 it] parse el par rd by (auto simp: process_def process_parsed_def Let_def)
qed

section \<open>Batches and the output set\<close>

definition coherent :: "EventRowBatch \<Rightarrow> bool" where
  "coherent b \<longleftrightarrow> (has_audit_row b \<longleftrightarrow> crb_view (audit_row b) \<noteq> []) \<and>
     (has_order_book_row b \<longleftrightarrow> crb_view (order_book_row_buffer b) \<noteq> [])"

lemma csv_line_neq_Nil [simp]: "csv_line fs \<noteq> []"
  by (simp add: csv_line_def)

lemma coherent_cleared [simp]: "coherent (batch_clear b)"
  using batch_clear_empty [of b] by (simp add: coherent_def batch_empty_def)

lemma process_audited_coherent:
  assumes run: "process_audited al st ctx parsed result out = (r, st', out')"
    and inv: "state_inv st" and b: "batch_ok out"
    and ev: "spr_has_value parsed \<and> ctx_stream_kind ctx \<noteq> Trade \<longrightarrow> event_ok ctx (se_depth (spr_event parsed))"
    and ts: "valid_timestamp (ctx_timestamp ctx)" "timestamp_in_range (ctx_timestamp ctx)"
    and c: "coherent out" "\<not> has_order_book_row out"
  shows "coherent out' \<and> (has_audit_row out' = has_audit_row out \<or> \<not> has_audit_row out' \<and> \<not> has_order_book_row out')"
proof (cases "spr_has_value parsed \<and> ctx_stream_kind ctx \<noteq> Trade")
  case True
  let ?ev = "se_depth (spr_event parsed)"
  from True run have d: "process_depth al st ctx ?ev result out = (r, st', out')" by (simp add: process_audited_def)
  obtain br core cc where a: "apply_candidate st ctx ?ev = (br, core, cc)" by (cases "apply_candidate st ctx ?ev")
  show ?thesis
  proof (cases "emits_snapshot br \<and> st_sequence_number st \<noteq> u64_max")
    case False
    from process_depth_silent [OF a False d] c show ?thesis by auto
  next
    case emits: True
    with process_depth_emits [OF a _ _ inv _ b ts, of al result] ev True d c show ?thesis
      by (auto simp: coherent_def crb_view_def)
  qed
next
  case False
  with run c show ?thesis by (auto simp: process_audited_def split: if_splits)
qed

lemma process_contract:
  assumes run: "process iterate al_audit al_book parser st ctx payload mode out = (r, st', parser', out')"
    and inv: "state_inv st" and p: "parser_ok parser" and b: "batch_ok out"
    and ts: "timestamp_in_range (ctx_timestamp ctx)"
  shows "valid_batch_contract (if mode = Live_capture then Output_live_capture else Output_replay) out'"
proof -
  have "coherent out' \<and> (mode = Live_capture \<longrightarrow> has_order_book_row out' \<longrightarrow> has_audit_row out') \<and>
      (mode \<noteq> Live_capture \<longrightarrow> \<not> has_audit_row out')"
  proof (cases "context_is_valid st ctx")
    case False
    with run show ?thesis by (auto simp: process_def)
  next
    case valid: True
    note ctx = context_valid_parts [OF valid]
    obtain i where i: "parser = Some i" "stamps_ok i" "pi_update_count i \<le> kMaxDepthUpdates"
      using p by (auto simp: parser_ok_def)
    obtain parsed parser1 where parse:
      "parse iterate parser (ctx_venue ctx) (ctx_stream_kind ctx) (st_symbol st) payload = (parsed, parser1)" by fastforce
    have ev: "spr_has_value parsed \<and> ctx_stream_kind ctx \<noteq> Trade \<longrightarrow> event_ok ctx (se_depth (spr_event parsed))"
      using parse_guarantees [where iterate = iterate and venue = "ctx_venue ctx" and kind = "ctx_stream_kind ctx"
          and symb = "st_symbol st" and payload = payload, OF i(2,3)] parse i(1)
      by (auto simp: event_ok_def depth_result_ok_def spr_has_value_def)
    have pp: "process_parsed al_audit al_book st ctx payload mode parsed (batch_clear out) = (r, st', out')"
      using run valid parse by (auto simp: process_def split: prod.splits)
    obtain e out1 where f: "format_audit_row al_audit ctx payload (batch_clear out) = (e, out1)" by fastforce
    let ?r = "default_event_result\<lparr>epr_parse_error := spr_error parsed, epr_parse_field := spr_field parsed\<rparr>"
    have b0: "batch_ok (batch_clear out)" and b1: "batch_ok out1" "\<not> has_order_book_row out1"
        "crb_view (order_book_row_buffer out1) = []"
      using b format_audit_row_frame [OF f] by (auto simp: batch_ok_def batch_clear_def crb_clear_def crb_view_def)
    have c1: "coherent out1" "has_audit_row out1" if "e = CSV_none"
      using format_audit_row_text [OF f [unfolded that] ts ctx(4)] format_audit_row_frame [OF f] b1(2,3) that
      by (auto simp: coherent_def)
    consider (pre) "out' = batch_clear out" | (audit) "out' = batch_clear out1"
      | (live) "mode = Live_capture" "e = CSV_none" "process_audited al_book st ctx parsed ?r out1 = (r, st', out')"
      | (replay) "mode \<noteq> Live_capture" "process_audited al_book st ctx parsed ?r (batch_clear out) = (r, st', out')"
      using pp f by (auto simp: process_parsed_def Let_def split: if_splits)
    then show ?thesis
    proof cases
      case live
      from process_audited_coherent [OF live(3) inv b1(1) ev ctx(4) ts c1(1) b1(2)] c1 live show ?thesis by auto
    next
      case replay
      from process_audited_coherent [OF replay(2) inv b0 ev ctx(4) ts] replay(1) show ?thesis by auto
    qed auto
  qed
  then show ?thesis by (auto simp: valid_batch_contract_def coherent_def)
qed

section \<open>The interface between replay and its output\<close>

text \<open>
  What the replay loop relies on: \<open>written\<close> is what was handed to the target so far, and a write that
  reports no error adds the order-book row of the batch.
\<close>

locale replay_output =
  fixes ops :: "('o, 'e) OutputOps" and target :: nat and symb :: string
    and ready :: "string list \<Rightarrow> 'o \<Rightarrow> bool"
  assumes symbol_ready: "ready rows out \<Longrightarrow> op_symbol ops out target = symb"
    and write_ready: "ready rows out \<Longrightarrow> op_write_batch ops out target b = (None, out') \<Longrightarrow>
      ready (rows @ (case book_output b of None \<Rightarrow> [] | Some row \<Rightarrow> [row])) out'"


text \<open>The output set behind the interface.\<close>

definition csv_output_ops :: "(CsvOutputSet, OutputSetWriteError) OutputOps" where
  "csv_output_ops = \<lparr>op_symbol = out_symbol,
     op_write_batch = (\<lambda>out target batch. case write_batch out target batch of (e, out) \<Rightarrow>
       (if is_write_error e then Some e else None, out))\<rparr>"

definition out_ready :: "nat \<Rightarrow> string \<Rightarrow> string list \<Rightarrow> CsvOutputSet \<Rightarrow> bool" where
  "out_ready k symb rows out \<longleftrightarrow> out_symbol out k = symb \<and> (\<exists>log. out_inv log out \<and> book_rows log k = rows)"

lemma out_symbol_map:
  "map tf_symbol (out_targets out') = map tf_symbol (out_targets out) \<Longrightarrow> out_symbol out' k = out_symbol out k"
proof -
  assume m: "map tf_symbol (out_targets out') = map tf_symbol (out_targets out)"
  then have "length (out_targets out') = length (out_targets out)" by (metis length_map)
  with m show ?thesis by (metis (no_types, lifting) leI nth_map out_symbol_def out_target_count_def)
qed

interpretation csv_out: replay_output csv_output_ops k symb "out_ready k symb" for k symb
proof unfold_locales
  show "out_ready k symb rows out \<Longrightarrow> op_symbol csv_output_ops out k = symb" for rows out
    by (simp add: out_ready_def csv_output_ops_def)
  fix rows out b out'
  assume r: "out_ready k symb rows out" and w: "op_write_batch csv_output_ops out k b = (None, out')"
  obtain log where l: "out_inv log out" "book_rows log k = rows" using r by (auto simp: out_ready_def)
  obtain e where wb: "write_batch out k b = (e, out')"
    using w by (auto simp: csv_output_ops_def split: prod.splits)
  note wi = write_batch_inv [OF l(1) wb]
  have "out_symbol out' k = symb" using r wi out_symbol_map [of out' out k] by (simp add: out_ready_def)
  moreover have "book_rows (log @ [(k, b)]) k = rows @ (case book_output b of None \<Rightarrow> [] | Some row \<Rightarrow> [row])"
    using l(2) by (simp add: book_output_def)
  ultimately show "out_ready k symb (rows @ (case book_output b of None \<Rightarrow> [] | Some row \<Rightarrow> [row])) out'"
    using wi unfolding out_ready_def by blast
qed

end
