(* ===== verification/Application.thy ===== *)
theory Application
  imports Live_Run_Loop Replay_Step
begin

text \<open>
  The program (\<open>src/main.cpp\<close>): its two modes and its exit codes.  The file system, the clock and the
  calls that may fail are parameters; \<open>io_context.run()\<close> is a sequence of handler invocations.  What is
  printed is left out.
\<close>

section \<open>Exit codes\<close>

definition kExitSuccess :: int where "kExitSuccess = 0"
definition kExitCommandLine :: int where "kExitCommandLine = 2"
definition kExitInput :: int where "kExitInput = 3"
definition kExitOutput :: int where "kExitOutput = 4"
definition kExitProcessing :: int where "kExitProcessing = 5"
definition kExitInternal :: int where "kExitInternal = 6"

lemmas exit_codes = kExitSuccess_def kExitCommandLine_def kExitInput_def kExitOutput_def kExitProcessing_def
  kExitInternal_def

definition live_exit_code :: "LiveRunLoopResult \<Rightarrow> int" where
  "live_exit_code run =
     (let result = lrr_capture run in
      if lrr_error run = LRE_none \<and> lcr_success result then kExitSuccess
      else if lcr_error result = LCE_writer_failure \<or> is_write_error (wr_output_error (lcr_writer result)) then kExitOutput
      else kExitProcessing)"

section \<open>Paths\<close>

text \<open>\<open>std::filesystem::path\<close> on POSIX: \<open>stem\<close> and \<open>parent_path\<close>.\<close>

definition path_filename :: "string \<Rightarrow> string" where
  "path_filename p = rev (takeWhile (\<lambda>c. c \<noteq> CHR ''/'') (rev p))"

definition path_stem :: "string \<Rightarrow> string" where
  "path_stem p =
     (let name = path_filename p;
          extension = takeWhile (\<lambda>c. c \<noteq> CHR ''.'') (rev name)
      in if name = ''.'' \<or> name = ''..'' \<or> CHR ''.'' \<notin> set name \<or> length extension + 1 = length name then name
         else take (length name - length extension - 1) name)"

definition path_parent :: "string \<Rightarrow> string" where
  "path_parent p =
     (let directory = rev (dropWhile (\<lambda>c. c \<noteq> CHR ''/'') (rev p));
          stripped = rev (dropWhile (\<lambda>c. c = CHR ''/'') (rev directory))
      in if stripped = [] then take 1 directory else stripped)"

section \<open>Replay\<close>

record ReplayInputMetadata =
  rim_path :: string
  rim_normalized_path :: string
  rim_normalized_parent :: string
  rim_symbol :: string
  rim_stem :: string

text \<open>
  \<open>rne_regular\<close> and \<open>rne_normalized\<close>: the answers of the file system (the normalized weakly canonical
  path, or an error); \<open>rne_inspected\<close> and \<open>rne_replayed\<close>: what opening an input gives the first and the
  second time.
\<close>

record ReplayEnvironment =
  rne_regular :: "string \<Rightarrow> bool"
  rne_normalized :: "string \<Rightarrow> string option"
  rne_inspected :: "string \<Rightarrow> int + os_read list"
  rne_inspect_allocated :: "string \<Rightarrow> bool"
  rne_output :: OutputEnvironment
  rne_replayed :: "nat \<Rightarrow> int + os_read list"
  rne_replay_allocated :: "nat \<Rightarrow> bool"
  rne_iterate :: iterate_fn
  rne_batch_allocator :: "nat \<Rightarrow> Allocator"
  rne_allocators :: "nat \<Rightarrow> nat \<Rightarrow> Allocator"

definition inspect_replay_input :: "ReplayEnvironment \<Rightarrow> string \<Rightarrow> ReplayInputMetadata option" where
  "inspect_replay_input env path =
     (if \<not> rne_regular env path then None
      else case rne_normalized env path of
        None \<Rightarrow> None
      | Some normalized \<Rightarrow>
          let stem = path_stem path in
          if stem = [] then None
          else case open_reader path (rne_inspected env path) (rne_inspect_allocated env path) of
            Inl _ \<Rightarrow> None
          | Inr reader \<Rightarrow>
              (case next_record reader of
                 ((status, _), reader) \<Rightarrow>
                   if status \<noteq> Read_record then None
                   else Some \<lparr>rim_path = path, rim_normalized_path = normalized,
                     rim_normalized_parent = path_parent normalized, rim_symbol = rec_symbol (rr_record reader),
                     rim_stem = stem\<rparr>))"

text \<open>The inner loop over the earlier inputs.\<close>

fun conflicting_input :: "ReplayInputMetadata \<Rightarrow> ReplayInputMetadata list \<Rightarrow> int option" where
  "conflicting_input m [] = None"
| "conflicting_input m (p # ps) =
     (if rim_normalized_path m = rim_normalized_path p then Some kExitCommandLine
      else if rim_symbol m = rim_symbol p then Some kExitInput
      else if rim_stem m = rim_stem p then Some kExitInput
      else conflicting_input m ps)"

fun inspect_inputs :: "ReplayEnvironment \<Rightarrow> ReplayInputMetadata list \<Rightarrow> string list \<Rightarrow> int + ReplayInputMetadata list" where
  "inspect_inputs env metadata [] = Inr metadata"
| "inspect_inputs env metadata (path # paths) =
     (case inspect_replay_input env path of
        None \<Rightarrow> Inl kExitInput
      | Some m \<Rightarrow>
          (case conflicting_input m metadata of
             Some code \<Rightarrow> Inl code
           | None \<Rightarrow> inspect_inputs env (metadata @ [m]) paths))"

record ReplayTotals =
  rtt_exit_code :: int
  rtt_rows_read :: u64
  rtt_rows_processed :: u64
  rtt_book_rows :: u64

fun replay_files :: "ReplayEnvironment \<Rightarrow> nat \<Rightarrow> ReplayInputMetadata list \<Rightarrow> CsvOutputSet \<Rightarrow> ReplayTotals \<Rightarrow>
    ReplayTotals \<times> CsvOutputSet" where
  "replay_files env index [] out totals = (totals, out)"
| "replay_files env index (m # ms) out totals =
     (case replay_market_data_file (rne_iterate env) (rne_batch_allocator env index) (rne_allocators env index)
             csv_output_ops index (rim_path m) (rne_replayed env index) (rne_replay_allocated env index) out of
        (replay, out) \<Rightarrow>
          let totals = totals\<lparr>rtt_rows_read := rtt_rows_read totals + rf_rows_read replay,
                rtt_rows_processed := rtt_rows_processed totals + rf_rows_processed replay,
                rtt_book_rows := rtt_book_rows totals + rf_order_book_rows replay\<rparr>
          in if rf_error replay \<noteq> RF_none
             then (totals\<lparr>rtt_exit_code :=
                     (if rf_error replay = RF_input_error \<or> rf_error replay = RF_empty_input
                      then kExitInput else kExitProcessing)\<rparr>, out)
             else replay_files env (index + 1) ms out totals)"

text \<open>The exit code and, when one was opened, the totals and the closed output set.\<close>

definition run_replay :: "ReplayEnvironment \<Rightarrow> CommandLineOptions \<Rightarrow> int \<times> (ReplayTotals \<times> CsvOutputSet) option" where
  "run_replay env options =
     (case inspect_inputs env [] (clo_replay_inputs options) of
        Inl code \<Rightarrow> (code, None)
      | Inr metadata \<Rightarrow>
          (case rne_normalized env (clo_output_directory options) of
             None \<Rightarrow> (kExitOutput, None)
           | Some output_path \<Rightarrow>
               if list_ex (\<lambda>input. output_path = rim_normalized_parent input) metadata then (kExitOutput, None)
               else
                 (case open_replay (rne_output env) (clo_output_directory options)
                         (Some (map (\<lambda>input. \<lparr>ros_normalized_symbol = rim_symbol input,
                                              ros_input_file_stem = rim_stem input\<rparr>) metadata)) (length metadata) of
                    (_, None, _) \<Rightarrow> (kExitOutput, None)
                  | (_, Some out, _) \<Rightarrow>
                      (case replay_files env 0 metadata out
                              \<lparr>rtt_exit_code = kExitSuccess, rtt_rows_read = 0, rtt_rows_processed = 0, rtt_book_rows = 0\<rparr> of
                         (totals, out) \<Rightarrow>
                           (case close_all out of
                              (close_error, out) \<Rightarrow>
                                let totals = (if is_write_error close_error then totals\<lparr>rtt_exit_code := kExitOutput\<rparr> else totals)
                                in (rtt_exit_code totals, Some (totals, out)))))))"

section \<open>Live capture\<close>

text \<open>\<open>snprintf\<close> with \<open>%0<width>d\<close>.\<close>

definition zero_padded :: "nat \<Rightarrow> int \<Rightarrow> string" where
  "zero_padded width n =
     (if n < 0 then CHR ''-'' # replicate (width - 1 - length (digits_of (nat (- n)))) CHR ''0'' @ digits_of (nat (- n))
      else replicate (width - length (digits_of (nat n))) CHR ''0'' @ digits_of (nat n))"

text \<open>\<open>utc\<close>: \<open>tm_year\<close>, \<open>tm_mon\<close> and \<open>tm_mday\<close> of \<open>gmtime_r\<close>, unless the clock or the conversion failed.\<close>

definition current_utc_date :: "(int \<times> int \<times> int) option \<Rightarrow> string option" where
  "current_utc_date utc =
     (case utc of
        None \<Rightarrow> None
      | Some (tm_year, tm_mon, tm_mday) \<Rightarrow>
          let year = tm_year + 1900 in
          if year < 0 \<or> year > 9999 then None
          else
            let written = zero_padded 4 year @ ''-'' @ zero_padded 2 (tm_mon + 1) @ ''-'' @ zero_padded 2 tm_mday
            in if length written \<noteq> 10 then None else Some written)"

text \<open>Whether the constructions of the start succeed, and the answers during \<open>create\<close> and \<open>start\<close>.\<close>

record LiveEnvironment =
  lve_subscription_allocated :: bool
  lve_utc :: "(int \<times> int \<times> int) option"
  lve_output :: OutputEnvironment
  lve_loop_constructed :: bool
  lve_create :: Answers
  lve_controller_allocated :: bool
  lve_pipeline :: Construction
  lve_writer :: CsvWriterCreateError
  lve_start :: LoopAnswers

text \<open>\<open>io_context.run()\<close>: the handlers in the order of their invocation; one that is not due is skipped.\<close>

fun run_io_context :: "(LoopAnswers \<times> run_event) list \<Rightarrow> LiveRun \<Rightarrow> LiveRun" where
  "run_io_context [] r = r"
| "run_io_context ((la, ev) # steps) r = run_io_context steps (if run_enabled la ev r then run_step la ev r else r)"

text \<open>The exit code and the state at the end; an exception of \<open>start\<close> ends the program in \<open>main\<close>.\<close>

definition run_live :: "LiveEnvironment \<Rightarrow> (LoopAnswers \<times> run_event) list \<Rightarrow> CommandLineOptions \<Rightarrow> int \<times> LiveRun option" where
  "run_live env steps options =
     (let venue = clo_venue options; symbols = clo_symbols options; n = length symbols in
      case create_subscription venue (Some symbols) n (lve_subscription_allocated env) of
        Inl _ \<Rightarrow> (kExitInternal, None)
      | Inr subscription \<Rightarrow>
          (case current_utc_date (lve_utc env) of
             None \<Rightarrow> (kExitInternal, None)
           | Some utc_date \<Rightarrow>
               (case open_live (lve_output env) (clo_output_directory options) venue (Some symbols) n utc_date of
                  (_, None, _) \<Rightarrow> (kExitOutput, None)
                | (_, Some out, _) \<Rightarrow>
                    (case create_loop (clo_duration_seconds options) (lve_loop_constructed env) of
                       Inl _ \<Rightarrow> (kExitInternal, None)
                     | Inr rl \<Rightarrow>
                         (case create_controller (lve_create env) (Some subscription) (Some out) True
                                 default_reconnect_options (lve_controller_allocated env) (lve_pipeline env) (lve_writer env) of
                            Inl e \<Rightarrow>
                              (if lce_code e = LCC_writer_initialization_failure then kExitOutput else kExitInternal, None)
                          | Inr ctl \<Rightarrow>
                              (case attach_controller True rl of
                                 (False, _) \<Rightarrow> (kExitInternal, None)
                               | (True, rl) \<Rightarrow>
                                   (case loop_start (lve_start env) \<lparr>run_loop = rl, run_controller = ctl\<rparr> of
                                      (True, r) \<Rightarrow> (kExitInternal, Some r)
                                    | (False, r) \<Rightarrow>
                                        let r = run_io_context steps r in
                                        if \<not> rl_terminal (run_loop r) then (kExitInternal, Some r)
                                        else (live_exit_code (rl_result (run_loop r)), Some r))))))))"

section \<open>The program\<close>

definition run_application ::
    "ReplayEnvironment \<Rightarrow> LiveEnvironment \<Rightarrow> (LoopAnswers \<times> run_event) list \<Rightarrow> (nat \<Rightarrow> bool) \<Rightarrow> int \<Rightarrow>
     argument_vector option \<Rightarrow> int" where
  "run_application replay live steps throws argc argv =
     (let command_line = parse_command_line throws argc argv in
      if \<not> clr_success command_line then kExitCommandLine
      else case clo_mode (clr_options command_line) of
        Mode_help \<Rightarrow> kExitSuccess
      | Mode_live_capture \<Rightarrow> fst (run_live live steps (clr_options command_line))
      | Mode_replay \<Rightarrow> fst (run_replay replay (clr_options command_line)))"

text \<open>\<open>main\<close>: an exception ends the program with the internal error code.\<close>

definition application_main ::
    "bool \<Rightarrow> ReplayEnvironment \<Rightarrow> LiveEnvironment \<Rightarrow> (LoopAnswers \<times> run_event) list \<Rightarrow> (nat \<Rightarrow> bool) \<Rightarrow> int \<Rightarrow>
     argument_vector option \<Rightarrow> int" where
  "application_main exception_left replay live steps throws argc argv =
     (if exception_left then kExitInternal else run_application replay live steps throws argc argv)"

end
