(* ===== verification/Replay_Equivalence.thy ===== *)
theory Replay_Equivalence
  imports Replay_Step
begin

text \<open>
  A capture and its replay agree: the order-book file that a replay derives from the audit file of an
  earlier capture is the order-book file of that capture, byte for byte.
\<close>

section \<open>The rows of a capture\<close>

definition captured :: "(EventProcessResult \<times> SymbolState \<times> EventRowBatch) list \<Rightarrow> bool" where
  "captured outs \<longleftrightarrow> list_all (\<lambda>(r, _, _). epr_error r = EPE_none \<and> epr_status r \<noteq> EPS_pre_audit_rejected) outs"

definition live_input :: "event_input \<Rightarrow> bool" where
  "live_input x \<longleftrightarrow> in_mode x = Live_capture \<and> timestamp_in_range (ctx_timestamp (in_context x))"

definition input_row :: "event_input \<Rightarrow> MarketDataCsvRow" where
  "input_row x = audit_row_of (in_context x) (in_payload x)"

lemma format_audit_row_bounded:
  assumes "format_audit_row al ctx payload out = (CSV_none, out')" and "timestamp_in_range (ctx_timestamp ctx)"
    and "valid_timestamp (ctx_timestamp ctx)"
  shows "length (csv_line (md_fields (audit_row_of ctx payload))) \<le> kMaxCsvRecordBytes"
proof -
  let ?row = "audit_row_of ctx payload" and ?b = "crb_clear (audit_row out)"
  obtain b' where f: "format_market_data_csv_row al ?row (audit_row out) = (CSV_none, b')"
    using assms(1) by (auto simp: format_audit_row_def audit_row_of_def split: prod.splits)
  have fin: "finish_row ?b (append_market_data al ?row (crb_storage ?b)) = (CSV_none, b')"
    using f by (auto simp: format_market_data_csv_row_def Let_def split: if_splits)
  have "appender (append_market_data al ?row) (csv_line (md_fields ?row))"
    using assms by (intro append_market_data_appender) (simp_all add: md_row_in_range_def audit_row_of_def)
  from appender.finish_none [OF this _ fin] show ?thesis by (simp add: crb_view_def crb_clear_def)
qed

lemma captured_row_ok:
  assumes run: "process iterate al_audit al_book parser st ctx payload Live_capture out = (r, st', parser', out')"
    and ok: "epr_error r = EPE_none" "epr_status r \<noteq> EPS_pre_audit_rejected"
    and inv: "state_inv st" and ts: "timestamp_in_range (ctx_timestamp ctx)"
  shows "audit_row_ok (audit_row_of ctx payload) \<and> row_identity (audit_row_of ctx payload) = (st_venue st, st_symbol st) \<and>
    has_audit_row out' \<and> crb_view (audit_row out') = csv_line (md_fields (audit_row_of ctx payload))"
proof -
  have valid: "context_is_valid st ctx" using process_commits [OF run ok(1)] by blast
  note ctx = context_valid_parts [OF valid]
  obtain parsed parser1 where parse:
    "parse iterate parser (ctx_venue ctx) (ctx_stream_kind ctx) (st_symbol st) payload = (parsed, parser1)" by fastforce
  have pp: "process_parsed al_audit al_book st ctx payload Live_capture parsed (batch_clear out) = (r, st', out')"
    using run valid parse by (auto simp: process_def split: prod.splits)
  obtain e out1 where f: "format_audit_row al_audit ctx payload (batch_clear out) = (e, out1)" by fastforce
  have el: "audit_eligible (spr_error parsed)" and e: "e = CSV_none"
    using pp ok f by (auto simp: process_parsed_def Let_def split: if_splits)
  have rd: "readable payload" using el parse parse_unreadable by (metis fst_conv)
  have perr: "epr_parse_error r = spr_error parsed"
  proof -
    let ?r = "default_event_result\<lparr>epr_parse_error := spr_error parsed, epr_parse_field := spr_field parsed\<rparr>"
    have "process_audited al_book st ctx parsed ?r out1 = (r, st', out')"
      using pp f el e by (simp add: process_parsed_def Let_def)
    from process_audited_keeps_audit [OF this ok(1)] show ?thesis by (simp add: default_event_result_def)
  qed
  have has: "has_audit_row out'" using process_audit(1) [OF run ok(1) ts] el perr by simp
  note bounded = format_audit_row_bounded [OF f [unfolded e] ts ctx(4)]
  have "ctx_shard_id ctx = 0" using valid by (auto simp: context_is_valid_def split: if_splits)
  moreover have "length (pj_bytes payload) \<le> kMaxPayloadBytes"
    using rd length_pj_bytes [of payload] by (simp add: readable_def)
  ultimately have "record_ok (audit_row_of ctx payload)"
    using ctx ts inv by (simp add: record_ok_def audit_row_of_def state_inv_def)
  with bounded has process_audit(2) [OF run ok(1) ts has] ctx show ?thesis
    by (simp add: audit_row_ok_def row_identity_def audit_row_of_def)
qed

text \<open>The rows of a whole capture, with the texts the processor wrote.\<close>

lemma captured_rows:
  assumes "captured (process_all iterate parser st out xs)" and "list_all live_input xs"
    and "state_inv st" and "parser_ok parser" and "batch_ok out"
  shows "list_all (\<lambda>row. audit_row_ok row \<and> row_identity row = (st_venue st, st_symbol st)) (map input_row xs) \<and>
     list_all (\<lambda>(_, _, b). has_audit_row b) (process_all iterate parser st out xs) \<and>
     map (\<lambda>(_, _, b). crb_view (audit_row b)) (process_all iterate parser st out xs) =
       map (\<lambda>x. csv_line (md_fields (input_row x))) xs \<and>
     length (process_all iterate parser st out xs) = length xs"
  using assms
proof (induction xs arbitrary: parser st out)
  case (Cons x xs)
  obtain r st' parser' out' where run: "process iterate (in_audit_allocator x) (in_book_allocator x) parser st
      (in_context x) (in_payload x) (in_mode x) out = (r, st', parser', out')"
    by (metis surj_pair)
  have x: "in_mode x = Live_capture" "timestamp_in_range (ctx_timestamp (in_context x))"
    using Cons.prems(2) by (simp_all add: live_input_def)
  have ok: "epr_error r = EPE_none" "epr_status r \<noteq> EPS_pre_audit_rejected"
    and rest: "captured (process_all iterate parser' st' out' xs)"
    using Cons.prems(1) run by (simp_all add: captured_def)
  note row = captured_row_ok [OF run [unfolded x(1)] ok Cons.prems(3) x(2)]
  note eff = process_effect [OF run Cons.prems(3-5) x(2)]
  from Cons.IH [OF rest] Cons.prems(2) eff row process_identity [OF run] show ?case
    by (simp add: run input_row_def)
qed simp

lemma captured_ordered:
  assumes "captured (process_all iterate parser st out xs)"
  shows "sorted_wrt (\<lambda>a b. coords_less (row_coords a) (row_coords b)) (map input_row xs)"
proof -
  have "accepted_coords xs (process_all iterate parser st out xs) = map (row_coords \<circ> input_row) xs"
    using assms
  proof (induction xs arbitrary: parser st out)
    case (Cons x xs)
    obtain r st' parser' out' where run: "process iterate (in_audit_allocator x) (in_book_allocator x) parser st
        (in_context x) (in_payload x) (in_mode x) out = (r, st', parser', out')"
      by (metis surj_pair)
    from Cons run show ?case
      by (simp add: captured_def accepted_coords_def input_coords_def row_coords_def input_row_def audit_row_of_def)
  qed (simp add: accepted_coords_def)
  with accepted_coords_above [of xs iterate parser st out] show ?thesis by (simp add: sorted_wrt_map)
qed

section \<open>The loop\<close>

lemma record_row_context:
  assumes "record_row rec = audit_row_of ctx payload"
  shows "rec_context rec = ctx" "pj_bytes (rec_payload rec) = pj_bytes payload"
    "rec_symbol rec = ctx_symbol ctx" "rec_venue rec = ctx_venue ctx"
  using assms by (simp_all add: record_row_def audit_row_of_def rec_context_def)

lemma record_payload_readable:
  assumes "record_ok (record_row rec)"
  shows "readable (rec_payload rec)"
proof -
  have "length (pj_bytes (rec_payload rec)) = rec_payload_size rec" by (simp add: rec_payload_def pj_bytes_def)
  with assms show ?thesis by (simp add: record_ok_def record_row_def readable_def rec_payload_def)
qed

definition row_texts :: "EventRowBatch \<Rightarrow> string list" where
  "row_texts b = (case book_output b of None \<Rightarrow> [] | Some row \<Rightarrow> [row])"

lemma emitted_rows_Cons: "emitted_rows ((r, st, b) # outs) = row_texts b @ emitted_rows outs"
  by (simp add: emitted_rows_def row_texts_def book_output_def)

text \<open>The state of the replay that corresponds to a state of the capture.\<close>

definition replays_state :: "'o ReplayRun \<Rightarrow> ParserImpl option \<Rightarrow> SymbolState \<Rightarrow> bool" where
  "replays_state run parser st \<longleftrightarrow> run_parser run = parser \<and> batch_ok (run_batch run) \<and>
     (run_state run = Some st \<or>
      run_state run = None \<and> create_symbol_state (st_venue st) (st_symbol st) = Some st)"

context replay_output
begin

lemma accept_record_replays:
  assumes run: "process iterate al_audit al_book parser st ctx payload Live_capture out = (r, st', parser', out')"
    and ok: "epr_error r = EPE_none" "epr_status r \<noteq> EPS_pre_audit_rejected"
    and inv: "state_inv st" and p: "parser_ok parser" and b: "batch_ok out"
    and ts: "timestamp_in_range (ctx_timestamp ctx)" and it: "capacity_independent iterate"
    and rec: "record_row (rr_record (run_reader rn)) = audit_row_of ctx payload"
    and st: "replays_state rn parser st" and out: "ready rows (run_output rn)" and symb: "st_symbol st = symb"
  shows "(\<exists>result' out2. accept_record iterate al ops target rn result = Inl (result', out2) \<and>
        rf_error result' = RF_output_write_failed) \<or>
     (\<exists>result' rn'. accept_record iterate al ops target rn result = Inr (result', rn') \<and>
        rf_error result' = rf_error result \<and> rf_rows_processed result' = rf_rows_processed result + 1 \<and>
        rf_rows_read result' = rf_rows_read result + 1 \<and>
        run_reader rn' = run_reader rn \<and> replays_state rn' parser' st' \<and> run_state rn' \<noteq> None \<and>
        ready (rows @ row_texts out') (run_output rn'))"
proof -
  let ?rec = "rr_record (run_reader rn)"
  note ctx = record_row_context [OF rec] context_valid_parts [OF conjunct1 [OF process_commits [OF run ok(1)]]]
  have "record_ok (record_row ?rec)"
    using captured_row_ok [OF run ok inv ts] by (simp add: rec audit_row_ok_def)
  note v2 = record_payload_readable [OF this] ctx(2)
  have b2: "batch_ok (run_batch rn)" "run_parser rn = parser" using st by (simp_all add: replays_state_def)
  obtain out2' where p2: "process iterate al al (run_parser rn) st (rec_context ?rec) (rec_payload ?rec)
      Replay_output (run_batch rn) = (r, st', parser', out2')" and same: "book_output out2' = book_output out'"
    using process_same [OF run ok inv p b b2(1) ts v2 it, of al al] b2(2) ctx(1) by auto
  have b3: "batch_ok out2'"
    using process_effect [OF p2 inv _ b2(1)] p ts b2(2) ctx(1) by simp
  let ?result = "result\<lparr>rf_rows_read := rf_rows_read result + 1, rf_logical_record_number := rr_logical_record_number (run_reader rn)\<rparr>"
  have acc: "accept_record iterate al ops target rn result = process_record iterate al ops target st rn ?result"
    using st symbol_ready [OF out] symb ctx
    by (auto simp: accept_record_def replays_state_def Let_def)
  let ?result2 = "?result\<lparr>rf_process_error := r, rf_rows_processed := rf_rows_processed ?result + 1\<rparr>"
  let ?result3 = "if has_order_book_row out2' then ?result2\<lparr>rf_order_book_rows := rf_order_book_rows ?result2 + 1\<rparr> else ?result2"
  obtain we out3 where w: "op_write_batch ops (run_output rn) target out2' = (we, out3)" by fastforce
  have pr: "process_record iterate al ops target st rn ?result =
     (case we of Some e \<Rightarrow> Inl (?result3\<lparr>rf_error := RF_output_write_failed, rf_output_error := Some e\<rparr>, out3)
      | None \<Rightarrow> Inr (?result3, rn\<lparr>run_state := Some st', run_parser := parser', run_batch := out2', run_output := out3\<rparr>))"
    using p2 ok w by (simp add: process_record_def Let_def epr_success_def split: option.splits)
  show ?thesis
  proof (cases we)
    case None
    from write_ready [OF out w [unfolded None]] same have "ready (rows @ row_texts out') out3" by (simp add: row_texts_def)
    with None acc pr b3 show ?thesis by (simp add: replays_state_def)
  next
    case (Some e)
    with acc pr show ?thesis by simp
  qed
qed

lemma replay_loop_replays:
  assumes "captured (process_all iterate parser st out xs)" and "list_all live_input xs"
    and "state_inv st" and "parser_ok parser" and "batch_ok out" and "capacity_independent iterate"
    and "replays_state rn parser st" and "ready rows (run_output rn)" and "st_symbol st = symb"
    and "reader_live (run_reader rn)" and "list_all (reader_follows (run_reader rn)) (map input_row xs)"
    and "good_input (rr_input (run_reader rn))"
    and "input_bytes (rr_input (run_reader rn)) = concat (map (\<lambda>x. csv_line (md_fields (input_row x))) xs)"
    and "run_state rn = None \<longrightarrow> xs \<noteq> []"
  shows "\<exists>result' out2. replay_loop iterate als ops target n rn result = (result', out2) \<and>
     (rf_error result' = RF_output_write_failed \<or>
      rf_error result' = rf_error result \<and> rf_rows_processed result' = rf_rows_processed result + of_nat (length xs) \<and>
      ready (rows @ emitted_rows (process_all iterate parser st out xs)) out2)"
  using assms
proof (induction xs arbitrary: parser st out rn rows result n)
  case Nil
  then obtain input' where "read_logical_record (rr_input (run_reader rn)) = (Logical_end_of_file, input')"
    using read_logical_record_end [of "rr_input (run_reader rn)"] by auto
  with Nil have "\<exists>rd'. next_record (run_reader rn) = ((Read_end_of_file, no_read_error), rd')"
    by (simp add: next_record_def reader_live_def)
  with Nil show ?case by (subst replay_loop.simps) (auto simp: emitted_rows_def)
next
  case (Cons x xs)
  obtain r st' parser' out' where run: "process iterate (in_audit_allocator x) (in_book_allocator x) parser st
      (in_context x) (in_payload x) (in_mode x) out = (r, st', parser', out')"
    by (metis surj_pair)
  have x: "in_mode x = Live_capture" "timestamp_in_range (ctx_timestamp (in_context x))"
    using Cons.prems(2) by (simp_all add: live_input_def)
  have ok: "epr_error r = EPE_none" "epr_status r \<noteq> EPS_pre_audit_rejected"
    and rest: "captured (process_all iterate parser' st' out' xs)"
    using Cons.prems(1) run by (simp_all add: captured_def)
  note row = captured_rows [OF Cons.prems(1-5)] and ordered = captured_ordered [OF Cons.prems(1)]
  have fol: "reader_follows (run_reader rn) (input_row x)" and rok: "audit_row_ok (input_row x)"
    using Cons.prems(11) row by simp_all
  have bytes: "input_bytes (rr_input (run_reader rn)) = csv_line (md_fields (input_row x)) @
      concat (map (\<lambda>x. csv_line (md_fields (input_row x))) xs)" using Cons.prems(13) by simp
  from next_record_reads [OF rok Cons.prems(10) fol Cons.prems(12) bytes] obtain rd' where
    n: "next_record (run_reader rn) = ((Read_record, no_read_error), rd')" "record_row (rr_record rd') = input_row x"
      "reader_live rd'" "good_input (rr_input rd')"
      "input_bytes (rr_input rd') = concat (map (\<lambda>x. csv_line (md_fields (input_row x))) xs)" and
    f: "(rr_file_venue rd', rr_file_symbol rd') = row_identity (input_row x)"
      "(rr_last_connection_epoch rd', rr_last_connection_sequence rd') = row_coords (input_row x)"
    by blast
  have fol': "list_all (reader_follows rd') (map input_row xs)"
    unfolding list_all_iff reader_follows_def f using row ordered by (simp add: list_all_iff)
  let ?rn = "rn\<lparr>run_reader := rd'\<rparr>"
  have rec: "record_row (rr_record (run_reader ?rn)) = audit_row_of (in_context x) (in_payload x)"
    using n(2) by (simp add: input_row_def)
  have st: "replays_state ?rn parser st" and out: "ready rows (run_output ?rn)"
    using Cons.prems(7,8) by (simp_all add: replays_state_def)
  note acc = accept_record_replays [OF run [unfolded x(1)] ok Cons.prems(3-5) x(2) Cons.prems(6) rec st out Cons.prems(9),
      of "als n" result]
  have loop: "replay_loop iterate als ops target n rn result =
     (case accept_record iterate (als n) ops target ?rn result of
        Inl r \<Rightarrow> r | Inr (result, run) \<Rightarrow> replay_loop iterate als ops target (Suc n) run result)"
    by (subst replay_loop.simps) (simp add: n(1))
  from acc show ?case
  proof (elim disjE exE conjE)
    fix result' out2
    assume "accept_record iterate (als n) ops target ?rn result = Inl (result', out2)" "rf_error result' = RF_output_write_failed"
    then show ?thesis by (simp add: loop)
  next
    fix result' rn'
    assume a: "accept_record iterate (als n) ops target ?rn result = Inr (result', rn')"
      "rf_error result' = rf_error result" "rf_rows_processed result' = rf_rows_processed result + 1"
      "run_reader rn' = run_reader ?rn" "replays_state rn' parser' st'" "run_state rn' \<noteq> None"
      "ready (rows @ row_texts out') (run_output rn')"
    have eff: "state_inv st'" "parser_ok parser'" "batch_ok out'"
      using process_effect [OF run Cons.prems(3-5) x(2)] by simp_all
    have "\<exists>result2 out2. replay_loop iterate als ops target (Suc n) rn' result' = (result2, out2) \<and>
       (rf_error result2 = RF_output_write_failed \<or>
        rf_error result2 = rf_error result' \<and> rf_rows_processed result2 = rf_rows_processed result' + of_nat (length xs) \<and>
        ready ((rows @ row_texts out') @ emitted_rows (process_all iterate parser' st' out' xs)) out2)"
    proof (rule Cons.IH [OF rest _ eff])
      show "run_state rn' = None \<longrightarrow> xs \<noteq> []" using a(6) by blast
    qed (use Cons.prems(2,6,9) a fol' n process_identity(1) [OF run] in simp_all)
    with a show ?thesis by (auto simp: loop run emitted_rows_Cons algebra_simps)
  qed
qed

lemma file_replays:
  assumes cap: "captured (process_all iterate (Some parser_init) st batch xs)" "list_all live_input xs" "xs \<noteq> []"
    and start: "create_symbol_state venue symb = Some st" "batch_create al_audit al_book = Some batch"
    and it: "capacity_independent iterate"
    and reads: "path \<noteq> []" "list_all good_read reads" "concat (map read_bytes reads) = audit_file (map input_row xs)"
    and out: "ready rows out"
    and run: "replay_market_data_file iterate al als ops target path (Inr reads) True out = (result, out')"
  shows "rf_error result = RF_allocation_failure \<or> rf_error result = RF_output_write_failed \<or>
     rf_error result = RF_none \<and> rf_rows_processed result = of_nat (length xs) \<and>
     ready (rows @ emitted_rows (process_all iterate (Some parser_init) st batch xs)) out'"
proof (cases "batch_create al al")
  case None
  obtain rd where "open_reader path (Inr reads) True = Inr rd"
    using open_reader_header [OF reads(1,2)] reads(3) by (auto simp: audit_file_def)
  with run None show ?thesis by (auto simp: replay_market_data_file_def)
next
  case (Some batch2)
  obtain rd where rd: "open_reader path (Inr reads) True = Inr rd" "reader_live rd" "\<not> rr_has_file_identity rd"
    "good_input (rr_input rd)" "input_bytes (rr_input rd) = concat (map (\<lambda>x. csv_line (md_fields (input_row x))) xs)"
    using open_reader_header [OF reads(1,2)] reads(3) by (auto simp: audit_file_def comp_def)
  let ?rn = "\<lparr>run_reader = rd, run_state = None, run_parser = Some parser_init, run_batch = batch2, run_output = out\<rparr>"
  have st: "st_venue st = venue" "st_symbol st = symb" "state_inv st"
    using start(1) create_symbol_state_inv [OF start(1)] by (auto simp: create_symbol_state_def Let_def split: if_splits)
  have p: "parser_ok (Some parser_init)" using parser_init_stamps by (simp add: parser_ok_def) (simp add: parser_init_def)
  have "\<exists>result' out2. replay_loop iterate als ops target 0 ?rn default_file_result = (result', out2) \<and>
     (rf_error result' = RF_output_write_failed \<or>
      rf_error result' = rf_error (default_file_result :: 'e ReplayFileResult) \<and>
      rf_rows_processed result' = rf_rows_processed (default_file_result :: 'e ReplayFileResult) + of_nat (length xs) \<and>
      ready (rows @ emitted_rows (process_all iterate (Some parser_init) st batch xs)) out2)"
    using rd st start out Some batch_create_ok [OF Some] batch_create_ok [OF start(2)]
    by (intro replay_loop_replays [where parser = "Some parser_init" and st = st and out = batch and xs = xs] cap it p)
      (auto simp: replays_state_def reader_follows_def list_all_iff cap(3))
  with run rd(1) Some show ?thesis by (auto simp: replay_market_data_file_def default_file_result_def)
qed

end

section \<open>Files\<close>

lemma replay_market_data_file_replays:
  assumes "captured (process_all iterate (Some parser_init) st batch xs)" "list_all live_input xs" "xs \<noteq> []"
    and "create_symbol_state venue symb = Some st" "batch_create al_audit al_book = Some batch"
    and "capacity_independent iterate"
    and "path \<noteq> []" "list_all good_read reads" "concat (map read_bytes reads) = audit_file (map input_row xs)"
    and "out_ready k symb rows out"
    and "replay_market_data_file iterate al als csv_output_ops k path (Inr reads) True out = (result, out')"
  shows "rf_error result = RF_allocation_failure \<or> rf_error result = RF_output_write_failed \<or>
     rf_error result = RF_none \<and> rf_rows_processed result = of_nat (length xs) \<and>
     out_ready k symb (rows @ emitted_rows (process_all iterate (Some parser_init) st batch xs)) out'"
  by (rule csv_out.file_replays [OF assms])

lemma opened_inv:
  assumes "opens env dir (e, Some out, calls)" and "fresh_files env"
  shows "out_inv [] out"
  using assms(1)
proof (cases rule: opens_cases)
  case (2 o0)
  from open_prepared_opened [OF 2(1) [symmetric] 2(2,4) assms(2) 2(5,6)] show ?thesis by blast
qed simp

text \<open>The files of a target after an error-free close.\<close>

lemma closed_files:
  assumes "out_inv log out" and "\<not> out_failed out" and "out_closed out" and "i < out_target_count out"
  shows "file_content (tf_order_book (out_targets out ! i)) = kOrderBookCsvHeader @ concat (book_rows log i)"
    and "out_mode out = Output_live_capture \<Longrightarrow>
      file_content (tf_audit (out_targets out ! i)) = kMarketDataCsvHeader @ concat (audit_rows log i)"
  using assms file_inv_content unfolding out_inv_def target_inv_def by metis+

text \<open>The batches that went to one target.\<close>

definition target_batches :: "out_op list \<Rightarrow> nat \<Rightarrow> EventRowBatch list" where
  "target_batches ops i = map snd (filter (\<lambda>(j, _). j = i) (batches ops))"

lemma target_rows:
  "audit_rows log i = map (\<lambda>b. crb_view (audit_row b)) (filter has_audit_row (map snd (filter (\<lambda>(j, _). j = i) log)))"
  "book_rows log i =
     map (\<lambda>b. crb_view (order_book_row_buffer b)) (filter has_order_book_row (map snd (filter (\<lambda>(j, _). j = i) log)))"
  by (induction log) (auto simp: audit_rows_def book_rows_def)

lemma captured_files:
  assumes log: "target_batches ops i = map (\<lambda>(_, _, b). b) outs" and outs: "outs = process_all iterate parser st batch xs"
    and cap: "captured outs" "list_all live_input xs" and ok: "state_inv st" "parser_ok parser" "batch_ok batch"
  shows "audit_rows (batches ops) i = map (\<lambda>x. csv_line (md_fields (input_row x))) xs"
    and "book_rows (batches ops) i = emitted_rows outs"
proof -
  note rows = captured_rows [OF cap(1) [unfolded outs] cap(2) ok]
  have "filter has_audit_row (map (\<lambda>(_, _, b). b) outs) = map (\<lambda>(_, _, b). b) outs"
    using rows unfolding outs [symmetric] by (auto simp: filter_id_conv list_all_iff)
  moreover have "map (\<lambda>b. crb_view (audit_row b)) (map (\<lambda>(_, _, b). b) outs) =
      map (\<lambda>(_, _, b). crb_view (audit_row b)) outs"
    by (induction outs) auto
  ultimately show "audit_rows (batches ops) i = map (\<lambda>x. csv_line (md_fields (input_row x))) xs"
    using rows unfolding target_rows log [unfolded target_batches_def] outs [symmetric] by simp
  show "book_rows (batches ops) i = emitted_rows outs"
    unfolding target_rows log [unfolded target_batches_def] emitted_rows_def
    by (induction outs) auto
qed

end
