(* ===== verification/Application_Replay.thy ===== *)
theory Application_Replay
  imports Application Replay_Equivalence
begin

text \<open>
  The replay mode of the program on the audit files of earlier captures: every target of the output set
  receives exactly the order-book rows of its own capture.
\<close>

section \<open>An output set with several targets\<close>

text \<open>
  The set while target \<open>k\<close> is being written: \<open>rows\<close> are the order-book rows handed to it so far,
  \<open>others j\<close> those of every other target.
\<close>

definition set_ready :: "nat \<Rightarrow> string list \<Rightarrow> (nat \<Rightarrow> string list) \<Rightarrow> string list \<Rightarrow> CsvOutputSet \<Rightarrow> bool" where
  "set_ready k symbols others rows out \<longleftrightarrow> k < length symbols \<and> map tf_symbol (out_targets out) = symbols \<and>
     (\<exists>log. out_inv log out \<and> book_rows log k = rows \<and> (\<forall>j. j \<noteq> k \<longrightarrow> book_rows log j = others j))"

lemma set_ready_write:
  assumes r: "set_ready k symbols others rows out" and w: "op_write_batch csv_output_ops out k b = (None, out')"
  shows "set_ready k symbols others (rows @ (case book_output b of None \<Rightarrow> [] | Some row \<Rightarrow> [row])) out'"
proof -
  obtain log where l: "out_inv log out" "book_rows log k = rows" "\<forall>j. j \<noteq> k \<longrightarrow> book_rows log j = others j"
    using r by (auto simp: set_ready_def)
  obtain e where wb: "write_batch out k b = (e, out')"
    using w by (auto simp: csv_output_ops_def split: prod.splits)
  note wi = write_batch_inv [OF l(1) wb]
  have "book_rows (log @ [(k, b)]) k = rows @ (case book_output b of None \<Rightarrow> [] | Some row \<Rightarrow> [row])"
    "\<forall>j. j \<noteq> k \<longrightarrow> book_rows (log @ [(k, b)]) j = others j"
    using l(2,3) by (simp_all add: book_output_def)
  with wi r show ?thesis unfolding set_ready_def by auto
qed

interpretation set_out: replay_output csv_output_ops k "symbols ! k" "set_ready k symbols others" for k symbols others
proof unfold_locales
  show "set_ready k symbols others rows out \<Longrightarrow> op_symbol csv_output_ops out k = symbols ! k" for rows out
    by (auto simp: set_ready_def csv_output_ops_def out_symbol_def out_target_count_def)
qed (rule set_ready_write)

lemma set_ready_next:
  assumes "set_ready k symbols others rows out" and "k' < length symbols"
  shows "set_ready k' symbols (others(k := rows)) ((others(k := rows)) k') out"
  using assms by (auto simp: set_ready_def)

section \<open>Captured files\<close>

text \<open>\<open>bytes\<close> is the audit file of a capture of \<open>symb\<close> that produced the order-book rows \<open>rows\<close>.\<close>

definition captured_file :: "iterate_fn \<Rightarrow> string \<Rightarrow> string list \<Rightarrow> string \<Rightarrow> bool" where
  "captured_file iterate symb rows bytes \<longleftrightarrow>
     (\<exists>venue st al_audit al_book batch xs. create_symbol_state venue symb = Some st \<and>
        batch_create al_audit al_book = Some batch \<and> xs \<noteq> [] \<and> list_all live_input xs \<and>
        captured (process_all iterate (Some parser_init) st batch xs) \<and>
        bytes = audit_file (map input_row xs) \<and>
        rows = emitted_rows (process_all iterate (Some parser_init) st batch xs))"

text \<open>Opening the file gives exactly its bytes, in pieces of any size.\<close>

definition reads_file :: "int + os_read list \<Rightarrow> string \<Rightarrow> bool" where
  "reads_file descriptor bytes \<longleftrightarrow>
     (\<exists>reads. descriptor = Inr reads \<and> list_all good_read reads \<and> concat (map read_bytes reads) = bytes)"

lemma captured_first_record:
  assumes "captured_file iterate symb rows bytes" and "reads_file descriptor bytes" and "path \<noteq> []"
  shows "\<exists>rd rd' e. open_reader path descriptor True = Inr rd \<and> next_record rd = ((Read_record, e), rd') \<and>
    rec_symbol (rr_record rd') = symb"
proof -
  from assms(1) obtain venue st al_audit al_book batch xs where
    c: "create_symbol_state venue symb = Some st" "batch_create al_audit al_book = Some batch" "xs \<noteq> []" "list_all live_input xs"
      "captured (process_all iterate (Some parser_init) st batch xs)" "bytes = audit_file (map input_row xs)"
    unfolding captured_file_def by blast
  obtain reads where reads: "descriptor = Inr reads" "list_all good_read reads" "concat (map read_bytes reads) = bytes"
    using assms(2) by (auto simp: reads_file_def)
  obtain x xs' where xs: "xs = x # xs'" using c(3) by (cases xs) auto
  have st: "st_symbol st = symb" "state_inv st"
    using c(1) create_symbol_state_inv [OF c(1)] by (auto simp: create_symbol_state_def Let_def split: if_splits)
  have p: "parser_ok (Some parser_init)" using parser_init_stamps by (simp add: parser_ok_def) (simp add: parser_init_def)
  from captured_rows [OF c(5,4) st(2) p batch_create_ok [OF c(2)]] xs st(1)
  have row: "audit_row_ok (input_row x)" "md_symbol (input_row x) = symb" by (simp_all add: row_identity_def)
  obtain rd where rd: "open_reader path (Inr reads) True = Inr rd" "reader_live rd" "\<not> rr_has_file_identity rd"
    "good_input (rr_input rd)" "input_bytes (rr_input rd) = csv_line (md_fields (input_row x)) @
       concat (map (\<lambda>row. csv_line (md_fields row)) (map input_row xs'))"
    using open_reader_header [OF assms(3) reads(2)] reads(3) c(6) xs by (auto simp: audit_file_def)
  have "reader_follows rd (input_row x)" using rd(3) by (simp add: reader_follows_def)
  from next_record_reads [OF row(1) rd(2) this rd(4,5)] obtain rd' where
    "next_record rd = ((Read_record, no_read_error), rd')" "record_row (rr_record rd') = input_row x" by blast
  moreover from this(2) row(2) have "rec_symbol (rr_record rd') = symb" by (metis MarketDataCsvRow.select_convs(7) record_row_def)
  ultimately show ?thesis using rd(1) reads(1) by blast
qed

lemma captured_replay:
  assumes "captured_file iterate (symbols ! k) new bytes" and "reads_file descriptor bytes" and "path \<noteq> []"
    and "capacity_independent iterate" and "set_ready k symbols others rows out"
    and "replay_market_data_file iterate al als csv_output_ops k path descriptor True out = (result, out')"
    and "rf_error result = RF_none"
  shows "set_ready k symbols others (rows @ new) out'"
proof -
  from assms(1) obtain venue st al_audit al_book batch xs where
    c: "create_symbol_state venue (symbols ! k) = Some st" "batch_create al_audit al_book = Some batch" "xs \<noteq> []"
      "list_all live_input xs" "captured (process_all iterate (Some parser_init) st batch xs)"
      "bytes = audit_file (map input_row xs)" "new = emitted_rows (process_all iterate (Some parser_init) st batch xs)"
    unfolding captured_file_def by blast
  obtain reads where reads: "descriptor = Inr reads" "list_all good_read reads" "concat (map read_bytes reads) = bytes"
    using assms(2) by (auto simp: reads_file_def)
  from set_out.file_replays [OF c(5,4,3,1,2) assms(4,3) reads(2) reads(3) [unfolded c(6)] assms(5) assms(6) [unfolded reads(1)]]
    assms(7) c(7) show ?thesis by auto
qed

section \<open>All inputs\<close>

text \<open>Every input from \<open>index\<close> on is the audit file of a capture, described by \<open>caps\<close>: symbol and rows.\<close>

definition inputs_captured :: "ReplayEnvironment \<Rightarrow> nat \<Rightarrow> (string \<times> string list \<times> string) list \<Rightarrow> bool" where
  "inputs_captured env index caps \<longleftrightarrow> (\<forall>j < length caps. case caps ! j of (symb, rows, bytes) \<Rightarrow>
     captured_file (rne_iterate env) symb rows bytes \<and> reads_file (rne_replayed env (index + j)) bytes \<and>
     rne_replay_allocated env (index + j))"

lemma inputs_captured_Cons:
  "inputs_captured env index ((symb, rows, bytes) # caps) \<longleftrightarrow>
     captured_file (rne_iterate env) symb rows bytes \<and> reads_file (rne_replayed env index) bytes \<and>
     rne_replay_allocated env index \<and> inputs_captured env (Suc index) caps"
  unfolding inputs_captured_def by (auto simp: All_less_Suc2)

lemma replay_files_exact:
  assumes "inputs_captured env index caps" and "length ms = length caps"
    and "\<forall>m \<in> set ms. rim_path m \<noteq> []" and "capacity_independent (rne_iterate env)"
    and "map fst caps = drop index symbols" and "length symbols = index + length caps"
    and "caps \<noteq> [] \<Longrightarrow> set_ready index symbols others [] out" "\<forall>j \<ge> index. others j = []"
    and "replay_files env index ms out totals = (totals', out')" and "rtt_exit_code totals' = kExitSuccess"
    and "rtt_exit_code totals = kExitSuccess"
    and "caps = [] \<Longrightarrow> \<exists>log. out_inv log out \<and> (\<forall>j. book_rows log j = others j) \<and> map tf_symbol (out_targets out) = symbols"
  shows "\<exists>log. out_inv log out' \<and> map tf_symbol (out_targets out') = symbols \<and>
     (\<forall>j. book_rows log j = (if j < index then others j else if j < index + length caps then fst (snd (caps ! (j - index))) else []))"
  using assms
proof (induction caps arbitrary: index ms others out totals)
  case Nil
  then have "out' = out" by simp
  moreover obtain log where "out_inv log out" "\<forall>j. book_rows log j = others j" "map tf_symbol (out_targets out) = symbols"
    using Nil.prems(12) by blast
  ultimately show ?case using Nil.prems(8) by (intro exI [of _ log]) simp
next
  case (Cons cap caps)
  obtain symb rows bytes where cap: "cap = (symb, rows, bytes)" by (cases cap)
  obtain m ms' where ms: "ms = m # ms'" using Cons.prems(2) by (cases ms) auto
  obtain replay out1 where run: "replay_market_data_file (rne_iterate env) (rne_batch_allocator env index)
      (rne_allocators env index) csv_output_ops index (rim_path m) (rne_replayed env index)
      (rne_replay_allocated env index) out = (replay, out1)" by fastforce
  have c: "captured_file (rne_iterate env) symb rows bytes" "reads_file (rne_replayed env index) bytes"
    "rne_replay_allocated env index" "inputs_captured env (Suc index) caps"
    using Cons.prems(1) by (simp_all add: cap inputs_captured_Cons)
  have k: "index < length symbols" "symbols ! index = symb" "map fst caps = drop (Suc index) symbols"
    using Cons.prems(5,6) cap by (auto simp: Cons_nth_drop_Suc [symmetric])
  have ok: "rf_error replay = RF_none"
    using Cons.prems(9,10) ms run by (auto simp: Let_def exit_codes split: if_splits)
  have ready: "set_ready index symbols others ([] @ rows) out1"
    using captured_replay [OF _ c(2) _ Cons.prems(4), of symbols index rows "rim_path m" others "[]" out] c k ms run
      Cons.prems(3) Cons.prems(7) ok by simp
  let ?others = "others(index := rows)"
  obtain totals1 where rest: "replay_files env (Suc index) ms' out1 totals1 = (totals', out')"
    "rtt_exit_code totals1 = kExitSuccess"
    using Cons.prems(9,11) ms run ok by (simp add: Let_def)
  have "\<exists>log. out_inv log out' \<and> map tf_symbol (out_targets out') = symbols \<and>
     (\<forall>j. book_rows log j = (if j < Suc index then ?others j
        else if j < Suc index + length caps then fst (snd (caps ! (j - Suc index))) else []))"
  proof (rule Cons.IH [where totals = totals1, OF c(4) _ _ Cons.prems(4) k(3)])
    show "caps \<noteq> [] \<Longrightarrow> set_ready (Suc index) symbols ?others [] out1"
      using set_ready_next [OF ready, of "Suc index"] Cons.prems(6,8) by simp
    show "caps = [] \<Longrightarrow> \<exists>log. out_inv log out1 \<and> (\<forall>j. book_rows log j = ?others j) \<and> map tf_symbol (out_targets out1) = symbols"
      using ready by (auto simp: set_ready_def)
    show "\<forall>j \<ge> Suc index. ?others j = []" using Cons.prems(8) by simp
  qed (use Cons.prems(2,3,6,10) ms rest in auto)
  then obtain log where log: "out_inv log out'" "map tf_symbol (out_targets out') = symbols"
    "\<And>j. book_rows log j = (if j < Suc index then ?others j
        else if j < Suc index + length caps then fst (snd (caps ! (j - Suc index))) else [])" by blast
  have "book_rows log j = (if j < index then others j
      else if j < index + length (cap # caps) then fst (snd ((cap # caps) ! (j - index))) else [])" for j
    unfolding log(3) by (cases "j = index") (auto simp: cap nth_Cons' less_Suc_eq)
  with log show ?case by blast
qed

section \<open>Inspection\<close>

lemma inspect_inputs_shape:
  "inspect_inputs env before paths = Inr metadata \<Longrightarrow>
     \<exists>ms. metadata = before @ ms \<and> list_all2 (\<lambda>path m. inspect_replay_input env path = Some m) paths ms"
proof (induction paths arbitrary: before)
  case (Cons path paths)
  then obtain m where "inspect_replay_input env path = Some m" "inspect_inputs env (before @ [m]) paths = Inr metadata"
    by (auto split: option.splits)
  with Cons.IH [of "before @ [m]"] obtain ms where
    "metadata = before @ m # ms" "list_all2 (\<lambda>path m. inspect_replay_input env path = Some m) paths ms" by auto
  with \<open>inspect_replay_input env path = Some m\<close> show ?case by (intro exI [of _ "m # ms"]) simp
qed simp

lemma no_conflict:
  "conflicting_input m before = None \<longleftrightarrow>
     rim_normalized_path m \<notin> rim_normalized_path ` set before \<and> rim_symbol m \<notin> rim_symbol ` set before \<and>
     rim_stem m \<notin> rim_stem ` set before"
  by (induction before) auto

lemma inspect_inputs_distinct:
  assumes "inspect_inputs env before paths = Inr metadata" and "distinct (map rim_normalized_path before)"
    and "distinct (map rim_symbol before)" and "distinct (map rim_stem before)"
  shows "distinct (map rim_normalized_path metadata) \<and> distinct (map rim_symbol metadata) \<and> distinct (map rim_stem metadata)"
  using assms
proof (induction paths arbitrary: before)
  case (Cons path paths)
  then obtain m where m: "inspect_replay_input env path = Some m" "conflicting_input m before = None"
    "inspect_inputs env (before @ [m]) paths = Inr metadata" by (auto split: option.splits)
  from m(2) Cons.prems have "distinct (map rim_normalized_path (before @ [m]))" "distinct (map rim_symbol (before @ [m]))"
    "distinct (map rim_stem (before @ [m]))" by (auto simp: no_conflict)
  from Cons.IH [OF m(3) this] show ?case .
qed simp

text \<open>An input that the first reading saw as the file of a capture has the capture's symbol.\<close>

lemma inspected_symbol:
  assumes "inspect_replay_input env path = Some m" and "captured_file iterate symb rows bytes"
    and "reads_file (rne_inspected env path) bytes" and "rne_inspect_allocated env path"
  shows "rim_symbol m = symb \<and> rim_path m = path \<and> path \<noteq> []"
proof -
  have "path \<noteq> []" using assms(1) by (auto simp: inspect_replay_input_def open_reader_def Let_def split: if_splits option.splits)
  from captured_first_record [OF assms(2,3) this] obtain rd rd' e where
    "open_reader path (rne_inspected env path) True = Inr rd" "next_record rd = ((Read_record, e), rd')"
    "rec_symbol (rr_record rd') = symb" by blast
  with assms(1,4) \<open>path \<noteq> []\<close> show ?thesis
    by (auto simp: inspect_replay_input_def Let_def split: if_splits option.splits)
qed

lemma open_replay_symbols:
  assumes "open_replay env dir (Some specs) (length specs) = (e, Some out, calls)" and "fresh_files env"
  shows "out_inv [] out \<and> map tf_symbol (out_targets out) = map ros_normalized_symbol specs"
proof -
  define out0 where "out0 = \<lparr>out_mode = Output_replay, out_venue = None, out_directory = dir,
    out_targets = map (replay_target dir) specs, out_directory_created = False, out_closed = False,
    out_first_error = no_write_error\<rparr>"
  from assms(1) have "open_prepared env out0 = (e, Some out, calls)"
    by (auto simp: open_replay_def out0_def Let_def split: if_splits option.splits)
  from open_prepared_opened [OF this] assms(2) show ?thesis
    by (simp add: out0_def list_all_iff unopened_def replay_target_def new_target_def out_failed_def comp_def
        is_write_error_def no_write_error_def)
qed

section \<open>The replay mode\<close>

lemma run_replay_success:
  assumes "run_replay env options = (kExitSuccess, result)"
  obtains metadata output_path e out calls totals out1 close_error out2 where
    "inspect_inputs env [] (clo_replay_inputs options) = Inr metadata"
    "rne_normalized env (clo_output_directory options) = Some output_path"
    "\<forall>m \<in> set metadata. output_path \<noteq> rim_normalized_parent m"
    "open_replay (rne_output env) (clo_output_directory options)
       (Some (map (\<lambda>m. \<lparr>ros_normalized_symbol = rim_symbol m, ros_input_file_stem = rim_stem m\<rparr>) metadata))
       (length metadata) = (e, Some out, calls)"
    "replay_files env 0 metadata out
       \<lparr>rtt_exit_code = kExitSuccess, rtt_rows_read = 0, rtt_rows_processed = 0, rtt_book_rows = 0\<rparr> = (totals, out1)"
    "rtt_exit_code totals = kExitSuccess" "close_all out1 = (close_error, out2)" "\<not> is_write_error close_error"
    "result = Some (totals, out2)"
proof -
  have codes: "kExitInput \<noteq> kExitSuccess" "kExitCommandLine \<noteq> kExitSuccess" "kExitOutput \<noteq> kExitSuccess"
    by (simp_all add: exit_codes)
  have conflict: "conflicting_input m ms \<noteq> Some kExitSuccess" for m ms
    using codes by (induction ms) auto
  have inspect: "inspect_inputs env before paths \<noteq> Inl kExitSuccess" for before paths
    using codes conflict by (induction paths arbitrary: before) (auto split: option.splits)
  from assms show thesis
    unfolding run_replay_def
    using codes inspect
    by (auto simp: Let_def list_ex_iff split: sum.splits option.splits if_splits prod.splits intro: that)
qed

lemma inspected_parent:
  "inspect_replay_input env path = Some m \<Longrightarrow>
     \<exists>normalized. rne_normalized env (rim_path m) = Some normalized \<and> rim_normalized_parent m = path_parent normalized"
  by (auto simp: inspect_replay_input_def Let_def split: if_splits option.splits sum.splits prod.splits)

lemma inspected_inputs:
  assumes "inspect_inputs env [] paths = Inr metadata" and "length caps = length paths"
    and "\<forall>j < length caps. case caps ! j of (symb, rows, bytes) \<Rightarrow> captured_file iterate symb rows bytes \<and>
      reads_file (rne_inspected env (paths ! j)) bytes \<and> rne_inspect_allocated env (paths ! j)"
  shows "map rim_symbol metadata = map fst caps" and "map rim_path metadata = paths" and "\<forall>m \<in> set metadata. rim_path m \<noteq> []"
    and "\<forall>m \<in> set metadata. \<exists>normalized. rne_normalized env (rim_path m) = Some normalized \<and>
      rim_normalized_parent m = path_parent normalized"
proof -
  from inspect_inputs_shape [OF assms(1)] have shape: "length metadata = length paths"
    "\<And>j. j < length paths \<Longrightarrow> inspect_replay_input env (paths ! j) = Some (metadata ! j)"
    by (auto simp: list_all2_conv_all_nth)
  have at: "rim_symbol (metadata ! j) = fst (caps ! j) \<and> rim_path (metadata ! j) = paths ! j \<and> paths ! j \<noteq> []"
    if j: "j < length paths" for j
  proof -
    obtain symb rows bytes where c: "caps ! j = (symb, rows, bytes)" by (cases "caps ! j")
    with assms(2,3) j have "captured_file iterate symb rows bytes" "reads_file (rne_inspected env (paths ! j)) bytes"
      "rne_inspect_allocated env (paths ! j)" by auto
    from inspected_symbol [OF shape(2) [OF j] this] show ?thesis by (simp add: c)
  qed
  show "map rim_symbol metadata = map fst caps" "map rim_path metadata = paths"
    using at shape(1) assms(2) by (auto intro!: nth_equalityI)
  show "\<forall>m \<in> set metadata. rim_path m \<noteq> []" using at shape(1) by (auto simp: in_set_conv_nth)
  show "\<forall>m \<in> set metadata. \<exists>normalized. rne_normalized env (rim_path m) = Some normalized \<and>
      rim_normalized_parent m = path_parent normalized"
  proof
    fix m assume "m \<in> set metadata"
    then obtain j where "j < length paths" "m = metadata ! j" using shape(1) by (metis in_set_conv_nth)
    with inspected_parent [OF shape(2)] show "\<exists>normalized. rne_normalized env (rim_path m) = Some normalized \<and>
      rim_normalized_parent m = path_parent normalized" by blast
  qed
qed

text \<open>
  C37: the program replays captures.  Let every input of a replay run be the audit file of a capture,
  the same bytes at both readings, in pieces of any size.  If the program then exits with success, the
  inputs were captures of different symbols, the output directory is not the directory of an input, and
  every output file is closed and holds exactly the order-book header and the rows that its own capture
  emitted, in their order.
\<close>

theorem replay_mode_exact:
  assumes run: "run_replay env options = (kExitSuccess, result)"
    and caps: "length caps = length (clo_replay_inputs options)" "inputs_captured env 0 caps"
    and first: "\<forall>j < length caps. reads_file (rne_inspected env (clo_replay_inputs options ! j)) (snd (snd (caps ! j))) \<and>
      rne_inspect_allocated env (clo_replay_inputs options ! j)"
    and json: "capacity_independent (rne_iterate env)" and fresh: "fresh_files (rne_output env)"
  shows "\<exists>totals out. result = Some (totals, out) \<and> out_closed out \<and> map tf_symbol (out_targets out) = map fst caps \<and>
      distinct (map fst caps) \<and>
      (\<forall>j < length caps. file_content (tf_order_book (out_targets out ! j)) =
         kOrderBookCsvHeader @ concat (fst (snd (caps ! j)))) \<and>
      (\<forall>path \<in> set (clo_replay_inputs options).
         rne_normalized env (clo_output_directory options) \<noteq> map_option path_parent (rne_normalized env path))"
  using run
proof (rule run_replay_success)
  fix metadata output_path e out calls totals out1 close_error out2
  assume inspect: "inspect_inputs env [] (clo_replay_inputs options) = Inr metadata"
    and dir: "rne_normalized env (clo_output_directory options) = Some output_path"
      "\<forall>m \<in> set metadata. output_path \<noteq> rim_normalized_parent m"
    and opened: "open_replay (rne_output env) (clo_output_directory options)
       (Some (map (\<lambda>m. \<lparr>ros_normalized_symbol = rim_symbol m, ros_input_file_stem = rim_stem m\<rparr>) metadata))
       (length metadata) = (e, Some out, calls)"
    and files: "replay_files env 0 metadata out
       \<lparr>rtt_exit_code = kExitSuccess, rtt_rows_read = 0, rtt_rows_processed = 0, rtt_book_rows = 0\<rparr> = (totals, out1)"
      "rtt_exit_code totals = kExitSuccess"
    and close: "close_all out1 = (close_error, out2)" "\<not> is_write_error close_error" and result: "result = Some (totals, out2)"
  have "\<forall>j < length caps. case caps ! j of (symb, rows, bytes) \<Rightarrow> captured_file (rne_iterate env) symb rows bytes \<and>
      reads_file (rne_inspected env (clo_replay_inputs options ! j)) bytes \<and>
      rne_inspect_allocated env (clo_replay_inputs options ! j)"
    using caps(2) first by (auto simp: inputs_captured_def case_prod_beta)
  note metadata = inspected_inputs [OF inspect caps(1) this]
  have n: "length metadata = length caps" using metadata(1) by (metis length_map)
  define specs where "specs = map (\<lambda>m. \<lparr>ros_normalized_symbol = rim_symbol m, ros_input_file_stem = rim_stem m\<rparr>) metadata"
  have "open_replay (rne_output env) (clo_output_directory options) (Some specs) (length specs) = (e, Some out, calls)"
    using opened by (simp add: specs_def)
  from open_replay_symbols [OF this fresh] metadata(1)
  have set_open: "out_inv [] out" "map tf_symbol (out_targets out) = map fst caps"
    by (simp_all add: specs_def comp_def)
  have ready: "caps \<noteq> [] \<Longrightarrow> set_ready 0 (map fst caps) (\<lambda>_. []) [] out"
    "caps = [] \<Longrightarrow> \<exists>log. out_inv log out \<and> (\<forall>j. book_rows log j = []) \<and> map tf_symbol (out_targets out) = map fst caps"
    using set_open by (auto simp: set_ready_def book_rows_def intro!: exI [of _ "[]"])
  obtain log where log: "out_inv log out1" "map tf_symbol (out_targets out1) = map fst caps"
    "\<And>j. j < length caps \<Longrightarrow> book_rows log j = fst (snd (caps ! j))"
    using replay_files_exact [where symbols = "map fst caps", OF caps(2) n metadata(3) json _ _ ready(1) _ files] ready(2)
    by auto
  note closed = close_all_inv [OF log(1) close(1)]
  have count: "out_target_count out2 = length caps"
    using closed log(2) by (metis length_map out_target_count_def)
  have "file_content (tf_order_book (out_targets out2 ! j)) = kOrderBookCsvHeader @ concat (fst (snd (caps ! j)))"
    if "j < length caps" for j
    using closed_files(1) [of log out2 j] closed close(2) count log(3) [OF that] that by (simp add: out_failed_def)
  moreover have "distinct (map fst caps)" using inspect_inputs_distinct [OF inspect] metadata(1) by simp
  moreover have "rne_normalized env (clo_output_directory options) \<noteq> map_option path_parent (rne_normalized env path)"
    if "path \<in> set (clo_replay_inputs options)" for path
    using dir metadata(2,4) that by (metis (no_types, lifting) imageE image_set option.inject option.simps(9))
  ultimately show ?thesis using result closed log(2) by auto
qed

text \<open>One captured refresh, replayed by the program.\<close>

definition captured_input :: event_input where
  "captured_input = (sample_input 1 1)\<lparr>in_mode := Live_capture, in_audit_allocator := generous_allocator\<rparr>"

definition captured_outs :: "(EventProcessResult \<times> SymbolState \<times> EventRowBatch) list" where
  "captured_outs = process_all empty_refresh_iterate (Some parser_init) sample_state sample_batch [captured_input]"

definition captured_bytes :: string where
  "captured_bytes = audit_file [input_row captured_input]"

definition sample_replay :: ReplayEnvironment where
  "sample_replay =
     \<lparr>rne_regular = (\<lambda>_. True), rne_normalized = (\<lambda>path. Some (''/'' @ path)),
      rne_inspected = (\<lambda>_. Inr [OS_bytes captured_bytes]), rne_inspect_allocated = (\<lambda>_. True), rne_output = sample_files,
      rne_replayed = (\<lambda>_. Inr [OS_eintr, OS_bytes captured_bytes]), rne_replay_allocated = (\<lambda>_. True),
      rne_iterate = empty_refresh_iterate, rne_batch_allocator = (\<lambda>_. generous_allocator),
      rne_allocators = (\<lambda>_ _. generous_allocator)\<rparr>"

definition sample_replay_options :: CommandLineOptions where
  "sample_replay_options = default_options\<lparr>clo_mode := Mode_replay, clo_replay_inputs := [''in/a.csv''],
     clo_output_directory := ''again''\<rparr>"

lemma sample_replay_exit: "fst (run_replay sample_replay sample_replay_options) = kExitSuccess"
  by code_simp

lemma captured_outs_facts: "let outs = captured_outs in captured outs \<and> length (emitted_rows outs) = 1"
  by code_simp

lemma sample_capture:
  "create_symbol_state Venue_spot ''BTCUSDT'' = Some sample_state"
  "batch_create generous_allocator generous_allocator = Some sample_batch"
  "list_all live_input [captured_input]" "captured captured_outs" "captured_bytes \<noteq> []"
  "length (emitted_rows captured_outs) = 1"
proof -
  show "captured captured_outs" "length (emitted_rows captured_outs) = 1"
    using captured_outs_facts by (simp_all add: Let_def)
qed code_simp+

theorem replay_mode_exact_witness:
  "\<exists>totals out. snd (run_replay sample_replay sample_replay_options) = Some (totals, out) \<and>
     file_content (tf_order_book (out_targets out ! 0)) = kOrderBookCsvHeader @ concat (emitted_rows captured_outs) \<and>
     length (emitted_rows captured_outs) = 1"
proof -
  let ?caps = "[(''BTCUSDT'', emitted_rows captured_outs, captured_bytes)]"
  have "captured_file empty_refresh_iterate ''BTCUSDT'' (emitted_rows captured_outs) captured_bytes"
    unfolding captured_file_def
    using sample_capture by (intro exI [of _ Venue_spot] exI [of _ sample_state] exI [of _ generous_allocator]
      exI [of _ sample_batch] exI [of _ "[captured_input]"]) (simp add: captured_outs_def captured_bytes_def)
  then have caps: "inputs_captured sample_replay 0 ?caps"
    using sample_capture(5) by (simp add: inputs_captured_def sample_replay_def reads_file_def)
  have run: "run_replay sample_replay sample_replay_options = (kExitSuccess, snd (run_replay sample_replay sample_replay_options))"
    using sample_replay_exit by (metis prod.collapse)
  have "\<forall>j < length ?caps. reads_file (rne_inspected sample_replay (clo_replay_inputs sample_replay_options ! j)) (snd (snd (?caps ! j))) \<and>
      rne_inspect_allocated sample_replay (clo_replay_inputs sample_replay_options ! j)"
    using sample_capture(5) by (simp add: sample_replay_def reads_file_def)
  from replay_mode_exact [OF run _ caps this] sample_capture(6) show ?thesis
    by (auto simp: sample_replay_options_def sample_replay_def capacity_independent_def empty_refresh_iterate_def
        fresh_files_def sample_files_def sample_open_def short_handle_def)
qed

end
