(* ===== verification/Live_Capture_Coordinates.thy ===== *)
theory Live_Capture_Coordinates
  imports Live_Capture_Life
begin

text \<open>
  Connection coordinates across reconnects: every session is created with a fresh generation and the
  next unused epoch, so that the messages of the sessions reach the pipeline in increasing order and
  its metadata check never fails.
\<close>

section \<open>The fields that matter\<close>

fun created_session :: "cc_action \<Rightarrow> (u64 \<times> u64) list" where
  "created_session (Act_create_session g e) = [(g, e)]"
| "created_session _ = []"

definition created_sessions :: "cc_action list \<Rightarrow> (u64 \<times> u64) list" where
  "created_sessions tr = concat (map created_session tr)"

lemma created_sessions_simps [simp]:
  "created_sessions [] = []" "created_sessions (tr @ tr') = created_sessions tr @ created_sessions tr'"
  "created_sessions (a # tr) = created_session a @ created_sessions tr"
  by (simp_all add: created_sessions_def)

record CoordView =
  cv_session :: "(u64 \<times> u64) option"
  cv_open :: bool
  cv_next :: u64
  cv_exhausted :: bool
  cv_generation :: u64
  cv_seen :: "(u64 \<times> u64) option"
  cv_created :: "(u64 \<times> u64) list"

definition pipeline_coords :: "PipelineImpl \<Rightarrow> (u64 \<times> u64) option" where
  "pipeline_coords pl =
     (if lp_has_connection_metadata pl then Some (lp_connection_epoch pl, lp_last_connection_sequence pl) else None)"

definition coord_view :: "ControllerImpl \<Rightarrow> CoordView" where
  "coord_view st =
     \<lparr>cv_session = map_option (\<lambda>h. (sh_epoch h, sh_last_sequence h)) (cc_session st), cv_open = cc_session_open st,
      cv_next = cc_next_connection_epoch st, cv_exhausted = cc_epoch_exhausted st,
      cv_generation = cc_generation st, cv_seen = pipeline_coords (cc_pipeline st),
      cv_created = created_sessions (cc_trace st)\<rparr>"

definition coords_ok :: "CoordView \<Rightarrow> bool" where
  "coords_ok v \<longleftrightarrow>
     (case cv_session v of
        None \<Rightarrow> \<not> cv_open v \<and> (cv_exhausted v \<or> (\<forall>e s. cv_seen v = Some (e, s) \<longrightarrow> e < cv_next v))
      | Some (epoch, delivered) \<Rightarrow>
          (if cv_open v then epoch < cv_next v \<or> cv_exhausted v else epoch = cv_next v) \<and>
          (\<forall>e s. cv_seen v = Some (e, s) \<longrightarrow> e < epoch \<or> e = epoch \<and> cv_open v \<and> s \<le> delivered)) \<and>
     sorted_wrt (\<lambda>(g, e) (g', e'). g < g' \<and> e \<le> e') (cv_created v) \<and>
     (\<forall>(g, e) \<in> set (cv_created v). g \<le> cv_generation v \<and> e \<le> cv_next v)"

lemma view_frame [simp]:
  "coord_view (count_up field st) = coord_view st"
  "coord_view (update_metrics f st) = coord_view st"
  "coord_view (latch_failure e st) = coord_view st"
  "coord_view (cancel_reconnect st) = coord_view st"
  "created_session a = [] \<Longrightarrow> coord_view (act a st) = coord_view st"
  "coord_view (st\<lparr>cc_reads_paused := b\<rparr>) = coord_view st"
  "coord_view (st\<lparr>cc_started := b\<rparr>) = coord_view st"
  "coord_view (st\<lparr>cc_stop_requested := b\<rparr>) = coord_view st"
  "coord_view (st\<lparr>cc_resume_post_failed := b\<rparr>) = coord_view st"
  "coord_view (st\<lparr>cc_reconnect_attempt := n\<rparr>) = coord_view st"
  "coord_view (st\<lparr>cc_reconnect_waits := k\<rparr>) = coord_view st"
  "coord_view (st\<lparr>cc_reconnect_waits := k, cc_reconnect_cancelled := b\<rparr>) = coord_view st"
  "coord_view (st\<lparr>cc_consecutive_message_policy_failures := n\<rparr>) = coord_view st"
  "coord_view (st\<lparr>cc_result := r\<rparr>) = coord_view st"
  by (simp_all add: coord_view_def cc_helpers)

lemma view_update_session:
  "(\<And>h. sh_epoch (g h) = sh_epoch h \<and> sh_last_sequence (g h) = sh_last_sequence h) \<Longrightarrow>
   coord_view (update_session g st) = coord_view st"
  by (simp add: coord_view_def update_session_def option.map_comp comp_def)

lemma view_finalize [simp]: "coord_view (finalize_run an st) = coord_view st"
  by (simp add: finalize_run_def Let_def cc_helpers coord_view_def)

lemma view_stop_exception [simp]: "coord_view (handle_session_stop_exception an st) = coord_view st"
  by (simp add: handle_session_stop_exception_def)

lemma view_stop_session [simp]: "coord_view (stop_session an st) = coord_view st"
  by (simp add: stop_session_def view_update_session)

lemma view_fail [simp]: "coord_view (controller_fail an e st) = coord_view st"
  by (simp add: controller_fail_def Let_def view_update_session)

lemma view_request_stop [simp]: "coord_view (request_stop_on_io an st) = coord_view st"
  by (simp add: request_stop_on_io_def Let_def)

lemma view_start_session [simp]: "coord_view (snd (start_current_session an st)) = coord_view st"
  by (simp add: start_current_session_def Let_def view_update_session)

lemma view_start [simp]: "coord_view (snd (controller_start an st)) = coord_view st"
proof -
  obtain threw st' where run: "start_current_session an (st\<lparr>cc_started := True\<rparr>) = (threw, st')" by fastforce
  with view_start_session [of an "st\<lparr>cc_started := True\<rparr>"] have "coord_view st' = coord_view st" by simp
  with run show ?thesis by (cases threw) (simp_all add: controller_start_def)
qed

lemma view_pause [simp]: "coord_view (snd (pause_for_backpressure an st)) = coord_view st"
  by (simp add: pause_for_backpressure_def Let_def view_update_session)

lemma view_schedule [simp]: "coord_view (schedule_reconnect an st) = coord_view st"
  by (simp add: schedule_reconnect_def Let_def split: prod.split)

lemma view_resume [simp]: "coord_view (on_writer_resume an st) = coord_view st"
  by (simp add: on_writer_resume_def Let_def view_update_session)

lemma view_post_failure [simp]: "coord_view (resume_post_failure an st) = coord_view st"
  by (simp add: resume_post_failure_def Let_def view_update_session)

lemma view_stop [simp]: "coord_view (controller_stop st) = coord_view st"
  by (simp add: controller_stop_def)

lemma view_timers [simp]:
  "coord_view (on_backpressure_timeout an e st) = coord_view st"
  "coord_view (on_stable_connection g e st) = coord_view st"
  "coord_view (on_control g k st) = coord_view st"
  by (simp_all add: on_backpressure_timeout_def on_stable_connection_def on_control_def
      split: WebSocketControlKind.split)

lemma view_end_stopped [simp]: "coord_view (end_stopped_session an r st) = coord_view st"
  by (simp add: end_stopped_session_def Let_def)

lemma view_publish [simp]: "coord_view (snd (publish_batch an result batch st)) = coord_view st"
  by (simp add: publish_batch_def Let_def)

section \<open>Handlers that change them\<close>

lemma open_coords:
  assumes ok: "coords_ok (coord_view st)" and en: "event_enabled st (Cc_open g)"
  shows "coords_ok (coord_view (snd (on_open an g st)))"
proof (cases "g = cc_generation st")
  case False
  with ok show ?thesis by (simp add: on_open_def)
next
  case True
  with en obtain h where h: "cc_session st = Some h" and closed: "\<not> cc_session_open st" by auto
  let ?v = "coord_view st"
  let ?v' = "if cc_next_connection_epoch st = u64_max then ?v\<lparr>cv_open := True, cv_exhausted := True\<rparr>
      else ?v\<lparr>cv_open := True, cv_next := cc_next_connection_epoch st + 1\<rparr>"
  have view: "coord_view (snd (on_open an g st)) = ?v'"
    using True by (simp add: on_open_def Let_def) (simp add: coord_view_def cc_helpers)
  have fields: "cv_session ?v = Some (sh_epoch h, sh_last_sequence h)" "\<not> cv_open ?v" "cv_next ?v = cc_next_connection_epoch st"
    using h closed by (simp_all add: coord_view_def)
  have "coords_ok ?v'"
  proof (cases "cc_next_connection_epoch st = u64_max")
    case True
    with ok fields show ?thesis by (auto simp: coords_ok_def)
  next
    case False
    have less: "cc_next_connection_epoch st < cc_next_connection_epoch st + 1" by (rule u64_succ_gt [OF False])
    then have "e \<le> cc_next_connection_epoch st + 1" if "e \<le> cc_next_connection_epoch st" for e
      using that less by (meson less_imp_le order.trans)
    with ok fields False less show ?thesis by (auto simp: coords_ok_def)
  qed
  with view show ?thesis by simp
qed

lemma process_envelope_coords:
  "process_envelope sj al_audit al_book pl m envelope out = (r, pl', out') \<Longrightarrow> pipeline_coords pl' = pipeline_coords pl"
  by (auto simp: process_envelope_def reject_envelope_def invalidate_symbol_def pipeline_coords_def Let_def
      split: if_splits option.splits prod.splits)

lemma process_message_coords:
  assumes "process_message sj al_audit al_book pl m out = (r, pl', out')"
  shows "pipeline_coords pl' \<in> {pipeline_coords pl, Some (wm_connection_epoch m, wm_connection_sequence m)}"
  using assms
proof (cases rule: process_message_cases)
  case 2
  have "pipeline_coords (observe_connection m pl) = Some (wm_connection_epoch m, wm_connection_sequence m)"
    by (simp add: pipeline_coords_def observe_connection_def Let_def)
  with process_envelope_coords [OF 2(2)] show ?thesis by simp
qed simp

lemma text_view:
  "\<exists>seen \<in> {pipeline_coords (cc_pipeline st), Some (wm_connection_epoch m, wm_connection_sequence m)}.
     coord_view (snd (on_text_message an g m st)) = (coord_view st)\<lparr>cv_seen := seen\<rparr>"
proof -
  have same: "(coord_view st)\<lparr>cv_seen := pipeline_coords (cc_pipeline st)\<rparr> = coord_view st"
    by (simp add: coord_view_def)
  have view: "coord_view (st'\<lparr>cc_pipeline := pl\<rparr>) = (coord_view st')\<lparr>cv_seen := pipeline_coords pl\<rparr>" for st' pl
    by (simp add: coord_view_def)
  show ?thesis
  proof (cases "g = cc_generation st \<and> \<not> cc_terminal st \<and> \<not> cc_failure_latched st")
    case False
    then have "coord_view (snd (on_text_message an g m st)) = coord_view st"
      by (auto simp: on_text_message_def)
    with same show ?thesis by auto
  next
    case True
    show ?thesis
    proof (cases "an_acquire an")
      case (Inl e)
      with True same show ?thesis by (simp add: on_text_message_def Let_def)
    next
      case (Inr batch)
      obtain r pl out where run: "process_message (an_simdjson an) (an_audit_allocator an) (an_book_allocator an)
          (cc_pipeline st) m batch = (r, pl, out)" by (metis surj_pair)
      have "coord_view (snd (on_text_message an g m st)) = (coord_view st)\<lparr>cv_seen := pipeline_coords pl\<rparr>"
        using True Inr run by (simp add: on_text_message_def Let_def view)
      with process_message_coords [OF run] show ?thesis by blast
    qed
  qed
qed

lemma text_coords:
  assumes ok: "coords_ok (coord_view st)" and en: "event_enabled st (Cc_text g m)"
  shows "coords_ok (coord_view (controller_step an (Cc_text g m) st))"
proof (cases "g = cc_generation st")
  case False
  with ok show ?thesis by (simp add: on_text_message_def)
next
  case True
  with en obtain h where h: "cc_session st = Some h" "message_from h m" "cc_session_open st"
    by (auto split: option.splits)
  let ?st = "update_session (sh_last_sequence_update (\<lambda>_. wm_connection_sequence m)) st"
  obtain seen where seen: "seen \<in> {pipeline_coords (cc_pipeline st), Some (wm_connection_epoch m, wm_connection_sequence m)}"
    "coord_view (snd (on_text_message an g m ?st)) = (coord_view ?st)\<lparr>cv_seen := seen\<rparr>"
    using text_view [of ?st m an g] by (auto simp: update_session_def)
  have view: "coord_view ?st = (coord_view st)\<lparr>cv_session := Some (sh_epoch h, wm_connection_sequence m)\<rparr>"
    using h(1) by (simp add: coord_view_def update_session_def)
  have m: "wm_connection_epoch m = sh_epoch h" "sh_last_sequence h < wm_connection_sequence m"
    using h(2) by (simp_all add: message_from_def)
  have fields: "cv_session (coord_view st) = Some (sh_epoch h, sh_last_sequence h)" "cv_open (coord_view st)"
    "cv_seen (coord_view st) = pipeline_coords (cc_pipeline st)"
    using h by (simp_all add: coord_view_def)
  have old: "e < sh_epoch h \<or> e = sh_epoch h \<and> s \<le> sh_last_sequence h"
    if "pipeline_coords (cc_pipeline st) = Some (e, s)" for e s
    using ok fields that by (simp add: coords_ok_def)
  have "e < sh_epoch h \<or> e = sh_epoch h \<and> s \<le> wm_connection_sequence m" if "seen = Some (e, s)" for e s
    using seen(1) that old [of e s] m by auto
  then have "coords_ok ((coord_view ?st)\<lparr>cv_seen := seen\<rparr>)"
    using ok fields unfolding view by (simp add: coords_ok_def)
  with True seen(2) show ?thesis by simp
qed

lemma ended_session_view:
  "coord_view (ended_session r st) = (coord_view st)\<lparr>cv_session := None, cv_open := False\<rparr>"
proof -
  have drop: "coord_view (drop_session r st) = (coord_view st)\<lparr>cv_session := None, cv_open := False\<rparr>"
    unfolding drop_session_def view_frame by (simp add: coord_view_def pipeline_coords_def)
  have policy: "coord_view (count_policy_failure code st') = coord_view st'" for code st'
  proof -
    have "coord_view (if c then count_up f st1\<lparr>cc_consecutive_message_policy_failures := n\<rparr> else st1) = coord_view st1"
      for c f st1 n by simp
    show ?thesis unfolding count_policy_failure_def Let_def if_distrib [of coord_view] by simp
  qed
  show ?thesis unfolding ended_session_def Let_def by (simp add: drop policy)
qed

lemma session_terminal_coords:
  assumes ok: "coords_ok (coord_view st)" and en: "event_enabled st (Cc_session_terminal g r)"
  shows "coords_ok (coord_view (on_session_terminal an g r st))"
proof (cases "g = cc_generation st")
  case False
  with ok show ?thesis by (simp add: on_session_terminal_def)
next
  case True
  with en obtain h where h: "cc_session st = Some h" by auto
  have "coord_view (on_session_terminal an g r st) = (coord_view st)\<lparr>cv_session := None, cv_open := False\<rparr>"
    using True by (simp add: on_session_terminal_ended Let_def ended_session_view)
  moreover have "coords_ok ((coord_view st)\<lparr>cv_session := None, cv_open := False\<rparr>)"
    using ok h unfolding coords_ok_def by (auto simp: coord_view_def split: if_splits)
  ultimately show ?thesis by simp
qed

lemma create_coords:
  assumes ok: "coords_ok (coord_view st)" and none: "cc_session st = None" "\<not> cc_epoch_exhausted st" "\<not> cc_session_open st"
    and g: "cc_generation st \<noteq> u64_max"
    and create: "create_session an (cc_generation st + 1) (cc_next_connection_epoch st)
      (st\<lparr>cc_generation := cc_generation st + 1\<rparr>) = (failed, st')"
  shows "coords_ok (coord_view st')"
proof -
  let ?v = "(coord_view st)\<lparr>cv_generation := cc_generation st + 1\<rparr>"
  let ?v' = "?v\<lparr>cv_session := Some (cc_next_connection_epoch st, 0),
      cv_created := cv_created (coord_view st) @ [(cc_generation st + 1, cc_next_connection_epoch st)]\<rparr>"
  have view: "coord_view st' = ?v \<or> coord_view st' = ?v'"
    using create none(1) by (auto simp: create_session_def coord_view_def act_def split: option.splits)
  have less: "cc_generation st < cc_generation st + 1" by (rule u64_succ_gt [OF g])
  have fields: "cv_session (coord_view st) = None" "\<not> cv_exhausted (coord_view st)" "\<not> cv_open (coord_view st)"
    "cv_next (coord_view st) = cc_next_connection_epoch st" "cv_generation (coord_view st) = cc_generation st"
    using none by (simp_all add: coord_view_def)
  have below: "\<forall>(g, e) \<in> set (cv_created (coord_view st)). g < cc_generation st + 1 \<and> e \<le> cc_next_connection_epoch st"
    using ok fields less unfolding coords_ok_def by (auto dest!: bspec intro: order.strict_trans1)
  then have "\<forall>(g, e) \<in> set (cv_created (coord_view st)). g \<le> cc_generation st + 1 \<and> e \<le> cc_next_connection_epoch st"
    by (auto intro: less_imp_le)
  with ok below fields have "coords_ok ?v" "coords_ok ?v'"
    unfolding coords_ok_def by (auto simp: sorted_wrt_append)
  with view show ?thesis by auto
qed

lemma reconnect_coords:
  assumes ok: "coords_ok (coord_view st)" and life: "life_inv c st" and en: "event_enabled st (Cc_reconnect_timer e)"
  shows "coords_ok (coord_view (controller_step an (Cc_reconnect_timer e) st))"
proof (cases "e = Timer_expired \<and> \<not> cc_terminal st \<and> \<not> cc_stop_requested st \<and> cc_generation st \<noteq> u64_max")
  case False
  then have "coord_view (controller_step an (Cc_reconnect_timer e) st) = coord_view st"
    by (auto simp: on_reconnect_timer_def)
  with ok show ?thesis by simp
next
  case True
  let ?st = "st\<lparr>cc_reconnect_waits := cc_reconnect_waits st - 1\<rparr>"
  have none: "cc_session st = None" "\<not> cc_epoch_exhausted st" using life en True by (auto simp: life_inv_def)
  then have closed: "\<not> cc_session_open st" using ok by (simp add: coords_ok_def coord_view_def)
  obtain failed st1 where create: "create_session an (cc_generation ?st + 1) (cc_next_connection_epoch ?st)
      (?st\<lparr>cc_generation := cc_generation ?st + 1\<rparr>) = (failed, st1)" by fastforce
  have "coords_ok (coord_view st1)" by (rule create_coords [OF _ _ _ _ _ create]) (use ok none closed True in simp_all)
  moreover obtain threw st2 where start: "start_current_session an st1 = (threw, st2)" by fastforce
  moreover have "coord_view st2 = coord_view st1" using view_start_session [of an st1] start by simp
  moreover have "coord_view (controller_step an (Cc_reconnect_timer e) st) = coord_view (if failed = None then st2 else st1)"
    using True create start by (cases failed; cases threw) (simp_all add: on_reconnect_timer_def Let_def)
  ultimately show ?thesis by auto
qed

section \<open>Every run\<close>

lemma step_coords:
  assumes "coords_ok (coord_view st)" and "life_inv c st" and "event_enabled st ev"
  shows "coords_ok (coord_view (controller_step an ev st))"
proof (cases ev)
  case (Cc_text g m)
  with text_coords [OF assms(1)] assms(3) show ?thesis by blast
next
  case (Cc_reconnect_timer e)
  with reconnect_coords [OF assms(1,2)] assms(3) show ?thesis by blast
next
  case (Cc_open g)
  with open_coords [OF assms(1)] assms(3) show ?thesis by simp
next
  case (Cc_session_terminal g r)
  with session_terminal_coords [OF assms(1)] assms(3) show ?thesis by simp
qed (use assms in simp_all)

lemma runs_coords:
  "controller_runs st steps st' \<Longrightarrow> life_inv c st \<Longrightarrow> coords_ok (coord_view st) \<Longrightarrow> coords_ok (coord_view st')"
proof (induction rule: controller_runs.induct)
  case (run_step st steps st' ev an)
  then show ?case using step_coords runs_life by blast
qed

lemma fresh_pipeline: "create_pipeline sub construction = Inr pl \<Longrightarrow> \<not> lp_has_connection_metadata pl"
  by (auto simp: create_pipeline_def split: if_splits Construction.splits option.splits)

lemma created_coords:
  assumes "create_controller an subscription output has_callback options allocated construction started = Inr st"
  shows "coords_ok (coord_view st)"
proof -
  obtain sub where "create_pipeline sub construction = Inr (cc_pipeline st)" and st: "cc_session_open st = False"
    "cc_next_connection_epoch st = 0" "cc_generation st = 1" "cc_trace st = [Act_create_session 1 0]"
    "\<exists>h. cc_session st = Some h \<and> sh_epoch h = 0"
    using assms by (auto simp: create_controller_def create_session_def act_def Let_def
        split: option.splits if_splits sum.splits)
  then have "\<not> lp_has_connection_metadata (cc_pipeline st)" using fresh_pipeline by blast
  with st show ?thesis by (auto simp: coords_ok_def coord_view_def pipeline_coords_def)
qed

lemma enabled_text_valid:
  assumes "coords_ok (coord_view st)" and "event_enabled st (Cc_text (cc_generation st) m)"
  shows "valid_message_metadata (cc_pipeline st) m"
proof -
  obtain h where h: "cc_session st = Some h" "message_from h m" "cc_session_open st"
    using assms(2) by (auto split: option.splits)
  then have m: "wm_connection_epoch m = sh_epoch h" "sh_last_sequence h < wm_connection_sequence m"
    "wm_connection_sequence m \<noteq> 0" by (auto simp: message_from_def)
  have "lp_connection_epoch (cc_pipeline st) < sh_epoch h \<or> lp_connection_epoch (cc_pipeline st) = sh_epoch h \<and>
      lp_last_connection_sequence (cc_pipeline st) \<le> sh_last_sequence h"
    if "lp_has_connection_metadata (cc_pipeline st)"
    using assms(1) h that by (simp add: coords_ok_def coord_view_def pipeline_coords_def)
  with m h(2) show ?thesis by (auto simp: valid_message_metadata_def message_from_def)
qed

end
