(* ===== verification/Live_Capture_Guarantees.thy ===== *)
theory Live_Capture_Guarantees
  imports Live_Capture_Coordinates
begin

text \<open>
  Guarantees of the capture controller: the reconnect backoff, the life of a run under every order of
  callbacks and every answer of the called components, and the connection coordinates that reach the
  pipeline.
\<close>

section \<open>Backoff\<close>

lemma uint_double:
  fixes cap :: u64
  assumes "\<not> maximum div 2 < cap"
  shows "uint (cap * 2) = 2 * uint cap" "cap * 2 \<le> maximum"
proof -
  have half: "2 * uint cap \<le> uint maximum"
    using assms by (simp add: word_less_def uint_div not_less)
  moreover have "uint maximum < 2 ^ 64" using uint_lt2p [of maximum] by simp
  ultimately have "2 * uint cap < 2 ^ 64" by simp
  then have "uint (cap * 2) = uint cap * 2" by (simp add: uint_word_ariths)
  then show "uint (cap * 2) = 2 * uint cap" "cap * 2 \<le> maximum"
    using half by (simp_all add: word_le_def)
qed

lemma backoff_cap_exact:
  "cap \<le> maximum \<Longrightarrow>
   uint (backoff_cap maximum attempt index cap) =
     min (uint cap * 2 ^ (unat attempt - unat index)) (uint maximum)"
proof (induction maximum attempt index cap rule: backoff_cap.induct)
  case (1 maximum attempt index cap)
  let ?n = "unat attempt - unat index"
  show ?case
  proof (cases "index < attempt \<and> cap < maximum")
    case False
    have "?n = 0 \<or> uint maximum \<le> uint cap"
      using False by (auto simp: word_less_nat_alt [of index] word_less_def [of cap] not_less)
    moreover have "uint cap \<le> uint maximum" using "1.prems" by (simp add: word_le_def)
    moreover have "uint cap \<le> uint cap * 2 ^ ?n" using mult_left_mono [of 1 "2 ^ ?n" "uint cap"] by simp
    ultimately have "min (uint cap * 2 ^ ?n) (uint maximum) = uint cap" by auto
    moreover have "backoff_cap maximum attempt index cap = cap"
      using False by (subst backoff_cap.simps) argo
    ultimately show ?thesis by simp
  next
    case True
    then have n: "?n = Suc (unat attempt - unat (index + 1))"
      using unat_succ_below [of index attempt] by (simp add: word_less_nat_alt Suc_diff_Suc)
    let ?cap = "if maximum div 2 < cap then maximum else cap * 2"
    have cap: "?cap \<le> maximum" using uint_double(2) [of maximum cap] by simp
    have "uint (backoff_cap maximum attempt (index + 1) ?cap) =
        min (uint ?cap * 2 ^ (unat attempt - unat (index + 1))) (uint maximum)"
      by (rule "1.IH" [OF True cap])
    also have "\<dots> = min (uint cap * 2 ^ ?n) (uint maximum)"
    proof (cases "maximum div 2 < cap")
      case True
      then have "uint maximum < 2 * uint cap" by (simp add: word_less_def uint_div)
      moreover have "2 * uint cap \<le> uint cap * 2 ^ ?n"
        using mult_left_mono [of 1 "2 ^ (unat attempt - unat (index + 1))" "uint cap"] by (simp add: n)
      moreover have "uint maximum \<le> uint maximum * 2 ^ (unat attempt - unat (index + 1))"
        using mult_left_mono [of 1 "2 ^ (unat attempt - unat (index + 1))" "uint maximum"] by simp
      ultimately show ?thesis using True by simp
    next
      case False
      then show ?thesis using uint_double(1) [OF False] by (simp add: n)
    qed
    finally show ?thesis using True by (subst backoff_cap.simps) simp
  qed
qed

lemma uniform_between_range:
  fixes random lower upper :: u64
  assumes "lower \<le> upper" and "uint upper < 2 ^ 64 - 1"
  shows "lower \<le> uniform_between random lower upper \<and> uniform_between random lower upper \<le> upper"
proof -
  have d: "uint (upper - lower) = uint upper - uint lower"
    using assms(1) by (simp add: uint_minus_simple_alt)
  have "0 \<le> uint lower" by simp
  with d assms(2) have "uint (upper - lower) + 1 < 2 ^ 64" by linarith
  then have w: "uint (upper - lower + 1) = uint upper - uint lower + 1"
    using d by (simp add: uint_word_ariths)
  have "0 < uint upper - uint lower + 1" using assms(1) by (simp add: word_le_def)
  then have r: "uint (random mod (upper - lower + 1)) < uint upper - uint lower + 1"
    using pos_mod_bound [of "uint upper - uint lower + 1" "uint random"] by (simp add: uint_mod w)
  have "uint lower + uint (random mod (upper - lower + 1)) < 2 ^ 64" using r assms(2) by linarith
  then have "uint (uniform_between random lower upper) = uint lower + uint (random mod (upper - lower + 1))"
    by (simp add: uniform_between_def uint_word_ariths)
  with r show ?thesis by (simp add: word_le_def)
qed

lemma half_le: "(x :: u64) div 2 \<le> x"
proof -
  have "0 \<le> uint x" by simp
  then have "uint x div 2 \<le> uint x" by linarith
  then show ?thesis by (simp add: word_le_def uint_div)
qed

lemma delay_bounds:
  assumes valid: "valid_reconnect_options options" and small: "maximum_backoff options < 2 ^ 63"
  shows "case select_reconnect_delay options random attempt of (delay, next_attempt) \<Rightarrow>
      min (initial_backoff options * 2 ^ unat attempt) (maximum_backoff options) div 2 \<le> uint delay \<and>
      uint delay \<le> min (initial_backoff options * 2 ^ unat attempt) (maximum_backoff options) \<and>
      next_attempt = (if attempt = u64_max then u64_max else attempt + 1)"
proof -
  let ?initial = "word_of_int (initial_backoff options) :: u64"
  let ?maximum = "word_of_int (maximum_backoff options) :: u64"
  define cap where "cap = min (backoff_cap ?maximum attempt 0 ?initial) ?maximum"
  have range: "0 < initial_backoff options" "initial_backoff options \<le> maximum_backoff options"
    using valid by (simp_all add: valid_reconnect_options_def)
  have u: "uint ?initial = initial_backoff options" "uint ?maximum = maximum_backoff options"
    using range small by (simp_all add: uint_word_of_int)
  then have "?initial \<le> ?maximum" using range by (simp add: word_le_def)
  from backoff_cap_exact [OF this, of attempt 0]
  have cap: "uint cap = min (initial_backoff options * 2 ^ unat attempt) (maximum_backoff options)"
    by (simp add: cap_def u min_def word_le_def)
  have lower: "uint (cap div 2) = uint cap div 2" "cap div 2 \<le> cap"
    using half_le by (simp_all add: uint_div)
  have "uint cap \<le> maximum_backoff options" using cap by simp
  with small have "uint cap < 2 ^ 64 - 1" by simp
  note uniform = uniform_between_range [OF lower(2) this, of random]
  obtain delay where delay: "select_reconnect_delay options random attempt =
      (delay, if attempt \<noteq> u64_max then attempt + 1 else attempt)" "cap div 2 \<le> delay" "delay \<le> cap"
  proof (cases "select_inclusive options")
    case None
    with that uniform show thesis by (simp add: select_reconnect_delay_def Let_def flip: cap_def)
  next
    case (Some select)
    have "cap div 2 \<le> max (cap div 2) (min (select (cap div 2) cap) cap)"
      "max (cap div 2) (min (select (cap div 2) cap) cap) \<le> cap" using lower(2) by simp_all
    with that Some show thesis by (simp add: select_reconnect_delay_def Let_def flip: cap_def)
  qed
  then show ?thesis using cap lower(1) by (simp add: word_le_def)
qed

section \<open>Executable runs\<close>

fun drive_controller :: "(Answers \<times> cc_event) list \<Rightarrow> ControllerImpl \<Rightarrow> ControllerImpl option" where
  "drive_controller [] st = Some st"
| "drive_controller ((an, ev) # steps) st =
     (if event_enabled st ev then drive_controller steps (controller_step an ev st) else None)"

lemma drive_runs_from:
  "controller_runs st0 before st \<Longrightarrow> drive_controller steps st = Some st' \<Longrightarrow> controller_runs st0 (before @ steps) st'"
proof (induction steps arbitrary: before st)
  case (Cons s steps)
  obtain an ev where s: "s = (an, ev)" by (cases s)
  have "controller_runs st0 (before @ [(an, ev)]) (controller_step an ev st)"
    using Cons.prems s by (intro run_step) (auto split: if_splits)
  from Cons.IH [OF this] Cons.prems(2) s show ?case by (simp split: if_splits)
qed simp

lemma drive_runs: "drive_controller steps st = Some st' \<Longrightarrow> controller_runs st steps st'"
  using drive_runs_from [OF run_empty] by simp

lemma drive_controller_append:
  "drive_controller (before @ later) st = Option.bind (drive_controller before st) (drive_controller later)"
  by (induction before st rule: drive_controller.induct) auto

definition quiet_answers :: Answers where
  "quiet_answers = \<lparr>an_session_terminal = False, an_start_throws = False, an_stop_throws = False,
     an_pause_throws = False, an_resume_throws = False, an_timer_throws = False, an_random = 5,
     an_create_failure = None, an_acquire = Inr sample_batch, an_publish = WPE_none, an_writer_failed = False,
     an_should_pause = False, an_below_resume = True,
     an_join = \<lparr>wr_output_error = no_write_error, wr_metrics = no_writer_metrics\<rparr>, an_stop_late = False,
     an_simdjson = trade_simdjson, an_audit_allocator = failing_allocator, an_book_allocator = failing_allocator\<rparr>"

definition sample_output :: CsvOutputSet where
  "sample_output = \<lparr>out_mode = Output_live_capture, out_venue = Some Venue_spot, out_directory = ''out'',
     out_targets = [\<lparr>tf_symbol = ''BTCUSDT'', tf_audit_path = ''a'', tf_order_book_path = ''b'', tf_audit = None,
       tf_order_book = None, tf_audit_created = True, tf_order_book_created = True\<rparr>],
     out_directory_created = True, out_closed = False, out_first_error = no_write_error\<rparr>"

definition sample_controller :: ControllerImpl where
  "sample_controller = projr (create_controller quiet_answers (Some sample_subscription) (Some sample_output) True
     default_reconnect_options True Constructed WCE_none)"

definition reset_result :: WebSocketSessionResult where
  "reset_result = default_session_result\<lparr>wsr_code := WSE_remote_close, wsr_stage := WSS_read\<rparr>"

text \<open>Connect, receive, lose the connection, reconnect, receive again, stop.\<close>

definition sample_steps :: "(Answers \<times> cc_event) list" where
  "sample_steps = map (Pair quiet_answers)
     [Cc_start, Cc_open 1, Cc_text 1 (trade_message 0 1), Cc_session_terminal 1 reset_result,
      Cc_reconnect_timer Timer_expired, Cc_open 2, Cc_text 2 (trade_message 1 1), Cc_stop, Cc_request_stop,
      Cc_session_terminal 2 default_session_result]"

lemma sample_controller_created:
  "create_controller quiet_answers (Some sample_subscription) (Some sample_output) True default_reconnect_options
     True Constructed WCE_none = Inr sample_controller"
proof -
  have "\<not> isl (create_controller quiet_answers (Some sample_subscription) (Some sample_output) True
     default_reconnect_options True Constructed WCE_none)" by code_simp
  then show ?thesis by (simp add: sample_controller_def)
qed

section \<open>Properties\<close>

text \<open>
  C35: the backoff is exact and bounded.  With valid options the n-th reconnect in a row waits a time
  between half of and the whole of the cap, and the cap is the initial backoff times 2 to the n, at
  most the maximum; no step of the doubling overflows, and the attempt counter saturates.
\<close>

theorem reconnect_backoff_exact:
  assumes "valid_reconnect_options options" and "maximum_backoff options < 2 ^ 63"
  shows "case select_reconnect_delay options random attempt of (delay, next_attempt) \<Rightarrow>
      min (initial_backoff options * 2 ^ unat attempt) (maximum_backoff options) div 2 \<le> uint delay \<and>
      uint delay \<le> min (initial_backoff options * 2 ^ unat attempt) (maximum_backoff options) \<and>
      next_attempt = (if attempt = u64_max then u64_max else attempt + 1)"
  by (rule delay_bounds [OF assms])

theorem reconnect_backoff_exact_witness:
  "case select_reconnect_delay default_reconnect_options 5 3 of (delay, next_attempt) \<Rightarrow>
     1000 \<le> uint delay \<and> uint delay \<le> 2000 \<and> next_attempt = 4"
proof -
  have "valid_reconnect_options default_reconnect_options" "maximum_backoff default_reconnect_options < 2 ^ 63"
    by code_simp+
  from reconnect_backoff_exact [OF this, where random = 5 and attempt = 3] show ?thesis
    by (simp add: default_reconnect_options_def u64_max_def case_prod_beta)
qed

text \<open>
  C33: the life of a capture run, for every order of callbacks of the sessions, timers and the writer
  and every answer of the called components.  When the run has ended, the writer was joined exactly
  once, nothing was published, scheduled or connected after that, and the result was reported exactly
  once, without an error only if a stop was requested and the writer wrote everything.  As long as it
  has not ended nothing was reported, there is a session or an outstanding reconnect wait that will
  call back, and after a failure the session has been told to stop.
\<close>

theorem controller_lifecycle:
  assumes "create_controller an subscription output True options allocated construction started = Inr st\<^sub>0"
    and "controller_runs st\<^sub>0 steps st"
  shows "if cc_terminal st then ended_trace True (cc_trace st)
    else list_all (\<lambda>a. \<not> is_final a) (cc_trace st) \<and>
      (cc_session st \<noteq> None \<or> cc_reconnect_waits st = 1 \<and> \<not> cc_reconnect_cancelled st) \<and>
      (cc_failure_latched st \<longrightarrow> (\<exists>h. cc_session st = Some h \<and> sh_stopped h))"
  using runs_life [OF assms(2) created_controller(1) [OF assms(1)]]
  by (auto simp: life_inv_def)

text \<open>
  C34: the connection coordinates of a capture run.  Under the session's contract (a session reports
  its opening once, delivers messages only then, with its epoch and increasing sequences) the sessions
  are created with strictly increasing generations and non-decreasing epochs, and every message of the
  current session passes the pipeline's metadata check, however often the connection was lost, opened
  or refused before.
\<close>

theorem controller_coordinates:
  assumes "create_controller an subscription output has_callback options allocated construction started = Inr st\<^sub>0"
    and "controller_runs st\<^sub>0 steps st"
  shows "sorted_wrt (\<lambda>(g, e) (g', e'). g < g' \<and> e \<le> e') (created_sessions (cc_trace st)) \<and>
    (event_enabled st (Cc_text (cc_generation st) m) \<longrightarrow> valid_message_metadata (cc_pipeline st) m)"
proof -
  have ok: "coords_ok (coord_view st)"
    by (rule runs_coords [OF assms(2) created_controller(1) [OF assms(1)] created_coords [OF assms(1)]])
  then have "sorted_wrt (\<lambda>(g, e) (g', e'). g < g' \<and> e \<le> e') (created_sessions (cc_trace st))"
    by (simp add: coords_ok_def coord_view_def)
  with enabled_text_valid [OF ok] show ?thesis by blast
qed

text \<open>The state before the second message, and the end of the run.\<close>

lemma sample_run:
  "case drive_controller (take 6 sample_steps) sample_controller of
     None \<Rightarrow> False
   | Some st \<Rightarrow> event_enabled st (Cc_text (cc_generation st) (trade_message 1 1)) \<and>
       created_sessions (cc_trace st) = [(1, 0), (2, 1)] \<and>
       (case drive_controller (drop 6 sample_steps) st of
          None \<Rightarrow> False
        | Some st' \<Rightarrow> cc_terminal st' \<and> lcr_success (cc_result st'))" by code_simp

theorem controller_lifecycle_witness:
  "case drive_controller sample_steps sample_controller of
     None \<Rightarrow> False
   | Some st \<Rightarrow> ended_trace True (cc_trace st) \<and> lcr_success (cc_result st)"
proof -
  obtain st where st: "drive_controller sample_steps sample_controller = Some st" "cc_terminal st" "lcr_success (cc_result st)"
    using sample_run drive_controller_append [of "take 6 sample_steps" "drop 6 sample_steps" sample_controller]
    by (auto split: option.splits)
  from controller_lifecycle [OF sample_controller_created drive_runs [OF st(1)]] st show ?thesis by simp
qed

theorem controller_coordinates_witness:
  "case drive_controller (take 6 sample_steps) sample_controller of
     None \<Rightarrow> False
   | Some st \<Rightarrow> valid_message_metadata (cc_pipeline st) (trade_message 1 1) \<and>
       created_sessions (cc_trace st) = [(1, 0), (2, 1)]"
proof -
  obtain st where st: "drive_controller (take 6 sample_steps) sample_controller = Some st"
    "event_enabled st (Cc_text (cc_generation st) (trade_message 1 1))" "created_sessions (cc_trace st) = [(1, 0), (2, 1)]"
    using sample_run by (auto split: option.splits)
  from controller_coordinates [OF sample_controller_created drive_runs [OF st(1)], of "trade_message 1 1"] st
  show ?thesis by simp
qed

end
