(* ===== verification/Command_Line_Guarantees.thy ===== *)
theory Command_Line_Guarantees
  imports Command_Line
begin

text \<open>
  The language of accepted command lines.  A command line is a sequence of options; the theorem
  \<open>command_line_exact\<close> says that the parser accepts exactly the spellings of the well-formed sequences
  and returns exactly what they say.
\<close>

section \<open>Lists of symbols\<close>

text \<open>The fields of a value, separated by commas.\<close>

fun comma_fields :: "string \<Rightarrow> string list" where
  "comma_fields [] = [[]]"
| "comma_fields (c # s) =
     (if c = CHR '','' then [] # comma_fields s
      else (c # hd (comma_fields s)) # tl (comma_fields s))"

lemma comma_fields_not_Nil [simp]: "comma_fields s \<noteq> []"
  by (cases s) auto

definition uppercase_byte :: "char \<Rightarrow> char" where
  "uppercase_byte c = (if is_lower c then char_of (byte_of c - 97 + 65) else c)"

definition symbol_spelling :: "string \<Rightarrow> bool" where
  "symbol_spelling s \<longleftrightarrow> s \<noteq> [] \<and> length s \<le> 32 \<and> list_all (\<lambda>c. is_lower c \<or> is_upper c \<or> is_digit c) s"

lemma normalize_bytes_exact:
  "normalize_bytes s out =
     (if list_all (\<lambda>c. is_lower c \<or> is_upper c \<or> is_digit c) s then Some (out @ map uppercase_byte s) else None)"
  by (induction s arbitrary: out) (auto simp: uppercase_byte_def)

lemma normalize_symbol_exact:
  "normalize_symbol s = (if symbol_spelling s then Some (map uppercase_byte s) else None)"
  by (auto simp: normalize_symbol_def normalize_bytes_exact symbol_spelling_def kMaxNormalizedSymbolBytes_def)

lemma comma_fields_take:
  "comma_fields s = takeWhile (\<lambda>c. c \<noteq> CHR '','') s #
     (if CHR '','' \<in> set s then comma_fields (drop (length (takeWhile (\<lambda>c. c \<noteq> CHR '','') s) + 1) s) else [])"
  by (induction s) auto

lemma length_takeWhile_comma:
  "length (takeWhile (\<lambda>c. c \<noteq> CHR '','') s) < length s \<longleftrightarrow> CHR '','' \<in> set s"
  by (induction s) auto

lemma find_comma_cases:
  assumes "b \<le> length v"
  defines "field \<equiv> takeWhile (\<lambda>c. c \<noteq> CHR '','') (drop b v)"
  shows "find_comma v b = (if CHR '','' \<in> set (drop b v) then Some (b + length field) else None)"
    and "CHR '','' \<in> set (drop b v) \<Longrightarrow> b + length field < length v"
    and "take (length field) (drop b v) = field"
    and "CHR '','' \<notin> set (drop b v) \<Longrightarrow> field = drop b v"
proof -
  have less: "length field < length (drop b v) \<longleftrightarrow> CHR '','' \<in> set (drop b v)"
    unfolding field_def by (rule length_takeWhile_comma)
  then show "find_comma v b = (if CHR '','' \<in> set (drop b v) then Some (b + length field) else None)"
    and "CHR '','' \<in> set (drop b v) \<Longrightarrow> b + length field < length v"
    using assms(1) unfolding find_comma_def field_def [symmetric] Let_def by (auto simp: less_diff_conv add.commute)
  show "take (length field) (drop b v) = field" unfolding field_def by (simp flip: takeWhile_eq_take)
  show "CHR '','' \<notin> set (drop b v) \<Longrightarrow> field = drop b v"
    unfolding field_def by (auto simp: takeWhile_eq_all_conv)
qed

lemma collect_symbols_exact:
  assumes "b \<le> length v" and "length symbols \<le> 32"
  shows "case collect_symbols v b symbols of (ok, collected) \<Rightarrow>
      (ok \<longleftrightarrow> list_all symbol_spelling (comma_fields (drop b v)) \<and>
        length symbols + length (comma_fields (drop b v)) \<le> 32) \<and>
      (ok \<longrightarrow> collected = symbols @ map (map uppercase_byte) (comma_fields (drop b v)))"
  using assms
proof (induction v b symbols rule: collect_symbols.induct)
  case (1 v b symbols)
  define field where "field = takeWhile (\<lambda>c. c \<noteq> CHR '','') (drop b v)"
  define more where "more \<longleftrightarrow> CHR '','' \<in> set (drop b v)"
  note facts = find_comma_cases [OF 1(2), folded field_def more_def]
  have fields: "comma_fields (drop b v) =
      field # (if more then comma_fields (drop (b + length field + 1) v) else [])"
    using comma_fields_take [of "drop b v"] by (simp add: field_def more_def add.commute add.left_commute)
  have body: "collect_symbols v b symbols =
      (if length symbols = 32 then (False, symbols)
       else if \<not> symbol_spelling field then (False, symbols)
       else if more then collect_symbols v (b + length field + 1) (symbols @ [map uppercase_byte field])
            else (True, symbols @ [map uppercase_byte field]))"
    using 1(2) facts
    by (subst collect_symbols.simps)
       (simp add: Let_def normalize_symbol_exact kMaxConfiguredSymbols_def)
  show ?case
  proof (cases "length symbols \<noteq> 32 \<and> symbol_spelling field \<and> more")
    case True
    with 1 facts have "case collect_symbols v (b + length field + 1) (symbols @ [map uppercase_byte field]) of
        (ok, collected) \<Rightarrow>
        (ok \<longleftrightarrow> list_all symbol_spelling (comma_fields (drop (b + length field + 1) v)) \<and>
          length (symbols @ [map uppercase_byte field]) + length (comma_fields (drop (b + length field + 1) v)) \<le> 32) \<and>
        (ok \<longrightarrow> collected = (symbols @ [map uppercase_byte field]) @
          map (map uppercase_byte) (comma_fields (drop (b + length field + 1) v)))"
      by (intro 1(1) [OF _ refl refl]) (auto simp: kMaxConfiguredSymbols_def normalize_symbol_exact)
    with True show ?thesis by (auto simp: body fields)
  next
    case False
    then show ?thesis using 1(3) by (auto simp: body fields)
  qed
qed

definition symbols_ok :: "string \<Rightarrow> bool" where
  "symbols_ok v \<longleftrightarrow>
     (let symbols = map (map uppercase_byte) (comma_fields v)
      in list_all symbol_spelling (comma_fields v) \<and> length symbols \<le> 32 \<and>
         distinct symbols \<and> distinct (map instrument_id symbols))"

lemma uppercase_class: "is_lower c \<or> is_upper c \<or> is_digit c \<Longrightarrow> is_upper (uppercase_byte c) \<or> is_digit (uppercase_byte c)"
  by (auto simp: uppercase_byte_def is_lower_def is_upper_def is_digit_def byte_of_def)

lemma spelling_normalized: "symbol_spelling s \<Longrightarrow> is_normalized_symbol (map uppercase_byte s)"
  using uppercase_class
  by (fastforce simp: symbol_spelling_def is_normalized_symbol_def kMaxNormalizedSymbolBytes_def list_all_iff)

lemma parse_symbols_exact:
  "fst (parse_symbols v) \<longleftrightarrow> symbols_ok v"
  "symbols_ok v \<Longrightarrow> parse_symbols v = (True, map (map uppercase_byte) (comma_fields v))"
proof -
  obtain ok collected where run: "collect_symbols v 0 [] = (ok, collected)" by fastforce
  from collect_symbols_exact [of 0 v "[]"] have
    "ok \<longleftrightarrow> list_all symbol_spelling (comma_fields v) \<and> length (comma_fields v) \<le> 32"
    "ok \<Longrightarrow> collected = map (map uppercase_byte) (comma_fields v)"
    by (auto simp: run)
  moreover have "list_all symbol_spelling (comma_fields v) \<Longrightarrow>
      list_all is_normalized_symbol (map (map uppercase_byte) (comma_fields v))"
    using spelling_normalized by (auto simp: list_all_iff)
  ultimately have "parse_symbols v = (symbols_ok v, collected)" "symbols_ok v \<Longrightarrow> collected = map (map uppercase_byte) (comma_fields v)"
    using symbol_set_valid_iff [of collected]
    by (auto simp: parse_symbols_def run symbols_ok_def split: bool.splits)
  then show "fst (parse_symbols v) \<longleftrightarrow> symbols_ok v"
    and "symbols_ok v \<Longrightarrow> parse_symbols v = (True, map (map uppercase_byte) (comma_fields v))"
    by simp_all
qed

section \<open>Options\<close>

datatype cl_option =
    Opt_help
  | Opt_venue string
  | Opt_symbols string
  | Opt_duration string
  | Opt_output string
  | Opt_replay string

fun spell :: "cl_option \<Rightarrow> string list" where
  "spell Opt_help = [''--help'']"
| "spell (Opt_venue v) = [''--venue'', v]"
| "spell (Opt_symbols v) = [''--symbols'', v]"
| "spell (Opt_duration v) = [''--duration'', v]"
| "spell (Opt_output v) = [''--output-dir'', v]"
| "spell (Opt_replay v) = [''--replay'', v]"

fun option_ok :: "cl_option \<Rightarrow> bool" where
  "option_ok Opt_help = True"
| "option_ok (Opt_venue v) = (v = ''spot'' \<or> v = ''usdm'')"
| "option_ok (Opt_symbols v) = (v \<noteq> [] \<and> symbols_ok v)"
| "option_ok (Opt_duration v) = (v \<noteq> [] \<and> list_all is_digit v \<and> 0 < num_of v \<and> num_of v \<le> 9223372036)"
| "option_ok (Opt_output v) = (v \<noteq> [])"
| "option_ok (Opt_replay v) = (v \<noteq> [])"

text \<open>What an option does to the state of the loop, and when it is accepted there.\<close>

fun apply_option :: "cl_option \<Rightarrow> ParseState \<Rightarrow> ParseState" where
  "apply_option Opt_help st = st\<lparr>help_seen := True\<rparr>"
| "apply_option (Opt_venue v) st = update_options
     (clo_venue_update (\<lambda>_. if v = ''spot'' then Venue_spot else Venue_usdm)) (st\<lparr>venue_seen := True\<rparr>)"
| "apply_option (Opt_symbols v) st = update_options
     (clo_symbols_update (\<lambda>_. map (map uppercase_byte) (comma_fields v))) (st\<lparr>symbols_seen := True\<rparr>)"
| "apply_option (Opt_duration v) st = update_options
     (clo_duration_seconds_update (\<lambda>_. Some (num_of v))) (st\<lparr>duration_seen := True\<rparr>)"
| "apply_option (Opt_output v) st = update_options (clo_output_directory_update (\<lambda>_. v)) (st\<lparr>output_seen := True\<rparr>)"
| "apply_option (Opt_replay v) st = update_options
     (clo_replay_inputs_update (\<lambda>_. clo_replay_inputs (ps_options st) @ [v])) st"

fun admitted :: "cl_option \<Rightarrow> ParseState \<Rightarrow> bool" where
  "admitted Opt_help st = (\<not> help_seen st)"
| "admitted (Opt_venue v) st = (\<not> venue_seen st)"
| "admitted (Opt_symbols v) st = (\<not> symbols_seen st)"
| "admitted (Opt_duration v) st = (\<not> duration_seen st)"
| "admitted (Opt_output v) st = (\<not> output_seen st)"
| "admitted (Opt_replay v) st =
     (length (clo_replay_inputs (ps_options st)) \<noteq> 32 \<and> v \<notin> set (clo_replay_inputs (ps_options st)))"

definition accepted :: "ParseState \<Rightarrow> cl_option \<Rightarrow> bool" where
  "accepted st opt \<longleftrightarrow> option_ok opt \<and> admitted opt st"

lemma parse_positive_integer_exact:
  "parse_positive_integer v =
     (if v \<noteq> [] \<and> list_all is_digit v \<and> 0 < num_of v \<and> num_of v \<le> 18446744073709551615 then Some (num_of v) else None)"
proof -
  have signs: "\<not> is_digit CHR ''+''" "\<not> is_digit CHR ''-''" by (simp_all add: is_digit_def byte_of_def)
  have pos: "list_all is_digit v \<Longrightarrow> 0 \<le> num_of v" for v
    by (rule num_of_nonneg)
  have all: "dropWhile is_digit v = [] \<longleftrightarrow> list_all is_digit v" by (auto simp: dropWhile_eq_Nil_conv list_all_iff)
  have take: "list_all is_digit v \<Longrightarrow> takeWhile is_digit v = v" by (auto simp: takeWhile_eq_all_conv list_all_iff)
  show ?thesis
  proof (cases "list_all is_digit v")
    case True
    then have "v \<noteq> [] \<Longrightarrow> hd v \<noteq> CHR ''+'' \<and> hd v \<noteq> CHR ''-''" using signs by (cases v) auto
    with True pos [OF True] all show ?thesis
      unfolding parse_positive_integer_def from_chars_def Let_def simp_thms if_False take [OF True] by auto
  next
    case False
    then show ?thesis
      by (auto simp: parse_positive_integer_def from_chars_def Let_def list_all_iff split: from_chars_result.splits)
  qed
qed

lemma duration_exact:
  "use_duration i v st =
     (if option_ok (Opt_duration v) then Arg_next (i + 1) (update_options (clo_duration_seconds_update (\<lambda>_. Some (num_of v))) st)
      else Arg_error CLE_invalid_duration i st)"
  by (auto simp: use_duration_def parse_positive_integer_exact valid_live_duration_def maximum_duration_seconds_def i64_max_def)

lemma symbols_exact:
  "use_symbols (\<lambda>_. False) i v st = Arg_next i' st' \<longleftrightarrow>
     symbols_ok v \<and> i' = i + 1 \<and> st' = update_options (clo_symbols_update (\<lambda>_. map (map uppercase_byte) (comma_fields v))) st"
  using parse_symbols_exact [of v] by (cases "parse_symbols v") (auto simp: use_symbols_def Let_def split: if_splits)

lemmas use_exact = symbols_exact duration_exact use_venue_def use_output_def use_replay_def

text \<open>One pass of the loop over the arguments \<open>args\<close> accepts exactly an option spelled there.\<close>

lemma single_value_list:
  assumes "i < length args"
  shows "single_value (int (length args)) (map Some args) i seen mark st use =
    (if seen st then Arg_error CLE_duplicate_option i st
     else case drop (Suc i) args of
       [] \<Rightarrow> Arg_error CLE_missing_value i (mark st)
     | v # _ \<Rightarrow> if v = [] then Arg_error CLE_missing_value (i + 1) (mark st) else use (i + 1) v (mark st))"
proof (cases "drop (Suc i) args")
  case Nil
  then show ?thesis by (simp add: single_value_def option_value_def)
next
  case (Cons v rest)
  then have "Suc i < length args" "args ! Suc i = v"
    by (metis drop_eq_Nil linorder_not_le list.distinct(1), metis drop_eq_Nil linorder_not_le list.distinct(1) nth_via_drop)
  with Cons show ?thesis by (simp add: single_value_def option_value_def)
qed

text \<open>The option that starts a list of arguments.\<close>

fun named_option :: "string \<Rightarrow> (string \<Rightarrow> cl_option) option" where
  "named_option a =
     (if a = ''--venue'' then Some Opt_venue
      else if a = ''--symbols'' then Some Opt_symbols
      else if a = ''--duration'' then Some Opt_duration
      else if a = ''--output-dir'' then Some Opt_output
      else if a = ''--replay'' then Some Opt_replay
      else None)"

fun option_at :: "string list \<Rightarrow> cl_option option" where
  "option_at [] = None"
| "option_at (a # rest) =
     (if a = ''--help'' then Some Opt_help
      else case (named_option a, rest) of
        (Some f, v # _) \<Rightarrow> Some (f v)
      | _ \<Rightarrow> None)"

declare named_option.simps [simp del]

lemma named_option_names [simp]:
  "named_option ''--venue'' = Some Opt_venue" "named_option ''--symbols'' = Some Opt_symbols"
  "named_option ''--duration'' = Some Opt_duration" "named_option ''--output-dir'' = Some Opt_output"
  "named_option ''--replay'' = Some Opt_replay" "named_option ''--help'' = None"
  by (simp_all add: named_option.simps)

lemma named_option_spell:
  "named_option a = Some f \<Longrightarrow> spell (f v) = [a, v]"
  by (auto simp: named_option.simps split: if_splits)

lemma option_at_spell: "option_at xs = Some opt \<longleftrightarrow> xs = spell opt @ drop (length (spell opt)) xs"
proof
  assume "option_at xs = Some opt"
  then show "xs = spell opt @ drop (length (spell opt)) xs"
    by (cases xs rule: option_at.cases)
       (auto simp: named_option_spell split: if_splits option.splits list.splits)
next
  assume "xs = spell opt @ drop (length (spell opt)) xs"
  moreover have "option_at (spell opt @ ys) = Some opt" for ys by (cases opt) simp_all
  ultimately show "option_at xs = Some opt" by metis
qed

lemma argument_names:
  obtains "a = ''--help''" | "a = ''--venue''" | "a = ''--symbols''" | "a = ''--duration''"
  | "a = ''--output-dir''" | "a = ''--replay''"
  | "a \<notin> {''--help'', ''--venue'', ''--symbols'', ''--duration'', ''--output-dir'', ''--replay''}" "named_option a = None"
  by (auto simp: named_option.simps)

lemma parse_argument_at:
  assumes "i < length args"
  shows "parse_argument (\<lambda>_. False) (int (length args)) (map Some args) i st = Arg_next i' st' \<longleftrightarrow>
    (\<exists>opt. option_at (drop i args) = Some opt \<and> accepted st opt \<and> i' = i + length (spell opt) \<and>
       st' = apply_option opt st)"
proof -
  obtain a rest where a: "drop i args = a # rest" "args ! i = a" "drop (Suc i) args = rest"
    using assms by (metis Cons_nth_drop_Suc)
  have arg: "map Some args ! i = Some a" using assms a by simp
  note step = parse_argument_def arg single_value_list [OF assms] a(1,3) accepted_def
  show ?thesis
  proof (rule argument_names [of a])
    assume "a = ''--venue''"
    then show ?thesis by (cases rest) (auto simp: step use_venue_def)
  next
    assume "a = ''--help''"
    then show ?thesis by (auto simp: step)
  next
    assume "a = ''--symbols''"
    then show ?thesis by (cases rest) (auto simp: step symbols_exact)
  next
    assume "a = ''--duration''"
    then show ?thesis by (cases rest) (auto simp: step duration_exact)
  next
    assume "a = ''--output-dir''"
    then show ?thesis by (cases rest) (auto simp: step use_output_def)
  next
    assume "a = ''--replay''"
    then show ?thesis by (cases rest) (auto simp: step use_replay_def list_ex_iff kMaxConfiguredSymbols_def Let_def)
  next
    assume "a \<notin> {''--help'', ''--venue'', ''--symbols'', ''--duration'', ''--output-dir'', ''--replay''}"
      "named_option a = None"
    then show ?thesis by (auto simp: step)
  qed
qed

text \<open>The whole loop.\<close>

fun accepted_all :: "ParseState \<Rightarrow> cl_option list \<Rightarrow> bool" where
  "accepted_all st [] = True"
| "accepted_all st (opt # opts) = (accepted st opt \<and> accepted_all (apply_option opt st) opts)"

lemma parse_arguments_exact:
  assumes "i \<le> length args"
  shows "(\<exists>n. parse_arguments (\<lambda>_. False) (int (length args)) (map Some args) i st = Arg_next n st') \<longleftrightarrow>
    (\<exists>opts. drop i args = concat (map spell opts) \<and> accepted_all st opts \<and> st' = fold apply_option opts st)"
    (is "?parsed i st \<longleftrightarrow> ?spelled i st")
  using assms
proof (induction "length args - i" arbitrary: i st rule: less_induct)
  case less
  note loop = parse_arguments.simps [of _ _ _ i st]
  show ?case
  proof (cases "i < length args")
    case False
    with less have "drop i args = []" by simp
    moreover have "concat (map spell opts) = [] \<longleftrightarrow> opts = []" for opts
      by (cases opts; cases "hd opts") auto
    ultimately show ?thesis using False by (simp add: loop) metis
  next
    case True
    note at = parse_argument_at [OF True]
    show ?thesis
    proof
      assume "?parsed i st"
      then obtain i' st\<^sub>1 where next_arg: "parse_argument (\<lambda>_. False) (int (length args)) (map Some args) i st = Arg_next i' st\<^sub>1"
        and rest: "?parsed i' st\<^sub>1"
        using True unfolding loop by (cases "parse_argument (\<lambda>_. False) (int (length args)) (map Some args) i st") auto
      from next_arg obtain opt where opt: "option_at (drop i args) = Some opt" "accepted st opt"
        "i' = i + length (spell opt)" "st\<^sub>1 = apply_option opt st" unfolding at by blast
      from opt(1) have drop: "drop i args = spell opt @ drop i' args"
        unfolding option_at_spell drop_drop opt(3) by (simp only: add.commute)
      have pos: "0 < length (spell opt)" by (cases opt) auto
      from arg_cong [OF drop, of length] have "length args - i = length (spell opt) + (length args - i')" by simp
      with opt(3) True pos have le: "i' \<le> length args" "length args - i' < length args - i" by linarith+
      from less(1) [OF le(2,1)] rest obtain opts where
        "drop i' args = concat (map spell opts)" "accepted_all st\<^sub>1 opts" "st' = fold apply_option opts st\<^sub>1" by blast
      with drop opt show "?spelled i st" by (intro exI [of _ "opt # opts"]) simp
    next
      assume "?spelled i st"
      then obtain opts where opts: "drop i args = concat (map spell opts)" "accepted_all st opts" "st' = fold apply_option opts st"
        by blast
      with True obtain opt opts' where split: "opts = opt # opts'" by (cases opts) auto
      define i' where "i' = i + length (spell opt)"
      have pos: "0 < length (spell opt)" by (cases opt) auto
      have drop: "drop i' args = concat (map spell opts')" and at_i: "option_at (drop i args) = Some opt"
        using opts(1) split unfolding i'_def add.commute [of i] option_at_spell by (simp_all flip: drop_drop)
      have "length (drop i args) = length (spell opt) + length (concat (map spell opts'))" using opts(1) split by simp
      with True pos have le: "i' \<le> length args" "length args - i' < length args - i"
        unfolding i'_def length_drop by linarith+
      have "?parsed i' (apply_option opt st)"
        unfolding less(1) [OF le(2,1)] using drop opts split by (intro exI [of _ opts']) simp
      moreover have "parse_argument (\<lambda>_. False) (int (length args)) (map Some args) i st = Arg_next i' (apply_option opt st)"
        unfolding at using at_i opts split by (intro exI [of _ opt]) (simp add: i'_def)
      ultimately show "?parsed i st" using True by (simp add: loop)
    qed
  qed
qed

section \<open>Well-formed command lines\<close>

definition venues :: "cl_option list \<Rightarrow> string list" where "venues opts = [v. Opt_venue v \<leftarrow> opts]"
definition symbol_lists :: "cl_option list \<Rightarrow> string list" where "symbol_lists opts = [v. Opt_symbols v \<leftarrow> opts]"
definition durations :: "cl_option list \<Rightarrow> string list" where "durations opts = [v. Opt_duration v \<leftarrow> opts]"
definition outputs :: "cl_option list \<Rightarrow> string list" where "outputs opts = [v. Opt_output v \<leftarrow> opts]"
definition replays :: "cl_option list \<Rightarrow> string list" where "replays opts = [v. Opt_replay v \<leftarrow> opts]"

lemmas option_values = venues_def symbol_lists_def durations_def outputs_def replays_def

definition each_once :: "cl_option list \<Rightarrow> bool" where
  "each_once opts \<longleftrightarrow> length (filter (\<lambda>opt. opt = Opt_help) opts) \<le> 1 \<and> length (venues opts) \<le> 1 \<and>
     length (symbol_lists opts) \<le> 1 \<and> length (durations opts) \<le> 1 \<and> length (outputs opts) \<le> 1 \<and>
     distinct (replays opts) \<and> length (replays opts) \<le> 32"

text \<open>One of the three modes: help alone, replay with an output directory, or live capture.\<close>

definition one_mode :: "cl_option list \<Rightarrow> bool" where
  "one_mode opts \<longleftrightarrow>
     opts = [Opt_help] \<or>
     Opt_help \<notin> set opts \<and> replays opts \<noteq> [] \<and> outputs opts \<noteq> [] \<and>
       venues opts = [] \<and> symbol_lists opts = [] \<and> durations opts = [] \<or>
     Opt_help \<notin> set opts \<and> replays opts = [] \<and> venues opts \<noteq> [] \<and> symbol_lists opts \<noteq> []"

definition well_formed_line :: "cl_option list \<Rightarrow> bool" where
  "well_formed_line opts \<longleftrightarrow> list_all option_ok opts \<and> each_once opts \<and> one_mode opts"

definition line_options :: "cl_option list \<Rightarrow> CommandLineOptions" where
  "line_options opts =
     \<lparr>clo_mode = (if opts = [Opt_help] then Mode_help else if replays opts \<noteq> [] then Mode_replay else Mode_live_capture),
      clo_venue = (if venues opts = [''usdm''] then Venue_usdm else Venue_spot),
      clo_symbols = (case symbol_lists opts of [] \<Rightarrow> [] | v # _ \<Rightarrow> map (map uppercase_byte) (comma_fields v)),
      clo_replay_inputs = replays opts,
      clo_output_directory = (case outputs opts of [] \<Rightarrow> ''./output'' | v # _ \<Rightarrow> v),
      clo_duration_seconds = (case durations opts of [] \<Rightarrow> None | v # _ \<Rightarrow> Some (num_of v))\<rparr>"

definition line_state :: "cl_option list \<Rightarrow> ParseState" where
  "line_state opts = \<lparr>ps_options = (line_options opts)\<lparr>clo_mode := Mode_help\<rparr>, help_seen = (Opt_help \<in> set opts),
     venue_seen = (venues opts \<noteq> []), symbols_seen = (symbol_lists opts \<noteq> []), output_seen = (outputs opts \<noteq> []),
     duration_seen = (durations opts \<noteq> [])\<rparr>"

lemma accepted_all_snoc:
  "accepted_all st (opts @ [opt]) \<longleftrightarrow> accepted_all st opts \<and> accepted (fold apply_option opts st) opt"
  by (induction opts arbitrary: st) auto

lemma line_state_Nil: "line_state [] = initial_parse_state"
  by (simp add: line_state_def line_options_def initial_parse_state_def default_options_def option_values)

lemma option_values_snoc [simp]:
  "venues (opts @ [opt]) = venues opts @ (case opt of Opt_venue v \<Rightarrow> [v] | _ \<Rightarrow> [])"
  "symbol_lists (opts @ [opt]) = symbol_lists opts @ (case opt of Opt_symbols v \<Rightarrow> [v] | _ \<Rightarrow> [])"
  "durations (opts @ [opt]) = durations opts @ (case opt of Opt_duration v \<Rightarrow> [v] | _ \<Rightarrow> [])"
  "outputs (opts @ [opt]) = outputs opts @ (case opt of Opt_output v \<Rightarrow> [v] | _ \<Rightarrow> [])"
  "replays (opts @ [opt]) = replays opts @ (case opt of Opt_replay v \<Rightarrow> [v] | _ \<Rightarrow> [])"
  by (simp_all add: option_values)

lemma option_values_Nil [simp]:
  "venues [] = []" "symbol_lists [] = []" "durations [] = []" "outputs [] = []" "replays [] = []"
  by (simp_all add: option_values)

lemma help_count: "length (filter (\<lambda>opt. opt = Opt_help) opts) = 0 \<longleftrightarrow> Opt_help \<notin> set opts"
  by (auto simp: filter_empty_conv)

lemma line_state_step:
  assumes "each_once opts" and "accepted (line_state opts) opt"
  shows "each_once (opts @ [opt])" and "apply_option opt (line_state opts) = line_state (opts @ [opt])"
  using assms help_count [of opts]
  by (cases opt; auto simp: accepted_def line_state_def line_options_def each_once_def update_options_def)+

lemma line_state_refused:
  assumes "each_once (opts @ [opt])" and "option_ok opt"
  shows "each_once opts" and "accepted (line_state opts) opt"
  using assms help_count [of opts]
  by (cases opt; simp add: accepted_def line_state_def line_options_def each_once_def)+

lemma accepted_line:
  "accepted_all initial_parse_state opts \<longleftrightarrow> list_all option_ok opts \<and> each_once opts"
  "accepted_all initial_parse_state opts \<Longrightarrow> fold apply_option opts initial_parse_state = line_state opts"
proof (induction opts rule: rev_induct)
  case Nil
  {
    case 1
    show ?case by (simp add: each_once_def option_values)
  next
    case 2
    show ?case by (simp add: line_state_Nil)
  }
next
  case (snoc opt opts)
  {
    case 1
    show ?case
      using snoc line_state_step [of opts opt] line_state_refused [of opts opt] by (auto simp: accepted_all_snoc accepted_def)
  next
    case 2
    then show ?case using snoc line_state_step [of opts opt] by (auto simp: accepted_all_snoc)
  }
qed

lemma help_alone:
  assumes "Opt_help \<in> set opts"
  shows "length (concat (map spell opts)) = 1 \<longleftrightarrow> opts = [Opt_help]"
proof -
  have pos: "0 < length (spell opt)" for opt by (cases opt) auto
  have nil: "concat (map spell opts) = [] \<longleftrightarrow> opts = []" for opts using pos by (cases opts) auto
  obtain opt opts' where "opts = opt # opts'" using assms by (cases opts) auto
  with assms nil [of opts'] show ?thesis by (cases opt) auto
qed

lemma resolve_line:
  assumes "argc = int (Suc (length (concat (map spell opts))))"
  shows "clr_success (resolve_mode argc (line_state opts)) \<longleftrightarrow> one_mode opts"
    and "one_mode opts \<Longrightarrow> clr_options (resolve_mode argc (line_state opts)) = line_options opts"
proof -
  have alone: "Opt_help \<in> set opts \<Longrightarrow> argc = 2 \<longleftrightarrow> opts = [Opt_help]"
    using help_alone [of opts] unfolding assms by linarith
  note defs = resolve_mode_def Let_def line_state_def line_options_def one_mode_def clr_success_def
    command_line_mode_def command_line_error_def
  show "clr_success (resolve_mode argc (line_state opts)) \<longleftrightarrow> one_mode opts"
  proof (cases "Opt_help \<in> set opts")
    case False
    then have "opts \<noteq> [Opt_help]" by auto
    with False show ?thesis by (simp add: defs)
  qed (use alone in \<open>simp add: defs\<close>)
  show "clr_options (resolve_mode argc (line_state opts)) = line_options opts" if "one_mode opts"
    using that [unfolded one_mode_def]
  proof (elim disjE conjE)
    assume "opts = [Opt_help]"
    with alone show ?thesis by (simp add: defs option_values)
  next
    assume "Opt_help \<notin> set opts" "replays opts \<noteq> []" "outputs opts \<noteq> []" "venues opts = []"
      "symbol_lists opts = []" "durations opts = []"
    moreover from this have "opts \<noteq> [Opt_help]" by auto
    ultimately show ?thesis by (simp add: defs)
  next
    assume "Opt_help \<notin> set opts" "replays opts = []" "venues opts \<noteq> []" "symbol_lists opts \<noteq> []"
    moreover from this have "opts \<noteq> [Opt_help]" by auto
    ultimately show ?thesis by (simp add: defs)
  qed
qed

section \<open>Errors\<close>

lemma single_value_error:
  assumes "single_value argc argv i seen mark st use = Arg_error e n st'" and "int i < argc"
    and "\<And>i' v s. use i' v s = Arg_error e n st' \<Longrightarrow> n = i' \<and> e \<noteq> CLE_none"
  shows "int n < argc \<and> e \<noteq> CLE_none"
  using assms by (fastforce simp: single_value_def option_value_def split: if_splits bool.splits option.splits)

lemma use_error:
  "use_venue i v s = Arg_error e n st' \<Longrightarrow> n = i \<and> e \<noteq> CLE_none"
  "use_symbols throws i v s = Arg_error e n st' \<Longrightarrow> n = i \<and> e \<noteq> CLE_none"
  "use_duration i v s = Arg_error e n st' \<Longrightarrow> n = i \<and> e \<noteq> CLE_none"
  "use_output throws i v s = Arg_error e n st' \<Longrightarrow> n = i \<and> e \<noteq> CLE_none"
  "use_replay throws i v s = Arg_error e n st' \<Longrightarrow> n = i \<and> e \<noteq> CLE_none"
  by (auto simp: use_venue_def use_symbols_def use_duration_def use_output_def use_replay_def Let_def
      split: if_splits option.splits prod.splits)

lemma parse_argument_error:
  "parse_argument throws argc argv i st = Arg_error e n st' \<Longrightarrow> int i < argc \<Longrightarrow> int n < argc \<and> e \<noteq> CLE_none"
  unfolding parse_argument_def
  by (simp split: option.splits if_splits; auto dest: single_value_error use_error)

lemma parse_arguments_error:
  "parse_arguments throws argc argv i st = Arg_error e n st' \<Longrightarrow> int n < argc \<and> e \<noteq> CLE_none"
proof (induction throws argc argv i st rule: parse_arguments.induct)
  case (1 throws argc argv i st)
  from 1(2) show ?case
    by (subst (asm) parse_arguments.simps)
       (auto split: if_splits argument_step.splits dest: parse_argument_error 1(1))
qed

text \<open>Without memory the loop ends early, otherwise it does not notice.\<close>

lemma single_value_throws:
  assumes "\<And>i v st. use' i v st \<in> {use i v st, Arg_thrown}"
  shows "single_value argc argv i seen mark st use' \<in> {single_value argc argv i seen mark st use, Arg_thrown}"
  using assms by (auto simp: single_value_def split: prod.splits bool.splits)

lemma parse_argument_throws:
  "parse_argument throws argc argv i st \<in> {parse_argument (\<lambda>_. False) argc argv i st, Arg_thrown}"
proof -
  have "use_symbols throws i v s \<in> {use_symbols (\<lambda>_. False) i v s, Arg_thrown}"
    "use_output throws i v s \<in> {use_output (\<lambda>_. False) i v s, Arg_thrown}"
    "use_replay throws i v s \<in> {use_replay (\<lambda>_. False) i v s, Arg_thrown}" for i v s
    by (auto simp: use_symbols_def use_output_def use_replay_def Let_def)
  note this [THEN single_value_throws]
  then show ?thesis unfolding parse_argument_def by (auto split: option.splits)
qed

lemma parse_arguments_throws:
  "parse_arguments throws argc argv i st \<in> {parse_arguments (\<lambda>_. False) argc argv i st, Arg_thrown}"
proof (induction throws argc argv i st rule: parse_arguments.induct)
  case (1 throws argc argv i st)
  show ?case
    using parse_argument_throws [of throws argc argv i st] 1
    by (subst (1 2) parse_arguments.simps) (auto split: argument_step.splits)
qed

section \<open>The parser\<close>

text \<open>The call of \<open>main\<close>: the program's name and its arguments.\<close>

definition parse_main :: "(nat \<Rightarrow> bool) \<Rightarrow> string \<Rightarrow> string list \<Rightarrow> CommandLineParseResult" where
  "parse_main throws program args =
     parse_command_line throws (int (Suc (length args))) (Some (map Some (program # args)))"

lemma parse_main_cases:
  "parse_main throws program args =
     (if args = [] then command_line_error CLE_missing_mode 0 default_options
      else case parse_arguments throws (int (length (program # args))) (map Some (program # args)) 1 initial_parse_state of
        Arg_thrown \<Rightarrow> command_line_error CLE_allocation_failure 0 default_options
      | Arg_error e n st \<Rightarrow> command_line_error e n (ps_options st)
      | Arg_next _ st \<Rightarrow> resolve_mode (int (Suc (length args))) st)"
  by (auto simp: parse_main_def parse_command_line_def parse_command_line_impl_def split: argument_step.splits)

lemma parse_main_line:
  assumes "parse_arguments (\<lambda>_. False) (int (length (program # args))) (map Some (program # args)) 1 initial_parse_state = Arg_next n st"
  shows "\<exists>opts. args = concat (map spell opts) \<and> list_all option_ok opts \<and> each_once opts \<and> st = line_state opts"
proof -
  from assms parse_arguments_exact [of 1 "program # args" initial_parse_state st] obtain opts where
    "args = concat (map spell opts)" "accepted_all initial_parse_state opts" "st = fold apply_option opts initial_parse_state"
    by auto
  with accepted_line [of opts] show ?thesis by auto
qed

lemma parse_main_accepts:
  assumes "well_formed_line opts"
  shows "clr_success (parse_main (\<lambda>_. False) program (concat (map spell opts)))"
    and "clr_options (parse_main (\<lambda>_. False) program (concat (map spell opts))) = line_options opts"
proof -
  define args where "args = concat (map spell opts)"
  from assms accepted_line [of opts] have "accepted_all initial_parse_state opts"
    "line_state opts = fold apply_option opts initial_parse_state" by (auto simp: well_formed_line_def)
  then obtain n where "parse_arguments (\<lambda>_. False) (int (length (program # args))) (map Some (program # args)) 1
      initial_parse_state = Arg_next n (line_state opts)"
    using parse_arguments_exact [of 1 "program # args" initial_parse_state "line_state opts"] by (auto simp: args_def)
  moreover have "args \<noteq> []"
  proof -
    have "opts \<noteq> []" using assms by (auto simp: well_formed_line_def one_mode_def)
    then show ?thesis by (cases opts; cases "hd opts") (auto simp: args_def)
  qed
  ultimately have run: "parse_main (\<lambda>_. False) program args = resolve_mode (int (Suc (length args))) (line_state opts)"
    by (simp add: parse_main_cases)
  show "clr_success (parse_main (\<lambda>_. False) program (concat (map spell opts)))"
    and "clr_options (parse_main (\<lambda>_. False) program (concat (map spell opts))) = line_options opts"
    using resolve_line [of _ opts] assms run by (auto simp: args_def well_formed_line_def)
qed

lemma parse_main_success:
  assumes "clr_success (parse_main (\<lambda>_. False) program args)"
  shows "\<exists>opts. well_formed_line opts \<and> args = concat (map spell opts)"
proof -
  let ?run = "parse_arguments (\<lambda>_. False) (int (length (program # args))) (map Some (program # args)) 1 initial_parse_state"
  from assms obtain n st where next_run: "?run = Arg_next n st" and ok: "clr_success (resolve_mode (int (Suc (length args))) st)"
    unfolding parse_main_cases
    by (auto simp: clr_success_def command_line_error_def split: if_splits argument_step.splits dest: parse_arguments_error)
  from parse_main_line [OF next_run] obtain opts where opts: "args = concat (map spell opts)" "list_all option_ok opts"
    "each_once opts" "st = line_state opts" by blast
  with ok resolve_line(1) [of "int (Suc (length args))" opts] show ?thesis by (auto simp: well_formed_line_def)
qed

text \<open>
  C36: the command line is parsed exactly.  It is accepted if and only if it is a sequence of known
  options in any order, each with a valid value (a known venue, 1 to 32 symbols that are distinct after
  conversion to upper case and have distinct identifiers, a duration of 1 to 9223372036 seconds, a
  non-empty path), none given twice (up to 32 distinct replay inputs), that fits one mode: help alone,
  replay with an output directory and without live options, or live capture with a venue and symbols.
  The returned options are then exactly what it says; an error names one of the arguments; and when
  memory runs out the result is the allocation failure or the same as with enough memory.
\<close>

theorem command_line_exact:
  "(clr_success (parse_main (\<lambda>_. False) program args) \<longleftrightarrow>
      (\<exists>opts. well_formed_line opts \<and> args = concat (map spell opts))) \<and>
   (well_formed_line opts \<and> args = concat (map spell opts) \<longrightarrow>
      clr_options (parse_main (\<lambda>_. False) program args) = line_options opts) \<and>
   clr_argument_index (parse_main throws program args) \<le> length args \<and>
   (parse_main throws program args = parse_main (\<lambda>_. False) program args \<or>
    clr_error (parse_main throws program args) = CLE_allocation_failure)"
proof (intro conjI)
  show "clr_success (parse_main (\<lambda>_. False) program args) \<longleftrightarrow>
      (\<exists>opts. well_formed_line opts \<and> args = concat (map spell opts))"
    using parse_main_success parse_main_accepts(1) by blast
  show "well_formed_line opts \<and> args = concat (map spell opts) \<longrightarrow>
      clr_options (parse_main (\<lambda>_. False) program args) = line_options opts"
    using parse_main_accepts(2) by blast
  have mode: "clr_argument_index (resolve_mode argc st) = 0" for argc st
    by (simp add: resolve_mode_def Let_def command_line_error_def command_line_mode_def)
  show "clr_argument_index (parse_main throws program args) \<le> length args"
    by (auto simp: parse_main_cases mode command_line_error_def split: argument_step.splits dest!: parse_arguments_error)
  show "parse_main throws program args = parse_main (\<lambda>_. False) program args \<or>
      clr_error (parse_main throws program args) = CLE_allocation_failure"
    using parse_arguments_throws [of throws "int (length (program # args))" "map Some (program # args)" 1 initial_parse_state]
    by (auto simp: parse_main_cases command_line_error_def)
qed

definition sample_line :: "cl_option list" where
  "sample_line = [Opt_duration ''60'', Opt_symbols ''btcusdt,ETHUSDT'', Opt_venue ''usdm'']"

theorem command_line_exact_witness:
  "clr_options (parse_main (\<lambda>_. False) ''capture'' (concat (map spell sample_line))) =
     \<lparr>clo_mode = Mode_live_capture, clo_venue = Venue_usdm, clo_symbols = [''BTCUSDT'', ''ETHUSDT''],
      clo_replay_inputs = [], clo_output_directory = ''./output'', clo_duration_seconds = Some 60\<rparr>"
proof -
  have "well_formed_line sample_line" by code_simp
  then have "clr_options (parse_main (\<lambda>_. False) ''capture'' (concat (map spell sample_line))) = line_options sample_line"
    using command_line_exact [where args = "concat (map spell sample_line)" and opts = sample_line] by blast
  also have "\<dots> = \<lparr>clo_mode = Mode_live_capture, clo_venue = Venue_usdm, clo_symbols = [''BTCUSDT'', ''ETHUSDT''],
      clo_replay_inputs = [], clo_output_directory = ''./output'', clo_duration_seconds = Some 60\<rparr>" by code_simp
  finally show ?thesis .
qed

end
