(* ===== verification/Live_Run_Guarantees.thy ===== *)
theory Live_Run_Guarantees
  imports Application Live_Capture_Guarantees
begin

text \<open>
  The outcome of a live run: the loop ends exactly when its controller has reported, with that report,
  and the exit code of the program tells whether the capture ended as it should.
\<close>

section \<open>What a controller step leaves alone\<close>

text \<open>
  A step appends to the trace and does not request a stop; the reports it makes say whether a stop had
  been requested.
\<close>

fun report_flag :: "bool \<Rightarrow> cc_action \<Rightarrow> bool" where
  "report_flag stop (Act_terminal r) = (lcr_stop_requested r = stop)"
| "report_flag stop _ = True"

definition quiet :: "ControllerImpl \<Rightarrow> ControllerImpl \<Rightarrow> bool" where
  "quiet st st' \<longleftrightarrow> cc_stop_requested st' = cc_stop_requested st \<and>
     (\<exists>s. cc_trace st' = cc_trace st @ s \<and> list_all (report_flag (cc_stop_requested st)) s)"

lemma quiet_refl [simp]: "quiet st st" by (simp add: quiet_def)

lemma quiet_frame [simp]:
  "quiet s (cc_pipeline_update f st) = quiet s st" "quiet s (cc_session_update g st) = quiet s st"
  "quiet s (cc_has_callback_update b st) = quiet s st" "quiet s (cc_result_update h st) = quiet s st"
  "quiet s (cc_terminal_update b st) = quiet s st" "quiet s (cc_resume_post_failed_update b st) = quiet s st"
  "quiet s (cc_generation_update n st) = quiet s st" "quiet s (cc_next_connection_epoch_update n st) = quiet s st"
  "quiet s (cc_reconnect_attempt_update n st) = quiet s st"
  "quiet s (cc_consecutive_message_policy_failures_update n st) = quiet s st"
  "quiet s (cc_started_update b st) = quiet s st" "quiet s (cc_session_open_update b st) = quiet s st"
  "quiet s (cc_epoch_exhausted_update b st) = quiet s st" "quiet s (cc_reads_paused_update b st) = quiet s st"
  "quiet s (cc_failure_latched_update b st) = quiet s st" "quiet s (cc_terminal_started_update b st) = quiet s st"
  "quiet s (cc_reconnect_waits_update k st) = quiet s st" "quiet s (cc_reconnect_cancelled_update b st) = quiet s st"
  by (simp_all add: quiet_def)

lemma quiet_act [simp]: "report_flag (cc_stop_requested st) a \<Longrightarrow> quiet s st \<Longrightarrow> quiet s (act a st)"
  by (auto simp: quiet_def act_def)

lemma quiet_helpers [simp]:
  "quiet s (count_up f st) = quiet s st" "quiet s (set_capture_error e st) = quiet s st"
  "quiet s (latch_failure e st) = quiet s st" "quiet s (cancel_reconnect st) = quiet s st"
  "quiet s (update_session h st) = quiet s st" "quiet s (update_metrics g st) = quiet s st"
  by (simp_all add: count_up_def set_capture_error_def latch_failure_def cancel_reconnect_def update_session_def
      update_metrics_def)

text \<open>Every handler, with no stop from another thread while it runs.\<close>

definition calm :: "Answers \<Rightarrow> bool" where "calm an \<longleftrightarrow> \<not> an_stop_late an"

lemma quiet_finalize [simp]: "calm an \<Longrightarrow> quiet s st \<Longrightarrow> quiet s (finalize_run an st)"
  by (cases "cc_terminal_started st") (auto simp: finalize_run_def Let_def cc_helpers quiet_def calm_def)

lemma quiet_stop_exception [simp]: "calm an \<Longrightarrow> quiet s st \<Longrightarrow> quiet s (handle_session_stop_exception an st)"
  by (simp add: handle_session_stop_exception_def)

lemma quiet_stop_session [simp]: "calm an \<Longrightarrow> quiet s st \<Longrightarrow> quiet s (stop_session an st)"
  by (simp add: stop_session_def)

lemma quiet_fail [simp]: "calm an \<Longrightarrow> quiet s st \<Longrightarrow> quiet s (controller_fail an e st)"
  by (simp add: controller_fail_def Let_def)

lemma quiet_request_stop [simp]: "calm an \<Longrightarrow> quiet s st \<Longrightarrow> quiet s (request_stop_on_io an st)"
  by (simp add: request_stop_on_io_def Let_def)

lemma quiet_start_current [simp]: "calm an \<Longrightarrow> quiet s st \<Longrightarrow> quiet s (snd (start_current_session an st))"
  by (simp add: start_current_session_def Let_def)

lemma quiet_started: "start_current_session an st = (b, st') \<Longrightarrow> calm an \<Longrightarrow> quiet s st \<Longrightarrow> quiet s st'"
  using quiet_start_current [of an s st] by simp

lemma quiet_start [simp]: "calm an \<Longrightarrow> quiet s st \<Longrightarrow> quiet s (snd (controller_start an st))"
  by (auto simp: controller_start_def split: prod.splits bool.splits dest!: quiet_started [where s = s])

lemma quiet_pause [simp]: "quiet s st \<Longrightarrow> quiet s (snd (pause_for_backpressure an st))"
  by (simp add: pause_for_backpressure_def Let_def)

lemma quiet_post_failure [simp]: "quiet s st \<Longrightarrow> quiet s (resume_post_failure an st)"
  by (simp add: resume_post_failure_def Let_def)

lemma quiet_resume [simp]: "calm an \<Longrightarrow> quiet s st \<Longrightarrow> quiet s (on_writer_resume an st)"
  by (simp add: on_writer_resume_def Let_def)

lemma quiet_timeout [simp]: "calm an \<Longrightarrow> quiet s st \<Longrightarrow> quiet s (on_backpressure_timeout an e st)"
  by (simp add: on_backpressure_timeout_def)

lemma quiet_open [simp]: "calm an \<Longrightarrow> quiet s st \<Longrightarrow> quiet s (snd (on_open an g st))"
  by (simp add: on_open_def Let_def)

lemma quiet_stable [simp]: "quiet s st \<Longrightarrow> quiet s (on_stable_connection g e st)"
  by (simp add: on_stable_connection_def)

lemma quiet_publish [simp]: "calm an \<Longrightarrow> quiet s st \<Longrightarrow> quiet s (snd (publish_batch an r b st))"
  by (simp add: publish_batch_def Let_def)

lemma quiet_text [simp]: "calm an \<Longrightarrow> quiet s st \<Longrightarrow> quiet s (snd (on_text_message an g m st))"
  by (simp add: on_text_message_def Let_def split: sum.splits prod.splits)

lemma quiet_control [simp]: "quiet s st \<Longrightarrow> quiet s (on_control g k st)"
  by (simp add: on_control_def split: WebSocketControlKind.splits)

lemma quiet_schedule [simp]: "calm an \<Longrightarrow> quiet s st \<Longrightarrow> quiet s (schedule_reconnect an st)"
  by (simp add: schedule_reconnect_def Let_def split: prod.splits)

lemma quiet_create [simp]: "quiet s st \<Longrightarrow> quiet s (snd (create_session an g e st))"
  by (simp add: create_session_def split: option.splits)

lemma quiet_reconnect [simp]:
  assumes "calm an" "quiet s st"
  shows "quiet s (on_reconnect_timer an e st)"
proof -
  let ?st = "st\<lparr>cc_generation := cc_generation st + 1\<rparr>"
  obtain c st\<^sub>1 where c: "create_session an (cc_generation st + 1) (cc_next_connection_epoch st) ?st = (c, st\<^sub>1)" by fastforce
  have "quiet s st\<^sub>1" using quiet_create [of s ?st an "cc_generation st + 1" "cc_next_connection_epoch st"] assms c by simp
  with c assms show ?thesis
    by (auto simp: on_reconnect_timer_def Let_def split: option.splits prod.splits bool.splits
        dest!: quiet_started [where s = s])
qed

lemma quiet_drop [simp]: "quiet s (drop_session r st) = quiet s st"
  by (simp add: drop_session_def)

lemma quiet_policy [simp]: "quiet s (count_policy_failure code st) = quiet s st"
  by (simp add: count_policy_failure_def Let_def)

lemma quiet_end_stopped [simp]: "calm an \<Longrightarrow> quiet s st \<Longrightarrow> quiet s (end_stopped_session an r st)"
  by (simp add: end_stopped_session_def Let_def)

lemma quiet_session_terminal [simp]: "calm an \<Longrightarrow> quiet s st \<Longrightarrow> quiet s (on_session_terminal an g r st)"
  by (simp add: on_session_terminal_def Let_def)

lemma step_quiet: "calm an \<Longrightarrow> ev \<noteq> Cc_stop \<Longrightarrow> quiet st (controller_step an ev st)"
  by (cases ev) simp_all

section \<open>Loop and controller\<close>

lemma trace_reports_append: "trace_reports (a @ b) = trace_reports a @ trace_reports b"
  by (simp add: trace_reports_def)

lemma no_final_no_report: "list_all (\<lambda>a. \<not> is_final a) tr \<Longrightarrow> trace_reports tr = []"
proof (induction tr)
  case (Cons a tr)
  then show ?case by (cases a) (auto simp: trace_reports_def)
qed (simp add: trace_reports_def)

lemma late_no_report: "list_all is_late tr \<Longrightarrow> trace_reports tr = []"
proof (induction tr)
  case (Cons a tr)
  then show ?case by (cases a) (auto simp: trace_reports_def)
qed (simp add: trace_reports_def)

lemma ended_reports:
  assumes "ended_trace True tr"
  shows "\<exists>r. trace_reports tr = [r] \<and> report_ok r"
proof -
  from assms obtain before r late where "tr = before @ Act_join # [Act_terminal r] @ late" "report_ok r"
    "list_all (\<lambda>a. \<not> is_final a) before" "list_all is_late late"
    by (auto simp: ended_trace_def)
  then show ?thesis
    by (auto simp: trace_reports_append no_final_no_report trace_reports_def [of "_ # _"] late_no_report [unfolded trace_reports_def])
qed

lemma life_reports:
  assumes "life_inv True st"
  shows "if cc_terminal st then \<exists>r. trace_reports (cc_trace st) = [r] \<and> report_ok r else trace_reports (cc_trace st) = []"
  using assms by (auto simp: life_inv_def no_final_no_report ended_reports)

text \<open>What asks for a stop: a signal, or the end of the configured duration.\<close>

fun stop_event :: "run_event \<Rightarrow> bool" where
  "stop_event (Run_signal e) = (e = Timer_expired)"
| "stop_event (Run_duration e) = (e = Timer_expired)"
| "stop_event _ = False"

fun signal_event :: "run_event \<Rightarrow> bool" where
  "signal_event (Run_signal e) = (e = Timer_expired)"
| "signal_event _ = False"

definition happened :: "(run_event \<Rightarrow> bool) \<Rightarrow> (LoopAnswers \<times> run_event) list \<Rightarrow> bool" where
  "happened P steps \<longleftrightarrow> (\<exists>(la, ev) \<in> set steps. P ev)"

text \<open>The loop and its controller agree, and an error-free loop stops the controller only when asked to.\<close>

definition run_inv :: "(LoopAnswers \<times> run_event) list \<Rightarrow> LiveRun \<Rightarrow> bool" where
  "run_inv steps r \<longleftrightarrow>
     (let rl = run_loop r; ctl = run_controller r; result = rl_result rl in
      life_inv True ctl \<and>
      rl_terminal rl = cc_terminal ctl \<and> rl_terminal_started rl = cc_terminal ctl \<and> lrr_terminal result = cc_terminal ctl \<and>
      rl_controller rl = (\<not> cc_terminal ctl) \<and>
      (cc_stop_requested ctl \<longrightarrow> rl_stop_started rl) \<and>
      (rl_stop_started rl \<and> lrr_error result = LRE_none \<longrightarrow> happened stop_event steps) \<and>
      (rl_stop_started rl \<and> lrr_error result = LRE_none \<and> \<not> happened signal_event steps \<longrightarrow> lrr_duration_expired result) \<and>
      (cc_terminal ctl \<longrightarrow> trace_reports (cc_trace ctl) = [lrr_capture result] \<and>
         (lcr_stop_requested (lrr_capture result) \<longrightarrow> cc_stop_requested ctl) \<and>
         (lrr_error result = LRE_none \<and> lrr_duration_expired result \<and> lcr_success (lrr_capture result) \<longrightarrow>
            lcm_successful_connections (lcr_metrics (lrr_capture result)) \<noteq> 0)))"

lemma happened_snoc [simp]: "happened P (steps @ [(la, ev)]) \<longleftrightarrow> happened P steps \<or> P ev"
  by (auto simp: happened_def)

lemma happened_Nil [simp]: "\<not> happened P []"
  by (simp add: happened_def)

lemma deliver_cases:
  assumes inv: "run_inv steps r" and life: "life_inv True ctl" and q: "quiet (run_controller r) ctl"
  shows "cc_terminal ctl = cc_terminal (run_controller r) \<and> deliver_reports ctl r = \<lparr>run_loop = run_loop r, run_controller = ctl\<rparr> \<and>
      trace_reports (cc_trace ctl) = trace_reports (cc_trace (run_controller r)) \<or>
    \<not> cc_terminal (run_controller r) \<and> cc_terminal ctl \<and>
      (\<exists>x. trace_reports (cc_trace ctl) = [x] \<and> lcr_stop_requested x = cc_stop_requested ctl \<and>
         deliver_reports ctl r = \<lparr>run_loop = on_capture_terminal x (run_loop r), run_controller = ctl\<rparr>)"
proof -
  from q obtain s where s: "cc_trace ctl = cc_trace (run_controller r) @ s"
    "list_all (report_flag (cc_stop_requested ctl)) s" by (auto simp: quiet_def)
  have "life_inv True (run_controller r)" using inv by (simp add: run_inv_def Let_def)
  note reports = life_reports [OF this] life_reports [OF life]
  have split: "trace_reports (cc_trace ctl) = trace_reports (cc_trace (run_controller r)) @ trace_reports s"
    by (simp add: s trace_reports_append)
  have deliver: "deliver_reports ctl r = \<lparr>run_loop = fold on_capture_terminal (trace_reports s) (run_loop r), run_controller = ctl\<rparr>"
    by (simp add: deliver_reports_def s)
  have flag: "x \<in> set (trace_reports s) \<Longrightarrow> lcr_stop_requested x = cc_stop_requested ctl" for x
    using s(2) by (induction s) (auto simp: trace_reports_def elim!: report_flag.elims)
  show ?thesis
  proof (cases "trace_reports s")
    case Nil
    with reports split deliver show ?thesis by (auto split: if_splits)
  next
    case (Cons x xs)
    with reports split have "\<not> cc_terminal (run_controller r)" "cc_terminal ctl" "xs = []" by (auto split: if_splits)
    with Cons reports split deliver flag [of x] show ?thesis by auto
  qed
qed

lemma deliver_inv:
  assumes inv: "run_inv steps r" and life: "life_inv True ctl" and q: "quiet (run_controller r) ctl"
  shows "run_inv steps (deliver_reports ctl r)"
proof -
  have stop: "cc_stop_requested ctl = cc_stop_requested (run_controller r)" using q by (simp add: quiet_def)
  from deliver_cases [OF assms] show ?thesis
  proof (elim disjE conjE exE)
    assume "cc_terminal ctl = cc_terminal (run_controller r)"
      "deliver_reports ctl r = \<lparr>run_loop = run_loop r, run_controller = ctl\<rparr>"
      "trace_reports (cc_trace ctl) = trace_reports (cc_trace (run_controller r))"
    with inv life stop show ?thesis by (simp add: run_inv_def Let_def)
  next
    fix x
    assume "\<not> cc_terminal (run_controller r)" "cc_terminal ctl" "trace_reports (cc_trace ctl) = [x]"
      "lcr_stop_requested x = cc_stop_requested ctl"
      "deliver_reports ctl r = \<lparr>run_loop = on_capture_terminal x (run_loop r), run_controller = ctl\<rparr>"
    with inv life stop show ?thesis by (auto simp: run_inv_def Let_def on_capture_terminal_def)
  qed
qed

lemma run_inv_weaken:
  "run_inv steps r \<Longrightarrow> run_inv (steps @ [(la, ev)]) r"
  by (simp add: run_inv_def Let_def)

lemma stop_flags [simp]:
  "cc_terminal (controller_stop st) = cc_terminal st" "cc_trace (controller_stop st) = cc_trace st"
  by (simp_all add: controller_stop_def)

lemma request_stop_inv:
  assumes "life_inv True (run_controller r)" and "\<not> cc_terminal (run_controller r)"
    and "rl_controller (run_loop r)" "\<not> rl_terminal (run_loop r)" "\<not> rl_terminal_started (run_loop r)"
      "\<not> lrr_terminal (rl_result (run_loop r))"
    and "lrr_error (rl_result (run_loop r)) = LRE_none \<Longrightarrow> happened stop_event steps"
    and "lrr_error (rl_result (run_loop r)) = LRE_none \<Longrightarrow> \<not> happened signal_event steps \<Longrightarrow> lrr_duration_expired (rl_result (run_loop r))"
  shows "run_inv steps (loop_request_stop la r)"
  using assms stop_life [of True "run_controller r"]
  by (auto simp: run_inv_def loop_request_stop_def Let_def latch_control_error_def)

lemma run_inv_open:
  assumes "run_inv steps r" and "\<not> rl_terminal (run_loop r)"
  shows "life_inv True (run_controller r)" "\<not> cc_terminal (run_controller r)" "rl_controller (run_loop r)"
    "\<not> rl_terminal_started (run_loop r)" "\<not> lrr_terminal (rl_result (run_loop r))"
  using assms by (simp_all add: run_inv_def Let_def)

lemma latch_control_flags [simp]:
  "rl_controller (latch_control_error e rl) = rl_controller rl" "rl_terminal (latch_control_error e rl) = rl_terminal rl"
  "rl_terminal_started (latch_control_error e rl) = rl_terminal_started rl"
  "lrr_terminal (rl_result (latch_control_error e rl)) = lrr_terminal (rl_result rl)"
  "e \<noteq> LRE_none \<Longrightarrow> lrr_error (rl_result (latch_control_error e rl)) \<noteq> LRE_none"
  by (simp_all add: latch_control_error_def)

lemma signal_inv:
  assumes "run_inv steps r"
  shows "run_inv (steps @ [(la', Run_signal e)]) (on_signal la e r)"
proof (cases "e = Timer_aborted \<or> rl_terminal (run_loop r)")
  case True
  then show ?thesis using run_inv_weaken [OF assms] by (auto simp: on_signal_def)
next
  case False
  then have flags: "\<not> rl_terminal (run_loop r)" "e \<noteq> Timer_aborted" by simp_all
  note facts = run_inv_open [OF assms flags(1)]
  show ?thesis
  proof (cases "e = Timer_expired")
    case True
    show ?thesis unfolding on_signal_def using flags True
      by (simp add: Let_def split del: if_split, intro request_stop_inv) (simp_all add: facts)
  next
    case other: False
    show ?thesis unfolding on_signal_def using flags other
      by (simp add: Let_def split del: if_split, intro request_stop_inv) (simp_all add: facts)
  qed
qed

lemma duration_inv:
  assumes "run_inv steps r"
  shows "run_inv (steps @ [(la', Run_duration e)]) (on_duration la e r)"
proof (cases "e = Timer_aborted \<or> rl_terminal (run_loop r)")
  case True
  then show ?thesis using run_inv_weaken [OF assms] by (auto simp: on_duration_def)
next
  case False
  then have flags: "\<not> rl_terminal (run_loop r)" "e \<noteq> Timer_aborted" by simp_all
  note facts = run_inv_open [OF assms flags(1)]
  show ?thesis
  proof (cases "e = Timer_expired")
    case True
    show ?thesis unfolding on_duration_def using flags True
      by (simp add: Let_def split del: if_split, intro request_stop_inv) (simp_all add: facts)
  next
    case other: False
    show ?thesis unfolding on_duration_def using flags other
      by (simp add: Let_def split del: if_split, intro request_stop_inv) (simp_all add: facts)
  qed
qed

lemma start_inv:
  assumes inv: "run_inv steps r" and calm: "calm (la_controller la)"
  shows "run_inv (steps @ [(la', Run_start)]) (snd (loop_start la r))"
proof -
  let ?r = "r\<lparr>run_loop := (run_loop r)\<lparr>rl_started := True\<rparr>\<rparr>"
  have started: "run_inv steps ?r" using inv by (simp add: run_inv_def Let_def)
  obtain threw ctl where ctl: "controller_start (la_controller la) (run_controller r) = (threw, ctl)" by fastforce
  have life: "life_inv True (run_controller r)" using inv by (simp add: run_inv_def Let_def)
  have "run_inv steps (deliver_reports ctl ?r)"
  proof (rule deliver_inv [OF started])
    show "life_inv True ctl" using start_life [OF life, of "la_controller la"] ctl by simp
    show "quiet (run_controller ?r) ctl"
      using quiet_start [OF calm quiet_refl [of "run_controller r"]] ctl by simp
  qed
  with started inv ctl show ?thesis by (auto simp: loop_start_def Let_def intro!: run_inv_weaken)
qed

lemma run_step_inv:
  assumes inv: "run_inv steps r" and enabled: "run_enabled la ev r"
  shows "run_inv (steps @ [(la, ev)]) (run_step la ev r)"
proof (cases ev)
  case (Run_controller c)
  have life: "life_inv True (run_controller r)" using inv by (simp add: run_inv_def Let_def)
  from enabled Run_controller have c: "c \<noteq> Cc_stop" "event_enabled (run_controller r) c" "calm (la_controller la)"
    by (simp_all add: calm_def)
  show ?thesis unfolding Run_controller run_step.simps
    by (intro run_inv_weaken deliver_inv [OF inv] step_life [OF life c(2)] step_quiet [OF c(3,1)])
qed (use assms in \<open>simp_all add: signal_inv duration_inv start_inv calm_def\<close>)

lemma runs_inv:
  "live_runs r\<^sub>0 steps r \<Longrightarrow> run_inv [] r\<^sub>0 \<Longrightarrow> run_inv steps r"
  by (induction rule: live_runs.induct) (auto intro: run_step_inv)

lemma created_run_inv:
  assumes "create_loop duration True = Inr rl" and "attach_controller True rl = (True, rl')"
    and "create_controller an subscription out True options allocated construction started = Inr ctl"
  shows "run_inv [] \<lparr>run_loop = rl', run_controller = ctl\<rparr>"
proof -
  have "\<not> cc_terminal ctl" "\<not> cc_stop_requested ctl"
    using assms(3)
    by (auto simp: create_controller_def create_session_def act_def Let_def split: option.splits if_splits sum.splits)
  with created_controller(1) [OF assms(3)] have "life_inv True ctl" "\<not> cc_terminal ctl" "\<not> cc_stop_requested ctl"
    by simp_all
  then show ?thesis using assms(1,2)
    by (auto simp: run_inv_def create_loop_def attach_controller_def default_run_result_def split: if_splits)
qed

section \<open>The live mode\<close>

lemma run_io_context_runs:
  "live_runs r\<^sub>0 before r \<Longrightarrow>
     \<exists>executed. live_runs r\<^sub>0 (before @ executed) (run_io_context steps r) \<and> set executed \<subseteq> set steps"
proof (induction steps arbitrary: before r)
  case (Cons step steps)
  obtain la ev where step: "step = (la, ev)" by (cases step)
  show ?case
  proof (cases "run_enabled la ev r")
    case True
    from Cons.IH [OF live_step [OF Cons.prems True]] obtain executed where
      "live_runs r\<^sub>0 (before @ step # executed) (run_io_context steps (run_step la ev r))" "set executed \<subseteq> set steps"
      by (auto simp: step)
    with True show ?thesis by (intro exI [of _ "step # executed"]) (auto simp: step)
  next
    case False
    with Cons.IH [OF Cons.prems] show ?thesis by (auto simp: step)
  qed
qed (intro exI [of _ "[]"], simp)

lemma run_live_inv:
  assumes "run_live env steps options = (code, Some r)" and "\<not> an_stop_late (la_controller (lve_start env))"
  obtains executed where "run_inv ((lve_start env, Run_start) # executed) r" "set executed \<subseteq> set steps"
    "code = kExitInternal \<or> rl_terminal (run_loop r) \<and> code = live_exit_code (rl_result (run_loop r))"
proof -
  from assms(1) obtain subscription out rl ctl rl' threw r\<^sub>1 where
    created: "create_loop (clo_duration_seconds options) True = Inr rl" "attach_controller True rl = (True, rl')"
      "create_controller (lve_create env) (Some subscription) (Some out) True default_reconnect_options
         (lve_controller_allocated env) (lve_pipeline env) (lve_writer env) = Inr ctl"
    and start: "loop_start (lve_start env) \<lparr>run_loop = rl', run_controller = ctl\<rparr> = (threw, r\<^sub>1)"
    and r: "r = (if threw then r\<^sub>1 else run_io_context steps r\<^sub>1)"
    and code: "code = kExitInternal \<or> rl_terminal (run_loop r) \<and> code = live_exit_code (rl_result (run_loop r))"
    by (auto simp: run_live_def Let_def create_loop_def split: sum.splits option.splits prod.splits bool.splits if_splits)
  let ?r\<^sub>0 = "\<lparr>run_loop = rl', run_controller = ctl\<rparr>"
  have "live_runs ?r\<^sub>0 ([] @ [(lve_start env, Run_start)]) (run_step (lve_start env) Run_start ?r\<^sub>0)"
    using assms(2) by (intro live_step live_empty) simp
  then have first: "live_runs ?r\<^sub>0 [(lve_start env, Run_start)] r\<^sub>1" using start by simp
  obtain executed where "live_runs ?r\<^sub>0 ((lve_start env, Run_start) # executed) r" "set executed \<subseteq> set steps"
  proof (cases threw)
    case True
    with r first that [of "[]"] show ?thesis by simp
  next
    case False
    with run_io_context_runs [OF first, of steps] r that show ?thesis by auto
  qed
  with runs_inv [OF _ created_run_inv [OF created]] code that show thesis by blast
qed

lemma happened_mono: "happened P steps \<Longrightarrow> set steps \<subseteq> set steps' \<Longrightarrow> happened P steps'"
  by (auto simp: happened_def)

text \<open>
  C38: the outcome of a live run, for every order of signals, timers, session and writer callbacks.
  Unless the program reports an internal error, it waited for the controller's only report and its exit
  code describes that report.  Exit code 0 means: the capture ended without an error because a signal
  arrived or the configured duration was over, the writer wrote everything it was given, and a run that
  no signal ended had connected at least once.
\<close>

theorem live_mode_outcome:
  assumes "run_live env steps options = (code, Some r)" and "\<not> an_stop_late (la_controller (lve_start env))"
  shows "(code = kExitInternal \<or>
      cc_terminal (run_controller r) \<and> trace_reports (cc_trace (run_controller r)) = [lrr_capture (rl_result (run_loop r))] \<and>
      code = live_exit_code (rl_result (run_loop r))) \<and>
    (code = kExitSuccess \<longrightarrow> lcr_error (lrr_capture (rl_result (run_loop r))) = LCE_none \<and>
      writer_success (lcr_writer (lrr_capture (rl_result (run_loop r)))) \<and> happened stop_event steps \<and>
      (\<not> happened signal_event steps \<longrightarrow>
         lcm_successful_connections (lcr_metrics (lrr_capture (rl_result (run_loop r)))) \<noteq> 0))"
  using assms
proof (rule run_live_inv)
  fix executed
  let ?result = "rl_result (run_loop r)" and ?ctl = "run_controller r"
  assume inv: "run_inv ((lve_start env, Run_start) # executed) r" and sub: "set executed \<subseteq> set steps"
    and code: "code = kExitInternal \<or> rl_terminal (run_loop r) \<and> code = live_exit_code ?result"
  have ended: "rl_terminal (run_loop r) \<Longrightarrow> cc_terminal ?ctl \<and> trace_reports (cc_trace ?ctl) = [lrr_capture ?result]"
    using inv by (simp add: run_inv_def Let_def)
  have mono: "happened P ((lve_start env, Run_start) # executed) \<Longrightarrow> \<not> P Run_start \<Longrightarrow> happened P steps" for P
    using sub by (auto simp: happened_def)
  have "lcr_error (lrr_capture ?result) = LCE_none \<and> writer_success (lcr_writer (lrr_capture ?result)) \<and>
      happened stop_event steps \<and> (\<not> happened signal_event steps \<longrightarrow>
        lcm_successful_connections (lcr_metrics (lrr_capture ?result)) \<noteq> 0)" if "code = kExitSuccess"
  proof -
    from that code have over: "rl_terminal (run_loop r)" and "live_exit_code ?result = kExitSuccess"
      by (auto simp: exit_codes)
    then have ok: "lrr_error ?result = LRE_none" "lcr_success (lrr_capture ?result)"
      by (auto simp: live_exit_code_def Let_def exit_codes split: if_splits)
    then have "lcr_error (lrr_capture ?result) = LCE_none" "writer_success (lcr_writer (lrr_capture ?result))"
      "lcr_stop_requested (lrr_capture ?result)" by (simp_all add: lcr_success_def)
    moreover from this(3) ended [OF over] inv have "rl_stop_started (run_loop r)" by (simp add: run_inv_def Let_def)
    with inv ok ended [OF over] have "happened stop_event ((lve_start env, Run_start) # executed)"
      "happened signal_event ((lve_start env, Run_start) # executed) \<or>
         lcm_successful_connections (lcr_metrics (lrr_capture ?result)) \<noteq> 0"
      by (auto simp: run_inv_def Let_def)
    ultimately show ?thesis using mono [of stop_event] mono [of signal_event] by auto
  qed
  with code ended show ?thesis by blast
qed

text \<open>A run that connects and is ended by the duration.\<close>

definition quiet_loop :: LoopAnswers where
  "quiet_loop = \<lparr>la_arm_throws = False, la_timer_throws = False, la_stop_throws = False, la_controller = quiet_answers\<rparr>"

definition sample_live_environment :: LiveEnvironment where
  "sample_live_environment = \<lparr>lve_subscription_allocated = True, lve_utc = Some (126, 6, 9), lve_output = sample_files,
     lve_loop_constructed = True, lve_create = quiet_answers, lve_controller_allocated = True, lve_pipeline = Constructed,
     lve_writer = WCE_none, lve_start = quiet_loop\<rparr>"

definition sample_live_options :: CommandLineOptions where
  "sample_live_options = default_options\<lparr>clo_mode := Mode_live_capture, clo_symbols := [''B''],
     clo_duration_seconds := Some 60, clo_output_directory := ''o''\<rparr>"

definition sample_live_steps :: "(LoopAnswers \<times> run_event) list" where
  "sample_live_steps = map (Pair quiet_loop)
     [Run_controller (Cc_open 1), Run_duration Timer_expired, Run_controller Cc_request_stop,
      Run_controller (Cc_session_terminal 1 default_session_result)]"

lemma sample_live_subscription:
  "case create_subscription Venue_spot (Some [''B'']) 1 True of
     Inl _ \<Rightarrow> False
   | Inr sub \<Rightarrow> symbol_count_of sub = 1 \<and> ls_venue sub = Venue_spot \<and> subscription_symbol sub 0 = ''B'' \<and>
       (case create_pipeline sub Constructed of Inl _ \<Rightarrow> False | Inr _ \<Rightarrow> True)" by code_simp

lemma sample_live_date: "current_utc_date (Some (126, 6, 9)) = Some ''2026-07-09''" by code_simp

lemma sample_live_output:
  "case fst (snd (open_live sample_files ''o'' Venue_spot (Some [''B'']) 1 ''2026-07-09'')) of
     None \<Rightarrow> False
   | Some out \<Rightarrow> out_mode out = Output_live_capture \<and> out_venue out = Some Venue_spot \<and> \<not> out_closed out \<and>
       \<not> is_write_error (out_first_error out) \<and> out_target_count out = 1 \<and> out_symbol out 0 = ''B''" by code_simp

lemma quiet_answers_flags:
  "\<not> an_session_terminal quiet_answers" "\<not> an_start_throws quiet_answers" "\<not> an_stop_throws quiet_answers"
  "\<not> an_timer_throws quiet_answers" "\<not> an_should_pause quiet_answers" "\<not> an_stop_late quiet_answers"
  by (simp_all add: quiet_answers_def)

lemma default_capture_flags:
  "lcr_error default_capture_result = LCE_none" "lcm_successful_connections (lcr_metrics default_capture_result) = 0"
  by (simp_all add: default_capture_result_def no_capture_metrics_def)

text \<open>The end of a stopped session.\<close>

definition stopped_result :: "ControllerImpl \<Rightarrow> LiveCaptureResult" where
  "stopped_result st = (cc_result st)\<lparr>lcr_session := default_session_result, lcr_stop_requested := True,
     lcr_writer := an_join quiet_answers, lcr_metrics := lcm_connection_invalidations_update
       (\<lambda>n. n + of_nat (symbol_count_of (cc_subscription st))) (lcr_metrics (cc_result st))\<rparr>"

lemma stopped_session_end:
  assumes "cc_generation st = g" "cc_stop_requested st" "\<not> cc_failure_latched st" "\<not> cc_resume_post_failed st"
    "cc_consecutive_message_policy_failures st = 0" "lcr_error (cc_result st) = LCE_none" "cc_has_callback st"
    "\<not> cc_terminal_started st"
  shows "cc_trace (on_session_terminal quiet_answers g default_session_result st) =
    cc_trace st @ [Act_join, Act_terminal (stopped_result st)]"
  using assms
  by (simp add: on_session_terminal_def Let_def drop_session_def update_metrics_def count_policy_failure_def
      kMessagePolicyBreakerLimit_def end_stopped_session_def default_session_result_def wsr_success_def
      recoverable_session_error_def finalize_run_def cancel_reconnect_def quiet_answers_def act_def writer_success_def
      set_capture_error_def is_write_error_def no_write_error_def no_writer_metrics_def stopped_result_def)

lemma stopped_result_flags [simp]:
  "lcr_error (stopped_result st) = lcr_error (cc_result st)" "lcr_stop_requested (stopped_result st)"
  "writer_success (lcr_writer (stopped_result st))"
  "lcm_successful_connections (lcr_metrics (stopped_result st)) = lcm_successful_connections (lcr_metrics (cc_result st))"
  by (simp_all add: stopped_result_def quiet_answers_def writer_success_def is_write_error_def no_write_error_def
      no_writer_metrics_def)

lemma sample_live_exit:
  "\<exists>r. run_live sample_live_environment sample_live_steps sample_live_options = (kExitSuccess, Some r)"
proof -
  obtain sub p where sub: "create_subscription Venue_spot (Some [''B'']) 1 True = Inr sub" "symbol_count_of sub = 1"
    "ls_venue sub = Venue_spot" "subscription_symbol sub 0 = ''B''" "create_pipeline sub Constructed = Inr p"
    using sample_live_subscription by (auto split: sum.splits)
  obtain e out calls where out: "open_live sample_files ''o'' Venue_spot (Some [''B'']) 1 ''2026-07-09'' = (e, Some out, calls)"
    "out_mode out = Output_live_capture" "out_venue out = Some Venue_spot" "\<not> out_closed out"
    "\<not> is_write_error (out_first_error out)" "out_target_count out = 1" "out_symbol out 0 = ''B''"
    using sample_live_output by (cases "open_live sample_files ''o'' Venue_spot (Some [''B'']) 1 ''2026-07-09''") (auto split: option.splits)
  have match: "output_matches_subscription out sub" using sub out by (simp add: output_matches_subscription_def numeral_eq_Suc)
  have "valid_reconnect_options default_reconnect_options" by code_simp
  then obtain ctl where ctl: "create_controller quiet_answers (Some sub) (Some out) True default_reconnect_options True Constructed WCE_none = Inr ctl"
    "ctl = \<lparr>cc_subscription = sub, cc_pipeline = p, cc_session = Some \<lparr>sh_generation = 1, sh_epoch = 0, sh_started = False,
        sh_stopped = False, sh_paused = False, sh_last_sequence = 0\<rparr>, cc_has_callback = True, cc_options = default_reconnect_options,
        cc_result = default_capture_result, cc_stop_requested = False, cc_terminal = False, cc_resume_post_failed = False,
        cc_generation = 1, cc_next_connection_epoch = 0, cc_reconnect_attempt = 0, cc_consecutive_message_policy_failures = 0,
        cc_started = False, cc_session_open = False, cc_epoch_exhausted = False, cc_reads_paused = False,
        cc_failure_latched = False, cc_terminal_started = False, cc_reconnect_waits = 0, cc_reconnect_cancelled = False,
        cc_trace = [Act_create_session 1 0]\<rparr>"
    using sub match by (simp add: create_controller_def Let_def create_session_def act_def quiet_answers_def)
  define rl where "rl = \<lparr>rl_duration_seconds = Some 60, rl_controller = True, rl_result = default_run_result, rl_terminal = False,
    rl_started = False, rl_stop_started = False, rl_terminal_started = False, rl_io_stopped = False\<rparr>"
  have started: "run_live sample_live_environment sample_live_steps sample_live_options =
      (case loop_start quiet_loop \<lparr>run_loop = rl, run_controller = ctl\<rparr> of
         (True, r) \<Rightarrow> (kExitInternal, Some r)
       | (False, r) \<Rightarrow>
           let r = run_io_context sample_live_steps r in
           if \<not> rl_terminal (run_loop r) then (kExitInternal, Some r)
           else (live_exit_code (rl_result (run_loop r)), Some r))"
    by (simp add: run_live_def Let_def sample_live_options_def sample_live_environment_def default_options_def
        sub [simplified] out [simplified] sample_live_date ctl(1) create_loop_def valid_duration_def
        maximum_duration_seconds_def i64_max_def attach_controller_def rl_def)
  show ?thesis unfolding started ctl(2)
    by (simp add: rl_def loop_start_def quiet_loop_def controller_start_def start_current_session_def Let_def
        quiet_answers_flags count_up_def increment_def update_session_def deliver_reports_def trace_reports_def
        sample_live_steps_def on_open_def u64_max_def default_run_result_def on_duration_def loop_request_stop_def
        controller_stop_def request_stop_on_io_def cancel_reconnect_def session_running_def stop_session_def
        stopped_session_end default_capture_flags on_capture_terminal_def live_exit_code_def lcr_success_def)
qed

lemma sample_live_unsignalled: "\<not> happened signal_event sample_live_steps" by code_simp

theorem live_mode_outcome_witness:
  "\<exists>r. run_live sample_live_environment sample_live_steps sample_live_options = (kExitSuccess, Some r) \<and>
     lcm_successful_connections (lcr_metrics (lrr_capture (rl_result (run_loop r)))) \<noteq> 0"
proof -
  obtain r where run: "run_live sample_live_environment sample_live_steps sample_live_options = (kExitSuccess, Some r)"
    using sample_live_exit by blast
  have "\<not> an_stop_late (la_controller (lve_start sample_live_environment))" by code_simp
  from live_mode_outcome [OF run this] sample_live_unsignalled run show ?thesis by blast
qed

end
