(* ===== verification/Websocket_Session.thy ===== *)
theory Websocket_Session
  imports Live_Capture
begin

text \<open>
  The TLS WebSocket session (\<open>include/hft/verified_websocket_session.h\<close>,
  \<open>src/verified_websocket_session.cpp\<close>).  Every handler is one step on the state of the session; what
  Boost.Asio, Boost.Beast and OpenSSL answer is an argument of the step, and no assumption is made on when a
  completion handler runs.  A callback of the owner may call operations of the session, which then run
  at once (\<open>asio::dispatch\<close> on the strand of the caller), and may throw.  Starting an asynchronous
  operation may throw as well, which ends the handler where it is; what the caller makes of the exception
  is part of its own behaviour.
\<close>

section \<open>Data\<close>

datatype TrustStoreKind = Trust_system | Trust_test_ca_file

record VerifiedWebSocketEndpoint =
  we_connect_host :: string
  we_port :: string
  we_expected_hostname :: string
  we_target :: string
  we_trust_store :: TrustStoreKind
  we_test_ca_file :: string

datatype SessionState =
    SS_idle | SS_resolving | SS_connecting | SS_tls_handshaking | SS_websocket_handshaking | SS_open
  | SS_closing | SS_terminal

text \<open>A \<open>boost::system::error_code\<close>: the conditions that the code distinguishes, and its value.\<close>

datatype error_kind =
    Kind_no_error | Kind_websocket_closed | Kind_message_too_big | Kind_buffer_overflow | Kind_operation_aborted
  | Kind_other

record AsioError =
  ae_kind :: error_kind
  ae_value :: int

definition is_error :: "AsioError \<Rightarrow> bool" where
  "is_error e \<longleftrightarrow> ae_kind e \<noteq> Kind_no_error"

text \<open>What the session does to the outside, in order: callbacks of the owner, and operations started.\<close>

datatype session_action =
    Sa_open
  | Sa_text WebSocketTextMessage
  | Sa_control WebSocketControlKind
  | Sa_terminal WebSocketSessionResult
  | Sa_resolve
  | Sa_connect
  | Sa_tls_handshake
  | Sa_websocket_handshake string string
  | Sa_read
  | Sa_close

text \<open>
  \<open>ss_on_open\<close> and so on: which callbacks are set.  \<open>ss_deadline\<close> is the state and stage that the timer
  waits for, if it does.  \<open>ss_throws\<close> says which of the coming calls into Boost throw, in order (none after
  its end), and \<open>ss_start_failed\<close> whether one has.
\<close>

record SessionImpl =
  ss_endpoint :: VerifiedWebSocketEndpoint
  ss_on_open :: bool
  ss_on_text_message :: bool
  ss_on_control :: bool
  ss_on_terminal :: bool
  ss_state :: SessionState
  ss_start_requested :: bool
  ss_read_in_progress :: bool
  ss_in_control_callback :: bool
  ss_stop_requested_during_control :: bool
  ss_control_callback_failed :: bool
  ss_reads_paused :: bool
  ss_connection_epoch :: u64
  ss_connection_sequence :: u64
  ss_terminal_flag :: bool
  ss_read_buffer :: string
  ss_deadline :: "(SessionState \<times> WebSocketSessionStage) option"
  ss_throws :: "bool list"
  ss_start_failed :: bool
  ss_trace :: "session_action list"

definition emit :: "session_action \<Rightarrow> SessionImpl \<Rightarrow> SessionImpl" where
  "emit a st = st\<lparr>ss_trace := ss_trace st @ [a]\<rparr>"

definition session_result :: "WebSocketSessionErrorCode \<Rightarrow> WebSocketSessionStage \<Rightarrow> int \<Rightarrow> WebSocketSessionResult" where
  "session_result code stage native =
     \<lparr>wsr_code = code, wsr_stage = stage, wsr_native_error = native, wsr_last_connection_sequence = 0\<rparr>"

section \<open>Construction\<close>

definition valid_endpoint_text :: "string \<Rightarrow> bool" where
  "valid_endpoint_text s =
     (if s = [] then False
      else list_all (\<lambda>byte. \<not> (byte_of byte = 0 \<or> byte_of byte < 0x21 \<or> byte_of byte > 0x7E)) s)"

text \<open>The answers of OpenSSL during the configuration; \<open>cf_invalid_argument\<close> is the value of that error.\<close>

record ConfigureAnswers =
  cf_invalid_argument :: int
  cf_set_options :: AsioError
  cf_verify_mode :: AsioError
  cf_min_version_set :: bool
  cf_openssl_error :: int
  cf_trust_store :: AsioError

definition configure :: "ConfigureAnswers \<Rightarrow> VerifiedWebSocketEndpoint \<Rightarrow> WebSocketSessionResult" where
  "configure cf endpoint =
     (if \<not> valid_endpoint_text (we_connect_host endpoint) \<or> \<not> valid_endpoint_text (we_port endpoint) \<or>
         \<not> valid_endpoint_text (we_expected_hostname endpoint) \<or> we_target endpoint = [] \<or>
         hd (we_target endpoint) \<noteq> CHR ''/'' \<or> length (we_target endpoint) > kMaxCombinedTargetBytes \<or>
         list_ex (\<lambda>c. byte_of c = 13 \<or> byte_of c = 10 \<or> byte_of c = 0) (we_target endpoint) \<or>
         we_trust_store endpoint = Trust_test_ca_file \<and> we_test_ca_file endpoint = []
      then session_result WSE_invalid_configuration WSS_configuration (cf_invalid_argument cf)
      else if is_error (cf_set_options cf)
      then session_result WSE_tls_policy_failure WSS_configuration (ae_value (cf_set_options cf))
      else if is_error (cf_verify_mode cf)
      then session_result WSE_tls_policy_failure WSS_configuration (ae_value (cf_verify_mode cf))
      else if \<not> cf_min_version_set cf
      then session_result WSE_tls_policy_failure WSS_configuration (cf_openssl_error cf)
      else if is_error (cf_trust_store cf)
      then session_result WSE_trust_store_failure WSS_configuration (ae_value (cf_trust_store cf))
      else default_session_result)"

text \<open>How an exception ends the construction.\<close>

datatype session_construction = Session_constructed | Session_bad_alloc | Session_exception

definition create_websocket_session ::
    "ConfigureAnswers \<Rightarrow> session_construction \<Rightarrow> VerifiedWebSocketEndpoint \<Rightarrow> bool \<times> bool \<times> bool \<times> bool \<Rightarrow> u64 \<Rightarrow>
     bool list \<Rightarrow> WebSocketSessionResult + SessionImpl" where
  "create_websocket_session cf construction endpoint callbacks epoch throws =
     (case construction of
        Session_bad_alloc \<Rightarrow> Inl (session_result WSE_allocation_failure WSS_configuration 0)
      | Session_exception \<Rightarrow> Inl (session_result WSE_tls_policy_failure WSS_configuration 0)
      | Session_constructed \<Rightarrow>
          let result = configure cf endpoint in
          if \<not> wsr_success result then Inl result
          else case callbacks of (opened, text_message, control, terminal) \<Rightarrow>
            Inr \<lparr>ss_endpoint = endpoint, ss_on_open = opened, ss_on_text_message = text_message,
                 ss_on_control = control, ss_on_terminal = terminal, ss_state = SS_idle,
                 ss_start_requested = False, ss_read_in_progress = False, ss_in_control_callback = False,
                 ss_stop_requested_during_control = False, ss_control_callback_failed = False,
                 ss_reads_paused = False, ss_connection_epoch = epoch, ss_connection_sequence = 0,
                 ss_terminal_flag = False, ss_read_buffer = [], ss_deadline = None, ss_throws = throws,
                 ss_start_failed = False, ss_trace = []\<rparr>)"

definition production_websocket_endpoint :: "LiveSubscription \<Rightarrow> VerifiedWebSocketEndpoint" where
  "production_websocket_endpoint subscription =
     (let endpoint = production_endpoint (ls_venue subscription)
      in \<lparr>we_connect_host = ep_host endpoint, we_port = ep_port endpoint, we_expected_hostname = ep_host endpoint,
          we_target = ls_target subscription, we_trust_store = Trust_system, we_test_ca_file = []\<rparr>)"

definition test_websocket_endpoint :: "string \<Rightarrow> string \<Rightarrow> string \<Rightarrow> string \<Rightarrow> string \<Rightarrow> VerifiedWebSocketEndpoint" where
  "test_websocket_endpoint connect_host port expected_hostname target ca_file =
     \<lparr>we_connect_host = connect_host, we_port = port, we_expected_hostname = expected_hostname,
      we_target = target, we_trust_store = Trust_test_ca_file, we_test_ca_file = ca_file\<rparr>"

section \<open>Parts of the handlers\<close>

definition active_stage :: "SessionImpl \<Rightarrow> WebSocketSessionStage" where
  "active_stage st =
     (case ss_state st of
        SS_idle \<Rightarrow> WSS_none
      | SS_resolving \<Rightarrow> WSS_resolve
      | SS_connecting \<Rightarrow> WSS_connect
      | SS_tls_handshaking \<Rightarrow> WSS_tls_handshake
      | SS_websocket_handshaking \<Rightarrow> WSS_websocket_handshake
      | SS_open \<Rightarrow> if ss_read_in_progress st then WSS_read else WSS_open
      | SS_closing \<Rightarrow> WSS_websocket_close
      | SS_terminal \<Rightarrow> WSS_none)"

text \<open>\<open>elapsed\<close>: nanoseconds of the system clock since the epoch.\<close>

definition capture_receive_timestamp :: "int \<Rightarrow> CsvTimestamp option" where
  "capture_receive_timestamp elapsed =
     (let seconds = elapsed div 1000000000; nanoseconds = elapsed - seconds * 1000000000
      in if seconds < i64_min \<or> seconds > i64_max \<or> nanoseconds < 0 \<or> nanoseconds \<ge> 1000000000 then None
         else Some \<lparr>ts_seconds = seconds, ts_nanoseconds = nanoseconds\<rparr>)"

definition clear_read_buffer :: "SessionImpl \<Rightarrow> SessionImpl" where
  "clear_read_buffer st = st\<lparr>ss_read_buffer := []\<rparr>"

definition arm_deadline :: "SessionState \<Rightarrow> WebSocketSessionStage \<Rightarrow> SessionImpl \<Rightarrow> SessionImpl" where
  "arm_deadline expected_state stage st = st\<lparr>ss_deadline := Some (expected_state, stage)\<rparr>"

text \<open>A call that may throw, with what follows it in the handler; and the calls that start an operation.\<close>

definition may_throw :: "(SessionImpl \<Rightarrow> SessionImpl) \<Rightarrow> SessionImpl \<Rightarrow> SessionImpl" where
  "may_throw rest st =
     (if ss_throws st \<noteq> [] \<and> hd (ss_throws st)
      then st\<lparr>ss_throws := tl (ss_throws st), ss_start_failed := True\<rparr>
      else rest (st\<lparr>ss_throws := tl (ss_throws st)\<rparr>))"

definition start_operation :: "session_action \<Rightarrow> SessionImpl \<Rightarrow> SessionImpl" where
  "start_operation a = may_throw (emit a)"

definition start_limited ::
    "SessionState \<Rightarrow> WebSocketSessionStage \<Rightarrow> session_action \<Rightarrow> SessionImpl \<Rightarrow> SessionImpl" where
  "start_limited expected_state stage a = may_throw (\<lambda>st. start_operation a (arm_deadline expected_state stage st))"

definition cancel_deadline :: "SessionImpl \<Rightarrow> SessionImpl" where
  "cancel_deadline st = st\<lparr>ss_deadline := None\<rparr>"

text \<open>The terminal callback can only call operations that do nothing in the terminal state.\<close>

definition session_finish :: "WebSocketSessionResult \<Rightarrow> SessionImpl \<Rightarrow> SessionImpl" where
  "session_finish result st =
     (if ss_state st = SS_terminal then st
      else
        let result = result\<lparr>wsr_last_connection_sequence := ss_connection_sequence st\<rparr>;
            st = cancel_deadline (st\<lparr>ss_state := SS_terminal, ss_terminal_flag := True\<rparr>);
            st = (if \<not> ss_read_in_progress st then clear_read_buffer st else st);
            terminal_callback = ss_on_terminal st;
            st = st\<lparr>ss_on_open := False, ss_on_text_message := False, ss_on_control := False, ss_on_terminal := False\<rparr>
        in if terminal_callback then emit (Sa_terminal result) st else st)"

definition on_deadline :: "SessionState \<Rightarrow> WebSocketSessionStage \<Rightarrow> AsioError \<Rightarrow> int \<Rightarrow> SessionImpl \<Rightarrow> SessionImpl" where
  "on_deadline expected_state stage e timed_out st =
     (if ae_kind e = Kind_operation_aborted \<or> ss_state st \<noteq> expected_state \<or> ss_state st = SS_terminal then st
      else session_finish (session_result WSE_timeout stage timed_out) st)"

definition issue_read :: "SessionImpl \<Rightarrow> SessionImpl" where
  "issue_read st =
     (if ss_state st \<noteq> SS_open \<or> ss_read_in_progress st then st
      else start_operation Sa_read (st\<lparr>ss_read_in_progress := True\<rparr>))"

section \<open>Operations\<close>

definition session_start :: "SessionImpl \<Rightarrow> SessionImpl" where
  "session_start st =
     (if ss_state st \<noteq> SS_idle \<or> ss_start_requested st then st
      else start_limited SS_resolving WSS_resolve Sa_resolve
             (st\<lparr>ss_start_requested := True, ss_state := SS_resolving\<rparr>))"

definition pause_reads :: "SessionImpl \<Rightarrow> SessionImpl" where
  "pause_reads st = (if ss_state st \<noteq> SS_terminal then st\<lparr>ss_reads_paused := True\<rparr> else st)"

definition resume_reads :: "SessionImpl \<Rightarrow> SessionImpl" where
  "resume_reads st =
     (if ss_state st = SS_terminal then st
      else
        let st = st\<lparr>ss_reads_paused := False\<rparr>
        in if ss_state st = SS_open \<and> \<not> ss_read_in_progress st then issue_read st else st)"

text \<open>\<open>aborted\<close>: the value of \<open>asio::error::operation_aborted\<close>.\<close>

definition session_stop :: "int \<Rightarrow> SessionImpl \<Rightarrow> SessionImpl" where
  "session_stop aborted st =
     (if ss_state st = SS_terminal then st
      else if ss_state st = SS_closing then st
      else if ss_in_control_callback st then st\<lparr>ss_stop_requested_during_control := True\<rparr>
      else if ss_state st \<noteq> SS_open then session_finish (session_result WSE_cancelled (active_stage st) aborted) st
      else start_limited SS_closing WSS_websocket_close Sa_close (st\<lparr>ss_state := SS_closing\<rparr>))"

datatype session_call = Call_start | Call_stop int | Call_pause_reads | Call_resume_reads

fun call_session :: "session_call \<Rightarrow> SessionImpl \<Rightarrow> SessionImpl" where
  "call_session Call_start st = session_start st"
| "call_session (Call_stop aborted) st = session_stop aborted st"
| "call_session Call_pause_reads st = pause_reads st"
| "call_session Call_resume_reads st = resume_reads st"

text \<open>What a callback of the owner does: the operations it calls, and whether it throws.\<close>

record CallbackBehaviour =
  cb_calls :: "session_call list"
  cb_throws :: bool

section \<open>Completion handlers\<close>

definition on_resolve :: "AsioError \<Rightarrow> SessionImpl \<Rightarrow> SessionImpl" where
  "on_resolve e st =
     (if ss_state st \<noteq> SS_resolving then st
      else
        let st = cancel_deadline st in
        if is_error e then session_finish (session_result WSE_resolve_failure WSS_resolve (ae_value e)) st
        else start_limited SS_connecting WSS_connect Sa_connect (st\<lparr>ss_state := SS_connecting\<rparr>))"

text \<open>
  \<open>sni\<close>: the OpenSSL error if the server name could not be set.  Setting the verification callback may
  throw.
\<close>

definition on_connect :: "AsioError \<Rightarrow> int option \<Rightarrow> SessionImpl \<Rightarrow> SessionImpl" where
  "on_connect e sni st =
     (if ss_state st \<noteq> SS_connecting then st
      else
        let st = cancel_deadline st in
        if is_error e then session_finish (session_result WSE_connect_failure WSS_connect (ae_value e)) st
        else case sni of
          Some native \<Rightarrow> session_finish (session_result WSE_sni_failure WSS_sni native) st
        | None \<Rightarrow> may_throw (\<lambda>st. start_limited SS_tls_handshaking WSS_tls_handshake Sa_tls_handshake
            (st\<lparr>ss_state := SS_tls_handshaking\<rparr>)) st)"

definition host_header :: "VerifiedWebSocketEndpoint \<Rightarrow> string" where
  "host_header endpoint =
     (if we_port endpoint \<noteq> ''443'' then we_expected_hostname endpoint @ '':'' @ we_port endpoint
      else we_expected_hostname endpoint)"

text \<open>
  \<open>verified\<close>: the result of \<open>SSL_get_verify_result\<close> is \<open>X509_V_OK\<close>.  Setting the options of the stream and
  building the host header may throw.
\<close>

definition on_tls_handshake :: "AsioError \<Rightarrow> bool \<Rightarrow> SessionImpl \<Rightarrow> SessionImpl" where
  "on_tls_handshake e verified st =
     (if ss_state st \<noteq> SS_tls_handshaking then st
      else
        let st = cancel_deadline st in
        if is_error e
        then session_finish (session_result (if verified then WSE_tls_handshake_failure else WSE_tls_verification_failure)
               WSS_tls_handshake (ae_value e)) st
        else may_throw (\<lambda>st. start_limited SS_websocket_handshaking WSS_websocket_handshake
               (Sa_websocket_handshake (host_header (ss_endpoint st)) (we_target (ss_endpoint st)))
               (st\<lparr>ss_state := SS_websocket_handshaking\<rparr>)) st)"

definition read_next :: "SessionImpl \<Rightarrow> SessionImpl" where
  "read_next st = (if ss_state st = SS_open \<and> \<not> ss_reads_paused st then issue_read st else st)"

definition on_websocket_handshake :: "AsioError \<Rightarrow> CallbackBehaviour \<Rightarrow> SessionImpl \<Rightarrow> SessionImpl" where
  "on_websocket_handshake e cb st =
     (if ss_state st \<noteq> SS_websocket_handshaking then st
      else
        let st = cancel_deadline st in
        if is_error e
        then session_finish (session_result WSE_websocket_handshake_failure WSS_websocket_handshake (ae_value e)) st
        else
          let st = st\<lparr>ss_state := SS_open\<rparr>;
              st = (if ss_on_open st then
                      let st = fold call_session (cb_calls cb) (emit Sa_open st)
                      in if cb_throws cb then session_finish (session_result WSE_callback_failure WSS_open 0) st else st
                    else st)
          in read_next st)"

text \<open>The frame type is none of the three kinds for \<^term>\<open>None\<close>.\<close>

definition on_control_frame :: "WebSocketControlKind option \<Rightarrow> CallbackBehaviour \<Rightarrow> SessionImpl \<Rightarrow> SessionImpl" where
  "on_control_frame frame_type cb st =
     (case frame_type of
        None \<Rightarrow> st
      | Some kind \<Rightarrow>
          if \<not> ss_on_control st then st
          else
            let st = fold call_session (cb_calls cb) (emit (Sa_control kind) (st\<lparr>ss_in_control_callback := True\<rparr>));
                st = (if cb_throws cb then st\<lparr>ss_control_callback_failed := True\<rparr> else st)
            in st\<lparr>ss_in_control_callback := False\<rparr>)"

text \<open>A read that failed.\<close>

definition read_error :: "AsioError \<Rightarrow> SessionImpl \<Rightarrow> SessionImpl" where
  "read_error e st =
     (let had_incomplete_bytes = (ss_read_buffer st \<noteq> []);
          st = clear_read_buffer st
      in if ae_kind e = Kind_message_too_big \<or> ae_kind e = Kind_buffer_overflow
         then session_finish (session_result WSE_message_too_big WSS_read (ae_value e)) st
         else if ae_kind e = Kind_websocket_closed
         then session_finish (session_result WSE_remote_close WSS_read (ae_value e)) st
         else session_finish (session_result
                (if had_incomplete_bytes then WSE_incomplete_message else WSE_read_failure) WSS_read (ae_value e)) st)"

text \<open>A complete message in the buffer.\<close>

definition deliver_message :: "bool \<Rightarrow> int \<Rightarrow> CallbackBehaviour \<Rightarrow> SessionImpl \<Rightarrow> SessionImpl" where
  "deliver_message got_text elapsed cb st =
     (if ss_connection_sequence st = u64_max
      then session_finish (session_result WSE_sequence_overflow WSS_read 0) (clear_read_buffer st)
      else
        let st = st\<lparr>ss_connection_sequence := ss_connection_sequence st + 1\<rparr> in
        case capture_receive_timestamp elapsed of
          None \<Rightarrow> session_finish (session_result WSE_timestamp_failure WSS_read 0) (clear_read_buffer st)
        | Some timestamp \<Rightarrow>
            if \<not> got_text then session_finish (session_result WSE_binary_message WSS_read 0) (clear_read_buffer st)
            else
              let m = \<lparr>wm_receive_timestamp = timestamp, wm_connection_epoch = ss_connection_epoch st,
                    wm_connection_sequence = ss_connection_sequence st, wm_payload_data = Some (ss_read_buffer st),
                    wm_payload_size = length (ss_read_buffer st)\<rparr>
              in if \<not> ss_on_text_message st
                 then session_finish (session_result WSE_callback_failure WSS_read 0) (clear_read_buffer st)
                 else
                   let st = fold call_session (cb_calls cb) (emit (Sa_text m) st) in
                   if cb_throws cb
                   then session_finish (session_result WSE_callback_failure WSS_read 0) (clear_read_buffer st)
                   else read_next (clear_read_buffer st))"

text \<open>\<open>buffer\<close>: the content of the read buffer when the read completes.\<close>

definition on_read ::
    "AsioError \<Rightarrow> nat \<Rightarrow> string \<Rightarrow> int \<Rightarrow> bool \<Rightarrow> int \<Rightarrow> CallbackBehaviour \<Rightarrow> SessionImpl \<Rightarrow> SessionImpl" where
  "on_read e bytes_transferred buffer invalid_argument got_text elapsed cb st =
     (if \<not> ss_read_in_progress st then st
      else
        let st = st\<lparr>ss_read_in_progress := False, ss_read_buffer := buffer\<rparr> in
        if ss_state st \<noteq> SS_open then clear_read_buffer st
        else if ss_control_callback_failed st
        then session_finish (session_result WSE_callback_failure WSS_read (ae_value e)) (clear_read_buffer st)
        else if ss_stop_requested_during_control st
        then session_finish (session_result WSE_cancelled WSS_read (ae_value e)) (clear_read_buffer st)
        else if is_error e then read_error e st
        else if bytes_transferred \<noteq> length (ss_read_buffer st)
        then session_finish (session_result WSE_read_failure WSS_read invalid_argument) (clear_read_buffer st)
        else deliver_message got_text elapsed cb st)"

definition on_close :: "AsioError \<Rightarrow> SessionImpl \<Rightarrow> SessionImpl" where
  "on_close e st =
     (if ss_state st \<noteq> SS_closing then st
      else
        let st = cancel_deadline st in
        if ss_control_callback_failed st
        then session_finish (session_result WSE_callback_failure WSS_websocket_close (ae_value e)) st
        else if is_error e \<and> ae_kind e \<noteq> Kind_websocket_closed
        then session_finish (session_result WSE_close_failure WSS_websocket_close (ae_value e)) st
        else session_finish default_session_result st)"

section \<open>Runs\<close>

datatype session_event =
    Se_call session_call
  | Se_resolved AsioError
  | Se_connected AsioError "int option"
  | Se_tls AsioError bool
  | Se_websocket AsioError CallbackBehaviour
  | Se_read AsioError nat string int bool int CallbackBehaviour
  | Se_control "WebSocketControlKind option" CallbackBehaviour
  | Se_closed AsioError
  | Se_deadline SessionState WebSocketSessionStage AsioError int

fun session_step :: "session_event \<Rightarrow> SessionImpl \<Rightarrow> SessionImpl" where
  "session_step (Se_call c) st = call_session c st"
| "session_step (Se_resolved e) st = on_resolve e st"
| "session_step (Se_connected e sni) st = on_connect e sni st"
| "session_step (Se_tls e verified) st = on_tls_handshake e verified st"
| "session_step (Se_websocket e cb) st = on_websocket_handshake e cb st"
| "session_step (Se_read e n buffer invalid_argument got_text elapsed cb) st =
     on_read e n buffer invalid_argument got_text elapsed cb st"
| "session_step (Se_control frame_type cb) st = on_control_frame frame_type cb st"
| "session_step (Se_closed e) st = on_close e st"
| "session_step (Se_deadline expected stage e timed_out) st = on_deadline expected stage e timed_out st"

definition session_run :: "session_event list \<Rightarrow> SessionImpl \<Rightarrow> SessionImpl" where
  "session_run events st = fold session_step events st"

end
