(* ===== verification/Websocket_Session_Guarantees.thy ===== *)
theory Websocket_Session_Guarantees
  imports Websocket_Session Live_Capture_Life
begin

text \<open>
  The contract between a session and its owner as a small automaton over the session's actions, and the
  proof that every run of the session follows it, whatever completions, time-outs and calls come in
  whatever order.  It is the contract that the runs of the capture controller assume of a session.
\<close>

section \<open>The contract\<close>

datatype session_phase = Before_open | Opened u64 | Ended

text \<open>
  A session opens at most once.  Then it delivers messages with its epoch, the sequences 1, 2, 3, ...
  and valid time stamps.  Its end is the last thing it does.  It reads only when it is open.
\<close>

fun follow :: "u64 \<Rightarrow> session_phase \<Rightarrow> session_action \<Rightarrow> session_phase option" where
  "follow epoch Ended a = None"
| "follow epoch p (Sa_terminal r) = Some Ended"
| "follow epoch Before_open Sa_open = Some (Opened 0)"
| "follow epoch (Opened n) Sa_open = None"
| "follow epoch (Opened n) (Sa_text m) =
     (if wm_connection_epoch m = epoch \<and> n \<noteq> u64_max \<and> wm_connection_sequence m = n + 1 \<and>
         valid_timestamp (wm_receive_timestamp m)
      then Some (Opened (n + 1)) else None)"
| "follow epoch Before_open (Sa_text m) = None"
| "follow epoch Before_open Sa_read = None"
| "follow epoch p a = Some p"

fun follow_all :: "u64 \<Rightarrow> session_phase \<Rightarrow> session_action list \<Rightarrow> session_phase option" where
  "follow_all epoch p [] = Some p"
| "follow_all epoch p (a # tr) =
     (case follow epoch p a of None \<Rightarrow> None | Some q \<Rightarrow> follow_all epoch q tr)"

lemma follow_all_snoc:
  "follow_all epoch p (tr @ [a]) = Option.bind (follow_all epoch p tr) (\<lambda>q. follow epoch q a)"
  by (induction tr arbitrary: p) (auto split: option.splits bind_splits)

section \<open>Invariant\<close>

definition early_states :: "SessionState set" where
  "early_states = {SS_idle, SS_resolving, SS_connecting, SS_tls_handshaking, SS_websocket_handshaking}"

fun state_phase :: "SessionState \<Rightarrow> u64 \<Rightarrow> session_phase" where
  "state_phase SS_terminal n = Ended"
| "state_phase SS_open n = Opened n"
| "state_phase SS_closing n = Opened n"
| "state_phase _ n = Before_open"

text \<open>The stage of a state that has a time limit.\<close>

fun limited_stage :: "SessionState \<Rightarrow> WebSocketSessionStage option" where
  "limited_stage SS_resolving = Some WSS_resolve"
| "limited_stage SS_connecting = Some WSS_connect"
| "limited_stage SS_tls_handshaking = Some WSS_tls_handshake"
| "limited_stage SS_websocket_handshaking = Some WSS_websocket_handshake"
| "limited_stage SS_closing = Some WSS_websocket_close"
| "limited_stage _ = None"

definition all_callbacks :: "SessionImpl \<Rightarrow> bool" where
  "all_callbacks st \<longleftrightarrow> ss_on_open st \<and> ss_on_text_message st \<and> ss_on_control st \<and> ss_on_terminal st"

text \<open>A session that has not ended.\<close>

definition live_session :: "u64 \<Rightarrow> SessionImpl \<Rightarrow> bool" where
  "live_session epoch st \<longleftrightarrow> ss_connection_epoch st = epoch \<and> ss_state st \<noteq> SS_terminal \<and> all_callbacks st \<and>
     (\<exists>p. follow_all epoch Before_open (ss_trace st) = Some p \<and> p \<noteq> Ended)"

text \<open>What holds within a handler, and what also holds between handlers unless a call has thrown.\<close>

definition base_inv :: "u64 \<Rightarrow> SessionImpl \<Rightarrow> bool" where
  "base_inv epoch st \<longleftrightarrow> ss_connection_epoch st = epoch \<and> ss_terminal_flag st = (ss_state st = SS_terminal) \<and>
     follow_all epoch Before_open (ss_trace st) = Some (state_phase (ss_state st) (ss_connection_sequence st)) \<and>
     (if ss_state st = SS_terminal then \<not> ss_on_control st else all_callbacks st) \<and>
     (ss_state st \<in> early_states \<longrightarrow> ss_connection_sequence st = 0 \<and> \<not> ss_read_in_progress st)"

definition session_inv :: "u64 \<Rightarrow> SessionImpl \<Rightarrow> bool" where
  "session_inv epoch st \<longleftrightarrow> base_inv epoch st \<and>
     (\<not> ss_start_failed st \<longrightarrow> ss_deadline st = map_option (Pair (ss_state st)) (limited_stage (ss_state st)))"

lemma inv_live: "session_inv epoch st \<Longrightarrow> ss_state st \<noteq> SS_terminal \<Longrightarrow> live_session epoch st"
  by (cases "ss_state st") (auto simp: session_inv_def base_inv_def live_session_def)

lemma live_cancel [simp]: "live_session epoch (cancel_deadline st) = live_session epoch st"
  "live_session epoch (clear_read_buffer st) = live_session epoch st"
  by (simp_all add: cancel_deadline_def clear_read_buffer_def live_session_def all_callbacks_def)

lemma finish_live:
  assumes "live_session epoch st"
  shows "session_inv epoch (session_finish r st) \<and> ss_state (session_finish r st) = SS_terminal"
proof -
  obtain p where "follow_all epoch Before_open (ss_trace st) = Some p" "p \<noteq> Ended"
    using assms by (auto simp: live_session_def)
  then have "follow_all epoch Before_open (ss_trace st @ [Sa_terminal r']) = Some Ended" for r'
    by (cases p) (simp_all add: follow_all_snoc)
  with assms show ?thesis
    by (simp add: session_finish_def session_inv_def base_inv_def live_session_def Let_def cancel_deadline_def clear_read_buffer_def
        emit_def all_callbacks_def early_states_def)
qed

lemma session_finish_inv: "session_inv epoch st \<Longrightarrow> session_inv epoch (session_finish r st)"
  using finish_live [OF inv_live] by (cases "ss_state st = SS_terminal") (simp add: session_finish_def, blast)

lemma terminal_finish [simp]: "ss_state (session_finish r st) = SS_terminal"
  by (simp add: session_finish_def Let_def cancel_deadline_def clear_read_buffer_def emit_def)

section \<open>Operations\<close>

lemma throws_inv [simp]:
  "base_inv epoch (st\<lparr>ss_throws := ts\<rparr>) = base_inv epoch st"
  "session_inv epoch (st\<lparr>ss_throws := ts\<rparr>) = session_inv epoch st"
  by (simp_all add: session_inv_def base_inv_def all_callbacks_def)

lemma may_throw_inv:
  "base_inv epoch st \<Longrightarrow> session_inv epoch (rest (st\<lparr>ss_throws := tl (ss_throws st)\<rparr>)) \<Longrightarrow> session_inv epoch (may_throw rest st)"
  by (auto simp: may_throw_def session_inv_def base_inv_def all_callbacks_def)

lemma emit_inv:
  assumes "session_inv epoch st"
    and "follow epoch (state_phase (ss_state st) (ss_connection_sequence st)) a =
      Some (state_phase (ss_state st) (ss_connection_sequence st))"
  shows "session_inv epoch (emit a st)"
  using assms by (simp add: session_inv_def base_inv_def emit_def follow_all_snoc all_callbacks_def split: if_splits)

lemma start_operation_inv:
  assumes "session_inv epoch st"
    and "follow epoch (state_phase (ss_state st) (ss_connection_sequence st)) a =
      Some (state_phase (ss_state st) (ss_connection_sequence st))"
  shows "session_inv epoch (start_operation a st)"
  unfolding start_operation_def
  using assms by (intro may_throw_inv emit_inv) (simp_all add: session_inv_def)

lemma start_limited_inv:
  assumes "base_inv epoch st" and "limited_stage (ss_state st) = Some stage"
    and "follow epoch (state_phase (ss_state st) (ss_connection_sequence st)) a =
      Some (state_phase (ss_state st) (ss_connection_sequence st))"
  shows "session_inv epoch (start_limited (ss_state st) stage a st)"
  unfolding start_limited_def
  using assms
  by (intro may_throw_inv start_operation_inv)
    (simp_all add: arm_deadline_def, simp add: session_inv_def base_inv_def all_callbacks_def split: if_splits)

lemma issue_read_inv: "session_inv epoch st \<Longrightarrow> session_inv epoch (issue_read st)"
proof -
  assume "session_inv epoch st"
  then have "ss_state st = SS_open \<Longrightarrow> session_inv epoch (st\<lparr>ss_read_in_progress := True\<rparr>)"
    by (simp add: session_inv_def base_inv_def all_callbacks_def early_states_def)
  with \<open>session_inv epoch st\<close> show ?thesis by (simp add: issue_read_def start_operation_inv)
qed

lemma session_start_inv: "session_inv epoch st \<Longrightarrow> session_inv epoch (session_start st)"
proof -
  assume inv: "session_inv epoch st"
  let ?st = "st\<lparr>ss_start_requested := True, ss_state := SS_resolving\<rparr>"
  have "ss_state st = SS_idle \<Longrightarrow> base_inv epoch ?st"
    using inv by (simp add: session_inv_def base_inv_def all_callbacks_def early_states_def)
  with inv start_limited_inv [of epoch ?st WSS_resolve Sa_resolve] show ?thesis by (simp add: session_start_def)
qed

lemma paused_inv [simp]: "session_inv epoch (st\<lparr>ss_reads_paused := b\<rparr>) = session_inv epoch st"
  by (simp add: session_inv_def base_inv_def all_callbacks_def)

lemma session_pause_inv: "session_inv epoch st \<Longrightarrow> session_inv epoch (pause_reads st)"
  by (simp add: pause_reads_def)

lemma session_resume_inv: "session_inv epoch st \<Longrightarrow> session_inv epoch (resume_reads st)"
  by (simp add: resume_reads_def Let_def issue_read_inv)

lemma session_stop_inv: "session_inv epoch st \<Longrightarrow> session_inv epoch (session_stop aborted st)"
proof (cases "ss_state st = SS_open \<and> \<not> ss_in_control_callback st")
  case True
  moreover assume "session_inv epoch st"
  ultimately have "base_inv epoch (st\<lparr>ss_state := SS_closing\<rparr>)"
    by (simp add: session_inv_def base_inv_def all_callbacks_def early_states_def)
  with True start_limited_inv [of epoch "st\<lparr>ss_state := SS_closing\<rparr>" WSS_websocket_close Sa_close] show ?thesis
    by (simp add: session_stop_def)
next
  case False
  moreover assume "session_inv epoch st"
  ultimately show ?thesis
    using session_finish_inv [of epoch st] by (auto simp: session_stop_def session_inv_def base_inv_def all_callbacks_def)
qed

lemma call_session_inv: "session_inv epoch st \<Longrightarrow> session_inv epoch (call_session c st)"
  by (cases c) (simp_all add: session_start_inv session_stop_inv session_pause_inv session_resume_inv)

lemma call_sessions_inv: "session_inv epoch st \<Longrightarrow> session_inv epoch (fold call_session cs st)"
  by (induction cs arbitrary: st) (simp_all add: call_session_inv)

section \<open>Handlers\<close>

text \<open>The simple handlers move to the next state under a new time limit, or finish.\<close>

lemma cancel_base [simp]: "base_inv epoch (cancel_deadline st) = base_inv epoch st"
  by (simp add: base_inv_def all_callbacks_def cancel_deadline_def)

lemma early_base: "session_inv epoch st \<Longrightarrow> base_inv epoch st"
  by (simp add: session_inv_def)

lemma advance_inv:
  assumes "base_inv epoch st" and "ss_state st \<in> early_states"
    and "s \<in> {SS_connecting, SS_tls_handshaking, SS_websocket_handshaking}"
  shows "base_inv epoch (st\<lparr>ss_state := s\<rparr>)"
proof -
  have s: "state_phase s n = Before_open" "s \<noteq> SS_terminal" for n using assms(3) by auto
  have st: "state_phase (ss_state st) n = Before_open" "ss_state st \<noteq> SS_terminal" for n
    using assms(2) by (auto simp: early_states_def)
  show ?thesis using assms(1,2) by (simp add: base_inv_def s st all_callbacks_def)
qed

lemma start_next_inv:
  assumes "base_inv epoch st" and "ss_state st \<in> early_states"
    and "s \<in> {SS_connecting, SS_tls_handshaking, SS_websocket_handshaking}" and "limited_stage s = Some stage"
    and "follow epoch Before_open a = Some Before_open"
  shows "session_inv epoch (start_limited s stage a (st\<lparr>ss_state := s\<rparr>))"
proof -
  have "state_phase s n = Before_open" for n using assms(3) by auto
  with start_limited_inv [OF advance_inv [OF assms(1-3)], of stage a] assms(4,5) show ?thesis by simp
qed

lemma cancel_state [simp]: "ss_state (cancel_deadline st) = ss_state st"
  by (simp add: cancel_deadline_def)

lemma on_resolve_inv: "session_inv epoch st \<Longrightarrow> session_inv epoch (on_resolve e st)"
  using finish_live [of epoch "cancel_deadline st"] inv_live [of epoch st]
    start_next_inv [of epoch "cancel_deadline st" SS_connecting WSS_connect Sa_connect] early_base [of epoch st]
  by (simp add: on_resolve_def Let_def early_states_def)

lemma on_connect_inv:
  assumes "session_inv epoch st"
  shows "session_inv epoch (on_connect e sni st)"
proof (cases "ss_state st = SS_connecting \<and> \<not> is_error e \<and> sni = None")
  case True
  then have "session_inv epoch (may_throw (\<lambda>st. start_limited SS_tls_handshaking WSS_tls_handshake Sa_tls_handshake
      (st\<lparr>ss_state := SS_tls_handshaking\<rparr>)) (cancel_deadline st))"
    using early_base [OF assms] by (intro may_throw_inv start_next_inv) (simp_all add: early_states_def)
  with True show ?thesis by (simp add: on_connect_def Let_def)
next
  case False
  with assms show ?thesis
    using finish_live [of epoch "cancel_deadline st"] inv_live [of epoch st]
    by (auto simp: on_connect_def Let_def split: option.splits)
qed

lemma on_tls_inv:
  assumes "session_inv epoch st"
  shows "session_inv epoch (on_tls_handshake e verified st)"
proof (cases "ss_state st = SS_tls_handshaking \<and> \<not> is_error e")
  case True
  then have "session_inv epoch (may_throw (\<lambda>st. start_limited SS_websocket_handshaking WSS_websocket_handshake
      (Sa_websocket_handshake (host_header (ss_endpoint st)) (we_target (ss_endpoint st)))
      (st\<lparr>ss_state := SS_websocket_handshaking\<rparr>)) (cancel_deadline st))"
    using early_base [OF assms] by (intro may_throw_inv start_next_inv) (simp_all add: early_states_def)
  with True show ?thesis by (simp add: on_tls_handshake_def Let_def)
next
  case False
  with assms show ?thesis
    using finish_live [of epoch "cancel_deadline st"] inv_live [of epoch st]
    by (auto simp: on_tls_handshake_def Let_def)
qed

lemma on_close_inv: "session_inv epoch st \<Longrightarrow> session_inv epoch (on_close e st)"
  using finish_live [of epoch "cancel_deadline st"] inv_live [of epoch st]
  by (auto simp: on_close_def Let_def)

lemma on_deadline_inv: "session_inv epoch st \<Longrightarrow> session_inv epoch (on_deadline s stage e timed_out st)"
  by (simp add: on_deadline_def session_finish_inv)

lemma read_next_inv: "session_inv epoch st \<Longrightarrow> session_inv epoch (read_next st)"
  by (simp add: read_next_def issue_read_inv)

lemma cleared_inv [simp]: "session_inv epoch (clear_read_buffer st) = session_inv epoch st"
  by (simp add: session_inv_def base_inv_def clear_read_buffer_def all_callbacks_def)

lemma session_opened_inv:
  assumes "session_inv epoch st" and "ss_state st = SS_websocket_handshaking"
  shows "session_inv epoch (emit Sa_open ((cancel_deadline st)\<lparr>ss_state := SS_open\<rparr>))"
  using assms by (simp add: session_inv_def base_inv_def emit_def cancel_deadline_def follow_all_snoc all_callbacks_def early_states_def)

lemma on_websocket_inv: "session_inv epoch st \<Longrightarrow> session_inv epoch (on_websocket_handshake e cb st)"
proof (cases "ss_state st = SS_websocket_handshaking \<and> \<not> is_error e")
  case True
  assume inv: "session_inv epoch st"
  then have "ss_on_open st" using True by (simp add: session_inv_def base_inv_def all_callbacks_def)
  moreover have "session_inv epoch (fold call_session (cb_calls cb) (emit Sa_open ((cancel_deadline st)\<lparr>ss_state := SS_open\<rparr>)))"
    using session_opened_inv [OF inv] True by (simp add: call_sessions_inv)
  ultimately show ?thesis using True
    by (simp add: on_websocket_handshake_def Let_def read_next_inv session_finish_inv cancel_deadline_def)
next
  case False
  assume "session_inv epoch st"
  with False show ?thesis
    using finish_live [of epoch "cancel_deadline st"] inv_live [of epoch st]
    by (auto simp: on_websocket_handshake_def Let_def)
qed

lemma flagged_inv [simp]:
  "session_inv epoch (st\<lparr>ss_in_control_callback := b\<rparr>) = session_inv epoch st"
  "session_inv epoch (st\<lparr>ss_control_callback_failed := b\<rparr>) = session_inv epoch st"
  by (simp_all add: session_inv_def base_inv_def all_callbacks_def)

lemma on_control_inv: "session_inv epoch st \<Longrightarrow> session_inv epoch (on_control_frame k cb st)"
proof (cases "k = None \<or> \<not> ss_on_control st")
  case False
  assume inv: "session_inv epoch st"
  obtain kind where k: "k = Some kind" using False by auto
  have "ss_state st \<noteq> SS_terminal" using inv False by (auto simp: session_inv_def base_inv_def)
  then have "session_inv epoch (emit (Sa_control kind) (st\<lparr>ss_in_control_callback := True\<rparr>))"
    using inv by (cases "ss_state st") (auto simp: session_inv_def base_inv_def emit_def follow_all_snoc all_callbacks_def early_states_def)
  from call_sessions_inv [OF this, of "cb_calls cb"] False k show ?thesis by (auto simp: on_control_frame_def Let_def)
qed (auto simp: on_control_frame_def split: option.splits)

lemma live_frame [simp]:
  "live_session epoch (st\<lparr>ss_read_in_progress := b\<rparr>) = live_session epoch st"
  "live_session epoch (st\<lparr>ss_read_buffer := s\<rparr>) = live_session epoch st"
  "live_session epoch (st\<lparr>ss_connection_sequence := n\<rparr>) = live_session epoch st"
  by (simp_all add: live_session_def all_callbacks_def)

lemma timestamp_valid: "capture_receive_timestamp elapsed = Some ts \<Longrightarrow> valid_timestamp ts"
  by (auto simp: capture_receive_timestamp_def Let_def valid_timestamp_def kNanosecondsPerSecond_def split: if_splits)

lemma deliver_message_inv:
  assumes inv: "session_inv epoch st" and open_st: "ss_state st = SS_open"
  shows "session_inv epoch (deliver_message got_text elapsed cb st)"
proof -
  let ?next = "st\<lparr>ss_connection_sequence := ss_connection_sequence st + 1\<rparr>"
  have live: "live_session epoch st" using inv_live [OF inv] open_st by simp
  note finish = finish_live [THEN conjunct1]
  show ?thesis
  proof (cases "ss_connection_sequence st \<noteq> u64_max \<and> got_text \<and> capture_receive_timestamp elapsed \<noteq> None")
    case True
    then obtain ts where ts: "capture_receive_timestamp elapsed = Some ts" by auto
    define m where "m = \<lparr>wm_receive_timestamp = ts, wm_connection_epoch = ss_connection_epoch st,
      wm_connection_sequence = ss_connection_sequence st + 1, wm_payload_data = Some (ss_read_buffer st),
      wm_payload_size = length (ss_read_buffer st)\<rparr>"
    have "session_inv epoch (emit (Sa_text m) ?next)"
      using inv open_st True timestamp_valid [OF ts]
      by (simp add: session_inv_def base_inv_def emit_def follow_all_snoc all_callbacks_def early_states_def m_def)
    note called = call_sessions_inv [OF this, of "cb_calls cb"]
    have "ss_on_text_message st" using inv open_st by (simp add: session_inv_def base_inv_def all_callbacks_def)
    with True ts called show ?thesis
      by (simp add: deliver_message_def Let_def m_def session_finish_inv read_next_inv)
  next
    case False
    with live show ?thesis by (auto simp: deliver_message_def Let_def intro!: finish split: option.splits)
  qed
qed

lemma on_read_inv: "session_inv epoch st \<Longrightarrow> session_inv epoch (on_read e n buffer ia got_text elapsed cb st)"
proof (cases "ss_read_in_progress st \<and> ss_state st = SS_open")
  case True
  let ?st = "st\<lparr>ss_read_in_progress := False, ss_read_buffer := buffer\<rparr>"
  assume inv: "session_inv epoch st"
  have st: "session_inv epoch ?st" using inv True by (simp add: session_inv_def base_inv_def all_callbacks_def early_states_def)
  have live: "live_session epoch ?st" using inv_live [OF st] True by simp
  have "session_inv epoch (read_error e ?st)" using st by (simp add: read_error_def Let_def session_finish_inv)
  with deliver_message_inv [OF st] session_finish_inv [of epoch "clear_read_buffer ?st"] st True show ?thesis
    by (simp add: on_read_def Let_def)
next
  case False
  assume inv: "session_inv epoch st"
  have "session_inv epoch (st\<lparr>ss_read_in_progress := False, ss_read_buffer := buffer\<rparr>)"
    using inv by (auto simp: session_inv_def base_inv_def all_callbacks_def)
  with inv False show ?thesis by (auto simp: on_read_def Let_def)
qed

lemma session_step_inv: "session_inv epoch st \<Longrightarrow> session_inv epoch (session_step ev st)"
  by (cases ev) (simp_all add: call_session_inv on_resolve_inv on_connect_inv on_tls_inv on_websocket_inv on_read_inv on_control_inv on_close_inv on_deadline_inv)

lemma run_inv_session: "session_inv epoch st \<Longrightarrow> session_inv epoch (session_run events st)"
  unfolding session_run_def by (induction events arbitrary: st) (simp_all add: session_step_inv)

lemma created_session_inv:
  assumes "create_websocket_session cf construction endpoint (True, True, True, True) epoch throws = Inr st"
  shows "session_inv epoch st"
  using assms
  by (auto simp: create_websocket_session_def Let_def session_inv_def base_inv_def all_callbacks_def early_states_def
      split: session_construction.splits if_splits)

section \<open>Reading goes on\<close>

text \<open>Between handlers an open session that is not paused has a read outstanding.\<close>

definition reading :: "SessionImpl \<Rightarrow> bool" where
  "reading st \<longleftrightarrow> (ss_state st = SS_open \<and> \<not> ss_reads_paused st \<longrightarrow> ss_read_in_progress st)"

lemma reading_frame [simp]: "reading (st\<lparr>ss_throws := ts\<rparr>) = reading st" "reading (st\<lparr>ss_start_failed := b\<rparr>) = reading st"
  "reading (emit a st) = reading st" "reading (arm_deadline s stage st) = reading st"
  by (simp_all add: reading_def emit_def arm_deadline_def)

lemma may_throw_reading: "reading st \<Longrightarrow> (\<And>ts. reading (rest (st\<lparr>ss_throws := ts\<rparr>))) \<Longrightarrow> reading (may_throw rest st)"
  by (auto simp: may_throw_def reading_def)

lemma start_reading [simp]: "reading (start_operation a st) = reading st" "reading (start_limited s stage a st) = reading st"
  by (simp_all add: start_limited_def start_operation_def may_throw_def)

lemma reading_next [simp]: "reading (read_next st)"
  by (simp add: read_next_def issue_read_def) (simp add: reading_def)

lemma reading_finish [simp]: "reading (session_finish r st)"
  by (simp add: reading_def)

lemma reading_state [simp]: "s \<noteq> SS_open \<Longrightarrow> reading (st\<lparr>ss_state := s\<rparr>)"
  by (simp add: reading_def)

lemma reading_call: "reading st \<Longrightarrow> reading (call_session c st)"
  by (cases c) (simp_all add: session_start_def session_stop_def pause_reads_def resume_reads_def issue_read_def Let_def,
      simp_all add: reading_def)

lemma reading_calls: "reading st \<Longrightarrow> reading (fold call_session cs st)"
  by (induction cs arbitrary: st) (simp_all add: reading_call)

lemma reading_cancel [simp]: "reading (cancel_deadline st) = reading st"
  by (simp add: reading_def cancel_deadline_def)

lemma reading_connect: "reading st \<Longrightarrow> reading (on_connect e sni st)"
  by (auto simp: on_connect_def Let_def split: option.splits intro!: may_throw_reading)

lemma reading_tls: "reading st \<Longrightarrow> reading (on_tls_handshake e verified st)"
  by (auto simp: on_tls_handshake_def Let_def intro!: may_throw_reading)

lemma reading_read: "reading st \<Longrightarrow> reading (on_read e n buffer ia got_text elapsed cb st)"
proof (cases "ss_read_in_progress st \<and> ss_state st \<noteq> SS_open")
  case True
  then show ?thesis by (simp add: on_read_def Let_def) (simp add: reading_def clear_read_buffer_def)
next
  case False
  assume "reading st"
  with False show ?thesis
    by (cases "capture_receive_timestamp elapsed") (simp_all add: on_read_def read_error_def deliver_message_def Let_def)
qed

lemma reading_step: "reading st \<Longrightarrow> reading (session_step ev st)"
proof (cases ev)
  case (Se_control k cb)
  assume "reading st"
  then have "reading (emit (Sa_control kind) (st\<lparr>ss_in_control_callback := True\<rparr>))" for kind
    by (simp add: reading_def emit_def)
  from reading_calls [OF this] \<open>reading st\<close> Se_control show ?thesis
    by (auto simp: on_control_frame_def Let_def reading_def split: option.splits)
qed (auto simp: reading_call reading_connect reading_tls reading_read on_resolve_def on_websocket_handshake_def on_close_def
      on_deadline_def Let_def)

section \<open>What the owner relies on\<close>

text \<open>The sequence of the last message delivered.\<close>

fun action_sequence :: "u64 \<Rightarrow> session_action \<Rightarrow> u64" where
  "action_sequence n (Sa_text m) = wm_connection_sequence m"
| "action_sequence n _ = n"

definition last_delivered :: "session_action list \<Rightarrow> u64" where
  "last_delivered tr = foldl action_sequence 0 tr"

lemma follow_last:
  "follow_all epoch Before_open tr = Some (Opened n) \<Longrightarrow> n = last_delivered tr"
  "follow_all epoch Before_open tr = Some Before_open \<Longrightarrow> last_delivered tr = 0"
proof (induction tr arbitrary: n rule: rev_induct)
  case (snoc a tr)
  {
    case 1
    then obtain q where q: "follow_all epoch Before_open tr = Some q" "follow epoch q a = Some (Opened n)"
      by (auto simp: follow_all_snoc split: bind_splits)
    with snoc show ?case
      by (cases q; cases a) (auto simp: last_delivered_def split: if_splits)
  next
    case 2
    then obtain q where q: "follow_all epoch Before_open tr = Some q" "follow epoch q a = Some Before_open"
      by (auto simp: follow_all_snoc split: bind_splits)
    with snoc show ?case
      by (cases q; cases a) (auto simp: last_delivered_def split: if_splits)
  }
qed (simp_all add: last_delivered_def)

lemma follow_all_append:
  "follow_all epoch p (tr @ tr') = Option.bind (follow_all epoch p tr) (\<lambda>q. follow_all epoch q tr')"
  by (induction tr arbitrary: p) (auto split: option.splits bind_splits)

text \<open>A message of a run satisfies what the capture controller expects of its session.\<close>

lemma delivered_message:
  assumes "follow_all epoch Before_open (before @ Sa_text m # later) \<noteq> None"
    and "sh_epoch h = epoch" and "sh_last_sequence h = last_delivered before"
  shows "message_from h m"
proof -
  obtain q where q: "follow_all epoch Before_open before = Some q" "follow epoch q (Sa_text m) \<noteq> None"
    using assms(1) by (auto simp: follow_all_append split: option.splits bind_splits)
  then obtain n where n: "q = Opened n" by (cases q) auto
  with q have "n \<noteq> u64_max" "wm_connection_sequence m = n + 1" "wm_connection_epoch m = epoch"
    "valid_timestamp (wm_receive_timestamp m)" by (auto split: if_splits)
  moreover have "n = last_delivered before" using follow_last(1) q(1) n by blast
  moreover have "n < n + 1" using \<open>n \<noteq> u64_max\<close> by (rule u64_succ_gt)
  ultimately show ?thesis using assms(2,3)
    by (simp add: message_from_def valid_timestamp_def)
qed

section \<open>Properties\<close>

text \<open>
  C39: every run of a session follows the contract with its owner: for every order of completions,
  time-outs and calls, with any errors, it reports its opening at most once and before any message,
  delivers messages with its epoch, the sequences 1, 2, 3, ... and valid time stamps, starts at most one
  end, reports it exactly when it has ended, and does nothing after that.  So every message passes the
  check that the runs of the capture controller assume of its session.
\<close>

theorem session_refines_contract:
  assumes "create_websocket_session cf construction endpoint (True, True, True, True) epoch throws = Inr st"
  shows "\<exists>p. follow_all epoch Before_open (ss_trace (session_run events st)) = Some p \<and>
    (p = Ended \<longleftrightarrow> ss_terminal_flag (session_run events st)) \<and>
    (\<forall>n. p = Opened n \<longrightarrow> n = ss_connection_sequence (session_run events st)) \<and>
    (\<forall>before m later h. ss_trace (session_run events st) = before @ Sa_text m # later \<and> sh_epoch h = epoch \<and>
       sh_last_sequence h = last_delivered before \<longrightarrow> message_from h m)"
proof -
  let ?s = "session_run events st"
  have inv: "session_inv epoch ?s" by (rule run_inv_session [OF created_session_inv [OF assms]])
  then have "follow_all epoch Before_open (ss_trace ?s) = Some (state_phase (ss_state ?s) (ss_connection_sequence ?s))"
    "ss_terminal_flag ?s \<longleftrightarrow> state_phase (ss_state ?s) (ss_connection_sequence ?s) = Ended"
    by (cases "ss_state ?s"; simp add: session_inv_def base_inv_def)+
  moreover have "state_phase (ss_state ?s) (ss_connection_sequence ?s) = Opened n \<longrightarrow> n = ss_connection_sequence ?s" for n
    by (cases "ss_state ?s") auto
  ultimately show ?thesis using delivered_message [of epoch] by (metis option.distinct(1))
qed

text \<open>
  C40: a session cannot hang.  After every run in which no call that starts an operation has thrown it is
  idle, open or ended, or the timer waits for its current phase and its expiry ends the session; and
  while it is open and reading is not paused, a read is outstanding.
\<close>

theorem session_never_stuck:
  assumes "create_websocket_session cf construction endpoint (True, True, True, True) epoch throws = Inr st"
    and "\<not> ss_start_failed (session_run events st)"
  shows "(ss_state (session_run events st) \<in> {SS_idle, SS_open, SS_terminal} \<or>
      (\<exists>stage. ss_deadline (session_run events st) = Some (ss_state (session_run events st), stage) \<and>
        ss_terminal_flag (session_run (events @ [Se_deadline (ss_state (session_run events st)) stage
          \<lparr>ae_kind = Kind_no_error, ae_value = 0\<rparr> timed_out]) st))) \<and>
    (ss_state (session_run events st) = SS_open \<and> \<not> ss_reads_paused (session_run events st) \<longrightarrow>
      ss_read_in_progress (session_run events st))"
proof
  let ?s = "session_run events st"
  have inv: "session_inv epoch ?s" by (rule run_inv_session [OF created_session_inv [OF assms(1)]])
  show "ss_state ?s \<in> {SS_idle, SS_open, SS_terminal} \<or> (\<exists>stage. ss_deadline ?s = Some (ss_state ?s, stage) \<and>
      ss_terminal_flag (session_run (events @ [Se_deadline (ss_state ?s) stage \<lparr>ae_kind = Kind_no_error, ae_value = 0\<rparr> timed_out]) st))"
  proof (cases "limited_stage (ss_state ?s)")
    case None
    then show ?thesis by (cases "ss_state ?s") auto
  next
    case (Some stage)
    let ?step = "Se_deadline (ss_state ?s) stage \<lparr>ae_kind = Kind_no_error, ae_value = 0\<rparr> timed_out"
    have "ss_state ?s \<noteq> SS_terminal" using Some by auto
    then have "ss_state (session_step ?step ?s) = SS_terminal" by (simp add: on_deadline_def)
    with session_step_inv [OF inv, of ?step] have "ss_terminal_flag (session_step ?step ?s)" by (simp only: session_inv_def base_inv_def)
    moreover have "session_run (events @ [?step]) st = session_step ?step ?s" by (simp add: session_run_def)
    ultimately show ?thesis using inv Some assms(2) by (simp add: session_inv_def base_inv_def)
  qed
  have "reading st" using assms(1)
    by (auto simp: create_websocket_session_def Let_def reading_def split: session_construction.splits if_splits)
  then have "reading ?s" unfolding session_run_def by (induction events arbitrary: st) (simp_all add: reading_step)
  then show "ss_state ?s = SS_open \<and> \<not> ss_reads_paused ?s \<longrightarrow> ss_read_in_progress ?s" by (simp add: reading_def)
qed

section \<open>A sample session\<close>

definition ok_error :: AsioError where "ok_error = \<lparr>ae_kind = Kind_no_error, ae_value = 0\<rparr>"

definition no_calls :: CallbackBehaviour where "no_calls = \<lparr>cb_calls = [], cb_throws = False\<rparr>"

definition sample_endpoint :: VerifiedWebSocketEndpoint where
  "sample_endpoint = test_websocket_endpoint ''localhost'' ''9443'' ''localhost'' ''/stream'' ''ca.pem''"

definition sample_session :: SessionImpl where
  "sample_session = projr (create_websocket_session
     \<lparr>cf_invalid_argument = 22, cf_set_options = ok_error, cf_verify_mode = ok_error, cf_min_version_set = True,
      cf_openssl_error = 0, cf_trust_store = ok_error\<rparr> Session_constructed sample_endpoint (True, True, True, True) 7 [])"

lemma sample_session_created:
  "create_websocket_session
     \<lparr>cf_invalid_argument = 22, cf_set_options = ok_error, cf_verify_mode = ok_error, cf_min_version_set = True,
      cf_openssl_error = 0, cf_trust_store = ok_error\<rparr> Session_constructed sample_endpoint (True, True, True, True) 7 [] =
   Inr sample_session"
proof -
  have "\<not> isl (create_websocket_session
     \<lparr>cf_invalid_argument = 22, cf_set_options = ok_error, cf_verify_mode = ok_error, cf_min_version_set = True,
      cf_openssl_error = 0, cf_trust_store = ok_error\<rparr> Session_constructed sample_endpoint (True, True, True, True) 7 [])"
    by code_simp
  then show ?thesis by (simp add: sample_session_def)
qed

text \<open>Connect, receive two messages, the second one pausing, and be stopped.\<close>

definition sample_session_events :: "session_event list" where
  "sample_session_events =
     [Se_call Call_start, Se_resolved ok_error, Se_connected ok_error None, Se_tls ok_error True,
      Se_websocket ok_error no_calls, Se_read ok_error 2 ''{}'' 22 True 1500000000 no_calls,
      Se_read ok_error 2 ''{}'' 22 True 2500000000 \<lparr>cb_calls = [Call_pause_reads], cb_throws = False\<rparr>,
      Se_call (Call_stop 125)]"

lemma sample_session_state:
  "ss_state (session_run sample_session_events sample_session) = SS_closing"
  "last_delivered (ss_trace (session_run sample_session_events sample_session)) = 2"
  "\<not> ss_start_failed (session_run sample_session_events sample_session)"
  by code_simp+

theorem session_refines_contract_witness:
  "\<exists>p. follow_all 7 Before_open (ss_trace (session_run sample_session_events sample_session)) = Some p \<and>
     \<not> ss_terminal_flag (session_run sample_session_events sample_session) \<and> p \<noteq> Ended \<and>
     last_delivered (ss_trace (session_run sample_session_events sample_session)) = 2"
proof -
  have "\<not> ss_terminal_flag (session_run sample_session_events sample_session)" by code_simp
  with session_refines_contract [OF sample_session_created, of sample_session_events] sample_session_state(2)
  show ?thesis by blast
qed

theorem session_never_stuck_witness:
  "\<exists>stage. ss_deadline (session_run sample_session_events sample_session) = Some (SS_closing, stage) \<and>
     ss_terminal_flag (session_run (sample_session_events @ [Se_deadline SS_closing stage
       \<lparr>ae_kind = Kind_no_error, ae_value = 0\<rparr> 110]) sample_session)"
  using session_never_stuck [OF sample_session_created, of sample_session_events 110] sample_session_state by simp

end
