(* ===== verification/Csv_Writer_Queue.thy ===== *)
theory Csv_Writer_Queue
  imports Csv_Writer
begin

unbundle bit_operations_syntax

text \<open>
  The queue of the writer thread as a protocol between two threads.  The invariants say where the
  producer and the consumer can be, what the counters are in terms of the batches published so far, and
  which slots hold which batches; each is preserved by every step of either thread.
\<close>

section \<open>Where the threads are\<close>

fun active :: "producer_pc \<Rightarrow> bool" where
  "active (Publish_failed_load _) = True" | "active (Publish_bytes_load _) = True" | "active (Publish_reject _) = True"
| "active Publish_occupancy_slots = True" | "active (Publish_occupancy_bytes _) = True"
| "active (Publish_occupancy_overflow _ _) = True" | "active Publish_bytes_store = True"
| "active Publish_sequence_store = True" | "active Publish_active_clear = True" | "active _ = False"

text \<open>Between the producer's own bookkeeping of a publication and its last store.\<close>

fun committing :: "producer_pc \<Rightarrow> bool" where
  "committing Publish_occupancy_slots = True" | "committing (Publish_occupancy_bytes _) = True"
| "committing (Publish_occupancy_overflow _ _) = True" | "committing Publish_bytes_store = True"
| "committing Publish_sequence_store = True" | "committing _ = False"

text \<open>Past the test of \<open>writer_failed\<close>, with the publication still to be seen.\<close>

fun passed :: "producer_pc \<Rightarrow> bool" where
  "passed (Publish_bytes_load _) = True" | "passed pc = committing pc"

fun testing :: "producer_pc \<Rightarrow> bool" where
  "testing (Publish_failed_load _) = True" | "testing _ = False"

fun owning :: "producer_pc \<Rightarrow> bool" where
  "owning (Publish_failed_load _) = True" | "owning (Publish_bytes_load _) = True"
| "owning (Publish_reject _) = True" | "owning _ = False"

fun free_handed :: "producer_pc \<Rightarrow> bool" where
  "free_handed Acquire_failed_load = True" | "free_handed Acquire_released_load = True"
| "free_handed Publish_active_clear = True" | "free_handed pc = committing pc"

fun releasing :: "consumer_pc \<Rightarrow> bool" where
  "releasing (Release_overflow_store _) = True" | "releasing (Release_sequence_store _) = True" | "releasing _ = False"

fun returning :: "consumer_pc \<Rightarrow> release_return option" where
  "returning (Release_overflow_store ret) = Some ret" | "returning (Release_sequence_store ret) = Some ret"
| "returning (Resume_sequence_load ret) = Some ret" | "returning (Resume_bytes_load ret _) = Some ret"
| "returning (Resume_exchange ret) = Some ret" | "returning _ = None"

fun latching :: "consumer_pc \<Rightarrow> latch_return option" where
  "latching (Latch_failed_store _ ret) = Some ret" | "latching (Latch_notify ret) = Some ret"
| "latching (Latch_wait ret) = Some ret" | "latching _ = None"

fun handshaking :: "consumer_pc \<Rightarrow> bool" where
  "handshaking (Latch_notify _) = True" | "handshaking (Latch_wait _) = True" | "handshaking _ = False"

fun is_discard :: "release_return option \<Rightarrow> bool" where
  "is_discard (Some (After_discard _)) = True" | "is_discard _ = False"

fun discarding :: "consumer_pc \<Rightarrow> bool" where
  "discarding Discard_load = True" | "discarding (Discard_drain _) = True" | "discarding pc = is_discard (returning pc)"

fun finalizing :: "consumer_pc \<Rightarrow> bool" where
  "finalizing Run_close_all = True" | "finalizing Run_collect = True" | "finalizing Run_finished = True"
| "finalizing pc = (latching pc = Some Latch_in_close)"

lemma after_release_at [simp]:
  "\<not> handshaking (after_release ret)" "after_release ret \<noteq> Run_close_sequence_load" "\<not> finalizing (after_release ret)"
  "discarding (after_release ret) \<longleftrightarrow> is_discard (Some ret)"
  by (cases ret; simp)+

lemma after_latch_at [simp]:
  "\<not> handshaking (after_latch ret)" "after_latch ret \<noteq> Run_close_sequence_load"
  "finalizing (after_latch ret) \<longleftrightarrow> ret = Latch_in_close" "discarding (after_latch ret) \<longleftrightarrow> ret = Latch_in_flush"
  by (cases ret; simp)+

lemma discarding_quiet: "discarding pc \<Longrightarrow> \<not> handshaking pc"
  by (cases pc) simp_all

section \<open>The handshakes\<close>

definition hand_inv :: "WriterImpl \<Rightarrow> bool" where
  "hand_inv w \<longleftrightarrow>
     (publish_active w \<longleftrightarrow> active (producer_at w)) \<and>
     (owning (producer_at w) \<longrightarrow> slot_acquired w) \<and> (free_handed (producer_at w) \<longrightarrow> \<not> slot_acquired w) \<and>
     (close_requested w \<longrightarrow> \<not> passed (producer_at w) \<and> \<not> testing (producer_at w)) \<and>
     (writer_failed w \<longrightarrow> \<not> handshaking (consumer_at w) \<longrightarrow> \<not> passed (producer_at w)) \<and>
     (handshaking (consumer_at w) \<longrightarrow> writer_failed w) \<and>
     (consumer_at w = Run_close_sequence_load \<longrightarrow> close_requested w) \<and>
     (discarding (consumer_at w) \<longrightarrow> writer_failed w) \<and>
     (finalizing (consumer_at w) \<longrightarrow> close_requested w \<or> writer_failed w \<and> \<not> passed (producer_at w))"

lemmas writer_ops = acquire_returns_def publish_returns_def try_acquire_def try_acquire_failed_def
  fill_slot_def release_acquired_def writer_cancel_def writer_close_def publish_def publish_reject_def publish_failed_def
  publish_commit_def publish_high_water_def arm_resume_notification_def arm_exchange_def set_producer_slot_def
  release_slot_def run_drain_def latch_failed_def latch_notify_def run_age_def run_close_def run_collect_def

text \<open>A publication either is rejected or is committed with all its checks passed.\<close>

lemma publish_commit_cases:
  obtains (rejected) e where "publish_commit t w = (Ev_none, w\<lparr>producer_at := Publish_reject e\<rparr>)"
  | (committed) b ov m next_overflow where "b = slot_batch (producer_slot w)"
      "publish_commit t w = (Ev_commit t b,
         (set_producer_slot \<lparr>slot_batch = b, slot_target_index = t, slot_logical_bytes = batch_bytes b,
            slot_overflow_capacity_bytes = ov\<rparr> w)
           \<lparr>producer_sequence := producer_sequence w + 1, producer_bytes := producer_bytes w + batch_bytes b,
            producer_overflow_bytes := next_overflow, slot_acquired := False,
            w_metrics := count_publication b (batch_bytes b) m (w_metrics w), producer_at := Publish_occupancy_slots\<rparr>)"
      "batch_bytes b \<le> kCsvWriterByteCapacity"
      "producer_bytes w - bytes_released w \<le> kCsvWriterByteCapacity - batch_bytes b"
      "1 \<le> - 1 - producer_sequence w" "batch_bytes b \<le> - 1 - producer_bytes w"
proof -
  define b where "b = slot_batch (producer_slot w)"
  define ov :: u64 where "ov = of_nat (excess_capacity (audit_row b)) + of_nat (excess_capacity (order_book_row_buffer b))"
  note c = publish_commit_def [of t w, folded b_def, unfolded Let_def, folded ov_def] checked_add_u64_def
  consider (full) "batch_bytes b > kCsvWriterByteCapacity \<or>
        producer_bytes w - bytes_released w > kCsvWriterByteCapacity - batch_bytes b"
    | (overflow) "\<not> (batch_bytes b > kCsvWriterByteCapacity \<or>
        producer_bytes w - bytes_released w > kCsvWriterByteCapacity - batch_bytes b)"
        "1 > - 1 - producer_sequence w \<or> batch_bytes b > - 1 - producer_bytes w \<or>
         ov > - 1 - wm_overflow_capacity_bytes (w_metrics w) \<or> ov > - 1 - producer_overflow_bytes w"
    | (fits) "\<not> (batch_bytes b > kCsvWriterByteCapacity \<or>
        producer_bytes w - bytes_released w > kCsvWriterByteCapacity - batch_bytes b)"
        "\<not> 1 > - 1 - producer_sequence w" "\<not> batch_bytes b > - 1 - producer_bytes w"
        "\<not> ov > - 1 - wm_overflow_capacity_bytes (w_metrics w)" "\<not> ov > - 1 - producer_overflow_bytes w"
    by blast
  then show thesis
  proof cases
    case full
    then have "publish_commit t w = (Ev_none, w\<lparr>producer_at := Publish_reject WPE_byte_capacity\<rparr>)" by (simp only: c if_True)
    then show thesis by (rule rejected)
  next
    case overflow
    then have "publish_commit t w = (Ev_none, w\<lparr>producer_at := Publish_reject WPE_counter_overflow\<rparr>)"
      by (simp only: c if_False) (simp split: option.splits, blast)
    then show thesis by (rule rejected)
  next
    case fits
    show thesis
    proof (rule committed [of b "wm_overflow_capacity_bytes (w_metrics w) + ov" "producer_overflow_bytes w + ov" ov])
      show "publish_commit t w = (Ev_commit t b,
         (set_producer_slot \<lparr>slot_batch = b, slot_target_index = t, slot_logical_bytes = batch_bytes b,
            slot_overflow_capacity_bytes = ov\<rparr> w)
           \<lparr>producer_sequence := producer_sequence w + 1, producer_bytes := producer_bytes w + batch_bytes b,
            producer_overflow_bytes := producer_overflow_bytes w + ov, slot_acquired := False,
            w_metrics := count_publication b (batch_bytes b) (wm_overflow_capacity_bytes (w_metrics w) + ov) (w_metrics w),
            producer_at := Publish_occupancy_slots\<rparr>)"
        using fits by (simp only: c if_False option.case)
    qed (use fits in \<open>simp_all only: b_def not_less de_Morgan_disj\<close>)
  qed
qed

lemma try_acquire_released_fields:
  "publish_active (try_acquire_released w) = publish_active w" "close_requested (try_acquire_released w) = close_requested w"
  "writer_failed (try_acquire_released w) = writer_failed w" "producer_at (try_acquire_released w) = Prod_idle"
  "consumer_at (try_acquire_released w) = consumer_at w"
  by (simp_all add: try_acquire_released_def acquire_returns_def set_producer_slot_def)

lemma hand_inv_call:
  "hand_inv w \<Longrightarrow> producer_at w = Prod_idle \<Longrightarrow> hand_inv (start_call al_a al_b c w)"
  by (cases c) (simp_all add: hand_inv_def writer_ops, blast+)

lemma hand_inv_producer: "hand_inv w \<Longrightarrow> hand_inv (snd (producer_step al_a al_b (producer_at w) w))"
proof (cases "producer_at w")
  case (Publish_bytes_load t)
  assume "hand_inv w"
  then show ?thesis
    using Publish_bytes_load
    by (cases rule: publish_commit_cases [of t w]) (simp_all add: hand_inv_def set_producer_slot_def, blast+)
qed (simp_all add: hand_inv_def writer_ops try_acquire_released_fields Let_def, blast+)

lemma committing_passed: "committing pc \<Longrightarrow> passed pc"
  by (cases pc) simp_all

lemma passed_active: "passed pc \<Longrightarrow> active pc"
  by (cases pc) simp_all

lemma hand_inv_consumer: "hand_inv w \<Longrightarrow> hand_inv (snd (consumer_step al_a al_b due (consumer_at w) w))"
  using passed_active [of "producer_at w"]
  by (cases "consumer_at w") (simp_all add: hand_inv_def writer_ops Let_def split: prod.splits, blast+)

section \<open>The counters\<close>

definition row_bytes :: "nat \<times> EventRowBatch \<Rightarrow> nat" where
  "row_bytes entry = length (crb_view (audit_row (snd entry))) + length (crb_view (order_book_row_buffer (snd entry)))"

definition log_bytes :: "batch_log \<Rightarrow> nat" where
  "log_bytes log = sum_list (map row_bytes log)"

fun returned :: "release_return \<Rightarrow> u64" where
  "returned (After_write p _) = p" | "returned (After_discard p) = p"

text \<open>The value of \<open>published_sequence\<close> that bounds the consumer's present loop.\<close>

fun loaded :: "consumer_pc \<Rightarrow> u64 option" where
  "loaded (Run_drain p) = Some p" | "loaded (Discard_drain p) = Some p"
| "loaded (Latch_failed_store _ (Latch_in_write p)) = Some p" | "loaded (Latch_notify (Latch_in_write p)) = Some p"
| "loaded (Latch_wait (Latch_in_write p)) = Some p"
| "loaded pc = map_option returned (returning pc)"

definition count_inv :: "batch_log \<Rightarrow> WriterImpl \<Rightarrow> bool" where
  "count_inv log w \<longleftrightarrow>
     unat (producer_sequence w) = length log \<and> unat (producer_bytes w) = log_bytes log \<and>
     unat (published_sequence w) + of_bool (committing (producer_at w)) = length log \<and>
     unat (consumer_sequence w) \<le> unat (published_sequence w) \<and>
     unat (consumer_bytes w) = log_bytes (take (unat (consumer_sequence w)) log) \<and> bytes_released w = consumer_bytes w \<and>
     unat (released_sequence w) + of_bool (releasing (consumer_at w)) = unat (consumer_sequence w) \<and>
     (\<forall>p. loaded (consumer_at w) = Some p \<longrightarrow> consumer_sequence w \<le> p \<and> p \<le> published_sequence w) \<and>
     length log \<le> unat (released_sequence w) + 4096 \<and>
     (slot_acquired w \<longrightarrow> length log < unat (released_sequence w) + 4096) \<and>
     log_bytes log \<le> log_bytes (take (unat (consumer_sequence w)) log) + 67108864 \<and>
     (\<forall>p. discarding (consumer_at w) \<longrightarrow> loaded (consumer_at w) = Some p \<longrightarrow> unat p = length log) \<and>
     (finalizing (consumer_at w) \<longrightarrow> unat (consumer_sequence w) = length log)"

text \<open>Each slot between consumer and producer holds its batch, the acquired slot a batch of bounded size.\<close>

definition holds :: "WriterSlot \<Rightarrow> nat \<times> EventRowBatch \<Rightarrow> bool" where
  "holds slot entry \<longleftrightarrow> slot_target_index slot = fst entry \<and> slot_batch slot = snd entry \<and>
     slot_logical_bytes slot = batch_bytes (snd entry)"

definition fit_entry :: "nat \<Rightarrow> CsvOutputMode \<Rightarrow> nat \<times> EventRowBatch \<Rightarrow> bool" where
  "fit_entry targets mode entry \<longleftrightarrow> fst entry < targets \<and> valid_batch (snd entry) mode \<and> record_sized (snd entry)"

definition slots_inv :: "batch_log \<Rightarrow> WriterImpl \<Rightarrow> bool" where
  "slots_inv log w \<longleftrightarrow>
     (\<forall>k. unat (consumer_sequence w) \<le> k \<and> k < length log \<longrightarrow> holds (w_slots w (k mod 4096)) (log ! k)) \<and>
     list_all (fit_entry (out_target_count (w_output w)) (out_mode (w_output w))) log \<and>
     (slot_acquired w \<longrightarrow> record_sized (slot_batch (producer_slot w))) \<and>
     (\<forall>t. producer_at w = Publish_bytes_load t \<longrightarrow>
        fit_entry (out_target_count (w_output w)) (out_mode (w_output w)) (t, slot_batch (producer_slot w)))"

lemma slot_index_mod: "slot_index s = unat s mod 4096"
proof -
  have "s AND kSlotMask = take_bit 12 s"
    by (simp add: kSlotMask_def kCsvWriterSlotCount_def take_bit_eq_mask mask_eq_exp_minus_1)
  then show ?thesis by (simp add: slot_index_def take_bit_eq_mod unat_mod)
qed

lemma ring_distinct: "k < n \<Longrightarrow> n < k + 4096 \<Longrightarrow> k mod 4096 \<noteq> n mod (4096 :: nat)"
proof
  assume "k < n" "n < k + 4096" "k mod 4096 = n mod 4096"
  then have "4096 dvd n - k" by (metis mod_eq_dvd_iff_nat less_imp_le)
  then show False using \<open>k < n\<close> \<open>n < k + 4096\<close> by (auto dest: dvd_imp_le)
qed

lemma batch_bytes_unat: "record_sized b \<Longrightarrow> unat (batch_bytes b) = row_bytes (t, b)"
  by (simp add: record_sized_def batch_bytes_def row_bytes_def kMaxCsvRecordBytes_def unat_word_ariths unat_of_nat)

lemma log_bytes_snoc [simp]: "log_bytes (log @ [e]) = log_bytes log + row_bytes e"
  by (simp add: log_bytes_def)

lemma count_inv_call:
  "count_inv log w \<Longrightarrow> producer_at w = Prod_idle \<Longrightarrow> count_inv log (start_call al_a al_b c w)"
  by (cases c) (simp_all add: count_inv_def writer_ops)

lemma try_acquire_released_counts:
  "producer_sequence (try_acquire_released w) = producer_sequence w" "producer_bytes (try_acquire_released w) = producer_bytes w"
  "published_sequence (try_acquire_released w) = published_sequence w" "consumer_sequence (try_acquire_released w) = consumer_sequence w"
  "consumer_bytes (try_acquire_released w) = consumer_bytes w" "bytes_released (try_acquire_released w) = bytes_released w"
  "released_sequence (try_acquire_released w) = released_sequence w"
  by (simp_all add: try_acquire_released_def acquire_returns_def set_producer_slot_def)

lemma unat_bound: "unat (x :: u64) < 2 ^ 64"
  using unsigned_less [where 'a = nat, of x] by simp

lemma checked_add_exact:
  fixes x y :: u64
  assumes "y \<le> - 1 - x"
  shows "unat (x + y) = unat x + unat y"
proof -
  have "unat (- 1 - x) = unat (- 1 :: u64) - unat x" by (rule unat_sub) (rule word_n1_ge)
  moreover have "unat (- 1 :: u64) = 2 ^ 64 - 1" by (simp add: unsigned_minus_1_eq_mask mask_eq_exp_minus_1)
  ultimately have "unat x + unat y < 2 ^ 64"
    using assms unat_bound [of x] by (simp add: word_le_nat_alt)
  then show ?thesis by (simp add: unat_add_lem [THEN iffD1])
qed

lemma take_bytes_le: "log_bytes (take n log) \<le> log_bytes log"
proof -
  have "log_bytes log = log_bytes (take n log) + log_bytes (drop n log)"
    unfolding log_bytes_def by (metis append_take_drop_id map_append sum_list_append)
  then show ?thesis by simp
qed

lemma count_inv_commit:
  assumes inv: "hand_inv w" "count_inv log w" "slots_inv log w" and at: "producer_at w = Publish_bytes_load t"
    and fits: "b = slot_batch (producer_slot w)" "batch_bytes b \<le> kCsvWriterByteCapacity"
      "producer_bytes w - bytes_released w \<le> kCsvWriterByteCapacity - batch_bytes b"
      "1 \<le> - 1 - producer_sequence w" "batch_bytes b \<le> - 1 - producer_bytes w"
    and w': "producer_sequence w' = producer_sequence w + 1" "producer_bytes w' = producer_bytes w + batch_bytes b"
      "published_sequence w' = published_sequence w" "consumer_sequence w' = consumer_sequence w"
      "consumer_bytes w' = consumer_bytes w" "bytes_released w' = bytes_released w"
      "released_sequence w' = released_sequence w" "\<not> slot_acquired w'" "producer_at w' = Publish_occupancy_slots"
      "consumer_at w' = consumer_at w"
  shows "count_inv (log @ [(t, b)]) w'"
proof -
  have acq: "slot_acquired w" and d: "\<not> discarding (consumer_at w)" "\<not> finalizing (consumer_at w)"
    using inv(1) at discarding_quiet [of "consumer_at w"] by (auto simp: hand_inv_def)
  have sized: "record_sized b" using inv(3) acq fits(1) by (simp add: slots_inv_def)
  note bb = batch_bytes_unat [OF sized, of t]
  have le: "bytes_released w \<le> producer_bytes w"
    using inv(2) take_bytes_le by (simp add: count_inv_def word_le_nat_alt)
  have "unat (producer_bytes w - bytes_released w) = unat (producer_bytes w) - unat (bytes_released w)"
    using le by (rule unat_sub)
  moreover have "unat (kCsvWriterByteCapacity - batch_bytes b) = 67108864 - row_bytes (t, b)"
    using fits(2) by (simp add: unat_sub bb) (simp add: kCsvWriterByteCapacity_def)
  ultimately have "log_bytes log - log_bytes (take (unat (consumer_sequence w)) log) \<le> 67108864 - row_bytes (t, b)"
    "row_bytes (t, b) \<le> 67108864"
    using fits(2,3) inv(2) bb by (simp_all add: word_le_nat_alt count_inv_def kCsvWriterByteCapacity_def)
  then show ?thesis
    using inv(2) acq at d checked_add_exact [OF fits(4)] checked_add_exact [OF fits(5)] bb
    by (simp add: count_inv_def w')
qed

lemma after_release_loaded [simp]:
  "loaded (after_release ret) = Some (returned ret)" "\<not> releasing (after_release ret)"
  by (cases ret; simp)+

lemma after_latch_loaded [simp]:
  "loaded (after_latch ret) = (case ret of Latch_in_write p \<Rightarrow> Some p | _ \<Rightarrow> None)" "\<not> releasing (after_latch ret)"
  by (cases ret; simp)+

lemma loaded_latch [simp]:
  "loaded (Latch_failed_store e ret) = loaded (after_latch ret)" "loaded (Latch_notify ret) = loaded (after_latch ret)"
  "loaded (Latch_wait ret) = loaded (after_latch ret)"
  by (cases ret; simp)+

lemma count_inv_release:
  assumes inv: "count_inv log w" "slots_inv log w"
    and p: "consumer_sequence w < returned ret" "returned ret \<le> published_sequence w" "\<not> releasing (consumer_at w)"
      "is_discard (Some ret) \<longrightarrow> unat (returned ret) = length log"
  shows "count_inv log (release_slot al_a al_b ret w)"
proof -
  let ?c = "unat (consumer_sequence w)" and ?slot = "w_slots w (slot_index (consumer_sequence w))"
  have c: "?c < length log" "?c < unat (returned ret)" "unat (returned ret) \<le> unat (published_sequence w)"
    using inv(1) p(1,2) by (auto simp: count_inv_def word_less_nat_alt word_le_nat_alt)
  then have "holds ?slot (log ! ?c)" using inv(2) by (simp add: slots_inv_def slot_index_mod)
  moreover have "record_sized (snd (log ! ?c))"
    using inv(2) c(1) by (auto simp: slots_inv_def list_all_length fit_entry_def)
  ultimately have sb: "unat (slot_logical_bytes ?slot) = row_bytes (log ! ?c)"
    using batch_bytes_unat [of "snd (log ! ?c)" "fst (log ! ?c)"] by (simp add: holds_def)
  have tk: "log_bytes (take (Suc ?c) log) = log_bytes (take ?c log) + row_bytes (log ! ?c)"
    using c(1) by (simp add: take_Suc_conv_app_nth)
  have "log_bytes (take (Suc ?c) log) < 2 ^ 64"
    using take_bytes_le [of "Suc ?c" log] inv(1) unat_bound [of "producer_bytes w"] by (simp add: count_inv_def)
  then have bytes: "unat (consumer_bytes w + slot_logical_bytes ?slot) = log_bytes (take (Suc ?c) log)"
    using inv(1) sb tk by (simp add: count_inv_def unat_add_lem [THEN iffD1])
  have "Suc ?c < 2 ^ 64" using c unat_bound [of "returned ret"] by simp
  then have seq: "unat (consumer_sequence w + 1) = Suc ?c" by (simp add: unat_add_lem [THEN iffD1])
  show ?thesis
    using inv(1) p(3,4) c seq bytes tk
    by (cases ret)
      (auto simp: count_inv_def release_slot_def Let_def word_le_nat_alt split: prod.splits)
qed

text \<open>The log after a step: a commit appends its entry.\<close>

fun logged :: "batch_log \<Rightarrow> writer_event \<Rightarrow> batch_log" where
  "logged log (Ev_commit t b) = log @ [(t, b)]" | "logged log _ = log"

lemma count_inv_acquired:
  assumes "count_inv log w" "producer_at w = Acquire_released_load"
  shows "count_inv log (try_acquire_released w)"
proof (cases "producer_sequence w - released_sequence w \<ge> of_nat kCsvWriterSlotCount")
  case True
  then show ?thesis using assms by (simp add: try_acquire_released_def acquire_returns_def count_inv_def)
next
  case False
  have "released_sequence w \<le> producer_sequence w"
    using assms by (simp add: count_inv_def word_le_nat_alt)
  then have "unat (producer_sequence w) < unat (released_sequence w) + 4096"
    using False by (simp add: word_le_nat_alt unat_sub kCsvWriterSlotCount_def)
  then show ?thesis
    using assms False by (simp add: try_acquire_released_def acquire_returns_def set_producer_slot_def count_inv_def)
qed

lemma count_inv_producer:
  assumes inv: "hand_inv w" "count_inv log w" "slots_inv log w"
    and s: "producer_step al_a al_b (producer_at w) w = (ev, w')"
  shows "count_inv (logged log ev) w'"
proof -
  have "count_inv (logged log (fst (producer_step al_a al_b (producer_at w) w)))
      (snd (producer_step al_a al_b (producer_at w) w))"
  proof (cases "producer_at w")
    case (Publish_bytes_load t)
    then show ?thesis
    proof (cases rule: publish_commit_cases [of t w])
      case (rejected e)
      with Publish_bytes_load inv(2) show ?thesis by (simp add: count_inv_def)
    next
      case (committed b ov m n)
      let ?w = "snd (publish_commit t w)"
      have "count_inv (log @ [(t, b)]) ?w"
        by (rule count_inv_commit [OF inv Publish_bytes_load committed(1,3-6)])
          (simp_all add: committed(2) set_producer_slot_def)
      then show ?thesis using Publish_bytes_load committed(2) by simp
    qed
  next
    case Acquire_released_load
    then show ?thesis using count_inv_acquired [OF inv(2)] by simp
  next
    case Publish_sequence_store
    then show ?thesis using inv(1,2) by (force simp: count_inv_def hand_inv_def word_le_nat_alt)
  qed (use inv(1,2) in \<open>simp_all add: count_inv_def hand_inv_def writer_ops Let_def\<close>)
  then show ?thesis by (simp add: s)
qed

lemma count_inv_output [simp]: "count_inv log (w\<lparr>w_output := out\<rparr>) = count_inv log w"
  by (simp add: count_inv_def)

lemma release_slot_output: "release_slot al_a al_b ret (w\<lparr>w_output := out\<rparr>) = (release_slot al_a al_b ret w)\<lparr>w_output := out\<rparr>"
  by (simp add: release_slot_def Let_def split: prod.splits)

lemma count_inv_drain:
  assumes inv: "count_inv log w" "slots_inv log w" and at: "loaded (consumer_at w) = Some (returned ret)"
    "\<not> releasing (consumer_at w)" "is_discard (Some ret) \<longrightarrow> discarding (consumer_at w)"
    and more_left: "consumer_sequence w < returned ret"
  shows "count_inv log (release_slot al_a al_b ret w)"
proof (rule count_inv_release [OF inv more_left _ at(2)])
  show "returned ret \<le> published_sequence w" "is_discard (Some ret) \<longrightarrow> unat (returned ret) = length log"
    using inv(1) at by (simp_all add: count_inv_def)
qed

lemma run_drain_cases:
  obtains (writing) slot e out where "consumer_sequence w < p" "\<not> writer_failed w"
      "slot = w_slots w (slot_index (consumer_sequence w))"
      "write_batch (w_output w) (slot_target_index slot) (slot_batch slot) = (e, out)"
      "run_drain al_a al_b p w = (Ev_output (Out_write (slot_target_index slot) (slot_batch slot)),
         (release_slot al_a al_b (After_write p e) w)\<lparr>w_output := out\<rparr>)"
  | (idle) "\<not> consumer_sequence w < p \<or> writer_failed w"
      "run_drain al_a al_b p w = (Ev_none, w\<lparr>consumer_at := (if writer_failed w then Discard_load else Run_age)\<rparr>)"
proof (cases "consumer_sequence w < p \<and> \<not> writer_failed w")
  case True
  let ?slot = "w_slots w (slot_index (consumer_sequence w))"
  obtain e out where o: "write_batch (w_output w) (slot_target_index ?slot) (slot_batch ?slot) = (e, out)" by fastforce
  show thesis
    by (rule writing [OF _ _ refl o]) (use True in \<open>simp_all add: run_drain_def Let_def o release_slot_output\<close>)
next
  case False
  then have "run_drain al_a al_b p w = (Ev_none, w\<lparr>consumer_at := (if writer_failed w then Discard_load else Run_age)\<rparr>)"
    by (simp only: run_drain_def if_False)
  then show thesis using False idle by blast
qed

lemma count_inv_consumer:
  assumes inv: "hand_inv w" "count_inv log w" "slots_inv log w"
  shows "count_inv log (snd (consumer_step al_a al_b due (consumer_at w) w))"
proof -
  have quiet: "finalizing (consumer_at w) \<longrightarrow> \<not> committing (producer_at w)"
    using inv(1) committing_passed by (auto simp: hand_inv_def)
  show ?thesis
proof (cases "consumer_at w")
  case (Run_drain p)
  show ?thesis
  proof (cases rule: run_drain_cases [of w p al_a al_b])
    case (writing slot e out)
    have "count_inv log (release_slot al_a al_b (After_write p e) w)"
      by (rule count_inv_drain [OF inv(2,3)]) (use Run_drain writing in simp_all)
    then show ?thesis using writing Run_drain by simp
  next
    case idle
    show ?thesis using inv(2) Run_drain by (auto simp: count_inv_def idle(2))
  qed
next
  case (Discard_drain p)
  show ?thesis
  proof (cases "consumer_sequence w < p")
    case True
    have "count_inv log (release_slot al_a al_b (After_discard p) w)"
      by (rule count_inv_drain [OF inv(2,3)]) (use Discard_drain True in simp_all)
    then show ?thesis using True Discard_drain by simp
  next
    case False
    then show ?thesis using inv(2) Discard_drain by (simp add: count_inv_def word_le_nat_alt word_less_nat_alt)
  qed
next
  case Discard_load
  then have "\<not> committing (producer_at w)" using inv(1) committing_passed by (auto simp: hand_inv_def)
  then show ?thesis using inv(2) Discard_load by (auto simp: count_inv_def word_le_nat_alt)
next
  case Run_close_sequence_load
  then have "\<not> committing (producer_at w)" using inv(1) committing_passed by (auto simp: hand_inv_def)
  then show ?thesis using inv(2) Run_close_sequence_load by (auto simp: count_inv_def)
next
  case Run_age
  then show ?thesis using inv(2) by (auto simp: count_inv_def run_age_def Let_def split: prod.splits)
qed (insert inv(2) quiet, unfold count_inv_def,
    (elim conjE, simp add: writer_ops Let_def word_le_nat_alt split: prod.splits)+)
qed

section \<open>The slots\<close>

definition same_shape :: "CsvOutputSet \<Rightarrow> CsvOutputSet \<Rightarrow> bool" where
  "same_shape out out' \<longleftrightarrow> out_mode out' = out_mode out \<and> out_target_count out' = out_target_count out"

lemma visit_targets_length: "length (fst (visit_targets op i ts first)) = length ts"
  by (induction op i ts first rule: visit_targets.induct) (auto split: prod.splits)

lemma write_batch_shape: "same_shape out (snd (write_batch out t b))"
  by (simp add: same_shape_def write_batch_def out_fail_def out_target_count_def Let_def)

lemma flush_all_shape: "same_shape out (snd (flush_all out))"
  using visit_targets_length [of sink_flush 0 "out_targets out" "out_first_error out"]
  by (auto simp: same_shape_def flush_all_def out_fail_def out_target_count_def Let_def split: prod.splits)

lemma close_all_shape: "same_shape out (snd (close_all out))"
  using visit_targets_length [of sink_close 0 "out_targets out" "out_first_error out"]
  by (auto simp: same_shape_def close_all_def out_target_count_def split: prod.splits)

lemma slots_inv_frame:
  assumes "slots_inv log w" "w_slots w' = w_slots w" "consumer_sequence w' = consumer_sequence w"
    "producer_sequence w' = producer_sequence w" "slot_acquired w' = slot_acquired w"
    "\<And>t. producer_at w' = Publish_bytes_load t \<Longrightarrow> producer_at w = Publish_bytes_load t" "same_shape (w_output w) (w_output w')"
  shows "slots_inv log w'"
  using assms by (auto simp: slots_inv_def producer_slot_def same_shape_def)

text \<open>Writing the producer's slot while it is acquired.\<close>

lemma slots_inv_producer_slot:
  assumes inv: "slots_inv log w" "count_inv log w" and room: "length log < unat (consumer_sequence w) + 4096"
    and s: "w_slots w' = (w_slots w)(slot_index (producer_sequence w) := slot)" "consumer_sequence w' = consumer_sequence w"
      "producer_sequence w' = producer_sequence w" "w_output w' = w_output w" "\<And>t. producer_at w' \<noteq> Publish_bytes_load t"
      "slot_acquired w' \<longrightarrow> record_sized (slot_batch slot)"
  shows "slots_inv log w'"
proof -
  have "k mod 4096 \<noteq> slot_index (producer_sequence w)" if "unat (consumer_sequence w) \<le> k" "k < length log" for k
    using ring_distinct [of k "length log"] that room inv(2) by (simp add: slot_index_mod count_inv_def)
  then show ?thesis
    using inv(1) s by (auto simp: slots_inv_def producer_slot_def)
qed

lemma slots_inv_commit:
  assumes inv: "slots_inv log w" "count_inv log w" "slot_acquired w" and at: "producer_at w = Publish_bytes_load t"
    and b: "b = slot_batch (producer_slot w)"
    and s: "w_slots w' = (w_slots w)(slot_index (producer_sequence w) := slot)" "holds slot (t, b)"
      "consumer_sequence w' = consumer_sequence w" "w_output w' = w_output w" "producer_at w' = Publish_occupancy_slots"
      "\<not> slot_acquired w'"
  shows "slots_inv (log @ [(t, b)]) w'"
proof -
  have "fit_entry (out_target_count (w_output w)) (out_mode (w_output w)) (t, b)" using inv(1) at b by (simp add: slots_inv_def)
  moreover have "holds (w_slots w' (k mod 4096)) ((log @ [(t, b)]) ! k)"
    if "unat (consumer_sequence w) \<le> k" "k < Suc (length log)" for k
  proof (cases "k = length log")
    case True
    then show ?thesis using s(1,2) inv(2) by (simp add: slot_index_mod count_inv_def)
  next
    case False
    then have k: "k < length log" using that by simp
    moreover have "k mod 4096 \<noteq> slot_index (producer_sequence w)"
      using ring_distinct [of k "length log"] that k inv(2,3) by (auto simp: slot_index_mod count_inv_def)
    ultimately show ?thesis using inv(1) that(1) s(1) by (simp add: slots_inv_def nth_append)
  qed
  ultimately show ?thesis using inv(1) s(3-6) by (simp add: slots_inv_def)
qed

lemma slots_inv_producer:
  assumes inv: "hand_inv w" "count_inv log w" "slots_inv log w"
    and s: "producer_step al_a al_b (producer_at w) w = (ev, w')"
  shows "slots_inv (logged log ev) w'"
proof -
  have room: "slot_acquired w \<Longrightarrow> length log < unat (consumer_sequence w) + 4096"
    using inv(2) by (auto simp: count_inv_def)
  have "slots_inv (logged log (fst (producer_step al_a al_b (producer_at w) w)))
      (snd (producer_step al_a al_b (producer_at w) w))"
  proof (cases "producer_at w")
    case (Publish_bytes_load t)
    then have acq: "slot_acquired w" using inv(1) by (simp add: hand_inv_def)
    show ?thesis
    proof (cases rule: publish_commit_cases [of t w])
      case (rejected e)
      with Publish_bytes_load inv(3) show ?thesis by (simp add: slots_inv_def producer_slot_def)
    next
      case (committed b ov m n)
      have "slots_inv (log @ [(t, b)]) (snd (publish_commit t w))"
        by (rule slots_inv_commit [OF inv(3,2) acq Publish_bytes_load committed(1), where slot =
            "\<lparr>slot_batch = b, slot_target_index = t, slot_logical_bytes = batch_bytes b, slot_overflow_capacity_bytes = ov\<rparr>"])
          (simp_all add: committed(2) set_producer_slot_def holds_def)
      then show ?thesis using Publish_bytes_load committed(2) by simp
    qed
  next
    case (Publish_failed_load t)
    then show ?thesis
      using inv(1,3) by (auto simp: slots_inv_def hand_inv_def publish_failed_def fit_entry_def producer_slot_def list_all_iff)
  next
    case (Publish_reject e)
    then have "slot_acquired w" using inv(1) by (simp add: hand_inv_def)
    then have "slots_inv log (publish_reject al_a al_b e w)"
      by (intro slots_inv_producer_slot [OF inv(3,2) room])
        (simp_all add: publish_reject_def release_acquired_def publish_returns_def set_producer_slot_def)
    then show ?thesis using Publish_reject by simp
  next
    case Acquire_released_load
    show ?thesis
    proof (cases "producer_sequence w - released_sequence w \<ge> of_nat kCsvWriterSlotCount")
      case True
      then show ?thesis
        using inv(3) Acquire_released_load
        by (simp add: try_acquire_released_def acquire_returns_def slots_inv_def producer_slot_def)
    next
      case False
      have "count_inv log (try_acquire_released w)" by (rule count_inv_acquired [OF inv(2) Acquire_released_load])
      then have "length log < unat (consumer_sequence w) + 4096"
        using False by (auto simp: count_inv_def try_acquire_released_def acquire_returns_def set_producer_slot_def)
      then have "slots_inv log (try_acquire_released w)"
        by (intro slots_inv_producer_slot [OF inv(3,2), where slot =
              "reset_slot (producer_slot w) (batch_clear (slot_batch (producer_slot w)))"])
          (use False in \<open>simp_all add: try_acquire_released_def acquire_returns_def set_producer_slot_def reset_slot_def
            batch_clear_def record_sized_def crb_clear_def crb_view_def\<close>)
      then show ?thesis using Acquire_released_load by simp
    qed
  qed (use inv(3) in \<open>simp_all add: slots_inv_def writer_ops producer_slot_def Let_def\<close>)
  then show ?thesis by (simp add: s)
qed

lemma slots_inv_call:
  assumes inv: "count_inv log w" "slots_inv log w" and at: "producer_at w = Prod_idle" and ok: "call_allowed c w"
  shows "slots_inv log (start_call al_a al_b c w)"
proof -
  have room: "slot_acquired w \<Longrightarrow> length log < unat (consumer_sequence w) + 4096"
    using inv(1) by (auto simp: count_inv_def)
  have cancel: "slots_inv log (writer_cancel al_a al_b w)"
  proof (cases "slot_acquired w")
    case True
    from room [OF this] show ?thesis
      by (intro slots_inv_producer_slot [OF inv(2,1)])
        (use True at in \<open>simp_all add: writer_cancel_def release_acquired_def set_producer_slot_def\<close>)
  qed (simp add: writer_cancel_def inv(2))
  show ?thesis
  proof (cases c)
    case (Do_fill b)
    with ok room have "slots_inv log (fill_slot b w)"
      by (intro slots_inv_producer_slot [OF inv(2,1), where slot = "(producer_slot w)\<lparr>slot_batch := b\<rparr>"]) (use at in \<open>simp_all add: fill_slot_def set_producer_slot_def\<close>)
    then show ?thesis using Do_fill by simp
  next
    case Do_close
    then show ?thesis using cancel by (simp add: writer_close_def slots_inv_def producer_slot_def)
  qed (use cancel inv(2) at in \<open>simp_all add: slots_inv_def writer_ops producer_slot_def\<close>)
qed

lemma slots_inv_release:
  assumes inv: "hand_inv w" "count_inv log w" "slots_inv log w" and at: "loaded (consumer_at w) = Some p"
    "\<not> releasing (consumer_at w)" and left: "consumer_sequence w < p"
  shows "slots_inv log (release_slot al_a al_b ret w)"
proof -
  let ?c = "unat (consumer_sequence w)" and ?w = "release_slot al_a al_b ret w"
  have c: "?c < length log" "Suc ?c < 2 ^ 64" "unat (released_sequence w) = ?c"
    using inv(2) at left unat_bound [of p] by (auto simp: count_inv_def word_less_nat_alt word_le_nat_alt)
  let ?s = "reset_slot (w_slots w (?c mod 4096)) (snd (batch_release_excess_capacity al_a al_b (slot_batch (w_slots w (?c mod 4096)))))"
  have s: "w_slots ?w = (w_slots w)(?c mod 4096 := ?s)" "consumer_sequence ?w = consumer_sequence w + 1"
    "producer_sequence ?w = producer_sequence w" "w_output ?w = w_output w" "producer_at ?w = producer_at w"
    "slot_acquired ?w = slot_acquired w"
    by (simp_all add: release_slot_def Let_def slot_index_mod split: prod.splits)
  have seq: "unat (consumer_sequence ?w) = Suc ?c"
    using c(2) by (simp add: s(2) unat_add_lem [THEN iffD1])
  have other: "k mod 4096 \<noteq> ?c mod 4096" if "?c < k" "k < ?c + 4096" for k
    using ring_distinct [of ?c k] that by simp
  have own: "producer_slot ?w = producer_slot w" if "slot_acquired w"
    using that inv(2) c other [of "length log"]
    by (auto simp: producer_slot_def s slot_index_mod count_inv_def)
  have slots: "holds (w_slots ?w (k mod 4096)) (log ! k)" if "Suc ?c \<le> k" "k < length log" for k
    using that inv(2,3) c(3) other [of k] by (auto simp: s slots_inv_def count_inv_def)
  have acq: "slot_acquired w" if "producer_at w = Publish_bytes_load t" for t
    using inv(1) that by (simp add: hand_inv_def)
  show ?thesis
    unfolding slots_inv_def seq s(4,5,6)
  proof (intro conjI)
    show "\<forall>k. Suc ?c \<le> k \<and> k < length log \<longrightarrow> holds (w_slots ?w (k mod 4096)) (log ! k)" using slots by blast
  qed (use inv(3) own acq in \<open>auto simp: slots_inv_def\<close>)
qed

lemma slots_inv_output:
  "slots_inv log w \<Longrightarrow> same_shape (w_output w) out \<Longrightarrow> slots_inv log (w\<lparr>w_output := out\<rparr>)"
  by (rule slots_inv_frame) simp_all

lemma slots_inv_consumer:
  assumes inv: "hand_inv w" "count_inv log w" "slots_inv log w"
  shows "slots_inv log (snd (consumer_step al_a al_b due (consumer_at w) w))"
proof (cases "consumer_at w")
  case (Run_drain p)
  show ?thesis
  proof (cases rule: run_drain_cases [of w p al_a al_b])
    case (writing slot e out)
    have "slots_inv log (release_slot al_a al_b (After_write p e) w)"
      by (rule slots_inv_release [OF inv]) (use Run_drain writing in simp_all)
    moreover have "w_output (release_slot al_a al_b (After_write p e) w) = w_output w"
      by (simp add: release_slot_def Let_def split: prod.splits)
    ultimately show ?thesis
      using writing Run_drain write_batch_shape [of "w_output w" "slot_target_index slot" "slot_batch slot"]
      by (simp add: slots_inv_output)
  next
    case idle
    then show ?thesis using inv(3) Run_drain by (simp add: slots_inv_def producer_slot_def)
  qed
next
  case (Discard_drain p)
  then show ?thesis
    using inv(3) slots_inv_release [OF inv, of p] by (simp add: slots_inv_def producer_slot_def)
next
  case Run_age
  show ?thesis
    by (rule slots_inv_frame [OF inv(3)])
      (use Run_age flush_all_shape [of "w_output w"] in \<open>auto simp: run_age_def Let_def same_shape_def split: prod.splits if_splits\<close>)
next
  case Run_close_all
  show ?thesis
    by (rule slots_inv_frame [OF inv(3)])
      (use Run_close_all close_all_shape [of "w_output w"] in \<open>auto simp: run_close_def same_shape_def split: prod.splits\<close>)
qed (use inv(3) in \<open>simp_all add: slots_inv_def writer_ops producer_slot_def Let_def\<close>)

end
