(* ===== verification/Csv_Writer_Guarantees.thy ===== *)
theory Csv_Writer_Guarantees
  imports Csv_Writer_Queue
begin

text \<open>
  What the writer thread guarantees in every interleaving: what reaches the files is what was published,
  in order and unchanged; a result without error means that all of it is there.
\<close>

section \<open>The output\<close>

fun pending :: "consumer_pc \<Rightarrow> bool" where
  "pending (Latch_failed_store _ _) = True"
| "pending pc = (case returning pc of Some (After_write _ e) \<Rightarrow> is_write_error e | _ \<Rightarrow> False)"

fun closed_at :: "consumer_pc \<Rightarrow> bool" where
  "closed_at Run_collect = True" | "closed_at Run_finished = True" | "closed_at pc = (latching pc = Some Latch_in_close)"

fun genuine :: "consumer_pc \<Rightarrow> bool" where
  "genuine (Latch_failed_store e _) = is_write_error e" | "genuine _ = True"

definition output_inv :: "CsvOutputSet \<Rightarrow> batch_log \<Rightarrow> out_op list \<Rightarrow> WriterImpl \<Rightarrow> bool" where
  "output_inv out0 log ops w \<longleftrightarrow>
     perform ops out0 = w_output w \<and> out_inv (batches ops) (w_output w) \<and>
     batches ops = take (length (batches ops)) log \<and> length (batches ops) \<le> unat (consumer_sequence w) \<and>
     (\<not> writer_failed w \<longrightarrow> length (batches ops) = unat (consumer_sequence w)) \<and>
     (out_failed (w_output w) \<longleftrightarrow> writer_failed w \<or> pending (consumer_at w)) \<and>
     (out_closed (w_output w) \<longleftrightarrow> closed_at (consumer_at w)) \<and>
     (is_write_error (wr_output_error (final_result w)) \<longleftrightarrow> writer_failed w) \<and> genuine (consumer_at w)"

fun performed :: "out_op list \<Rightarrow> writer_event \<Rightarrow> out_op list" where
  "performed ops (Ev_output op) = ops @ [op]" | "performed ops _ = ops"

lemma perform_append: "perform (ops @ ops') out = perform ops' (perform ops out)"
  by (induction ops out rule: perform.induct) simp_all

lemma batches_append: "batches (ops @ ops') = batches ops @ batches ops'"
  by (induction ops rule: batches.induct) simp_all

lemma after_release_pending [simp]:
  "pending (after_release ret) \<longleftrightarrow> (case ret of After_write _ e \<Rightarrow> is_write_error e | _ \<Rightarrow> False)"
  "\<not> closed_at (after_release ret)" "genuine (after_release ret)" "after_release ret \<noteq> Run_finished"
  by (cases ret; simp)+

lemma after_latch_pending [simp]:
  "\<not> pending (after_latch ret)" "closed_at (after_latch ret) \<longleftrightarrow> ret = Latch_in_close" "genuine (after_latch ret)"
  by (cases ret; simp)+

lemma flush_all_closed: "out_closed (snd (flush_all out)) = out_closed out"
  by (simp add: flush_all_def out_fail_def Let_def split: prod.splits)

lemma valid_batch_contract: "valid_batch b mode \<Longrightarrow> valid_batch_contract mode b"
  by (simp add: valid_batch_def valid_batch_contract_def split: if_splits)

lemma output_inv_frame:
  assumes "output_inv out0 log ops w" "w_output w' = w_output w" "consumer_sequence w' = consumer_sequence w"
    "writer_failed w' = writer_failed w" "consumer_at w' = consumer_at w" "final_result w' = final_result w"
  shows "output_inv out0 log ops w'"
  using assms by (simp add: output_inv_def)

lemma output_inv_call: "output_inv out0 log ops w \<Longrightarrow> output_inv out0 log ops (start_call al_a al_b c w)"
  by (rule output_inv_frame, assumption) (cases c; simp add: writer_ops)+

text \<open>The producer touches nothing of the consumer's side.\<close>

lemma producer_frame:
  assumes "producer_step al_a al_b pc w = (ev, w')"
  shows "w_output w' = w_output w \<and> consumer_sequence w' = consumer_sequence w \<and> writer_failed w' = writer_failed w \<and>
    consumer_at w' = consumer_at w \<and> final_result w' = final_result w"
proof -
  have "w_output (snd (producer_step al_a al_b pc w)) = w_output w \<and>
    consumer_sequence (snd (producer_step al_a al_b pc w)) = consumer_sequence w \<and>
    writer_failed (snd (producer_step al_a al_b pc w)) = writer_failed w \<and>
    consumer_at (snd (producer_step al_a al_b pc w)) = consumer_at w \<and>
    final_result (snd (producer_step al_a al_b pc w)) = final_result w"
  proof (cases pc)
    case (Publish_bytes_load t)
    then show ?thesis
      by (cases rule: publish_commit_cases [of t w]) (simp_all add: set_producer_slot_def)
  qed (simp_all add: writer_ops try_acquire_released_def Let_def)
  then show ?thesis by (simp add: assms)
qed

lemma output_inv_producer:
  assumes "output_inv out0 log ops w" "count_inv log w" "producer_step al_a al_b pc w = (ev, w')"
  shows "output_inv out0 (logged log ev) ops w'"
proof -
  have "length (batches ops) \<le> length log"
    using assms(1,2) by (auto simp: output_inv_def count_inv_def)
  then have "output_inv out0 (logged log ev) ops w"
    using assms(1) by (cases ev) (simp_all add: output_inv_def)
  then show ?thesis
    by (rule output_inv_frame) (use producer_frame [OF assms(3)] in simp_all)
qed

text \<open>Writing the next batch of the log.\<close>

lemma output_inv_write:
  assumes inv: "hand_inv w" "count_inv log w" "slots_inv log w" "output_inv out0 log ops w"
    and at: "consumer_at w = Run_drain p" and left: "consumer_sequence w < p" "\<not> writer_failed w"
    and slot: "slot = w_slots w (slot_index (consumer_sequence w))"
      "write_batch (w_output w) (slot_target_index slot) (slot_batch slot) = (e, out)"
  shows "output_inv out0 log (ops @ [Out_write (slot_target_index slot) (slot_batch slot)])
      ((release_slot al_a al_b (After_write p e) w)\<lparr>w_output := out\<rparr>)"
proof -
  let ?c = "unat (consumer_sequence w)" and ?entry = "(slot_target_index slot, slot_batch slot)"
  have c: "?c < length log" "Suc ?c < 2 ^ 64"
    using inv(2) at left(1) unat_bound [of p] by (auto simp: count_inv_def word_less_nat_alt word_le_nat_alt)
  then have "holds slot (log ! ?c)" using inv(3) by (simp add: slots_inv_def slot slot_index_mod)
  then have entry: "log ! ?c = ?entry" by (simp add: holds_def prod_eq_iff)
  have seq: "unat (consumer_sequence w + 1) = Suc ?c" using c(2) by (simp add: unat_add_lem [THEN iffD1])
  have len: "length (batches ops) = ?c" using inv(4) left(2) by (simp add: output_inv_def)
  have tk: "batches ops @ [?entry] = take (Suc ?c) log"
    using inv(4) len c(1) entry by (simp add: output_inv_def take_Suc_conv_app_nth)
  have oi: "out_inv (batches ops) (w_output w)" "\<not> out_closed (w_output w)" "perform ops out0 = w_output w"
    "is_write_error (wr_output_error (final_result w)) \<longleftrightarrow> writer_failed w"
    using inv(4) at by (simp_all add: output_inv_def)
  note wb = write_batch_inv [OF oi(1) slot(2)]
  have "perform (ops @ [Out_write (slot_target_index slot) (slot_batch slot)]) out0 = out"
    using oi(3) slot(2) by (simp add: perform_append)
  then show ?thesis
    using wb oi tk len seq left(2) c(1)
    by (simp add: output_inv_def batches_append release_slot_def Let_def split: prod.splits)
qed

lemma output_inv_consumer:
  assumes inv: "hand_inv w" "count_inv log w" "slots_inv log w" "output_inv out0 log ops w"
    and s: "consumer_step al_a al_b due (consumer_at w) w = (ev, w')"
  shows "output_inv out0 log (performed ops ev) w'"
proof -
  have "output_inv out0 log (performed ops (fst (consumer_step al_a al_b due (consumer_at w) w)))
      (snd (consumer_step al_a al_b due (consumer_at w) w))"
  proof (cases "consumer_at w")
    case (Run_drain p)
    show ?thesis
    proof (cases rule: run_drain_cases [of w p al_a al_b])
      case (writing slot e out)
      from output_inv_write [OF inv Run_drain writing(1-4), of al_a al_b] writing(5) Run_drain show ?thesis by simp
    next
      case idle
      then show ?thesis using inv(4) Run_drain by (simp add: output_inv_def)
    qed
  next
    case (Discard_drain p)
    have f: "writer_failed w" using inv(1) Discard_drain by (simp add: hand_inv_def)
    have c: "consumer_sequence w < p \<Longrightarrow> Suc (unat (consumer_sequence w)) < 2 ^ 64"
      using unat_bound [of p] by (simp add: word_less_nat_alt)
    show ?thesis
      using inv(4) Discard_drain f c
      by (simp add: output_inv_def release_slot_def Let_def unat_add_lem [THEN iffD1] split: prod.splits)
  next
    case Run_age
    obtain e out where fl: "flush_all (w_output w) = (e, out)" by fastforce
    have "out_inv (batches ops) (w_output w)" using inv(4) by (simp add: output_inv_def)
    note fi = flush_all_inv [OF this fl]
    have "out_closed out = out_closed (w_output w)" using flush_all_closed [of "w_output w"] fl by simp
    with fi show ?thesis
      using inv(4) Run_age fl
      by (auto simp: output_inv_def run_age_def Let_def perform_append batches_append out_failed_def)
  next
    case Run_close_all
    obtain e out where cl: "close_all (w_output w) = (e, out)" by fastforce
    have "out_inv (batches ops) (w_output w)" using inv(4) by (simp add: output_inv_def)
    note ci = close_all_inv [OF this cl]
    show ?thesis
      using inv(4) Run_close_all cl ci
      by (auto simp: output_inv_def run_close_def perform_append batches_append out_failed_def)
  qed (use inv(4) in \<open>simp_all add: output_inv_def writer_ops Let_def split: release_return.splits\<close>)
  then show ?thesis by (simp add: s)
qed

section \<open>The metrics\<close>

definition audit_count :: "batch_log \<Rightarrow> nat" where
  "audit_count log = length (filter (\<lambda>(_, b). has_audit_row b) log)"

definition book_count :: "batch_log \<Rightarrow> nat" where
  "book_count log = length (filter (\<lambda>(_, b). has_order_book_row b) log)"

definition counted :: "batch_log \<Rightarrow> CsvWriterMetrics \<Rightarrow> bool" where
  "counted log m \<longleftrightarrow> wm_batches_published m = of_nat (length log) \<and> wm_audit_rows_published m = of_nat (audit_count log) \<and>
     wm_order_book_rows_published m = of_nat (book_count log)"

definition metrics_inv :: "batch_log \<Rightarrow> WriterImpl \<Rightarrow> bool" where
  "metrics_inv log w \<longleftrightarrow> counted log (w_metrics w) \<and>
     (consumer_at w = Run_finished \<longrightarrow> wr_metrics (final_result w) = w_metrics w)"

lemma metrics_inv_call: "metrics_inv log w \<Longrightarrow> metrics_inv log (start_call al_a al_b c w)"
  by (cases c) (simp_all add: metrics_inv_def writer_ops)

lemma metrics_inv_producer:
  assumes inv: "hand_inv w" "metrics_inv log w" and s: "producer_step al_a al_b (producer_at w) w = (ev, w')"
  shows "metrics_inv (logged log ev) w'"
proof -
  have quiet: "passed (producer_at w) \<Longrightarrow> consumer_at w \<noteq> Run_finished" using inv(1) by (auto simp: hand_inv_def)
  have "metrics_inv (logged log (fst (producer_step al_a al_b (producer_at w) w)))
      (snd (producer_step al_a al_b (producer_at w) w))"
  proof (cases "producer_at w")
    case (Publish_bytes_load t)
    then show ?thesis
      using inv(2) quiet
      by (cases rule: publish_commit_cases [of t w])
        (simp_all add: metrics_inv_def counted_def set_producer_slot_def count_publication_def Let_def audit_count_def book_count_def)
  next
    case Acquire_released_load
    then show ?thesis
      using inv(2) by (simp add: try_acquire_released_def acquire_returns_def set_producer_slot_def metrics_inv_def)
  qed (use inv(2) quiet in \<open>simp_all add: metrics_inv_def counted_def writer_ops Let_def\<close>)
  then show ?thesis by (simp add: s)
qed

lemma metrics_inv_consumer:
  assumes inv: "metrics_inv log w"
  shows "metrics_inv log (snd (consumer_step al_a al_b due (consumer_at w) w))"
proof (cases "consumer_at w")
  case (Run_drain p)
  then show ?thesis
    using inv by (cases rule: run_drain_cases [of w p al_a al_b])
      (simp_all add: metrics_inv_def counted_def release_slot_def Let_def split: prod.splits)
next
  case (Release_sequence_store ret)
  then show ?thesis using inv by (auto simp: metrics_inv_def)
next
  case (Resume_bytes_load ret p)
  then show ?thesis using inv by (auto simp: metrics_inv_def)
next
  case (Resume_exchange ret)
  then show ?thesis using inv by (auto simp: metrics_inv_def)
next
  case (Latch_wait ret)
  then show ?thesis using inv by (cases ret) (auto simp: metrics_inv_def)
qed (use inv in \<open>simp_all add: metrics_inv_def counted_def writer_ops Let_def split: prod.splits\<close>)

section \<open>Runs\<close>

definition writer_inv :: "CsvOutputSet \<Rightarrow> batch_log \<Rightarrow> out_op list \<Rightarrow> WriterImpl \<Rightarrow> bool" where
  "writer_inv out0 log ops w \<longleftrightarrow> hand_inv w \<and> count_inv log w \<and> slots_inv log w \<and> output_inv out0 log ops w \<and> metrics_inv log w"

definition published :: "writer_event list \<Rightarrow> batch_log" where
  "published evs = foldl logged [] evs"

definition written :: "writer_event list \<Rightarrow> out_op list" where
  "written evs = foldl performed [] evs"

lemma producer_ops: "producer_step al_a al_b pc w = (ev, w') \<Longrightarrow> performed ops ev = ops"
proof (cases pc)
  case (Publish_bytes_load t)
  assume "producer_step al_a al_b pc w = (ev, w')"
  then show ?thesis using Publish_bytes_load by (cases rule: publish_commit_cases [of t w]) auto
qed (auto simp: arm_exchange_def)

lemma consumer_log: "consumer_step al_a al_b due pc w = (ev, w') \<Longrightarrow> logged log ev = log"
proof (cases pc)
  case (Run_drain p)
  assume "consumer_step al_a al_b due pc w = (ev, w')"
  then show ?thesis using Run_drain by (cases rule: run_drain_cases [of w p al_a al_b]) auto
qed (auto simp: latch_notify_def run_age_def run_close_def Let_def split: prod.splits if_splits)

lemma writer_step_inv:
  assumes "writer_step w ev w'" "writer_inv out0 log ops w"
  shows "writer_inv out0 (logged log ev) (performed ops ev) w'"
  using assms
proof cases
  case (call c al_a al_b)
  then show ?thesis
    using assms(2) hand_inv_call count_inv_call slots_inv_call output_inv_call metrics_inv_call
    by (simp add: writer_inv_def)
next
  case (producer al_a al_b)
  then show ?thesis
    using assms(2) hand_inv_producer [of w al_a al_b] count_inv_producer slots_inv_producer output_inv_producer metrics_inv_producer
      producer_ops [OF producer, of ops]
    by (simp add: writer_inv_def) (metis snd_conv)
next
  case (consumer al_a al_b due)
  then show ?thesis
    using assms(2) hand_inv_consumer [of w al_a al_b due] count_inv_consumer [of w log al_a al_b due]
      slots_inv_consumer [of w log al_a al_b due] output_inv_consumer [of w log out0 ops al_a al_b due ev w'] metrics_inv_consumer [of log w al_a al_b due]
      consumer_log [OF consumer, of log]
    by (simp add: writer_inv_def)
qed

lemma writer_run_inv:
  assumes "writer_run w evs w'" "writer_inv out0 [] [] w"
  shows "writer_inv out0 (published evs) (written evs) w'"
  using assms
proof (induction rule: writer_run.induct)
  case (start w)
  then show ?case by (simp add: published_def written_def)
next
  case (step w evs w' ev w'')
  then show ?case using writer_step_inv [OF step.hyps(2)] by (simp add: published_def written_def)
qed

lemma new_writer_inv:
  assumes "out_inv [] out" "\<not> out_closed out" "\<not> out_failed out"
  shows "writer_inv out [] [] (new_writer out resume failure initial)"
  using assms
  by (simp add: writer_inv_def hand_inv_def count_inv_def slots_inv_def output_inv_def metrics_inv_def counted_def new_writer_def
      log_bytes_def audit_count_def book_count_def no_writer_metrics_def no_write_error_def is_write_error_def)

text \<open>A run of a writer started on a freshly opened output set.\<close>

definition writer_runs :: "CsvOutputSet \<Rightarrow> writer_event list \<Rightarrow> WriterImpl \<Rightarrow> bool" where
  "writer_runs out evs w \<longleftrightarrow>
     (\<exists>resume failure initial w0. writer_start (Some out) True True resume failure initial = (WCE_none, Some w0, None) \<and>
        writer_run w0 evs w)"



lemma writer_runs_inv:
  assumes "writer_runs out evs w" "opens env dir (e, Some out, calls)" "fresh_files env"
  shows "writer_inv out (published evs) (written evs) w"
proof -
  have "out_inv [] out"
    using assms(2)
  proof (cases rule: opens_cases)
    case (2 o0)
    from open_prepared_opened [OF 2(1) [symmetric] 2(2,4) assms(3) 2(5,6)] show ?thesis by blast
  qed simp
  then show ?thesis
    using assms(1) writer_run_inv new_writer_inv by (fastforce simp: writer_runs_def writer_start_def split: if_splits)
qed

section \<open>Properties\<close>

text \<open>
  C27: the queue is bounded and its occupancy is exact.  In every interleaving of the two threads the
  slots in use are the batches published and not yet released, never more than 4096, and their rows
  together never exceed 64 MiB; the 64-bit counters never wrap.
\<close>

theorem writer_queue_bounded:
  assumes "writer_runs out evs w" "opens env dir (e, Some out, calls)" "fresh_files env"
  shows "occ_slots (writer_occupancy w) = length (published evs) - unat (released_sequence w) \<and>
     occ_slots (writer_occupancy w) \<le> 4096 \<and>
     unat (occ_logical_bytes (writer_occupancy w)) = log_bytes (drop (unat (consumer_sequence w)) (published evs)) \<and>
     log_bytes (drop (unat (consumer_sequence w)) (published evs)) \<le> 67108864 \<and>
     unat (producer_sequence w) = length (published evs) \<and> unat (producer_bytes w) = log_bytes (published evs)"
proof -
  let ?log = "published evs" and ?c = "unat (consumer_sequence w)"
  have inv: "count_inv ?log w" using writer_runs_inv [OF assms] by (simp add: writer_inv_def)
  have split: "log_bytes ?log = log_bytes (take ?c ?log) + log_bytes (drop ?c ?log)"
    unfolding log_bytes_def by (metis append_take_drop_id map_append sum_list_append)
  have le: "released_sequence w \<le> producer_sequence w" "bytes_released w \<le> producer_bytes w"
    using inv split by (auto simp: count_inv_def word_le_nat_alt)
  then show ?thesis
    using inv split by (auto simp: count_inv_def writer_occupancy_def occupancy_of_def unat_sub)
qed

text \<open>
  C25: what the writer thread writes is what was published.  In every interleaving the batches handed to the
  output set are a prefix of the published ones, in the order of publication, each for its own target and
  byte for byte as published; and as long as the output has not failed no published batch is dropped.
\<close>

theorem writer_fifo:
  assumes "writer_runs out evs w" "opens env dir (e, Some out, calls)" "fresh_files env"
  shows "prefix (batches (written evs)) (published evs) \<and> w_output w = perform (written evs) out \<and>
     (\<not> writer_failed w \<longrightarrow> length (batches (written evs)) = unat (consumer_sequence w))"
proof -
  have "output_inv out (published evs) (written evs) w" using writer_runs_inv [OF assms] by (simp add: writer_inv_def)
  then show ?thesis unfolding output_inv_def by (metis take_is_prefix)
qed


section \<open>Witnesses\<close>

datatype writer_action = Act_call producer_call | Act_producer | Act_consumer bool

text \<open>One schedule of the two threads: a call that is not possible lets the producer go on.\<close>

fun take_action :: "Allocator \<Rightarrow> writer_action \<Rightarrow> WriterImpl \<Rightarrow> writer_event \<times> WriterImpl" where
  "take_action al (Act_call c) w =
     (if producer_at w = Prod_idle \<and> call_allowed c w then (Ev_none, start_call al al c w)
      else producer_step al al (producer_at w) w)"
| "take_action al Act_producer w = producer_step al al (producer_at w) w"
| "take_action al (Act_consumer due) w = consumer_step al al due (consumer_at w) w"

fun drive :: "Allocator \<Rightarrow> writer_action list \<Rightarrow> WriterImpl \<Rightarrow> writer_event list \<times> WriterImpl" where
  "drive al [] w = ([], w)"
| "drive al (a # as) w = (case take_action al a w of (ev, w) \<Rightarrow> case drive al as w of (evs, w) \<Rightarrow> (ev # evs, w))"

lemma take_action_step: "take_action al a w = (ev, w') \<Longrightarrow> writer_step w ev w'"
  by (cases a) (auto intro: writer_step.intros split: if_splits)

lemma writer_run_append: "writer_run w' evs' w'' \<Longrightarrow> writer_run w evs w' \<Longrightarrow> writer_run w (evs @ evs') w''"
proof (induction rule: writer_run.induct)
  case (step w' evs' w'' ev w3)
  from writer_run.step [OF step.IH [OF step.prems] step.hyps(2)] show ?case by simp
qed simp

lemma drive_run: "drive al as w = (evs, w') \<Longrightarrow> writer_run w evs w'"
proof (induction as arbitrary: w evs)
  case Nil
  then show ?case by (simp add: writer_run.start)
next
  case (Cons a as)
  obtain ev w1 where a: "take_action al a w = (ev, w1)" by fastforce
  obtain evs1 where d: "drive al as w1 = (evs1, w')" "evs = ev # evs1"
    using Cons.prems a by (auto split: prod.splits)
  have "writer_run w [ev] w1" using writer_run.step [OF writer_run.start take_action_step [OF a]] by simp
  from writer_run_append [OF Cons.IH [OF d(1)] this] d(2) show ?case by simp
qed

definition sample_set :: CsvOutputSet where
  "sample_set = the (fst (snd sample_live))"

definition sample_writer :: WriterImpl where
  "sample_writer = new_writer sample_set True True (\<lambda>_. sample_batch)"

definition sample_row :: EventRowBatch where
  "sample_row = row_batch ''a\<newline>'' ''b\<newline>''"

definition sample_actions :: "writer_action list" where
  "sample_actions = [Act_call Do_acquire, Act_producer, Act_producer, Act_call (Do_fill sample_row),
     Act_call (Do_publish 1), Act_producer, Act_producer, Act_producer, Act_producer, Act_producer, Act_producer, Act_producer, Act_producer]"

definition final_actions :: "writer_action list" where
  "final_actions = sample_actions @ [Act_call Do_close, Act_consumer False, Act_consumer False, Act_consumer False, Act_consumer False, Act_consumer False,
     Act_consumer False, Act_consumer False, Act_consumer False, Act_consumer False, Act_consumer False, Act_consumer False, Act_consumer False, Act_consumer False]"

definition sample_run :: "writer_action list \<Rightarrow> writer_event list \<times> WriterImpl" where
  "sample_run as = drive failing_allocator as sample_writer"


text \<open>The sample set is freshly opened, accepts a row and closes.\<close>

lemma sample_evaluated:
  "case sample_live of
     (_, Some s, _) \<Rightarrow> \<not> out_closed s \<and> \<not> out_failed s \<and> out_target_count s = 2 \<and> out_mode s = Output_live_capture \<and>
       (case write_batch s 1 sample_row of (e, s) \<Rightarrow> \<not> is_write_error e \<and> \<not> is_write_error (fst (close_all s)))
   | _ \<Rightarrow> False"
  by code_simp

lemma sample_row_facts: "valid_batch sample_row Output_live_capture" "batch_bytes sample_row = 4" "record_sized sample_row"
  "excess_capacity (audit_row sample_row) = 0" "excess_capacity (order_book_row_buffer sample_row) = 0"
  by code_simp+

lemma sample_set_facts: "out_target_count sample_set = 2" "out_mode sample_set = Output_live_capture"
  "\<not> out_closed sample_set" "\<not> out_failed sample_set"
  "\<not> is_write_error (fst (write_batch sample_set 1 sample_row))"
  "\<not> is_write_error (fst (close_all (snd (write_batch sample_set 1 sample_row))))"
  using sample_evaluated by (simp_all add: sample_set_def prod.case_eq_if option.case_eq_if split: if_splits)

lemma sample_set_opens: "opens sample_files ''out'' (fst sample_live, Some sample_set, snd (snd sample_live))"
proof -
  have "fst (snd sample_live) \<noteq> None" using sample_evaluated by (simp add: prod.case_eq_if option.case_eq_if split: if_splits)
  then have "sample_live = (fst sample_live, Some sample_set, snd (snd sample_live))"
    by (simp add: sample_set_def prod_eq_iff)
  then show ?thesis unfolding opens_def by (metis sample_live_def)
qed

lemma sample_files_fresh: "fresh_files sample_files"
  by (simp add: fresh_files_def sample_files_def sample_open_def short_handle_def)

lemma sample_runs: "writer_runs sample_set (fst (sample_run as)) (snd (sample_run as))"
proof -
  have "writer_start (Some sample_set) True True True True (\<lambda>_. sample_batch) = (WCE_none, Some sample_writer, None)"
    by (simp add: writer_start_def sample_writer_def sample_set_facts)
  moreover have "writer_run sample_writer (fst (sample_run as)) (snd (sample_run as))"
    by (rule drive_run [of failing_allocator as]) (simp add: sample_run_def)
  ultimately show ?thesis unfolding writer_runs_def by blast
qed

lemmas sample_steps = sample_run_def sample_actions_def sample_writer_def new_writer_def writer_ops try_acquire_released_def
  producer_slot_def slot_index_mod reset_slot_def occupancy_of_def checked_add_u64_def kCsvWriterSlotCount_def
  kCsvWriterByteCapacity_def sample_set_facts sample_row_facts Let_def final_actions_def writer_join_def published_def
  consumer_below_resume_watermark_def kResumeSlots_def kResumeBytes_def

theorem writer_queue_bounded_witness:
  "occ_slots (writer_occupancy (snd (sample_run sample_actions))) = 1"
proof -
  have "length (published (fst (sample_run sample_actions))) = 1"
    "unat (released_sequence (snd (sample_run sample_actions))) = 0" by (simp_all add: sample_steps)
  then show ?thesis
    using writer_queue_bounded [OF sample_runs sample_set_opens sample_files_fresh, of sample_actions] by simp
qed

lemma sample_finished:
  "writer_join (snd (sample_run final_actions)) = Some (final_result (snd (sample_run final_actions)))"
  "\<not> is_write_error (wr_output_error (final_result (snd (sample_run final_actions))))"
  "published (fst (sample_run final_actions)) = [(1, sample_row)]"
  "\<not> writer_failed (snd (sample_run final_actions))" "unat (consumer_sequence (snd (sample_run final_actions))) = 1"
proof -
  obtain e1 o1 e2 o2 where o: "write_batch sample_set 1 sample_row = (e1, o1)" "close_all o1 = (e2, o2)"
      "\<not> is_write_error e1" "\<not> is_write_error e2"
    using sample_set_facts(5,6) by (metis prod.collapse)
  obtain r b where rel: "batch_release_excess_capacity failing_allocator failing_allocator sample_row = (r, b)" by fastforce
  have "writer_join (snd (sample_run final_actions)) = Some (final_result (snd (sample_run final_actions))) \<and>
     \<not> is_write_error (wr_output_error (final_result (snd (sample_run final_actions)))) \<and>
     published (fst (sample_run final_actions)) = [(1, sample_row)] \<and>
     \<not> writer_failed (snd (sample_run final_actions)) \<and> unat (consumer_sequence (snd (sample_run final_actions))) = 1"
    using o(3,4) by (simp add: sample_steps o(1,2) [unfolded One_nat_def] rel no_write_error_def is_write_error_def)
  then show "writer_join (snd (sample_run final_actions)) = Some (final_result (snd (sample_run final_actions)))"
    "\<not> is_write_error (wr_output_error (final_result (snd (sample_run final_actions))))"
    "published (fst (sample_run final_actions)) = [(1, sample_row)]"
    "\<not> writer_failed (snd (sample_run final_actions))" "unat (consumer_sequence (snd (sample_run final_actions))) = 1"
    by simp_all
qed

theorem writer_fifo_witness:
  "batches (written (fst (sample_run final_actions))) = [(1, sample_row)]"
  using writer_fifo [OF sample_runs sample_set_opens sample_files_fresh, of final_actions] sample_finished(3-5)
  by (cases "batches (written (fst (sample_run final_actions)))") (auto simp: prefix_def)


end
