(* ===== verification/Csv_Writer_Progress.thy ===== *)
theory Csv_Writer_Progress
  imports Csv_Writer_Guarantees
begin

text \<open>
  Progress of the writer: after \<open>close\<close> the consumer thread ends after a bounded number of its own steps, and an
  armed resume notification is not forgotten.
\<close>

section \<open>The consumer ends\<close>

text \<open>The allocations and the clock are chosen anew at each step.\<close>

fun consumer_iter :: "(nat \<Rightarrow> Allocator \<times> Allocator \<times> bool) \<Rightarrow> nat \<Rightarrow> WriterImpl \<Rightarrow> WriterImpl" where
  "consumer_iter choice 0 w = w"
| "consumer_iter choice (Suc n) w =
     (case choice n of (al_a, al_b, due) \<Rightarrow>
        let w' = consumer_iter choice n w in snd (consumer_step al_a al_b due (consumer_at w') w'))"

text \<open>How far a location is from the end when \<open>more\<close> says that published batches are left.\<close>

fun location_rank :: "bool \<Rightarrow> bool \<Rightarrow> consumer_pc \<Rightarrow> nat" where
  "location_rank more_left fresh (Release_overflow_store _) = 60"
| "location_rank more_left fresh (Release_sequence_store _) = 59"
| "location_rank more_left fresh (Resume_sequence_load _) = 58"
| "location_rank more_left fresh (Resume_bytes_load _ _) = 57"
| "location_rank more_left fresh (Resume_exchange _) = 56"
| "location_rank more_left fresh (Latch_failed_store _ (Latch_in_write _)) = 55"
| "location_rank more_left fresh (Latch_notify (Latch_in_write _)) = 54"
| "location_rank more_left fresh (Latch_wait (Latch_in_write _)) = 53"
| "location_rank more_left fresh (Run_drain _) = (if more_left \<and> \<not> fresh then 34 else 27)"
| "location_rank more_left fresh Run_age = (if more_left then 33 else 26)"
| "location_rank more_left fresh (Latch_failed_store _ Latch_in_flush) = 25"
| "location_rank more_left fresh (Latch_notify Latch_in_flush) = 24"
| "location_rank more_left fresh (Latch_wait Latch_in_flush) = 23"
| "location_rank more_left fresh Run_close_load = (if more_left then 32 else 22)"
| "location_rank more_left fresh Run_close_sequence_load = (if more_left then 31 else 21)"
| "location_rank more_left fresh Run_sleep_store = 30"
| "location_rank more_left fresh Run_asleep = 29"
| "location_rank more_left fresh Run_load = 28"
| "location_rank more_left fresh Discard_load = 15"
| "location_rank more_left fresh (Discard_drain _) = 14"
| "location_rank more_left fresh Run_close_all = 10"
| "location_rank more_left fresh (Latch_failed_store _ Latch_in_close) = 5"
| "location_rank more_left fresh (Latch_notify Latch_in_close) = 4"
| "location_rank more_left fresh (Latch_wait Latch_in_close) = 3"
| "location_rank more_left fresh Run_collect = 1"
| "location_rank more_left fresh Run_finished = 0"

definition left :: "WriterImpl \<Rightarrow> nat" where
  "left w = unat (published_sequence w) - unat (consumer_sequence w)"

definition rank :: "WriterImpl \<Rightarrow> nat" where
  "rank w = 100 * left w + location_rank (left w \<noteq> 0)
     (case loaded (consumer_at w) of Some p \<Rightarrow> consumer_sequence w < p | None \<Rightarrow> False) (consumer_at w)"

definition closing :: "batch_log \<Rightarrow> WriterImpl \<Rightarrow> bool" where
  "closing log w \<longleftrightarrow> hand_inv w \<and> count_inv log w \<and> slots_inv log w \<and> close_requested w \<and> producer_at w = Prod_idle"

lemma location_rank_bound: "location_rank m f pc \<le> 60"
  by (induction m f pc rule: location_rank.induct) simp_all

lemma consumer_frame:
  "close_requested (snd (consumer_step al_a al_b due pc w)) = close_requested w \<and>
   producer_at (snd (consumer_step al_a al_b due pc w)) = producer_at w \<and>
   published_sequence (snd (consumer_step al_a al_b due pc w)) = published_sequence w"
proof (cases pc)
  case (Run_drain p)
  then show ?thesis
    by (cases rule: run_drain_cases [of w p al_a al_b])
      (simp_all add: release_slot_def Let_def split: prod.splits)
qed (simp_all add: writer_ops Let_def split: prod.splits)

lemma closing_step: "closing log w \<Longrightarrow> closing log (snd (consumer_step al_a al_b due (consumer_at w) w))"
  using consumer_frame [of al_a al_b due "consumer_at w" w] hand_inv_consumer count_inv_consumer slots_inv_consumer
  by (simp add: closing_def)

lemma release_left:
  assumes "consumer_sequence w < p" "p \<le> published_sequence w"
  shows "Suc (left (release_slot al_a al_b ret w)) = left w"
proof -
  have "Suc (unat (consumer_sequence w)) < 2 ^ 64" "unat (consumer_sequence w) < unat (published_sequence w)"
    using assms unat_bound [of p] by (auto simp: word_less_nat_alt word_le_nat_alt)
  then show ?thesis
    by (simp add: left_def release_slot_def Let_def unat_add_lem [THEN iffD1] split: prod.splits)
qed

lemma after_release_rank: "location_rank m f (after_release ret) < 56"
  by (cases ret) simp_all

lemma rank_bound: "rank w \<le> 100 * left w + 60"
  unfolding rank_def using location_rank_bound by (simp add: add_mono)

lemma rank_release:
  assumes "consumer_sequence w < p" "p \<le> published_sequence w"
  shows "rank ((release_slot al_a al_b ret w)\<lparr>w_output := out\<rparr>) < rank w"
proof -
  let ?w = "(release_slot al_a al_b ret w)\<lparr>w_output := out\<rparr>"
  have "Suc (left ?w) = left w" using release_left [OF assms, of al_a al_b ret] by (simp add: left_def)
  moreover have "rank ?w \<le> 100 * left ?w + 60" by (rule rank_bound)
  ultimately show ?thesis unfolding rank_def by linarith
qed

lemma rank_decreases:
  assumes inv: "closing log w" and running: "consumer_at w \<noteq> Run_finished"
  shows "rank (snd (consumer_step al_a al_b due (consumer_at w) w)) < rank w"
proof (cases "consumer_at w")
  case (Run_drain p)
  have p: "p \<le> published_sequence w" using inv Run_drain by (simp add: closing_def count_inv_def)
  show ?thesis
  proof (cases rule: run_drain_cases [of w p al_a al_b])
    case (writing slot e out)
    then show ?thesis using rank_release [OF writing(1) p] Run_drain by simp
  next
    case idle
    then show ?thesis using Run_drain by (auto simp: rank_def left_def)
  qed
next
  case (Discard_drain p)
  have p: "p \<le> published_sequence w" using inv Discard_drain by (simp add: closing_def count_inv_def)
  show ?thesis
  proof (cases "consumer_sequence w < p")
    case True
    have eq: "(release_slot al_a al_b (After_discard p) w)\<lparr>w_output := w_output w\<rparr> = release_slot al_a al_b (After_discard p) w"
      by (simp add: release_slot_def Let_def split: prod.splits)
    show ?thesis
      using rank_release [OF True p, where ret = "After_discard p" and out = "w_output w" and al_a = al_a and al_b = al_b] True Discard_drain unfolding eq by simp
  next
    case False
    then show ?thesis using Discard_drain by (simp add: rank_def left_def)
  qed
next
  case (Release_sequence_store ret)
  then show ?thesis by (auto simp: rank_def left_def intro: less_trans [OF after_release_rank])
next
  case (Resume_bytes_load ret p)
  then show ?thesis by (auto simp: rank_def left_def intro: less_trans [OF after_release_rank])
next
  case (Resume_exchange ret)
  then show ?thesis by (auto simp: rank_def left_def intro: less_trans [OF after_release_rank] after_release_rank)
next
  case (Latch_wait ret)
  then have "\<not> publish_active w" using inv by (simp add: closing_def hand_inv_def)
  then show ?thesis using Latch_wait by (cases ret) (simp_all add: rank_def left_def)
next
  case (Latch_failed_store e ret)
  then show ?thesis by (cases ret) (simp_all add: rank_def left_def latch_failed_def)
next
  case (Latch_notify ret)
  then show ?thesis by (cases ret) (simp_all add: rank_def left_def latch_notify_def)
next
  case Run_close_sequence_load
  have le: "unat (consumer_sequence w) \<le> unat (published_sequence w)" using inv by (simp add: closing_def count_inv_def)
  show ?thesis
  proof (cases "consumer_sequence w = published_sequence w")
    case False
    then have "unat (consumer_sequence w) \<noteq> unat (published_sequence w)" by (simp add: word_unat_eq_iff)
    with le False Run_close_sequence_load show ?thesis by (simp add: rank_def left_def)
  qed (use Run_close_sequence_load in \<open>simp add: rank_def left_def\<close>)
next
  case Run_load
  then show ?thesis
    by (auto simp: rank_def left_def word_less_nat_alt)
qed (use inv running in \<open>auto simp: rank_def left_def writer_ops closing_def Let_def split: prod.splits\<close>)

lemma consumer_ends:
  assumes "closing log w"
  shows "\<exists>n \<le> rank w. consumer_at (consumer_iter choice n w) = Run_finished"
proof (rule ccontr)
  assume running: "\<not> ?thesis"
  have "closing log (consumer_iter choice n w) \<and> rank (consumer_iter choice n w) + n \<le> rank w" if "n \<le> Suc (rank w)" for n
    using that
  proof (induction n)
    case 0
    then show ?case using assms by simp
  next
    case (Suc n)
    let ?w = "consumer_iter choice n w"
    obtain al_a al_b due where c: "choice n = (al_a, al_b, due)" by (metis surj_pair)
    have "consumer_at ?w \<noteq> Run_finished" using running Suc.prems by auto
    then show ?case
      using Suc closing_step [of log ?w al_a al_b due] rank_decreases [of log ?w al_a al_b due] c by (simp add: Let_def)
  qed
  from this [of "Suc (rank w)"] show False by simp
qed

section \<open>The resume notification\<close>






lemma occupancy_resumes_overflow:
  "occupancy_resumes (occupancy_of w r b o1) = occupancy_resumes (occupancy_of w r b o2)"
  by (simp add: occupancy_resumes_def occupancy_of_def)










section \<open>Properties\<close>

text \<open>
  C28: shutdown ends.  Once \<open>close\<close> has been called and the producer is in no operation, the consumer
  thread ends within 409660 of its own steps, whatever the clock, the allocator and the kernel answer, so \<open>join\<close>
  returns a result.
\<close>

theorem writer_shutdown_ends:
  assumes "writer_runs out evs w" "opens env dir (e, Some out, calls)" "fresh_files env"
    "close_requested w" "producer_at w = Prod_idle"
  shows "\<exists>n \<le> 409660. writer_join (consumer_iter choice n w) \<noteq> None"
proof -
  let ?log = "published evs"
  have inv: "writer_inv out ?log (written evs) w" by (rule writer_runs_inv [OF assms(1-3)])
  then have "closing ?log w" using assms(4,5) by (simp add: closing_def writer_inv_def)
  from consumer_ends [OF this] obtain n where n: "n \<le> rank w" "consumer_at (consumer_iter choice n w) = Run_finished" by blast
  have "left w \<le> 4096" using inv by (auto simp: writer_inv_def count_inv_def left_def)
  then have "rank w \<le> 409660" using rank_bound [of w] by linarith
  then show ?thesis using n by (auto simp: writer_join_def intro!: exI [of _ n])
qed


section \<open>Witnesses\<close>

theorem writer_shutdown_ends_witness:
  "\<exists>n \<le> 409660. writer_join (consumer_iter (\<lambda>_. (failing_allocator, failing_allocator, False)) n
     (snd (sample_run (sample_actions @ [Act_call Do_close])))) \<noteq> None"
proof -
  have "close_requested (snd (sample_run (sample_actions @ [Act_call Do_close])))"
    "producer_at (snd (sample_run (sample_actions @ [Act_call Do_close]))) = Prod_idle"
    by (simp_all add: sample_steps)
  then show ?thesis by (rule writer_shutdown_ends [OF sample_runs sample_set_opens sample_files_fresh])
qed



end
