(* ===== verification/Spec2Isabelle.thy ===== *)
theory Spec2Isabelle
  imports Event_Guarantees Application_Replay Live_Pipeline_Guarantees Live_Capture_Guarantees Command_Line_Guarantees Live_Run_Guarantees Websocket_Session_Guarantees Csv_Writer_Progress
begin

text \<open>
  A verification development for the market-data program of this repository (\<open>src/include/hft\<close>,
  \<open>src/src\<close>; file names below are relative to \<open>src/\<close>).

  \<^bold>\<open>The program.\<close>  In live mode it captures the Spot or USD-M Futures market data of a set of symbols: a
  TLS WebSocket session delivers the text messages of a combined stream to a capture controller; the
  controller hands each message to the event pipeline, which routes it to its symbol, parses the
  payload, updates the symbol's five-level order book and formats up to two CSV rows, an audit row and
  an order-book row; the rows go through a bounded queue to a writer thread, which appends them to the
  files of that symbol.  When the queue is nearly full the controller pauses the session, and the
  writer wakes it up again; when a session ends the controller reconnects with a randomized backoff.
  The run loop adds signals and a run time.  In replay mode the program reads audit files back, feeds
  their payloads to the same event processor and writes the order-book files only.

  \<^bold>\<open>Theories and sources.\<close>  Each component has a theory of definitions that follows its source function
  by function, and one or more theories with what is proved of them.

  \<^item> \<open>Prelude\<close>, \<open>Std_String\<close>: machine integers, \<open>std::to_chars\<close> and \<open>std::from_chars\<close>, and the contents,
    capacity and growth of \<open>std::string\<close>.
  \<^item> \<open>Fixed_Point\<close> (\<open>src/fixed_point.cpp\<close>): decimals at scale 1e8.  Accepted are exactly the decimal
    texts whose value fits, with that value.
  \<^item> \<open>Symbol_Identity\<close> (\<open>src/symbol_identity.cpp\<close>): normalized symbols, identifiers, symbol sets.
  \<^item> \<open>Json_Validation\<close> (\<open>src/json_validation.h\<close>), \<open>Payload_Types\<close> and \<open>Payload_Parser\<close>
    (\<open>include/hft/spot_payload_parser.h\<close>, \<open>src/spot_payload_parser.cpp\<close>): the parser of trades, five-level
    refreshes and differential updates of both venues, with its update storage and its
    generation-stamped table of prices.  \<open>Payload_Guarantees\<close>: the table is exact, storage is never
    overrun, and an accepted payload meets every assertion of the book.
  \<^item> \<open>Top_Five_Book\<close> (\<open>include/hft/spot_book.h\<close>, \<open>src/spot_book.cpp\<close>): array sides of at most five levels
    and the sequencing rules of the two venues.  \<open>Book_Refinement\<close> and \<open>Book_Map\<close> show that the array
    updates refine list operations and these the five best keys of a price map; \<open>Book_Sequencing\<close> has the
    invariant of all runs and the contiguity of the applied updates.
  \<^item> \<open>Csv_Format\<close> (\<open>src/csv_formatter.cpp\<close>): the two row formatters.  \<open>Csv_Rows\<close>: the exact text of a row;
    an order-book row always fits its buffer.
  \<^item> \<open>Event_Processor\<close> (\<open>src/event_processor.cpp\<close>): one payload of one symbol.  \<open>Event_Guarantees\<close>:
    failures are atomic, rows are numbered without gaps, audit rows are exact.
  \<^item> \<open>Replay_Reader\<close>, \<open>Replay_File\<close> (\<open>src/market_data_replay.cpp\<close>): CSV framing, decoding and the replay
    loop.  \<open>Replay_Roundtrip\<close> and \<open>Replay_Guarantees\<close>: written rows are read back, and only valid records
    are delivered.  \<open>Replay_Step\<close> and \<open>Replay_Equivalence\<close>: an event has the same effect when replayed.
  \<^item> \<open>File_Sink\<close> (\<open>src/buffered_file_sink.cpp\<close>) and \<open>Output_Set\<close> (\<open>src/csv_output_set.cpp\<close>), with
    \<open>File_Sink_Guarantees\<close>, \<open>Output_Set_Guarantees\<close> and \<open>Output_Set_Opening\<close>: what the files hold under
    every behaviour of the kernel, that an error is final, and that a failed opening leaves nothing.
  \<^item> \<open>Csv_Writer\<close> (\<open>src/csv_writer.cpp\<close>): producer and consumer as steps with at most one access to a
    shared variable each.  \<open>Csv_Writer_Queue\<close> (the invariants of the protocol), \<open>Csv_Writer_Guarantees\<close>
    (order, result and bounds) and \<open>Csv_Writer_Progress\<close> (termination after \<open>close\<close>, no lost wake-up).
  \<^item> \<open>Live_Subscription\<close> (\<open>src/live_subscription.cpp\<close>), \<open>Live_Envelope\<close> (\<open>src/live_envelope.cpp\<close>),
    \<open>Live_Event_Pipeline\<close> (\<open>src/live_event_pipeline.cpp\<close>) and their \<open>_Guarantees\<close>: the route table is exact,
    the envelope parser accepts exactly the documented shape, the pipeline hands on complete batches of
    the right symbol, and a book that may have missed an update is invalid.
  \<^item> \<open>Websocket_Session\<close> (\<open>src/verified_websocket_session.cpp\<close>): the handlers of one connection.
    \<open>Websocket_Session_Guarantees\<close>: every run follows an abstract contract with the owner of the session
    (\<open>follow\<close>), and no phase is without a time limit or an outstanding read.
  \<^item> \<open>Live_Capture\<close> (\<open>src/live_capture_controller.cpp\<close>): the handlers of the controller.
    \<open>Live_Capture_Life\<close> has its runs, under the session contract above (\<open>event_enabled\<close>) and arbitrary
    answers of the components it calls, and their invariant; \<open>Live_Capture_Coordinates\<close> and
    \<open>Live_Capture_Guarantees\<close> the single report, the connection coordinates and the backoff.
  \<^item> \<open>Live_Run_Loop\<close> (\<open>src/live_run_loop.cpp\<close>), \<open>Command_Line\<close> (\<open>src/command_line.cpp\<close>) and \<open>Application\<close>
    (\<open>src/main.cpp\<close>).  \<open>Command_Line_Guarantees\<close>: the language of accepted command lines.
    \<open>Live_Run_Guarantees\<close>: the run loop composed with the controller ends with the controller's report,
    and what each exit code means.  \<open>Application_Replay\<close>: the files of a successful replay run.
  \<^item> This theory: a capture and its replay, through all components between two sets of files.

  \<^bold>\<open>Interfaces.\<close>  \<open>probe_table\<close> (\<open>Linear_Probing\<close>) is open addressing with linear probing; it is
  interpreted by the price table of the parser (\<open>dup\<close>) and the route table of the subscription (\<open>rt\<close>).
  \<open>sequenced_book\<close> is a book under a sequencing rule, interpreted by both venues (\<open>spot\<close>, \<open>usdm\<close>).
  \<open>appender\<close> is an operation that appends a fixed text or fails, interpreted by the append helpers
  (\<open>bytes\<close>, \<open>byte\<close>, \<open>quoted\<close>).  \<open>record_sink\<close> is the contract of a file sink (\<open>csv_sink\<close>), on which the
  output set rests.  \<open>replay_output\<close> is what the replay loop needs of its output, interpreted by the output
  set for one target (\<open>csv_out\<close>) and for one target among others (\<open>set_out\<close>).

  \<^bold>\<open>Conventions.\<close>  \<open>std::int64_t\<close> is \<open>int\<close> with \<open>wrap_i64\<close> at every operation that could leave the range;
  \<open>std::uint64_t\<close> is a 64-bit word; \<open>std::size_t\<close> indices and sizes are \<open>nat\<close>; a nullable pointer is an
  \<open>option\<close>; error codes are values of the source's enumerations; an exception is a branch of the result.
  All definitions are total: loops recurse on their data or on a measure, so there is no fuel, and the
  loops over system calls end because the list of results of a descriptor is finite (no descriptor is
  interrupted forever); after it, a read reports the end of the file and a write takes all bytes.

  \<^bold>\<open>Parameters.\<close>  What is not code of this repository is an argument, arbitrary unless a theorem says
  otherwise: what simdjson observes in a document (\<open>iterate\<close>, \<open>raw_json\<close>, \<open>minify\<close>; the replay theorems
  assume that it does not depend on spare capacity behind the padding); whether an allocation succeeds;
  the results of the system calls on files and directories; the clock; wake-ups of the writer thread;
  the completions of Boost.Asio, Boost.Beast and OpenSSL, in any order; the answers of the session, the
  timers and the writer within a handler of the controller (\<open>Answers\<close>) and of the run loop
  (\<open>LoopAnswers\<close>).

  \<^bold>\<open>Atomicity.\<close>  The two threads of the writer interleave freely at single accesses of sequentially
  consistent variables.  Handlers of the session, the controller and the run loop are single steps, as
  they run on one strand; a stop requested by another thread within a handler is one of the answers.

  \<^bold>\<open>Not modelled.\<close>  The text printed by the program (usage, metrics, the names of error codes): it has no
  effect on the captured data.  Sockets, TLS and certificate verification themselves: they are Boost and
  OpenSSL, of which only the answers are visible here; the options passed to them are not.  The POSIX
  wrappers of the file sink, which only call the kernel.  Object lifetimes and the weak memory orders of
  C++: the model has no pointers and no store buffers.  \<open>benchmarks/core_benchmark.cpp\<close> and the
  tests, which are clients.  \<open>third_party/simdjson\<close>, which is third-party code.
\<close>

section \<open>A capture and its replay\<close>

text \<open>
  C1: a replay reproduces the capture.  Take a live capture of one symbol in which every event was
  processed and audited, written to its target of a live output set (other targets, flushes and any
  kernel behaviour in between) that was closed without error.  Replay the audit file, read back in
  pieces of any size with any interruptions, into a target of that symbol in a fresh output set.  Then
  the replay fails only for lack of memory or because its own output failed; otherwise it processes
  every row, and if its output also closes without error its order-book file is the order-book file of
  the capture, byte for byte.  The only thing assumed of the JSON library is that its answer does not
  depend on the spare capacity behind the padding.
\<close>

theorem replay_reproduces_capture:
  assumes capture: "create_symbol_state venue symb = Some st" "batch_create al_audit al_book = Some batch"
      "outs = process_all iterate (Some parser_init) st batch xs" "xs \<noteq> []" "list_all live_input xs" "captured outs"
    and live: "opens env dir (e, Some out, calls)" "fresh_files env" "out_mode out = Output_live_capture"
      "i < out_target_count out" "target_batches ops i = map (\<lambda>(_, _, b). b) outs"
      "\<not> out_failed (perform ops out)" "out_closed (perform ops out)"
    and reading: "path \<noteq> []" "list_all good_read reads"
      "concat (map read_bytes reads) = file_content (tf_audit (out_targets (perform ops out) ! i))"
    and replay: "opens env2 dir2 (e2, Some out2, calls2)" "fresh_files env2" "out_symbol out2 k = symb"
      "replay_market_data_file iterate al als csv_output_ops k path (Inr reads) True out2 = (result, out3)"
      "close_all out3 = (close_error, out4)"
    and json: "capacity_independent iterate"
  shows "rf_error result = RF_allocation_failure \<or> rf_error result = RF_output_write_failed \<or>
     rf_error result = RF_none \<and> rf_rows_processed result = of_nat (length xs) \<and>
     (\<not> is_write_error close_error \<longrightarrow>
        file_content (tf_order_book (out_targets out4 ! k)) =
        file_content (tf_order_book (out_targets (perform ops out) ! i)))"
proof -
  have st: "state_inv st" "batch_ok batch" "parser_ok (Some parser_init)" "symb \<noteq> []"
    using create_symbol_state_inv [OF capture(1)] batch_create_ok [OF capture(2)] parser_init_stamps capture(1)
    by (auto simp: parser_ok_def parser_init_def create_symbol_state_def Let_def state_inv_def is_normalized_symbol_def
        split: if_splits)
  note rows = captured_files [OF live(5) capture(3,6,5) st(1,3,2)]
  from perform_inv [OF opened_inv [OF live(1,2)], of ops]
  have inv: "out_inv (batches ops) (perform ops out)" "out_mode (perform ops out) = out_mode out"
    "i < out_target_count (perform ops out)"
    using live(4) by (simp_all add: out_target_count_def) (metis length_map)
  note files = closed_files [OF inv(1) live(6,7) inv(3)]
  have audit: "concat (map read_bytes reads) = audit_file (map input_row xs)"
    using files(2) inv(2) live(3) reading(3) rows(1) by (simp add: audit_file_def comp_def)
  have "out_ready k symb [] out2"
    using opened_inv [OF replay(1,2)] replay(3) unfolding out_ready_def by (auto simp: book_rows_def intro!: exI [of _ "[]"])
  from replay_market_data_file_replays [OF capture(6) [unfolded capture(3)] capture(5,4,1,2) json reading(1,2) audit this replay(4)]
  have done_or: "rf_error result = RF_allocation_failure \<or> rf_error result = RF_output_write_failed \<or>
     rf_error result = RF_none \<and> rf_rows_processed result = of_nat (length xs) \<and>
     out_ready k symb (emitted_rows outs) out3"
    by (simp add: capture(3))
  have "file_content (tf_order_book (out_targets out4 ! k)) = file_content (tf_order_book (out_targets (perform ops out) ! i))"
    if ready: "out_ready k symb (emitted_rows outs) out3" and closed: "\<not> is_write_error close_error"
  proof -
    obtain log where l: "out_inv log out3" "book_rows log k = emitted_rows outs" "out_symbol out3 k = symb"
      using ready by (auto simp: out_ready_def)
    note c = close_all_inv [OF l(1) replay(5)]
    have "k < out_target_count out4" using c l(3) st(4) by (auto simp: out_symbol_def split: if_splits)
    from closed_files(1) [OF _ _ _ this, of log] c closed l(2) files(1) rows(2) show ?thesis
      by (simp add: out_failed_def)
  qed
  with done_or show ?thesis by blast
qed

text \<open>One captured refresh, written to the first of two targets and replayed.\<close>

definition captured_ops :: "out_op list" where
  "captured_ops = map (\<lambda>(_, _, b). Out_write 0 b) captured_outs @ [Out_close]"

definition captured_set :: CsvOutputSet where
  "captured_set = perform captured_ops (the (fst (snd sample_live)))"

lemma captured_set_facts:
  "let s = captured_set in file_content (tf_audit (out_targets s ! 0)) \<noteq> [] \<and> \<not> out_failed s \<and> out_closed s"
  by code_simp

definition replayed_set :: CsvOutputSet where
  "replayed_set = the (fst (snd (open_replay sample_files ''again''
     (Some [\<lparr>ros_normalized_symbol = ''BTCUSDT'', ros_input_file_stem = ''a''\<rparr>]) 1)))"

definition captured_reads :: "os_read list" where
  "captured_reads = [OS_eintr, OS_bytes (file_content (tf_audit (out_targets captured_set ! 0)))]"

theorem replay_reproduces_capture_witness:
  "\<exists>result out3 close_error out4.
     replay_market_data_file empty_refresh_iterate generous_allocator (\<lambda>_. failing_allocator) csv_output_ops 0 ''a.csv''
       (Inr captured_reads) True replayed_set = (result, out3) \<and> close_all out3 = (close_error, out4) \<and>
     (rf_error result = RF_allocation_failure \<or> rf_error result = RF_output_write_failed \<or>
      rf_error result = RF_none \<and> rf_rows_processed result = 1 \<and>
      (\<not> is_write_error close_error \<longrightarrow>
        file_content (tf_order_book (out_targets out4 ! 0)) = file_content (tf_order_book (out_targets captured_set ! 0))))"
proof -
  obtain e so calls where l: "sample_live = (e, so, calls)" by (metis surj_pair)
  have "fst (snd sample_live) \<noteq> None" by code_simp
  then obtain out where so: "so = Some out" unfolding l by auto
  have out: "the (fst (snd sample_live)) = out" unfolding l so by simp
  have o1: "opens sample_files ''out'' (e, Some out, calls)" unfolding opens_def using l so sample_live_def by metis
  let ?r = "open_replay sample_files ''again''
     (Some [\<lparr>ros_normalized_symbol = ''BTCUSDT'', ros_input_file_stem = ''a''\<rparr>]) 1"
  obtain e2 so2 calls2 where l2: "?r = (e2, so2, calls2)" by (metis surj_pair)
  have "fst (snd ?r) \<noteq> None" by code_simp
  then obtain out2 where so2: "so2 = Some out2" unfolding l2 by auto
  have out2: "replayed_set = out2" unfolding replayed_set_def l2 so2 by simp
  have o2: "opens sample_files ''again'' (e2, Some out2, calls2)" unfolding opens_def using l2 so2 by metis
  have fresh: "fresh_files sample_files" by (simp add: fresh_files_def sample_files_def sample_open_def short_handle_def)
  have "let s = the (fst (snd sample_live)) in out_mode s = Output_live_capture \<and> 0 < out_target_count s"
    "out_symbol replayed_set 0 = ''BTCUSDT''" by code_simp+
  then have facts: "out_mode out = Output_live_capture" "0 < out_target_count out" "out_symbol out2 0 = ''BTCUSDT''"
    by (simp_all add: Let_def out out2)
  have ops: "target_batches captured_ops 0 = map (\<lambda>(_, _, b). b) captured_outs"
  proof -
    have "batches (map (\<lambda>(_, _, b). Out_write 0 b) outs @ [Out_close]) = map (\<lambda>(_, _, b). (0, b)) outs" for outs :: "(EventProcessResult \<times> SymbolState \<times> EventRowBatch) list"
      by (induction outs) auto
    moreover have "map snd (filter (\<lambda>(j, _). j = 0) (map (\<lambda>(_, _, b). (0 :: nat, b)) outs)) = map (\<lambda>(_, _, b). b) outs"
      for outs :: "(EventProcessResult \<times> SymbolState \<times> EventRowBatch) list"
      by (induction outs) auto
    ultimately show ?thesis by (simp add: target_batches_def captured_ops_def)
  qed
  have closed: "\<not> out_failed (perform captured_ops out)" "out_closed (perform captured_ops out)"
    using captured_set_facts by (simp_all add: Let_def captured_set_def out)
  have reads: "list_all good_read captured_reads"
    "concat (map read_bytes captured_reads) = file_content (tf_audit (out_targets (perform captured_ops out) ! 0))"
    using captured_set_facts by (simp_all add: Let_def captured_reads_def captured_set_def out)
  have json: "capacity_independent empty_refresh_iterate"
    by (simp add: capacity_independent_def empty_refresh_iterate_def)
  obtain result out3 where run: "replay_market_data_file empty_refresh_iterate generous_allocator (\<lambda>_. failing_allocator)
      csv_output_ops 0 ''a.csv'' (Inr captured_reads) True out2 = (result, out3)" by fastforce
  obtain ce out4 where c: "close_all out3 = (ce, out4)" by fastforce
  have "captured_set = perform captured_ops out" by (simp add: captured_set_def out)
  with replay_reproduces_capture [OF sample_capture(1,2) captured_outs_def _ sample_capture(3,4) o1 fresh facts(1,2) ops closed
      _ reads o2 fresh facts(3) run c json] run c out2
  show ?thesis by auto
qed

end
